(* ===== verification/Prelude.thy ===== *)
theory Prelude
  imports Main "HOL-Library.Char_ord" "HOL-Library.List_Lexorder" "HOL-Library.AList"
begin

section \<open>Prelude: strings, lists and the standard-library functions the program uses\<close>

text \<open>
  Shared vocabulary of the development.  A \<^typ>\<open>string\<close> is read as a sequence of UTF-8 bytes,
  which is what a Go string is; a JavaScript string is identified with its UTF-8 encoding, and
  every operation used on one (concatenation, equality, containment of a substring) commutes
  with that encoding.  The order on strings is the bytewise lexicographic one of Go's
  \<^verbatim>\<open><\<close> on strings, provided by the library theories for characters and lists.
\<close>

named_theorems view_defs \<open>definitions of the rendered templates\<close>
named_theorems step_simps \<open>effect of one step of a component on its state\<close>

subsection \<open>Substrings\<close>

text \<open>\<open>str_includes s q\<close> is \<^verbatim>\<open>s.includes(q)\<close> of JavaScript and
  \<^verbatim>\<open>strings.Contains(s, q)\<close> of Go.\<close>

fun str_prefix :: "string \<Rightarrow> string \<Rightarrow> bool" where
  "str_prefix [] s = True"
| "str_prefix (c # p) [] = False"
| "str_prefix (c # p) (d # s) = (c = d \<and> str_prefix p s)"

fun str_includes :: "string \<Rightarrow> string \<Rightarrow> bool" where
  "str_includes [] q = (q = [])"
| "str_includes (c # s) q = (str_prefix q (c # s) \<or> str_includes s q)"

lemma str_prefix_iff: "str_prefix p s \<longleftrightarrow> (\<exists>t. s = p @ t)"
  by (induction p s rule: str_prefix.induct) auto

lemma str_includes_iff: "str_includes s q \<longleftrightarrow> (\<exists>a b. s = a @ q @ b)"
proof (induction s)
  case Nil
  then show ?case by auto
next
  case (Cons c s)
  have "(\<exists>a b. c # s = a @ q @ b) \<longleftrightarrow> (\<exists>b. c # s = q @ b) \<or> (\<exists>a b. s = a @ q @ b)"
    by (metis append_Cons append_Nil list.inject neq_Nil_conv)
  then show ?case using Cons.IH by (simp add: str_prefix_iff)
qed

lemma str_includes_single: "str_includes s [c] \<longleftrightarrow> c \<in> set s"
  by (auto simp: str_includes_iff in_set_conv_decomp)

lemma str_includes_empty [simp]: "str_includes s []"
  by (cases s) auto

text \<open>\<open>trim_prefix s p\<close> is \<^verbatim>\<open>strings.TrimPrefix(s, p)\<close>.\<close>

definition trim_prefix :: "string \<Rightarrow> string \<Rightarrow> string" where
  "trim_prefix s p = (if str_prefix p s then drop (length p) s else s)"

lemma trim_prefix_append [simp]: "trim_prefix (p @ s) p = s"
  by (simp add: trim_prefix_def str_prefix_iff)

subsection \<open>Splitting at a separator\<close>

text \<open>\<open>str_split c s\<close> is \<^verbatim>\<open>strings.Split(s, c)\<close> for a one-character separator: always at
  least one part.  \<open>str_split2\<close> is \<^verbatim>\<open>strings.SplitN(s, c, 2)\<close>: at most one cut.\<close>

fun str_split :: "char \<Rightarrow> string \<Rightarrow> string list" where
  "str_split c [] = [[]]"
| "str_split c (x # xs) =
     (if x = c then [] # str_split c xs
      else (case str_split c xs of [] \<Rightarrow> [[x]] | p # ps \<Rightarrow> (x # p) # ps))"

fun str_split2 :: "char \<Rightarrow> string \<Rightarrow> string list" where
  "str_split2 c [] = [[]]"
| "str_split2 c (x # xs) =
     (if x = c then [[], xs]
      else (case str_split2 c xs of [] \<Rightarrow> [[x]] | p # ps \<Rightarrow> (x # p) # ps))"

fun str_join :: "char \<Rightarrow> string list \<Rightarrow> string" where
  "str_join c [] = []"
| "str_join c [p] = p"
| "str_join c (p # q # ps) = p @ c # str_join c (q # ps)"

lemma str_split_nonempty [simp]: "str_split c s \<noteq> []"
  by (induction s) (auto split: list.splits)

lemma str_split2_nonempty [simp]: "str_split2 c s \<noteq> []"
  by (induction s) (auto split: list.splits)

lemma str_split_no_sep: "p \<in> set (str_split c s) \<Longrightarrow> c \<notin> set p"
  by (induction s arbitrary: p) (auto split: list.splits if_splits)

lemma str_split_chars: "p \<in> set (str_split c s) \<Longrightarrow> set p \<subseteq> set s"
  by (induction s arbitrary: p) (auto split: list.splits if_splits, blast)

lemma str_join_Cons: "ps \<noteq> [] \<Longrightarrow> str_join c (p # ps) = p @ c # str_join c ps"
  by (cases ps) auto

lemma str_join_Cons_Cons: "str_join c ((x # p) # ps) = x # str_join c (p # ps)"
  by (cases ps) auto

lemma str_join_split [simp]: "str_join c (str_split c s) = s"
  by (induction s) (auto simp: str_join_Cons str_join_Cons_Cons split: list.splits)

lemma str_split_absent: "c \<notin> set s \<Longrightarrow> str_split c s = [s]"
  by (induction s) auto

lemma str_split_append: "c \<notin> set p \<Longrightarrow> str_split c (p @ c # s) = p # str_split c s"
  by (induction p) auto

lemma str_split2_absent: "c \<notin> set s \<Longrightarrow> str_split2 c s = [s]"
  by (induction s) auto

lemma str_split2_append: "c \<notin> set p \<Longrightarrow> str_split2 c (p @ c # s) = [p, s]"
  by (induction p) auto

subsection \<open>Decimal numerals\<close>

text \<open>\<open>show_nat\<close> and \<open>show_int\<close> are the decimal text of an integer, as \<^verbatim>\<open>%d\<close> of Go and a
  template literal of JavaScript print it.\<close>

definition digit_char :: "nat \<Rightarrow> char" where
  "digit_char d = char_of (48 + d)"

fun show_nat :: "nat \<Rightarrow> string" where
  "show_nat n = (if n < 10 then [digit_char n] else show_nat (n div 10) @ [digit_char (n mod 10)])"

declare show_nat.simps [simp del]

definition show_int :: "int \<Rightarrow> string" where
  "show_int i = (if i < 0 then CHR ''-'' # show_nat (nat (- i)) else show_nat (nat i))"

lemma show_nat_nonempty [simp]: "show_nat n \<noteq> []"
  by (subst show_nat.simps) simp

lemma digit_char_inj: "a < 10 \<Longrightarrow> b < 10 \<Longrightarrow> digit_char a = digit_char b \<longleftrightarrow> a = b"
  using char_of_eq_iff [of "48 + a" "char_of (48 + b)"] by (auto simp: digit_char_def)

lemma show_nat_chars: "set (show_nat n) \<subseteq> digit_char ` {..<10}"
proof (induction n rule: show_nat.induct)
  case (1 n)
  then show ?case by (subst show_nat.simps) auto
qed

lemma digit_char_in: "c \<in> digit_char ` {..<10} \<Longrightarrow> of_char c \<in> {48..<58 :: nat}"
  by (auto simp: digit_char_def)

lemma show_nat_small: "n < 10 \<Longrightarrow> show_nat n = [digit_char n]"
  by (subst show_nat.simps) simp

lemma show_nat_large: "\<not> n < 10 \<Longrightarrow> show_nat n = show_nat (n div 10) @ [digit_char (n mod 10)]"
  by (subst show_nat.simps) simp

lemma length_show_nat: "length (show_nat n) = 1 \<longleftrightarrow> n < 10"
  by (cases "n < 10") (simp_all add: show_nat_small show_nat_large)

lemma show_nat_inj [simp]: "show_nat m = show_nat n \<longleftrightarrow> m = n"
proof
  show "show_nat m = show_nat n \<Longrightarrow> m = n"
  proof (induction m arbitrary: n rule: less_induct)
    case (less m)
    have same: "m < 10 \<longleftrightarrow> n < 10" using less.prems length_show_nat [of m] length_show_nat [of n] by simp
    show ?case
    proof (cases "m < 10")
      case True
      then show ?thesis using less.prems same by (simp add: show_nat_small digit_char_inj)
    next
      case False
      then have "show_nat (m div 10) = show_nat (n div 10)" "digit_char (m mod 10) = digit_char (n mod 10)"
        using less.prems same by (simp_all add: show_nat_large)
      then have "m div 10 = n div 10" "m mod 10 = n mod 10" using less.IH [of "m div 10" "n div 10"] False by (simp_all add: digit_char_inj)
      then show ?thesis by (metis div_mult_mod_eq)
    qed
  qed
qed simp

lemma append_sep_inj:
  assumes "c \<notin> set s" and "c \<notin> set t"
  shows "p @ c # s = q @ c # t \<longleftrightarrow> p = q \<and> s = t"
proof
  assume e: "p @ c # s = q @ c # t"
  then have "rev s @ c # rev p = rev t @ c # rev q" by (metis append.assoc append_Cons append_Nil rev.simps(2) rev_append)
  moreover have "takeWhile (\<lambda>x. x \<noteq> c) (rev xs @ c # ys) = rev xs" if "c \<notin> set xs" for xs ys
    using that by (subst takeWhile_append2) auto
  ultimately have "rev s = rev t" using assms by metis
  then show "p = q \<and> s = t" using e by simp
qed simp

subsection \<open>Small list facts\<close>

lemma map_filter_length_le: "length (List.map_filter f xs) \<le> length xs"
  by (induction xs) (auto simp: List.map_filter_simps split: option.splits)

lemma set_map_filter: "set (List.map_filter f xs) = {y. \<exists>x\<in>set xs. f x = Some y}"
  by (induction xs) (auto simp: List.map_filter_simps split: option.splits)

lemma map_of_SomeI: "distinct (map fst xs) \<Longrightarrow> (k, v) \<in> set xs \<Longrightarrow> map_of xs k = Some v"
  by (rule map_of_is_SomeI)

lemma set_AList_update: "set (AList.update k v xs) \<subseteq> insert (k, v) (set xs)"
  by (induction xs) auto

end
