(* ===== verification/Browser.thy ===== *)
theory Browser
  imports Prelude
begin

section \<open>The browser platform: interval timers and notifications\<close>

text \<open>
  The part of the browser the admin front end relies on.  \<open>setInterval\<close> registers a callback and
  returns a fresh positive handle, \<open>clearInterval\<close> removes a handle and ignores one that is not
  registered (HTML standard, timers).  Callbacks are named by a value of type \<open>'cb\<close>; the front
  end's components decide what running one does.  \<open>el_message\<close> is a notification shown with
  \<^verbatim>\<open>ElMessage.success\<close> or \<^verbatim>\<open>ElMessage.error\<close>: the key and the arguments of the translated text.
\<close>

datatype el_message =
    MsgSuccess string "(string \<times> string) list"
  | MsgError string "(string \<times> string) list"

record 'cb timers =
  next_handle :: nat
  intervals :: "(nat \<times> ('cb \<times> nat)) list"

definition no_timers :: "'cb timers" where
  "no_timers = \<lparr>next_handle = 1, intervals = []\<rparr>"

definition setInterval :: "'cb \<Rightarrow> nat \<Rightarrow> 'cb timers \<Rightarrow> nat \<times> 'cb timers" where
  "setInterval cb ms t =
     (next_handle t,
      t\<lparr>next_handle := Suc (next_handle t), intervals := (next_handle t, cb, ms) # intervals t\<rparr>)"

definition clearInterval :: "nat \<Rightarrow> 'cb timers \<Rightarrow> 'cb timers" where
  "clearInterval h t = t\<lparr>intervals := filter (\<lambda>i. fst i \<noteq> h) (intervals t)\<rparr>"

text \<open>The registered intervals as a map from handles to callback and period.\<close>

definition live :: "'cb timers \<Rightarrow> nat \<rightharpoonup> 'cb \<times> nat" where
  "live t = map_of (intervals t)"

definition timers_wf :: "'cb timers \<Rightarrow> bool" where
  "timers_wf t \<longleftrightarrow> 0 < next_handle t \<and> (\<forall>i\<in>set (intervals t). 0 < fst i \<and> fst i < next_handle t)"

subsection \<open>The timer contract\<close>

text \<open>
  What a component may rely on: a new handle is positive and was not registered, and setting or
  clearing one handle changes nothing about the others.  The lemmas of the locale are what the
  polling components use: replacing one's interval leaves one registration with the new period.
\<close>

locale interval_platform =
  fixes set_iv :: "'cb \<Rightarrow> nat \<Rightarrow> 't \<Rightarrow> nat \<times> 't"
    and clear_iv :: "nat \<Rightarrow> 't \<Rightarrow> 't"
    and live_iv :: "'t \<Rightarrow> nat \<rightharpoonup> 'cb \<times> nat"
    and wf_iv :: "'t \<Rightarrow> bool"
  assumes set_fresh: "wf_iv t \<Longrightarrow> live_iv t (fst (set_iv cb ms t)) = None"
    and set_pos: "wf_iv t \<Longrightarrow> 0 < fst (set_iv cb ms t)"
    and set_live: "wf_iv t \<Longrightarrow>
      live_iv (snd (set_iv cb ms t)) = (live_iv t)(fst (set_iv cb ms t) \<mapsto> (cb, ms))"
    and set_wf: "wf_iv t \<Longrightarrow> wf_iv (snd (set_iv cb ms t))"
    and clear_live: "live_iv (clear_iv h t) = (live_iv t)(h := None)"
    and clear_wf: "wf_iv t \<Longrightarrow> wf_iv (clear_iv h t)"
begin

definition restart :: "nat \<Rightarrow> 'cb \<Rightarrow> nat \<Rightarrow> 't \<Rightarrow> nat \<times> 't" where
  "restart h cb ms t = set_iv cb ms (clear_iv h t)"

lemma restart_wf: "wf_iv t \<Longrightarrow> wf_iv (snd (restart h cb ms t))"
  by (simp add: restart_def set_wf clear_wf)

lemma restart_live:
  assumes "wf_iv t"
  shows "live_iv (snd (restart h cb ms t)) =
    (live_iv t)(h := None, fst (restart h cb ms t) \<mapsto> (cb, ms))"
  using assms by (simp add: restart_def set_live clear_wf clear_live)

lemma cleared_empty: "dom (live_iv t) \<subseteq> {h} \<Longrightarrow> (live_iv t)(h := None) = Map.empty"
  by (rule ext) (metis domIff fun_upd_apply singletonD subsetD)

lemma restart_only:
  assumes "wf_iv t" and "dom (live_iv t) \<subseteq> {h}"
  shows "live_iv (snd (restart h cb ms t)) = [fst (restart h cb ms t) \<mapsto> (cb, ms)]"
  using assms by (simp add: restart_live cleared_empty)

lemma clear_only: "dom (live_iv t) \<subseteq> {h} \<Longrightarrow> live_iv (clear_iv h t) = Map.empty"
  by (simp add: clear_live cleared_empty)

lemma set_only: "wf_iv t \<Longrightarrow> live_iv t = Map.empty \<Longrightarrow>
    live_iv (snd (set_iv cb ms t)) = [fst (set_iv cb ms t) \<mapsto> (cb, ms)]"
  by (simp add: set_live)

end

lemma map_of_filter_key: "map_of (filter (\<lambda>i. fst i \<noteq> h) xs) = (map_of xs)(h := None)"
  by (induction xs) (auto simp: fun_eq_iff)

interpretation browser: interval_platform setInterval clearInterval live timers_wf
proof (unfold_locales, goal_cases)
  case (1 t cb ms)
  then show ?case
    by (auto simp: setInterval_def live_def timers_wf_def map_of_eq_None_iff)
next
  case (2 t cb ms)
  then show ?case by (simp add: setInterval_def timers_wf_def)
next
  case (3 t cb ms)
  then show ?case by (simp add: setInterval_def live_def)
next
  case (4 t cb ms)
  then show ?case by (auto simp: setInterval_def timers_wf_def)
next
  case (5 h t)
  then show ?case by (simp add: clearInterval_def live_def map_of_filter_key)
next
  case (6 t h)
  then show ?case by (auto simp: clearInterval_def timers_wf_def)
qed

lemma no_timers_wf [simp]: "timers_wf no_timers"
  by (simp add: no_timers_def timers_wf_def)

lemma no_timers_live [simp]: "live no_timers = Map.empty"
  by (simp add: no_timers_def live_def)

end
