(* ===== verification/Json.thy ===== *)
theory Json
  imports Prelude "HOL-Library.Monad_Syntax"
begin

section \<open>Values exchanged over HTTP and read by the front end\<close>

text \<open>
  \<open>jsval\<close> is a JavaScript value as \<^verbatim>\<open>JSON.parse\<close> makes it, with \<^verbatim>\<open>undefined\<close> for a property that
  is absent.  All numbers the server sends are integers.  \<open>js_get\<close> is property access, which
  raises a TypeError on \<^verbatim>\<open>undefined\<close> and \<^verbatim>\<open>null\<close>; \<open>js_or\<close> is the operator \<^verbatim>\<open>||\<close>.
\<close>

datatype jsval =
    JUndef
  | JNull
  | JBool bool
  | JNum int
  | JStr string
  | JArr "jsval list"
  | JObj "(string \<times> jsval) list"

text \<open>A thrown value: a TypeError of the language or the error object a rejected request gives,
  each with its \<^verbatim>\<open>message\<close>.\<close>

datatype js_error = TypeError (message: string) | RequestError (message: string)

fun js_get :: "jsval \<Rightarrow> string \<Rightarrow> js_error + jsval" where
  "js_get JUndef k = Inl (TypeError ''Cannot read properties of undefined'')"
| "js_get JNull k = Inl (TypeError ''Cannot read properties of null'')"
| "js_get (JObj kvs) k = Inr (case map_of kvs k of None \<Rightarrow> JUndef | Some v \<Rightarrow> v)"
| "js_get (JArr xs) k = Inr (if k = ''length'' then JNum (int (length xs)) else JUndef)"
| "js_get (JStr s) k = Inr (if k = ''length'' then JNum (int (length s)) else JUndef)"
| "js_get (JBool b) k = Inr JUndef"
| "js_get (JNum n) k = Inr JUndef"

fun truthy :: "jsval \<Rightarrow> bool" where
  "truthy JUndef = False"
| "truthy JNull = False"
| "truthy (JBool b) = b"
| "truthy (JNum n) = (n \<noteq> 0)"
| "truthy (JStr s) = (s \<noteq> [])"
| "truthy (JArr xs) = True"
| "truthy (JObj kvs) = True"

definition js_or :: "jsval \<Rightarrow> jsval \<Rightarrow> jsval" where
  "js_or a b = (if truthy a then a else b)"

subsection \<open>Reading a value at a declared type\<close>

text \<open>
  A TypeScript interface is a promise about the shape of a value; nothing checks it at run time.
  The readers below return the typed value when the JSON value has the declared shape and
  \<^term>\<open>None\<close> when the promise is broken.
\<close>

fun as_str :: "jsval \<Rightarrow> string option" where
  "as_str (JStr s) = Some s"
| "as_str _ = None"

fun as_num :: "jsval \<Rightarrow> int option" where
  "as_num (JNum n) = Some n"
| "as_num _ = None"

fun as_bool :: "jsval \<Rightarrow> bool option" where
  "as_bool (JBool b) = Some b"
| "as_bool _ = None"

fun seq_opt :: "'a option list \<Rightarrow> 'a list option" where
  "seq_opt [] = Some []"
| "seq_opt (x # xs) = do { y \<leftarrow> x; ys \<leftarrow> seq_opt xs; Some (y # ys) }"

fun as_arr :: "(jsval \<Rightarrow> 'a option) \<Rightarrow> jsval \<Rightarrow> 'a list option" where
  "as_arr f (JArr xs) = seq_opt (map f xs)"
| "as_arr f _ = None"

fun as_map :: "(jsval \<Rightarrow> 'a option) \<Rightarrow> jsval \<Rightarrow> (string \<times> 'a) list option" where
  "as_map f (JObj kvs) = seq_opt (map (\<lambda>(k, v). map_option (Pair k) (f v)) kvs)"
| "as_map f _ = None"

text \<open>A field that may be absent or \<^verbatim>\<open>null\<close>.\<close>

definition opt :: "(jsval \<Rightarrow> 'a option) \<Rightarrow> jsval \<Rightarrow> 'a option option" where
  "opt f v = (if v = JUndef \<or> v = JNull then Some None else map_option Some (f v))"

definition fld :: "string \<Rightarrow> (jsval \<Rightarrow> 'a option) \<Rightarrow> jsval \<Rightarrow> 'a option" where
  "fld k f v = (case js_get v k of Inl e \<Rightarrow> None | Inr w \<Rightarrow> f w)"

lemma fld_JObj [simp]:
  "fld k f (JObj kvs) = f (case map_of kvs k of None \<Rightarrow> JUndef | Some v \<Rightarrow> v)"
  by (simp add: fld_def)

lemma opt_null [simp]: "opt f JNull = Some None" "opt f JUndef = Some None"
  by (simp_all add: opt_def)

lemma opt_value [simp]:
  "opt f (JStr s) = map_option Some (f (JStr s))"
  "opt f (JNum n) = map_option Some (f (JNum n))"
  "opt f (JBool b) = map_option Some (f (JBool b))"
  "opt f (JArr xs) = map_option Some (f (JArr xs))"
  "opt f (JObj kvs) = map_option Some (f (JObj kvs))"
  by (simp_all add: opt_def)

lemma seq_opt_map_Some: "(\<And>x. x \<in> set xs \<Longrightarrow> f x = Some (g x)) \<Longrightarrow> seq_opt (map f xs) = Some (map g xs)"
  by (induction xs) auto

lemma seq_opt_Some [simp]: "seq_opt (map Some xs) = Some xs"
  by (induction xs) auto

lemma as_arr_map [simp]: "as_arr f (JArr (map g xs)) = seq_opt (map (f \<circ> g) xs)"
  by simp

lemma as_arr_strings [simp]: "as_arr as_str (JArr (map JStr xs)) = Some xs"
  by (simp add: comp_def)

subsection \<open>Requests and responses\<close>

text \<open>A request carries its method, its path, its query parameters and the \<^verbatim>\<open>X-API-Key\<close> header (empty
  when it is absent); a response its status code and its body.  A body without text is the empty
  string.\<close>

datatype http_method = GET | POST | OtherMethod string

record http_request =
  req_method :: http_method
  req_path :: string
  req_query :: "(string \<times> string) list"
  req_api_key :: string

record http_response =
  resp_status :: nat
  resp_body :: jsval

end
