(* ===== verification/Composables.thy ===== *)
theory Composables
  imports Browser Json
begin

section \<open>Composables: usePolling and useTimeSeriesBuffer\<close>

text \<open>
  Models \<^verbatim>\<open>web/admin/src/composables\<close>.  A call of the asynchronous \<^verbatim>\<open>refresh\<close> runs up to its
  \<^verbatim>\<open>await\<close>, which starts a request (\<open>in_flight\<close> counts the ones not yet settled); the rest of its
  body runs when that request settles, with a value or with an error.  Requests may settle in any
  order and after the component is unmounted, so the life of a component is a sequence of events.
\<close>

subsection \<open>usePolling\<close>

datatype poll_callback = RefreshCallback

record 'a polling =
  data :: "'a option"
  error :: "string option"
  loading :: bool
  timer :: "nat option"
  in_flight :: nat
  page_timers :: "poll_callback timers"

definition usePolling :: "'a polling" where
  "usePolling = \<lparr>data = None, error = None, loading = True, timer = None,
                 in_flight = 0, page_timers = no_timers\<rparr>"

text \<open>\<open>refresh\<close> up to \<^verbatim>\<open>await fetcher()\<close>, and its continuation on a settled request.\<close>

definition refresh :: "'a polling \<Rightarrow> 'a polling" where
  "refresh p = p\<lparr>in_flight := Suc (in_flight p)\<rparr>"

definition error_text :: "js_error \<Rightarrow> string" where
  "error_text e = (if message e = [] then ''Request failed'' else message e)"

fun refresh_settled :: "js_error + 'a \<Rightarrow> 'a polling \<Rightarrow> 'a polling" where
  "refresh_settled (Inr v) p =
     p\<lparr>data := Some v, error := None, loading := False, in_flight := in_flight p - 1\<rparr>"
| "refresh_settled (Inl e) p =
     p\<lparr>error := Some (error_text e), loading := False, in_flight := in_flight p - 1\<rparr>"

definition onMounted :: "nat \<Rightarrow> 'a polling \<Rightarrow> 'a polling" where
  "onMounted intervalMs p =
     (let p1 = refresh p; (h, t) = setInterval RefreshCallback intervalMs (page_timers p1)
      in p1\<lparr>timer := Some h, page_timers := t\<rparr>)"

definition onUnmounted :: "'a polling \<Rightarrow> 'a polling" where
  "onUnmounted p = (case timer p of
     None \<Rightarrow> p
   | Some h \<Rightarrow> (if h \<noteq> 0 then p\<lparr>page_timers := clearInterval h (page_timers p)\<rparr> else p))"

text \<open>
  The life of the component: it is set up, mounted once, unmounted at most once; while its
  interval is registered the browser may run \<open>refresh\<close>, the view may call it, and any request in
  flight may settle.
\<close>

datatype phase = Created | Mounted | Unmounted

datatype 'a poll_event = Mount | Unmount | Tick | Refresh | Settle "js_error + 'a"

fun poll_enabled :: "'a poll_event \<Rightarrow> phase \<Rightarrow> 'a polling \<Rightarrow> bool" where
  "poll_enabled Mount ph p = (ph = Created)"
| "poll_enabled Unmount ph p = (ph = Mounted)"
| "poll_enabled Tick ph p = (intervals (page_timers p) \<noteq> [])"
| "poll_enabled Refresh ph p = (ph = Mounted)"
| "poll_enabled (Settle r) ph p = (0 < in_flight p)"

fun poll_step :: "nat \<Rightarrow> 'a poll_event \<Rightarrow> phase \<times> 'a polling \<Rightarrow> phase \<times> 'a polling" where
  "poll_step ms Mount (ph, p) = (Mounted, onMounted ms p)"
| "poll_step ms Unmount (ph, p) = (Unmounted, onUnmounted p)"
| "poll_step ms Tick (ph, p) = (ph, refresh p)"
| "poll_step ms Refresh (ph, p) = (ph, refresh p)"
| "poll_step ms (Settle r) (ph, p) = (ph, refresh_settled r p)"

inductive poll_run :: "nat \<Rightarrow> 'a poll_event list \<Rightarrow> phase \<Rightarrow> 'a polling \<Rightarrow> bool" for ms where
  poll_init: "poll_run ms [] Created usePolling"
| poll_next: "poll_run ms es ph p \<Longrightarrow> poll_enabled e ph p \<Longrightarrow> poll_step ms e (ph, p) = (ph', p') \<Longrightarrow>
     poll_run ms (es @ [e]) ph' p'"

inductive_cases poll_runE: "poll_run ms es ph p"

text \<open>Which registrations a component in a given phase owns.\<close>

definition poll_inv :: "nat \<Rightarrow> phase \<Rightarrow> 'a polling \<Rightarrow> bool" where
  "poll_inv ms ph p \<longleftrightarrow> timers_wf (page_timers p) \<and>
     (case ph of
        Created \<Rightarrow> timer p = None \<and> live (page_timers p) = Map.empty
      | Mounted \<Rightarrow> (\<exists>h. 0 < h \<and> timer p = Some h \<and>
                       live (page_timers p) = [h \<mapsto> (RefreshCallback, ms)])
      | Unmounted \<Rightarrow> live (page_timers p) = Map.empty)"

lemma poll_inv_init: "poll_inv ms Created usePolling"
  by (simp add: poll_inv_def usePolling_def)

lemma poll_inv_refresh: "poll_inv ms ph p \<Longrightarrow> poll_inv ms ph (refresh p)"
  by (simp add: poll_inv_def refresh_def split: phase.splits)

lemma poll_inv_settled: "poll_inv ms ph p \<Longrightarrow> poll_inv ms ph (refresh_settled r p)"
  by (cases r) (simp_all add: poll_inv_def split: phase.splits)

lemma poll_inv_mount:
  assumes "poll_inv ms Created p"
  shows "poll_inv ms Mounted (onMounted ms p)"
proof -
  let ?t = "page_timers (refresh p)"
  have w: "timers_wf ?t" and l: "live ?t = Map.empty"
    using assms by (simp_all add: poll_inv_def refresh_def)
  have "live (snd (setInterval RefreshCallback ms ?t))
      = [fst (setInterval RefreshCallback ms ?t) \<mapsto> (RefreshCallback, ms)]"
    using w l by (rule browser.set_only)
  then show ?thesis
    using browser.set_wf [OF w, of RefreshCallback ms] browser.set_pos [OF w, of RefreshCallback ms]
    by (simp add: poll_inv_def onMounted_def Let_def case_prod_beta)
qed

lemma poll_inv_unmount: "poll_inv ms Mounted p \<Longrightarrow> poll_inv ms Unmounted (onUnmounted p)"
  by (auto simp: poll_inv_def onUnmounted_def browser.clear_wf browser.clear_only)

lemma poll_inv_step:
  assumes "poll_inv ms ph p" and "poll_enabled e ph p" and "poll_step ms e (ph, p) = (ph', p')"
  shows "poll_inv ms ph' p'"
  using assms
  by (cases e) (auto simp: poll_inv_refresh poll_inv_settled poll_inv_mount poll_inv_unmount)

lemma poll_run_inv: "poll_run ms es ph p \<Longrightarrow> poll_inv ms ph p"
  by (induction rule: poll_run.induct) (auto simp: poll_inv_init intro: poll_inv_step)

subsection \<open>useTimeSeriesBuffer\<close>

text \<open>A point of a chart: its time label and its numeric fields by name.\<close>

text \<open>\<open>js_slice_from i xs\<close> is \<^verbatim>\<open>xs.slice(i)\<close>: a negative \<open>i\<close> counts from the end, and an index past
  either end is clamped.\<close>

definition js_slice_from :: "int \<Rightarrow> 'a list \<Rightarrow> 'a list" where
  "js_slice_from i xs = drop (nat (if i < 0 then max (int (length xs) + i) 0 else i)) xs"

definition push :: "int \<Rightarrow> 'a \<Rightarrow> 'a list \<Rightarrow> 'a list" where
  "push maxPoints point points = js_slice_from (- (maxPoints - 1)) points @ [point]"

definition clear :: "'a list \<Rightarrow> 'a list" where
  "clear points = []"

text \<open>The reference: the last \<open>n\<close> elements of everything pushed.\<close>

definition last_n :: "nat \<Rightarrow> 'a list \<Rightarrow> 'a list" where
  "last_n n xs = drop (length xs - n) xs"

lemma last_n_length: "length (last_n n xs) = min n (length xs)"
  by (simp add: last_n_def)

lemma last_n_snoc: "0 < n \<Longrightarrow> last_n n (xs @ [x]) = last_n (n - 1) xs @ [x]"
  by (simp add: last_n_def)

lemma last_n_last_n:
  assumes "m \<le> n"
  shows "last_n m (last_n n xs) = last_n m xs"
proof -
  have "length xs - (length xs - n) - m + (length xs - n) = length xs - m" using assms by arith
  then show ?thesis by (simp only: last_n_def drop_drop length_drop)
qed

lemma push_eq_last_n: "2 \<le> n \<Longrightarrow> push (int n) x xs = last_n (n - 1) xs @ [x]"
  by (simp add: push_def js_slice_from_def last_n_def) (intro arg_cong2 [of _ _ _ _ drop] refl, arith)

text \<open>
  The contract the charts use: a buffer of capacity \<open>cap\<close> that was filled by pushes from the empty
  list holds the most recent \<open>cap\<close> of them in order.
\<close>

locale series_buffer =
  fixes cap :: nat
    and push_pt :: "'a \<Rightarrow> 'a list \<Rightarrow> 'a list"
  assumes push_keeps: "push_pt x xs = last_n (cap - 1) xs @ [x]"
    and cap_pos: "0 < cap"
begin

definition push_all :: "'a list \<Rightarrow> 'a list" where
  "push_all xs = foldl (\<lambda>b x. push_pt x b) [] xs"

lemma push_all_snoc: "push_all (xs @ [x]) = push_pt x (push_all xs)"
  by (simp add: push_all_def)

lemma push_all_last_n: "push_all xs = last_n cap xs"
proof (induction xs rule: rev_induct)
  case Nil
  then show ?case by (simp add: push_all_def last_n_def)
next
  case (snoc x xs)
  have "push_all (xs @ [x]) = last_n (cap - 1) (push_all xs) @ [x]"
    by (simp only: push_all_snoc push_keeps)
  also have "\<dots> = last_n (cap - 1) xs @ [x]" by (simp only: snoc.IH last_n_last_n diff_le_self)
  also have "\<dots> = last_n cap (xs @ [x])" using cap_pos by (simp only: last_n_snoc)
  finally show ?case .
qed

lemma push_all_length: "length (push_all xs) = min cap (length xs)"
  by (simp add: push_all_last_n last_n_length)

lemma push_bound: "length xs \<le> cap \<Longrightarrow> length (push_pt x xs) \<le> cap"
  using cap_pos by (simp add: push_keeps last_n_length)

lemma push_last: "last (push_pt x xs) = x"
  by (simp add: push_keeps)

end

interpretation chart60: series_buffer 60 "push 60"
  using push_eq_last_n [of 60] by unfold_locales simp_all

subsection \<open>Properties\<close>

text \<open>C32: Whatever happens to a component that polls, a mounted one owns exactly one registered
  interval, the one its \<open>timer\<close> names, with the period it asked for, and one that is not mounted
  owns none: unmounting leaves no interval behind, also when requests settle later.\<close>

theorem usePolling_timer:
  assumes "poll_run ms es ph p"
  shows "(ph = Mounted \<longrightarrow> (\<exists>h. timer p = Some h \<and> live (page_timers p) = [h \<mapsto> (RefreshCallback, ms)])) \<and>
         (ph \<noteq> Mounted \<longrightarrow> live (page_timers p) = Map.empty)"
  using poll_run_inv [OF assms] by (cases ph) (auto simp: poll_inv_def)

lemma poll_run_mount: "poll_run ms [Mount] Mounted (onMounted ms usePolling)"
  using poll_next [OF poll_init, of Mount ms Mounted "onMounted ms usePolling"] by simp

theorem usePolling_timer_witness:
  "\<exists>h. timer (onMounted 5000 usePolling :: nat polling) = Some h \<and>
       live (page_timers (onMounted 5000 usePolling :: nat polling)) = [h \<mapsto> (RefreshCallback, 5000)]"
  using usePolling_timer [OF poll_run_mount, of 5000] by blast

text \<open>The results a history delivered, in the order they settled.\<close>

fun settled :: "'a poll_event list \<Rightarrow> (js_error + 'a) list" where
  "settled [] = []"
| "settled (Settle r # es) = r # settled es"
| "settled (e # es) = settled es"

definition last_value :: "(js_error + 'a) list \<Rightarrow> 'a option" where
  "last_value rs = (let vs = filter (\<lambda>r. \<not> isl r) rs in if vs = [] then None else Some (projr (last vs)))"

definition last_error :: "(js_error + 'a) list \<Rightarrow> string option" where
  "last_error rs = (if rs = [] then None
     else case last rs of Inl e \<Rightarrow> Some (error_text e) | Inr v \<Rightarrow> None)"

lemma settled_snoc: "settled (es @ [e]) = settled es @ settled [e]"
  by (induction es rule: settled.induct) auto

lemma last_value_snoc:
  "last_value (rs @ [Inl e]) = last_value rs" "last_value (rs @ [Inr v]) = Some v"
  by (simp_all add: last_value_def)

lemma last_error_snoc:
  "last_error (rs @ [Inl e]) = Some (error_text e)" "last_error (rs @ [Inr v]) = None"
  by (simp_all add: last_error_def)

lemma onUnmounted_fields [simp]:
  "data (onUnmounted p) = data p" "error (onUnmounted p) = error p" "loading (onUnmounted p) = loading p"
  by (simp_all add: onUnmounted_def split: option.splits)

lemma onMounted_fields [simp]:
  "data (onMounted ms p) = data p" "error (onMounted ms p) = error p" "loading (onMounted ms p) = loading p"
  by (simp_all add: onMounted_def refresh_def Let_def case_prod_beta)

lemma refresh_fields [simp]:
  "data (refresh p) = data p" "error (refresh p) = error p" "loading (refresh p) = loading p"
  by (simp_all add: refresh_def)

text \<open>What a polling component shows is a function of the results that settled: \<open>data\<close> is the value
  of the last request that succeeded (in the order of settling), \<open>error\<close> is the text of the last
  settled request when it failed and nothing when it succeeded, and \<open>loading\<close> is true until the
  first request settles.\<close>

theorem usePolling_shows:
  assumes "poll_run ms es ph p"
  shows "data p = last_value (settled es) \<and> error p = last_error (settled es) \<and>
         (loading p \<longleftrightarrow> settled es = [])"
  using assms
proof (induction rule: poll_run.induct)
  case poll_init
  then show ?case by (simp add: usePolling_def last_value_def last_error_def)
next
  case (poll_next es ph p e ph' p')
  show ?case
  proof (cases e)
    case (Settle r)
    then show ?thesis using poll_next
      by (cases r) (auto simp: settled_snoc last_value_snoc last_error_snoc)
  qed (use poll_next in \<open>auto simp: settled_snoc\<close>)
qed

lemma poll_run_mount_settle:
  "poll_run ms [Mount, Settle r] Mounted (refresh_settled r (onMounted ms usePolling))"
  using poll_next [OF poll_run_mount, of "Settle r" ms Mounted "refresh_settled r (onMounted ms usePolling)"]
  by (simp add: onMounted_def refresh_def Let_def case_prod_beta)

theorem usePolling_shows_witness:
  "error (refresh_settled (Inl (RequestError '''')) (onMounted 5000 usePolling) :: nat polling) = Some ''Request failed''"
proof -
  have "last_error (settled [Mount, Settle (Inl (RequestError '''') :: js_error + nat)]) = Some ''Request failed''"
    by (simp add: last_error_def error_text_def)
  then show ?thesis
    using usePolling_shows [OF poll_run_mount_settle [of 5000 "Inl (RequestError '''') :: js_error + nat"]] by metis
qed

text \<open>A chart buffer of capacity \<open>n\<close>, at least 2, filled by any sequence of pushes, holds exactly
  the last \<open>n\<close> points pushed, in order.\<close>

theorem push_keeps_last:
  assumes "2 \<le> n"
  shows "foldl (\<lambda>b x. push (int n) x b) [] xs = last_n n xs"
proof (induction xs rule: rev_induct)
  case Nil
  then show ?case by (simp add: last_n_def)
next
  case (snoc x xs)
  then show ?case using assms by (simp add: push_eq_last_n last_n_last_n last_n_snoc)
qed

theorem push_keeps_last_witness:
  "foldl (\<lambda>b x. push 3 x b) [] [1 :: nat, 2, 3, 4, 5] = [3, 4, 5]"
  using push_keeps_last [of 3 "[1 :: nat, 2, 3, 4, 5]"] by (simp add: last_n_def)

text \<open>With capacity 1 the buffer drops nothing: the slice start \<open>-(1 - 1)\<close> is zero, which keeps the
  whole list.\<close>

lemma push_capacity_one: "foldl (\<lambda>b x. push 1 x b) [] xs = xs"
  by (induction xs rule: rev_induct) (simp_all add: push_def js_slice_from_def)

end
