(* ===== verification/AdminApi.thy ===== *)
theory AdminApi
  imports Json
begin

section \<open>The front end's API module\<close>

text \<open>
  Models \<^verbatim>\<open>web/admin/src/api\<close>.  The interfaces are records; a field the code treats as possibly
  missing (\<^verbatim>\<open>node_id?\<close>, \<^verbatim>\<open>session?\<close>, the lists read with \<^verbatim>\<open>|| []\<close>) is an \<^typ>\<open>'a option\<close>, \<^term>\<open>None\<close> for
  \<^verbatim>\<open>undefined\<close> and \<^verbatim>\<open>null\<close>.  The HTTP client axios is not part of the repository: it is the
  parameter \<open>send\<close>, which maps a request to the parsed body of the response or to the error the
  promise is rejected with.
\<close>

subsection \<open>client.ts\<close>

type_synonym http_client = "http_request \<Rightarrow> js_error + jsval"

record client_config =
  baseURL :: string
  timeout_ms :: nat

definition client :: client_config where
  "client = \<lparr>baseURL = ''/api/v1'', timeout_ms = 10000\<rparr>"

definition client_get :: "string \<Rightarrow> (string \<times> string) list \<Rightarrow> http_request" where
  "client_get path params = \<lparr>req_method = GET, req_path = baseURL client @ path, req_query = params,
     req_api_key = []\<rparr>"

definition client_post :: "string \<Rightarrow> http_request" where
  "client_post path = \<lparr>req_method = POST, req_path = baseURL client @ path, req_query = [],
     req_api_key = []\<rparr>"

subsection \<open>devices.ts\<close>

record DeviceSummary =
  client_id :: string
  username :: string
  remote_addr :: string
  protocol_version :: int
  connected_at :: string
  keep_alive :: int
  subscriptions :: "string list option"
  node_id :: "string option"

record DeviceListResponse =
  dl_devices :: "DeviceSummary list option"
  dl_total :: int
  dl_page :: int
  dl_per_page :: int
  dl_node_id :: string

record ClusterDeviceListResponse =
  cdl_devices :: "DeviceSummary list option"
  cdl_total :: int
  cdl_self :: string

record SessionInfo =
  clean_start :: bool
  expiry_interval :: int
  session_subscriptions :: "(string \<times> int) list option"

record DeviceDetail = DeviceSummary +
  dd_connected :: bool
  session :: "SessionInfo option"

definition read_DeviceSummary :: "jsval \<Rightarrow> DeviceSummary option" where
  "read_DeviceSummary v = do {
     cid \<leftarrow> fld ''client_id'' as_str v;
     usr \<leftarrow> fld ''username'' as_str v;
     adr \<leftarrow> fld ''remote_addr'' as_str v;
     ver \<leftarrow> fld ''protocol_version'' as_num v;
     cat \<leftarrow> fld ''connected_at'' as_str v;
     kal \<leftarrow> fld ''keep_alive'' as_num v;
     sub \<leftarrow> fld ''subscriptions'' (opt (as_arr as_str)) v;
     nid \<leftarrow> fld ''node_id'' (opt as_str) v;
     Some \<lparr>client_id = cid, username = usr, remote_addr = adr, protocol_version = ver,
           connected_at = cat, keep_alive = kal, subscriptions = sub, node_id = nid\<rparr> }"

definition read_DeviceListResponse :: "jsval \<Rightarrow> DeviceListResponse option" where
  "read_DeviceListResponse v = do {
     ds \<leftarrow> fld ''devices'' (opt (as_arr read_DeviceSummary)) v;
     tot \<leftarrow> fld ''total'' as_num v;
     pg \<leftarrow> fld ''page'' as_num v;
     pp \<leftarrow> fld ''per_page'' as_num v;
     nid \<leftarrow> fld ''node_id'' as_str v;
     Some \<lparr>dl_devices = ds, dl_total = tot, dl_page = pg, dl_per_page = pp, dl_node_id = nid\<rparr> }"

definition read_ClusterDeviceListResponse :: "jsval \<Rightarrow> ClusterDeviceListResponse option" where
  "read_ClusterDeviceListResponse v = do {
     ds \<leftarrow> fld ''devices'' (opt (as_arr read_DeviceSummary)) v;
     tot \<leftarrow> fld ''total'' as_num v;
     slf \<leftarrow> fld ''self'' as_str v;
     Some \<lparr>cdl_devices = ds, cdl_total = tot, cdl_self = slf\<rparr> }"

definition read_SessionInfo :: "jsval \<Rightarrow> SessionInfo option" where
  "read_SessionInfo v = do {
     cs \<leftarrow> fld ''clean_start'' as_bool v;
     ei \<leftarrow> fld ''expiry_interval'' as_num v;
     sub \<leftarrow> fld ''subscriptions'' (opt (as_map as_num)) v;
     Some \<lparr>clean_start = cs, expiry_interval = ei, session_subscriptions = sub\<rparr> }"

definition read_DeviceDetail :: "jsval \<Rightarrow> DeviceDetail option" where
  "read_DeviceDetail v = do {
     d \<leftarrow> read_DeviceSummary v;
     con \<leftarrow> fld ''connected'' as_bool v;
     ses \<leftarrow> fld ''session'' (opt read_SessionInfo) v;
     Some (DeviceSummary.extend d \<lparr>dd_connected = con, session = ses\<rparr>) }"

definition fetchDevices :: "http_client \<Rightarrow> int \<Rightarrow> int \<Rightarrow> js_error + jsval" where
  "fetchDevices send page perPage =
     send (client_get ''/devices'' [(''page'', show_int page), (''per_page'', show_int perPage)])"

definition fetchClusterDevices :: "http_client \<Rightarrow> js_error + jsval" where
  "fetchClusterDevices send = send (client_get ''/cluster/devices'' [])"

definition fetchDevice :: "http_client \<Rightarrow> string \<Rightarrow> js_error + jsval" where
  "fetchDevice send did = send (client_get (''/devices/'' @ did) [])"

definition disconnectDevice :: "http_client \<Rightarrow> string \<Rightarrow> js_error + unit" where
  "disconnectDevice send did =
     (case send (client_post (''/devices/'' @ did @ ''/disconnect'')) of Inl e \<Rightarrow> Inl e | Inr _ \<Rightarrow> Inr ())"

subsection \<open>migrations.ts\<close>

record Migration =
  mig_id :: string
  mig_device_id :: string
  mig_source_node :: string
  mig_target_node :: string
  mig_status :: string
  mig_progress :: "int option"
  mig_started_at :: string

definition read_Migration :: "jsval \<Rightarrow> Migration option" where
  "read_Migration v = do {
     i \<leftarrow> fld ''id'' as_str v;
     d \<leftarrow> fld ''device_id'' as_str v;
     s \<leftarrow> fld ''source_node'' as_str v;
     t \<leftarrow> fld ''target_node'' as_str v;
     st \<leftarrow> fld ''status'' as_str v;
     p \<leftarrow> fld ''progress'' (opt as_num) v;
     sa \<leftarrow> fld ''started_at'' as_str v;
     Some \<lparr>mig_id = i, mig_device_id = d, mig_source_node = s, mig_target_node = t,
           mig_status = st, mig_progress = p, mig_started_at = sa\<rparr> }"

text \<open>\<^verbatim>\<open>return data.migrations || []\<close>: a property access that may raise, then the default.\<close>

definition fetchMigrations :: "http_client \<Rightarrow> js_error + jsval" where
  "fetchMigrations send =
     (case send (client_get ''/cluster/migrations'' []) of
        Inl e \<Rightarrow> Inl e
      | Inr data \<Rightarrow> (case js_get data ''migrations'' of
          Inl e \<Rightarrow> Inl e
        | Inr m \<Rightarrow> Inr (js_or m (JArr []))))"

definition cancelMigration :: "http_client \<Rightarrow> string \<Rightarrow> js_error + unit" where
  "cancelMigration send mid =
     (case send (client_post (''/cluster/migrations/'' @ mid @ ''/cancel'')) of
        Inl e \<Rightarrow> Inl e | Inr _ \<Rightarrow> Inr ())"

subsection \<open>nodes.ts\<close>

record NodeInfo =
  n_id :: string
  n_host :: string
  n_gossipPort :: int
  n_transportPort :: int
  n_mqttPort :: int
  n_httpPort :: "int option"
  n_role :: "string option"

record NodesResponse =
  nr_nodes :: "NodeInfo list option"
  nr_self :: string

definition read_NodeInfo :: "jsval \<Rightarrow> NodeInfo option" where
  "read_NodeInfo v = do {
     i \<leftarrow> fld ''id'' as_str v;
     h \<leftarrow> fld ''host'' as_str v;
     g \<leftarrow> fld ''gossipPort'' as_num v;
     tp \<leftarrow> fld ''transportPort'' as_num v;
     mp \<leftarrow> fld ''mqttPort'' as_num v;
     hp \<leftarrow> fld ''httpPort'' (opt as_num) v;
     r \<leftarrow> fld ''role'' (opt as_str) v;
     Some \<lparr>n_id = i, n_host = h, n_gossipPort = g, n_transportPort = tp, n_mqttPort = mp,
           n_httpPort = hp, n_role = r\<rparr> }"

definition read_NodesResponse :: "jsval \<Rightarrow> NodesResponse option" where
  "read_NodesResponse v = do {
     ns \<leftarrow> fld ''nodes'' (opt (as_arr read_NodeInfo)) v;
     s \<leftarrow> fld ''self'' as_str v;
     Some \<lparr>nr_nodes = ns, nr_self = s\<rparr> }"

definition fetchNodes :: "http_client \<Rightarrow> js_error + jsval" where
  "fetchNodes send = send (client_get ''/nodes'' [])"

subsection \<open>stats.ts\<close>

record Stats =
  st_node_id :: string
  connected_clients :: int
  active_subscriptions :: int
  retained_messages :: int
  cluster_nodes :: int
  uptime_seconds :: int
  goroutines :: int
  memory_alloc_bytes :: int
  memory_sys_bytes :: int
  gc_pause_total_ns :: int

record ClusterNodeStats =
  cns_node_id :: string
  cns_connections :: int
  cns_subscriptions :: int
  cns_retained :: int

record ClusterStats =
  cs_nodes :: "ClusterNodeStats list option"
  cs_total_connections :: int
  cs_total_subscriptions :: int
  cs_self :: string

definition read_Stats :: "jsval \<Rightarrow> Stats option" where
  "read_Stats v = do {
     ni \<leftarrow> fld ''node_id'' as_str v;
     cc \<leftarrow> fld ''connected_clients'' as_num v;
     asb \<leftarrow> fld ''active_subscriptions'' as_num v;
     rm \<leftarrow> fld ''retained_messages'' as_num v;
     cn \<leftarrow> fld ''cluster_nodes'' as_num v;
     up \<leftarrow> fld ''uptime_seconds'' as_num v;
     gr \<leftarrow> fld ''goroutines'' as_num v;
     ma \<leftarrow> fld ''memory_alloc_bytes'' as_num v;
     ms \<leftarrow> fld ''memory_sys_bytes'' as_num v;
     gc \<leftarrow> fld ''gc_pause_total_ns'' as_num v;
     Some \<lparr>st_node_id = ni, connected_clients = cc, active_subscriptions = asb,
           retained_messages = rm, cluster_nodes = cn, uptime_seconds = up, goroutines = gr,
           memory_alloc_bytes = ma, memory_sys_bytes = ms, gc_pause_total_ns = gc\<rparr> }"

definition read_ClusterNodeStats :: "jsval \<Rightarrow> ClusterNodeStats option" where
  "read_ClusterNodeStats v = do {
     ni \<leftarrow> fld ''node_id'' as_str v;
     c \<leftarrow> fld ''connections'' as_num v;
     s \<leftarrow> fld ''subscriptions'' as_num v;
     r \<leftarrow> fld ''retained'' as_num v;
     Some \<lparr>cns_node_id = ni, cns_connections = c, cns_subscriptions = s, cns_retained = r\<rparr> }"

definition read_ClusterStats :: "jsval \<Rightarrow> ClusterStats option" where
  "read_ClusterStats v = do {
     ns \<leftarrow> fld ''nodes'' (opt (as_arr read_ClusterNodeStats)) v;
     tc \<leftarrow> fld ''total_connections'' as_num v;
     ts \<leftarrow> fld ''total_subscriptions'' as_num v;
     s \<leftarrow> fld ''self'' as_str v;
     Some \<lparr>cs_nodes = ns, cs_total_connections = tc, cs_total_subscriptions = ts, cs_self = s\<rparr> }"

definition fetchStats :: "http_client \<Rightarrow> js_error + jsval" where
  "fetchStats send = send (client_get ''/stats'' [])"

definition fetchClusterStats :: "http_client \<Rightarrow> js_error + jsval" where
  "fetchClusterStats send = send (client_get ''/cluster/stats'' [])"

lemmas read_defs = read_DeviceSummary_def read_DeviceListResponse_def
  read_ClusterDeviceListResponse_def read_SessionInfo_def read_DeviceDetail_def read_Migration_def
  read_NodeInfo_def read_NodesResponse_def read_Stats_def read_ClusterNodeStats_def
  read_ClusterStats_def

lemmas request_defs = client_def client_get_def client_post_def

end
