(* ===== verification/JsNumber.thy ===== *)
theory JsNumber
  imports Prelude "HOL-Library.Log_Nat"
begin

section \<open>JavaScript numbers\<close>

text \<open>
  A JavaScript number is an IEEE 754 double.  The dashboard divides, multiplies and rounds byte
  and nanosecond counters, so the rounding of every arithmetic operation is written out: a
  finite double is represented by the rational number it denotes, and \<open>fl\<close> rounds a rational to
  the nearest double with 53 significant bits, ties to even.  Overflow to infinity, subnormal
  results, NaN and the sign of zero are left out: the counters the dashboard handles are
  non-negative integers far below \<open>2 ^ 1023\<close>, and its constants are not zero.
\<close>

type_synonym jsnum = rat

definition scale2 :: "int \<Rightarrow> rat" where
  "scale2 e = (if 0 \<le> e then 2 ^ nat e else 1 / 2 ^ nat (- e))"

text \<open>\<open>ilog2 x\<close> is the exponent \<open>e\<close> with \<open>2 ^ e \<le> x < 2 ^ (e + 1)\<close> for a positive \<open>x\<close>.\<close>

definition ilog2 :: "rat \<Rightarrow> int" where
  "ilog2 x = (case quotient_of x of (n, d) \<Rightarrow>
     let k = bitlen n - bitlen d in if scale2 k \<le> x then k else k - 1)"

text \<open>Round to the nearest integer, a tie to the even neighbour.\<close>

definition round_even :: "rat \<Rightarrow> int" where
  "round_even y = (let r = \<lfloor>y\<rfloor>; f = y - of_int r in
     if f < 1 / 2 then r else if f > 1 / 2 then r + 1 else if even r then r else r + 1)"

definition fl :: "rat \<Rightarrow> jsnum" where
  "fl x = (if x = 0 then 0
           else let e = ilog2 \<bar>x\<bar> - 52 in of_int (round_even (x / scale2 e)) * scale2 e)"

definition js_div :: "jsnum \<Rightarrow> jsnum \<Rightarrow> jsnum" where
  "js_div x y = fl (x / y)"

definition js_mul :: "jsnum \<Rightarrow> jsnum \<Rightarrow> jsnum" where
  "js_mul x y = fl (x * y)"

text \<open>\<^verbatim>\<open>Math.round\<close>: the nearest integer, a tie towards plus infinity.\<close>

definition math_round :: "jsnum \<Rightarrow> jsnum" where
  "math_round x = of_int \<lfloor>x + 1 / 2\<rfloor>"

text \<open>\<^verbatim>\<open>x.toFixed(1)\<close> for \<open>0 \<le> x < 10 ^ 21\<close>: the integer \<open>n\<close> for which \<open>n / 10\<close> is closest to the
  exact value of \<open>x\<close>, the larger one in a tie, with a decimal point before the last digit.\<close>

definition to_fixed1 :: "jsnum \<Rightarrow> string" where
  "to_fixed1 x = (let n = nat \<lfloor>x * 10 + 1 / 2\<rfloor> in show_nat (n div 10) @ ''.'' @ show_nat (n mod 10))"

subsection \<open>Powers of two\<close>

lemma scale2_pos [simp]: "0 < scale2 e"
  by (simp add: scale2_def)

lemma scale2_nonzero [simp]: "scale2 e \<noteq> 0"
  using scale2_pos [of e] by linarith

lemma scale2_powi: "scale2 e = 2 powi e"
  by (auto simp: scale2_def power_int_def field_simps)

lemma scale2_add: "scale2 (a + b) = scale2 a * scale2 b"
  by (simp add: scale2_powi power_int_add)

lemma scale2_diff: "scale2 (a - b) = scale2 a / scale2 b"
  by (simp add: scale2_powi power_int_diff)

lemma scale2_abs [simp]: "\<bar>scale2 e\<bar> = scale2 e"
  by (simp add: less_imp_le)

lemma scale2_0 [simp]: "scale2 0 = 1"
  by (simp add: scale2_def)

lemma scale2_mono: "a \<le> b \<Longrightarrow> scale2 a \<le> scale2 b"
  by (simp add: scale2_powi power_int_increasing)

lemma scale2_strict_mono: "a < b \<Longrightarrow> scale2 a < scale2 b"
  by (simp add: scale2_powi power_int_strict_increasing)

lemma scale2_less_imp: "scale2 a < scale2 b \<Longrightarrow> a < b"
  by (meson linorder_not_less scale2_mono)

lemma scale2_nonneg_int: "0 \<le> e \<Longrightarrow> scale2 e = of_int (2 ^ nat e)"
  by (simp add: scale2_def)

lemma bitlen_scale:
  assumes "0 < n"
  shows "scale2 (bitlen n - 1) \<le> of_int n" and "(of_int n :: rat) < scale2 (bitlen n)"
proof -
  have b: "2 ^ nat (bitlen n - 1) \<le> n \<and> n < 2 ^ nat (bitlen n)"
    using bitlen_bounds [OF assms] .
  have p: "0 < bitlen n" using bitlen_eq_zero_iff [of n] bitlen_nonneg [of n] assms by linarith
  have "(of_int (2 ^ nat (bitlen n - 1)) :: rat) \<le> of_int n" using b by (simp only: of_int_le_iff)
  then show "scale2 (bitlen n - 1) \<le> of_int n" using p by (simp add: scale2_def)
  have "(of_int n :: rat) < of_int (2 ^ nat (bitlen n))" using b by (simp only: of_int_less_iff)
  then show "(of_int n :: rat) < scale2 (bitlen n)" using p by (simp add: scale2_def)
qed

lemma ilog2_bounds:
  assumes "0 < x"
  shows "scale2 (ilog2 x) \<le> x" and "x < scale2 (ilog2 x + 1)"
proof -
  obtain n d where q: "quotient_of x = (n, d)" by (cases "quotient_of x") auto
  have d: "0 < d" using quotient_of_denom_pos [OF q] .
  have x: "x = of_int n / of_int d" using quotient_of_div [OF q] .
  have n: "0 < n" using assms d unfolding x by (simp add: zero_less_divide_iff)
  let ?k = "bitlen n - bitlen d"
  have lo: "scale2 (?k - 1) \<le> x"
  proof -
    have "scale2 (?k - 1) * of_int d \<le> scale2 (?k - 1) * scale2 (bitlen d)"
      using bitlen_scale(2) [OF d] by (intro mult_left_mono) (auto intro: less_imp_le)
    also have "\<dots> = scale2 (bitlen n - 1)" by (simp add: scale2_add [symmetric])
    also have "\<dots> \<le> of_int n" by (rule bitlen_scale(1) [OF n])
    finally show ?thesis using d by (simp add: x field_simps)
  qed
  have hi: "x < scale2 (?k + 1)"
  proof -
    have "of_int n < scale2 (bitlen n)" by (rule bitlen_scale(2) [OF n])
    also have "\<dots> = scale2 (?k + 1) * scale2 (bitlen d - 1)" by (simp add: scale2_add [symmetric])
    also have "\<dots> \<le> scale2 (?k + 1) * of_int d"
      using bitlen_scale(1) [OF d] by (intro mult_left_mono) (auto intro: less_imp_le)
    finally show ?thesis using d by (simp add: x field_simps)
  qed
  show "scale2 (ilog2 x) \<le> x" using lo by (simp add: ilog2_def q Let_def)
  show "x < scale2 (ilog2 x + 1)" using hi by (simp add: ilog2_def q Let_def)
qed

subsection \<open>Rounding to a double\<close>

lemma round_even_of_int [simp]: "round_even (of_int k) = k"
  by (simp add: round_even_def)

lemma round_even_error: "\<bar>of_int (round_even y) - y\<bar> \<le> 1 / 2"
proof -
  have "of_int \<lfloor>y\<rfloor> \<le> y" "y < of_int \<lfloor>y\<rfloor> + 1" by linarith+
  then show ?thesis unfolding round_even_def Let_def by (auto split: if_splits)
qed

text \<open>Every integer multiple of a power of two with at most 53 significant bits is a double.\<close>

lemma fl_exact:
  assumes "\<bar>m\<bar> < 2 ^ 53"
  shows "fl (of_int m * scale2 e) = of_int m * scale2 e"
proof (cases "m = 0")
  case True
  then show ?thesis by (simp add: fl_def)
next
  case False
  let ?x = "of_int m * scale2 e"
  have xp: "0 < \<bar>?x\<bar>" using False by (simp add: abs_mult)
  have "\<bar>?x\<bar> < scale2 53 * scale2 e"
  proof -
    have "(of_int \<bar>m\<bar> :: rat) < of_int (2 ^ 53)" using assms by (simp only: of_int_less_iff)
    then have "\<bar>of_int m\<bar> < scale2 53" by (simp add: scale2_def)
    then show ?thesis by (simp add: abs_mult mult_strict_right_mono)
  qed
  then have "scale2 (ilog2 \<bar>?x\<bar>) < scale2 (53 + e)"
    using ilog2_bounds(1) [OF xp] by (simp add: scale2_add)
  then have le: "ilog2 \<bar>?x\<bar> - 52 \<le> e" using scale2_less_imp by fastforce
  let ?e = "ilog2 \<bar>?x\<bar> - 52"
  have "?x / scale2 ?e = of_int m * scale2 (e - ?e)"
    by (simp only: scale2_diff times_divide_eq_right [symmetric])
  also have "\<dots> = of_int (m * 2 ^ nat (e - ?e))" using le by (simp add: scale2_nonneg_int)
  finally have i: "?x / scale2 ?e = of_int (m * 2 ^ nat (e - ?e))" .
  have "round_even (?x / scale2 ?e) = m * 2 ^ nat (e - ?e)"
    unfolding i by (rule round_even_of_int)
  then have "of_int (round_even (?x / scale2 ?e)) * scale2 ?e = ?x"
    using i by (metis nonzero_divide_eq_eq scale2_nonzero)
  then show ?thesis using False by (simp add: fl_def Let_def)
qed

lemma fl_of_int: "\<bar>m\<bar> < 2 ^ 53 \<Longrightarrow> fl (of_int m) = of_int m"
  using fl_exact [of m 0] by simp

text \<open>The relative error of rounding is at most half a unit in the last place.\<close>

lemma fl_error: "\<bar>fl x - x\<bar> \<le> \<bar>x\<bar> / 2 ^ 53"
proof (cases "x = 0")
  case True
  then show ?thesis by (simp add: fl_def)
next
  case False
  let ?e = "ilog2 \<bar>x\<bar> - 52"
  have "\<bar>of_int (round_even (x / scale2 ?e)) - x / scale2 ?e\<bar> * scale2 ?e \<le> 1 / 2 * scale2 ?e"
    by (intro mult_right_mono round_even_error) (simp add: less_imp_le)
  moreover have "\<bar>of_int (round_even (x / scale2 ?e)) - x / scale2 ?e\<bar> * scale2 ?e
      = \<bar>of_int (round_even (x / scale2 ?e)) * scale2 ?e - x\<bar>"
  proof -
    have "\<bar>of_int (round_even (x / scale2 ?e)) - x / scale2 ?e\<bar> * scale2 ?e
        = \<bar>(of_int (round_even (x / scale2 ?e)) - x / scale2 ?e) * scale2 ?e\<bar>"
      by (simp add: abs_mult)
    then show ?thesis by (simp add: left_diff_distrib)
  qed
  moreover have "1 / 2 * scale2 ?e \<le> \<bar>x\<bar> / 2 ^ 53"
  proof -
    have "scale2 (ilog2 \<bar>x\<bar>) = scale2 ?e * scale2 52" by (simp add: scale2_add [symmetric])
    then have "scale2 ?e * 2 ^ 52 \<le> \<bar>x\<bar>"
      using ilog2_bounds(1) [of "\<bar>x\<bar>"] False by (simp add: scale2_def)
    then show ?thesis by (simp add: field_simps)
  qed
  ultimately show ?thesis using False by (simp add: fl_def Let_def)
qed

text \<open>Dividing an integer below \<open>2 ^ 53\<close> by 1024 twice is exact.\<close>

lemma js_div_1024_twice:
  assumes "\<bar>b\<bar> < 2 ^ 53"
  shows "js_div (js_div (of_int b) 1024) 1024 = of_int b / 2 ^ 20"
proof -
  have a: "(of_int b / 1024 :: rat) = of_int b * scale2 (- 10)" by (simp add: scale2_def)
  have b: "(of_int b / 1024 / 1024 :: rat) = of_int b * scale2 (- 20)" by (simp add: scale2_def)
  have "js_div (of_int b) 1024 = of_int b / 1024"
    unfolding js_div_def a using assms by (rule fl_exact)
  then have "js_div (js_div (of_int b) 1024) 1024 = fl (of_int b * scale2 (- 20))"
    by (simp only: js_div_def b)
  also have "\<dots> = of_int b * scale2 (- 20)" using assms by (rule fl_exact)
  finally show ?thesis by (simp add: scale2_def)
qed

lemma math_round_error: "\<bar>math_round x - x\<bar> \<le> 1 / 2"
  unfolding math_round_def by linarith

text \<open>Flooring the quotient of two integers is integer division for a dividend below \<open>2 ^ 53\<close>: the
  rounding error is smaller than the distance of a proper fraction to the next integer.\<close>

lemma floor_js_div:
  assumes "0 \<le> s" and "s < 2 ^ 53" and "0 < n"
  shows "\<lfloor>js_div (of_int s) (of_int n)\<rfloor> = s div n"
proof (cases "s mod n = 0")
  case True
  then have "(of_int s / of_int n :: rat) = of_int (s div n)"
    by (simp add: of_int_div mod_0_imp_dvd)
  moreover have "\<bar>s div n\<bar> < 2 ^ 53"
    using assms by (simp add: pos_imp_zdiv_nonneg_iff)
      (metis assms(1,2) div_by_1 le_less_trans zdiv_mono2 zero_less_one int_one_le_iff_zero_less)
  ultimately show ?thesis by (simp add: js_div_def fl_of_int)
next
  case False
  let ?x = "of_int s / of_int n :: rat" and ?q = "s div n" and ?r = "s mod n"
  have r: "1 \<le> ?r" "?r \<le> n - 1" using False assms pos_mod_bound [of n s] pos_mod_sign [of n s] by linarith+
  have s: "(of_int s :: rat) = of_int ?q * of_int n + of_int ?r"
    by (simp only: of_int_mult [symmetric] of_int_add [symmetric]) simp
  have x: "?x = of_int ?q + of_int ?r / of_int n" using assms(3) by (simp add: s field_simps)
  have e: "\<bar>js_div (of_int s) (of_int n) - ?x\<bar> \<le> ?x / 2 ^ 53"
    using fl_error [of ?x] assms by (simp add: js_div_def)
  have "(of_int s :: rat) < of_int (2 ^ 53)" using assms(2) by (simp only: of_int_less_iff)
  then have "?x / 2 ^ 53 < 1 / of_int n" using assms(3) by (simp add: field_simps)
  moreover have "1 / of_int n \<le> (of_int ?r / of_int n :: rat)"
    using r assms(3) by (simp add: divide_right_mono)
  moreover have "(of_int ?r / of_int n :: rat) \<le> 1 - 1 / of_int n"
  proof -
    have "(of_int ?r :: rat) \<le> of_int (n - 1)" using r(2) by (simp only: of_int_le_iff)
    then have "(of_int ?r / of_int n :: rat) \<le> of_int (n - 1) / of_int n"
      using assms(3) by (intro divide_right_mono) auto
    then show ?thesis using assms(3) by (simp add: diff_divide_distrib)
  qed
  ultimately have "of_int ?q \<le> js_div (of_int s) (of_int n) \<and> js_div (of_int s) (of_int n) < of_int ?q + 1"
    using e x by linarith
  then show ?thesis by (simp add: floor_eq_iff)
qed

subsection \<open>Comparing rounded quotients\<close>

lemma round_even_mono: "x \<le> y \<Longrightarrow> round_even x \<le> round_even y"
proof -
  assume xy: "x \<le> y"
  have f: "\<lfloor>x\<rfloor> \<le> \<lfloor>y\<rfloor>" using xy by (rule floor_mono)
  show ?thesis
  proof (cases "\<lfloor>x\<rfloor> = \<lfloor>y\<rfloor>")
    case True
    then show ?thesis using xy by (auto simp: round_even_def Let_def)
  next
    case False
    then have "\<lfloor>x\<rfloor> + 1 \<le> \<lfloor>y\<rfloor>" using f by linarith
    moreover have "round_even x \<le> \<lfloor>x\<rfloor> + 1" "\<lfloor>y\<rfloor> \<le> round_even y" by (auto simp: round_even_def Let_def)
    ultimately show ?thesis by linarith
  qed
qed

lemma fl_bounds:
  assumes "0 < x"
  shows "scale2 (ilog2 x) \<le> fl x" and "fl x \<le> scale2 (ilog2 x + 1)"
proof -
  let ?e = "ilog2 x - 52"
  have d: "fl x = of_int (round_even (x / scale2 ?e)) * scale2 ?e" using assms by (simp add: fl_def Let_def)
  have lo: "(of_int (2 ^ 52) :: rat) \<le> x / scale2 ?e"
    using ilog2_bounds(1) [OF assms] by (simp add: scale2_diff field_simps) (simp add: scale2_def)
  have hi: "x / scale2 ?e \<le> of_int (2 ^ 53)"
    using ilog2_bounds(2) [OF assms] by (simp add: scale2_diff scale2_add field_simps) (simp add: scale2_def)
  have "2 ^ 52 \<le> round_even (x / scale2 ?e)" using round_even_mono [OF lo] unfolding round_even_of_int .
  then have "(of_int (2 ^ 52) :: rat) \<le> of_int (round_even (x / scale2 ?e))" by (simp only: of_int_le_iff)
  then have "of_int (2 ^ 52) * scale2 ?e \<le> fl x" unfolding d by (intro mult_right_mono) (auto intro: less_imp_le)
  moreover have "of_int (2 ^ 52) * scale2 ?e = scale2 (ilog2 x)" by (simp add: scale2_diff) (simp add: scale2_def)
  ultimately show "scale2 (ilog2 x) \<le> fl x" by simp
  have "round_even (x / scale2 ?e) \<le> 2 ^ 53" using round_even_mono [OF hi] unfolding round_even_of_int .
  then have "(of_int (round_even (x / scale2 ?e)) :: rat) \<le> of_int (2 ^ 53)" by (simp only: of_int_le_iff)
  then have "fl x \<le> of_int (2 ^ 53) * scale2 ?e" unfolding d by (intro mult_right_mono) (auto intro: less_imp_le)
  moreover have "of_int (2 ^ 53) * scale2 ?e = scale2 (ilog2 x + 1)" by (simp add: scale2_diff scale2_add) (simp add: scale2_def)
  ultimately show "fl x \<le> scale2 (ilog2 x + 1)" by simp
qed

lemma fl_mono_pos:
  assumes "0 < x" and "x \<le> y"
  shows "fl x \<le> fl y"
proof -
  have y: "0 < y" using assms by linarith
  have "scale2 (ilog2 x) < scale2 (ilog2 y + 1)"
    using ilog2_bounds(1) [OF assms(1)] ilog2_bounds(2) [OF y] assms(2) by linarith
  then have "ilog2 x < ilog2 y + 1" by (rule scale2_less_imp)
  then consider "ilog2 x = ilog2 y" | "ilog2 x + 1 \<le> ilog2 y" by linarith
  then show ?thesis
  proof cases
    case 1
    have "x / scale2 (ilog2 y - 52) \<le> y / scale2 (ilog2 y - 52)" using assms(2) by (simp add: divide_right_mono less_imp_le)
    then have "(of_int (round_even (x / scale2 (ilog2 y - 52))) :: rat) \<le> of_int (round_even (y / scale2 (ilog2 y - 52)))"
      using round_even_mono by (simp only: of_int_le_iff)
    then show ?thesis using assms(1) y 1 by (simp add: fl_def Let_def less_imp_le mult_right_mono)
  next
    case 2
    then have "scale2 (ilog2 x + 1) \<le> scale2 (ilog2 y)" by (rule scale2_mono)
    then show ?thesis using fl_bounds(2) [OF assms(1)] fl_bounds(1) [OF y] by linarith
  qed
qed

lemma fl_error_nonneg:
  assumes "0 \<le> x"
  shows "x * (1 - 1 / 2 ^ 53) \<le> fl x" and "fl x \<le> x * (1 + 1 / 2 ^ 53)"
proof -
  define u :: rat where "u = 1 / 2 ^ 53"
  have "\<bar>fl x - x\<bar> \<le> x * u" using fl_error [of x] assms by (simp add: u_def)
  then have "x * (1 - u) \<le> fl x" "fl x \<le> x * (1 + u)" by (simp_all add: abs_le_iff algebra_simps)
  then show "x * (1 - 1 / 2 ^ 53) \<le> fl x" "fl x \<le> x * (1 + 1 / 2 ^ 53)" by (simp_all only: u_def)
qed

text \<open>Two rationals that differ by one in \<open>k\<close> units are rounded apart when the larger has few units.\<close>

lemma fl_strict:
  assumes "0 \<le> x" and "0 \<le> y" and "x * k + 1 \<le> y * k" and "0 < k" and "y * k \<le> 2 ^ 52"
  shows "fl x < fl y"
proof (rule ccontr)
  let ?u = "1 / 2 ^ 53 :: rat"
  assume "\<not> fl x < fl y"
  then have "y * (1 - ?u) \<le> x * (1 + ?u)"
    using fl_error_nonneg(1) [OF assms(2)] fl_error_nonneg(2) [OF assms(1)] by linarith
  then have "y * (1 - ?u) * k \<le> x * (1 + ?u) * k" using assms(4) by (intro mult_right_mono) simp_all
  then have "y * k * (1 - ?u) \<le> x * k * (1 + ?u)" by (simp only: ac_simps)
  also have "\<dots> \<le> (y * k - 1) * (1 + ?u)" using assms(3) by (intro mult_right_mono) simp_all
  finally have "1 + ?u \<le> 2 * ?u * (y * k)" by (simp add: algebra_simps)
  also have "\<dots> \<le> 2 * ?u * 2 ^ 52" using assms(5) by (intro mult_left_mono) simp_all
  finally show False by simp
qed

text \<open>
  A quotient of integers below \<open>2 ^ 52\<close> is rounded to at least the double nearest to \<open>p / q\<close> exactly
  when it is at least \<open>p / q\<close>, although neither is exact.
\<close>

lemma fl_quotient_threshold:
  assumes "0 \<le> f" and "0 < n" and "0 < p" and "0 < q" and "n * p \<le> 2 ^ 52"
  shows "fl (of_int p / of_int q) \<le> fl (of_int f / of_int n) \<longleftrightarrow> p * n \<le> f * q"
proof
  let ?F = "rat_of_int f" and ?N = "rat_of_int n" and ?P = "rat_of_int p" and ?Q = "rat_of_int q"
  have pos: "0 < ?N" "0 < ?P" "0 < ?Q" "0 \<le> ?F" using assms by simp_all
  show "fl (?P / ?Q) \<le> fl (?F / ?N)" if "p * n \<le> f * q"
  proof -
    have "rat_of_int (p * n) \<le> of_int (f * q)" using that by (simp only: of_int_le_iff)
    then have "?P * ?N \<le> ?F * ?Q" by simp
    then have "?P / ?Q \<le> ?F / ?N" using pos by (simp add: field_simps)
    then show ?thesis using pos by (intro fl_mono_pos) simp_all
  qed
  show "p * n \<le> f * q" if le: "fl (?P / ?Q) \<le> fl (?F / ?N)"
  proof (rule ccontr)
    assume "\<not> p * n \<le> f * q"
    then have "f * q + 1 \<le> p * n" by linarith
    then have "rat_of_int (f * q + 1) \<le> of_int (p * n)" by (simp only: of_int_le_iff)
    then have g: "?F * ?Q + 1 \<le> ?P * ?N" by simp
    have "rat_of_int (n * p) \<le> of_int (2 ^ 52)" using assms(5) by (simp only: of_int_le_iff)
    then have b: "?N * ?P \<le> 2 ^ 52" by simp
    let ?x = "?F / ?N" and ?y = "?P / ?Q" and ?k = "?N * ?Q"
    have xk: "?x * ?k = ?F * ?Q" and yk: "?y * ?k = ?N * ?P" using pos by simp_all
    have "fl ?x < fl ?y"
    proof (rule fl_strict [where k = ?k])
      show "?x * ?k + 1 \<le> ?y * ?k" using g unfolding xk yk by (simp only: mult.commute)
      show "?y * ?k \<le> 2 ^ 52" using b unfolding yk .
    qed (use pos in simp_all)
    then show False using le by linarith
  qed
qed

end
