(* ===== verification/Vue.thy ===== *)
theory Vue
  imports JsNumber
begin

section \<open>Rendered templates\<close>

text \<open>
  What a Vue template denotes: a tree of elements with static attributes, bound attributes
  (\<^verbatim>\<open>:name="expr"\<close>, \<^verbatim>\<open>v-model\<close>, \<^verbatim>\<open>v-loading\<close>) holding the value of their expression, and event handlers
  (\<^verbatim>\<open>@event="..."\<close>) holding the call they make.  The attribute \<^verbatim>\<open>key\<close> of a \<^verbatim>\<open>v-for\<close> and the purely static
  attributes \<^verbatim>\<open>style\<close>, \<^verbatim>\<open>min-width\<close> and \<^verbatim>\<open>width\<close> have no influence on behaviour and are left out.
  \<^verbatim>\<open>v-if\<close> and \<^verbatim>\<open>v-for\<close> become conditional and mapped lists of children.  A column of an \<^verbatim>\<open>el-table\<close>
  holds its cell for every row of the table's \<^verbatim>\<open>data\<close>: the default slot of the column, or the text
  of the field its \<^verbatim>\<open>prop\<close> names.
\<close>

record series =
  s_name :: string
  s_type :: string
  s_data :: "jsnum option list"
  s_smooth :: bool
  s_showSymbol :: bool
  s_opacity :: rat
  s_color :: "string option"

record chart_option =
  animation :: bool
  tooltip_trigger :: string
  grid :: "nat \<times> nat \<times> nat \<times> nat"
  xAxis_type :: string
  xAxis_data :: "string list"
  xAxis_show :: bool
  yAxis_type :: string
  yAxis_name :: string
  series_list :: "series list"

datatype bound = BStr string | BBool bool | BInt int | BChart chart_option

datatype 'act attr = Attr string string | Bind string bound | On string 'act

datatype 'act vnode = Txt string | El string "'act attr list" "'act vnode list"

type_synonym translate = "string \<Rightarrow> (string \<times> string) list \<Rightarrow> string"

definition v_if :: "bool \<Rightarrow> 'act vnode \<Rightarrow> 'act vnode list" where
  "v_if b n = (if b then [n] else [])"

text \<open>An \<^verbatim>\<open>el-table-column\<close>: its attributes and one cell per row.\<close>

definition column :: "'act attr list \<Rightarrow> ('r \<Rightarrow> 'act vnode list) \<Rightarrow> 'r list \<Rightarrow> 'act vnode" where
  "column attrs cell rows = El ''el-table-column'' attrs (map (\<lambda>r. El ''cell'' [] (cell r)) rows)"

text \<open>The elements with a given tag, and the handlers, of a rendered tree.\<close>

fun elements :: "string \<Rightarrow> 'act vnode \<Rightarrow> 'act vnode list" where
  "elements tag (Txt s) = []"
| "elements tag (El t as cs) = (if t = tag then [El t as cs] else []) @ concat (map (elements tag) cs)"

fun handlers :: "string \<Rightarrow> 'act vnode \<Rightarrow> 'act list" where
  "handlers ev (Txt s) = []"
| "handlers ev (El t as cs) =
     List.map_filter (\<lambda>a. case a of On e f \<Rightarrow> if e = ev then Some f else None | _ \<Rightarrow> None) as
     @ concat (map (handlers ev) cs)"

lemma v_if_simps [simp]: "v_if True n = [n]" "v_if False n = []"
  by (simp_all add: v_if_def)

text \<open>The handlers a list of attributes holds, and those of a column, row by row.\<close>

lemma map_filter_append: "List.map_filter f (xs @ ys) = List.map_filter f xs @ List.map_filter f ys"
  by (simp add: List.map_filter_def)

lemma map_filter_map_Some: "List.map_filter (\<lambda>x. Some (g x)) xs = map g xs"
  by (simp add: List.map_filter_def comp_def)

lemma map_filter_map_On:
  "List.map_filter (\<lambda>a. case a of On e f \<Rightarrow> if e = ev then Some f else None | _ \<Rightarrow> None)
     (map (\<lambda>r. On ev' (g r)) rows) = (if ev' = ev then map g rows else [])"
  by (cases "ev' = ev"; induction rows) (simp_all add: map_filter_simps)

lemma concat_map_singleton: "concat (map (\<lambda>x. [g x]) xs) = map g xs"
  by (induction xs) simp_all

lemma concat_map_Nil: "concat (map (\<lambda>x. []) xs) = []"
  by (induction xs) simp_all

lemma handlers_column:
  "handlers ev (column as cell rows) =
     List.map_filter (\<lambda>a. case a of On e f \<Rightarrow> if e = ev then Some f else None | _ \<Rightarrow> None) as
     @ concat (map (\<lambda>r. concat (map (handlers ev) (cell r))) rows)"
  by (induction rows) (simp_all add: column_def map_filter_simps)

lemmas handler_simps = handlers_column map_filter_append map_filter_map_On map_filter_simps
  concat_map_singleton concat_map_Nil

subsection \<open>Fragments both chart pages use\<close>

definition chart_card :: "string \<Rightarrow> chart_option \<Rightarrow> 'act vnode" where
  "chart_card header copt = El ''el-col'' [Bind ''span'' (BInt 12)]
     [El ''el-card'' [Bind ''header'' (BStr header)]
        [El ''v-chart'' [Bind ''option'' (BChart copt), Attr ''autoresize'' ''''] []]]"

definition error_alert :: "string option \<Rightarrow> 'act vnode list" where
  "error_alert err = (case err of
     None \<Rightarrow> []
   | Some e \<Rightarrow> v_if (e \<noteq> []) (El ''div'' []
       [El ''el-alert'' [Bind ''title'' (BStr e), Attr ''type'' ''error'', Attr ''show-icon'' ''''] []]))"

subsection \<open>Dependence on the translation function\<close>

text \<open>Two translation functions agree on a list of keys.\<close>

definition agree_on :: "string list \<Rightarrow> translate \<Rightarrow> translate \<Rightarrow> bool" where
  "agree_on ks t1 t2 \<longleftrightarrow> (\<forall>k\<in>set ks. t1 k = t2 k)"

lemma agree_onD: "agree_on ks t1 t2 \<Longrightarrow> k \<in> set ks \<Longrightarrow> t1 k = t2 k"
  by (simp add: agree_on_def)

subsection \<open>Points of a chart\<close>

record TimeSeriesPoint =
  time :: string
  point_values :: "(string \<times> jsnum) list"

text \<open>\<^verbatim>\<open>p[field]\<close>, with \<^term>\<open>None\<close> for \<^verbatim>\<open>undefined\<close>.\<close>

definition point_field :: "TimeSeriesPoint \<Rightarrow> string \<Rightarrow> jsnum option" where
  "point_field p f = map_of (point_values p) f"

end
