(* ===== verification/DashboardView.thy ===== *)
theory DashboardView
  imports Composables AdminApi Vue
begin

section \<open>Dashboard.vue\<close>

text \<open>
  Models \<^verbatim>\<open>web/admin/src/views/Dashboard.vue\<close>.  The view polls \<^verbatim>\<open>/stats\<close> through \<^verbatim>\<open>usePolling\<close>; every
  new value starts a request for the cluster totals and appends one point to the charts, with the
  totals known at that moment.  Requests for the totals may settle at any time.  The clock label
  of a point (\<^verbatim>\<open>new Date().toLocaleTimeString()\<close>) is an input of the step that makes the point.
\<close>

subsection \<open>State and script\<close>

record dashboard =
  stats :: "Stats polling"
  points :: "TimeSeriesPoint list"
  clusterNodes :: "ClusterNodeStats list"
  selfNodeId :: string
  totalConnections :: int
  totalSubscriptions :: int
  totals_in_flight :: nat

definition or_num :: "int \<Rightarrow> int \<Rightarrow> int" where
  "or_num a b = (if a \<noteq> 0 then a else b)"

definition loadClusterStats :: "dashboard \<Rightarrow> dashboard" where
  "loadClusterStats d = d\<lparr>totals_in_flight := Suc (totals_in_flight d)\<rparr>"

fun loadClusterStats_settled :: "js_error + ClusterStats \<Rightarrow> dashboard \<Rightarrow> dashboard" where
  "loadClusterStats_settled (Inr cs) d =
     d\<lparr>clusterNodes := (case cs_nodes cs of None \<Rightarrow> [] | Some ns \<Rightarrow> ns),
       selfNodeId := cs_self cs,
       totalConnections := cs_total_connections cs,
       totalSubscriptions := cs_total_subscriptions cs,
       totals_in_flight := totals_in_flight d - 1\<rparr>"
| "loadClusterStats_settled (Inl e) d = d\<lparr>totals_in_flight := totals_in_flight d - 1\<rparr>"

definition dashboard_setup :: dashboard where
  "dashboard_setup = loadClusterStats
     \<lparr>stats = usePolling, points = [], clusterNodes = [], selfNodeId = [],
      totalConnections = 0, totalSubscriptions = 0, totals_in_flight = 0\<rparr>"

definition memory_alloc_mb :: "Stats \<Rightarrow> jsnum" where
  "memory_alloc_mb val = math_round (js_div (js_div (of_int (memory_alloc_bytes val)) 1024) 1024)"

definition stats_point :: "string \<Rightarrow> dashboard \<Rightarrow> Stats \<Rightarrow> TimeSeriesPoint" where
  "stats_point now d val =
     \<lparr>time = now,
      point_values =
        [(''connected_clients'', of_int (or_num (totalConnections d) (connected_clients val))),
         (''total_subscriptions'', of_int (or_num (totalSubscriptions d) (active_subscriptions val))),
         (''memory_alloc_mb'', memory_alloc_mb val),
         (''goroutines'', of_int (goroutines val))]\<rparr>"

text \<open>The watcher of \<open>stats\<close>: it runs after a request of the polling has stored a new value.\<close>

definition watch_stats :: "string \<Rightarrow> Stats \<Rightarrow> dashboard \<Rightarrow> dashboard" where
  "watch_stats now val d =
     (let d1 = loadClusterStats d in d1\<lparr>points := push 60 (stats_point now d1 val) (points d1)\<rparr>)"

definition stats_settled :: "string \<Rightarrow> js_error + Stats \<Rightarrow> dashboard \<Rightarrow> dashboard" where
  "stats_settled now r d =
     (let d1 = d\<lparr>stats := refresh_settled r (stats d)\<rparr>
      in case r of Inl e \<Rightarrow> d1 | Inr val \<Rightarrow> watch_stats now val d1)"

record stat_card =
  card_label :: string
  card_value :: int

definition statCards :: "translate \<Rightarrow> dashboard \<Rightarrow> stat_card list" where
  "statCards t d = (case data (stats d) of
     None \<Rightarrow> []
   | Some s \<Rightarrow>
      [\<lparr>card_label = t ''dashboard.onlineDevices'' [],
        card_value = or_num (totalConnections d) (connected_clients s)\<rparr>,
       \<lparr>card_label = t ''dashboard.activeSubscriptions'' [],
        card_value = or_num (totalSubscriptions d) (active_subscriptions s)\<rparr>,
       \<lparr>card_label = t ''dashboard.retainedMessages'' [], card_value = retained_messages s\<rparr>,
       \<lparr>card_label = t ''dashboard.clusterNodes'' [],
        card_value = or_num (int (length (clusterNodes d))) (cluster_nodes s)\<rparr>])"

definition makeLineOption :: "string \<Rightarrow> string \<Rightarrow> string \<Rightarrow> TimeSeriesPoint list \<Rightarrow> chart_option" where
  "makeLineOption label field unit pts =
     \<lparr>animation = False, tooltip_trigger = ''axis'', grid = (50, 20, 20, 30),
      xAxis_type = ''category'', xAxis_data = map time pts, xAxis_show = False,
      yAxis_type = ''value'', yAxis_name = unit,
      series_list = [\<lparr>s_name = label, s_type = ''line'', s_data = map (\<lambda>p. point_field p field) pts,
        s_smooth = True, s_showSymbol = False, s_opacity = 15 / 100, s_color = None\<rparr>]\<rparr>"

definition connectionsChartOption :: "translate \<Rightarrow> dashboard \<Rightarrow> chart_option" where
  "connectionsChartOption t d =
     makeLineOption (t ''dashboard.connections'' []) ''connected_clients'' '''' (points d)"

definition memoryChartOption :: "translate \<Rightarrow> dashboard \<Rightarrow> chart_option" where
  "memoryChartOption t d = makeLineOption (t ''dashboard.memory'' []) ''memory_alloc_mb'' ''MB'' (points d)"

definition goroutineChartOption :: "dashboard \<Rightarrow> chart_option" where
  "goroutineChartOption d = makeLineOption ''Goroutines'' ''goroutines'' '''' (points d)"

definition subsChartOption :: "translate \<Rightarrow> dashboard \<Rightarrow> chart_option" where
  "subsChartOption t d =
     makeLineOption (t ''dashboard.subscriptions'' []) ''total_subscriptions'' '''' (points d)"

subsection \<open>Template\<close>

definition node_tag :: "string \<Rightarrow> string \<Rightarrow> 'act vnode" where
  "node_tag self nid = El ''el-tag''
     [Attr ''size'' ''small'', Bind ''type'' (BStr (if nid = self then ''success'' else ''info''))]
     [Txt nid]"

definition dashboard_cards :: "translate \<Rightarrow> dashboard \<Rightarrow> 'act vnode" where
  "dashboard_cards t d = El ''el-row'' [Bind ''gutter'' (BInt 16)]
     (map (\<lambda>card. El ''el-col'' [Bind ''span'' (BInt 6)]
        [El ''el-card'' [Attr ''shadow'' ''hover'']
           [El ''div'' [] [El ''div'' [] [Txt (show_int (card_value card))],
                         El ''div'' [] [Txt (card_label card)]]]]) (statCards t d))"

definition dashboard_nodes :: "translate \<Rightarrow> dashboard \<Rightarrow> 'act vnode list" where
  "dashboard_nodes t d = (let rows = clusterNodes d in v_if (1 < length rows)
     (El ''el-card'' []
        [El ''template'' [Attr ''#header'' ''''] [Txt (t ''dashboard.nodeOverview'' [])],
         El ''el-table'' [Attr ''size'' ''small'', Attr ''stripe'' '''']
           [column [Attr ''prop'' ''node_id'', Bind ''label'' (BStr (t ''common.node'' []))]
              (\<lambda>r. [node_tag (selfNodeId d) (cns_node_id r)]) rows,
            column [Attr ''prop'' ''connections'', Bind ''label'' (BStr (t ''dashboard.connections'' []))]
              (\<lambda>r. [Txt (show_int (cns_connections r))]) rows,
            column [Attr ''prop'' ''subscriptions'', Bind ''label'' (BStr (t ''dashboard.subscriptions'' []))]
              (\<lambda>r. [Txt (show_int (cns_subscriptions r))]) rows,
            column [Attr ''prop'' ''retained'', Bind ''label'' (BStr (t ''dashboard.retained'' []))]
              (\<lambda>r. [Txt (show_int (cns_retained r))]) rows]]))"

definition dashboard_template :: "translate \<Rightarrow> dashboard \<Rightarrow> 'act vnode" where
  "dashboard_template t d = El ''div'' []
     ([dashboard_cards t d] @ dashboard_nodes t d @
      [El ''el-row'' [Bind ''gutter'' (BInt 16)]
         [chart_card (t ''dashboard.connectionsTrend'' []) (connectionsChartOption t d),
          chart_card (t ''dashboard.memoryTrend'' []) (memoryChartOption t d)],
       El ''el-row'' [Bind ''gutter'' (BInt 16)]
         [chart_card (t ''dashboard.goroutineTrend'' []) (goroutineChartOption d),
          chart_card (t ''dashboard.subscriptionsTrend'' []) (subsChartOption t d)]] @
      error_alert (error (stats d)))"

lemmas dashboard_view_defs = dashboard_template_def dashboard_cards_def dashboard_nodes_def
  statCards_def connectionsChartOption_def memoryChartOption_def goroutineChartOption_def
  subsChartOption_def

subsection \<open>Life of the view\<close>

datatype dash_event =
    DMount
  | DUnmount
  | DTick
  | DStats string "js_error + Stats"
  | DTotals "js_error + ClusterStats"

fun dash_enabled :: "dash_event \<Rightarrow> phase \<Rightarrow> dashboard \<Rightarrow> bool" where
  "dash_enabled DMount ph d = (ph = Created)"
| "dash_enabled DUnmount ph d = (ph = Mounted)"
| "dash_enabled DTick ph d = (intervals (page_timers (stats d)) \<noteq> [])"
| "dash_enabled (DStats now r) ph d = (0 < in_flight (stats d))"
| "dash_enabled (DTotals r) ph d = (0 < totals_in_flight d)"

fun dash_step :: "dash_event \<Rightarrow> phase \<times> dashboard \<Rightarrow> phase \<times> dashboard" where
  "dash_step DMount (ph, d) = (Mounted, d\<lparr>stats := onMounted 5000 (stats d)\<rparr>)"
| "dash_step DUnmount (ph, d) = (Unmounted, d\<lparr>stats := onUnmounted (stats d)\<rparr>)"
| "dash_step DTick (ph, d) = (ph, d\<lparr>stats := refresh (stats d)\<rparr>)"
| "dash_step (DStats now r) (ph, d) =
     (ph, if ph = Unmounted then d\<lparr>stats := refresh_settled r (stats d)\<rparr> else stats_settled now r d)"
| "dash_step (DTotals r) (ph, d) = (ph, loadClusterStats_settled r d)"

inductive dash_run :: "dash_event list \<Rightarrow> phase \<Rightarrow> dashboard \<Rightarrow> bool" where
  dash_init: "dash_run [] Created dashboard_setup"
| dash_next: "dash_run es ph d \<Longrightarrow> dash_enabled e ph d \<Longrightarrow> dash_step e (ph, d) = (ph', d') \<Longrightarrow>
     dash_run (es @ [e]) ph' d'"

text \<open>
  What the charts are to show, computed from the events alone: the totals known after a history,
  and one point per value received while the watcher was active (Vue stops it when the component
  is unmounted), with the totals known when it was received.
\<close>

fun known_totals :: "int \<times> int \<Rightarrow> dash_event list \<Rightarrow> int \<times> int" where
  "known_totals k [] = k"
| "known_totals k (DTotals (Inr cs) # es) = known_totals (cs_total_connections cs, cs_total_subscriptions cs) es"
| "known_totals k (e # es) = known_totals k es"

definition trend_point :: "string \<Rightarrow> int \<times> int \<Rightarrow> Stats \<Rightarrow> TimeSeriesPoint" where
  "trend_point now k v =
     \<lparr>time = now, point_values =
        [(''connected_clients'', of_int (if fst k = 0 then connected_clients v else fst k)),
         (''total_subscriptions'', of_int (if snd k = 0 then active_subscriptions v else snd k)),
         (''memory_alloc_mb'', memory_alloc_mb v), (''goroutines'', of_int (goroutines v))]\<rparr>"

fun trend :: "int \<times> int \<Rightarrow> dash_event list \<Rightarrow> TimeSeriesPoint list" where
  "trend k [] = []"
| "trend k (DStats now (Inr v) # es) = trend_point now k v # trend k es"
| "trend k (DTotals (Inr cs) # es) = trend (cs_total_connections cs, cs_total_subscriptions cs) es"
| "trend k (DUnmount # es) = []"
| "trend k (e # es) = trend k es"

lemma known_totals_append: "known_totals k (a @ b) = known_totals (known_totals k a) b"
  by (induction k a rule: known_totals.induct) auto

lemma trend_append:
  "trend k (a @ b) = trend k a @ (if DUnmount \<in> set a then [] else trend (known_totals k a) b)"
  by (induction k a rule: trend.induct) auto

lemma dash_run_unmounted: "dash_run es ph d \<Longrightarrow> ph = Unmounted \<longleftrightarrow> DUnmount \<in> set es"
proof (induction rule: dash_run.induct)
  case (dash_next es ph d e ph' d')
  then show ?case by (cases e) auto
qed simp

definition totals :: "dashboard \<Rightarrow> int \<times> int" where
  "totals d = (totalConnections d, totalSubscriptions d)"

lemma totals_simps [simp]:
  "totals (d\<lparr>stats := p\<rparr>) = totals d" "totals (loadClusterStats d) = totals d"
  "totals (stats_settled now r d) = totals d"
  by (auto simp: totals_def loadClusterStats_def stats_settled_def watch_stats_def Let_def split: sum.splits)

lemma totals_settled: "totals (loadClusterStats_settled r d) = known_totals (totals d) [DTotals r]"
  by (cases r) (simp_all add: totals_def)

lemma dash_step_totals:
  "dash_step e (ph, d) = (ph', d') \<Longrightarrow> totals d' = known_totals (totals d) [e]"
  by (cases e) (auto simp: totals_settled simp del: loadClusterStats_settled.simps)

lemma stats_point_trend: "stats_point now d v = trend_point now (totals d) v"
  by (simp add: stats_point_def trend_point_def totals_def or_num_def)

lemma loadClusterStats_points [simp]: "points (loadClusterStats d) = points d"
  by (simp add: loadClusterStats_def)

lemma loadClusterStats_settled_points [simp]: "points (loadClusterStats_settled r d) = points d"
  by (cases r) simp_all

lemma stats_settled_points:
  "points (stats_settled now (Inl x) d) = points d"
  "points (stats_settled now (Inr v) d) = push 60 (trend_point now (totals d) v) (points d)"
  by (simp_all add: stats_settled_def watch_stats_def Let_def stats_point_trend)

lemma dash_step_points:
  assumes "dash_step e (ph, d) = (ph', d')" and "points d = last_n 60 h"
  shows "points d' = last_n 60 (h @ (if ph = Unmounted then [] else trend (totals d) [e]))"
proof (cases "\<exists>now v. e = DStats now (Inr v) \<and> ph \<noteq> Unmounted")
  case True
  then obtain now v where e: "e = DStats now (Inr v)" and ph: "ph \<noteq> Unmounted" by auto
  then have "points d' = last_n 59 (last_n 60 h) @ [trend_point now (totals d) v]"
    using assms by (auto simp: stats_settled_points chart60.push_keeps)
  then show ?thesis using e ph by (simp add: last_n_last_n last_n_snoc)
next
  case False
  have "trend (totals d) [e] = [] \<or> ph = Unmounted"
    using False by (cases "(totals d, [e])" rule: trend.cases) auto
  moreover have "points d' = points d"
    using False assms(1) by (cases "(totals d, [e])" rule: trend.cases) (auto simp: stats_settled_points split: if_splits)
  ultimately show ?thesis using assms(2) by auto
qed

lemma dash_run_charts:
  "dash_run es ph d \<Longrightarrow> totals d = known_totals (0, 0) es \<and> points d = last_n 60 (trend (0, 0) es)"
proof (induction rule: dash_run.induct)
  case dash_init
  then show ?case by (simp add: dashboard_setup_def loadClusterStats_def totals_def last_n_def)
next
  case (dash_next es ph d e ph' d')
  then show ?case
    using dash_step_points [OF dash_next.hyps(3), of "trend (0, 0) es"] dash_run_unmounted [OF dash_next.hyps(1)]
      dash_step_totals [OF dash_next.hyps(3)]
    by (simp add: trend_append known_totals_append)
qed

subsection \<open>Properties\<close>

text \<open>C31: In every run of the dashboard, whatever the order in which statistics and cluster totals
  settle or fail and whenever the view is unmounted, the trend charts hold exactly the last sixty
  values received while mounted, oldest first: each with its time label, its memory and goroutine
  count, and with the cluster totals known when it was received, a total of zero giving way to
  the node's own count.\<close>

theorem dashboard_charts:
  assumes "dash_run es ph d"
  shows "points d = last_n 60 (trend (0, 0) es)"
  using dash_run_charts [OF assms] by simp

definition dash_sample :: Stats where
  "dash_sample = \<lparr>st_node_id = ''n1'', connected_clients = 3, active_subscriptions = 4,
     retained_messages = 0, cluster_nodes = 1, uptime_seconds = 7, goroutines = 12,
     memory_alloc_bytes = 5242880, memory_sys_bytes = 10485760, gc_pause_total_ns = 0\<rparr>"

definition dash_mounted :: dashboard where
  "dash_mounted = dashboard_setup\<lparr>stats := onMounted 5000 usePolling\<rparr>"

lemma dash_run_sample:
  "dash_run [DMount, DStats ''9:00'' (Inr dash_sample)] Mounted (stats_settled ''9:00'' (Inr dash_sample) dash_mounted)"
proof -
  have "dash_run ([] @ [DMount]) Mounted dash_mounted"
    by (rule dash_next [OF dash_init]) (simp_all add: dash_mounted_def dashboard_setup_def loadClusterStats_def)
  from dash_next [OF this, of "DStats ''9:00'' (Inr dash_sample)"] show ?thesis
    by (simp add: dash_mounted_def onMounted_def refresh_def Let_def case_prod_beta)
qed

theorem dashboard_charts_witness:
  "points (stats_settled ''9:00'' (Inr dash_sample) dash_mounted) = [trend_point ''9:00'' (0, 0) dash_sample]"
  using dashboard_charts [OF dash_run_sample] by (simp add: last_n_def)

end
