(* ===== verification/MetricsView.thy ===== *)
theory MetricsView
  imports Composables AdminApi Vue
begin

section \<open>Metrics.vue\<close>

text \<open>
  Models \<^verbatim>\<open>web/admin/src/views/Metrics.vue\<close>: the chart points made from a polled value, with every
  floating-point operation rounded as JavaScript rounds it, the texts of the three cards, and the
  template.
\<close>

subsection \<open>Script\<close>

record metrics_view =
  m_stats :: "Stats polling"
  m_points :: "TimeSeriesPoint list"

definition metrics_setup :: metrics_view where
  "metrics_setup = \<lparr>m_stats = usePolling, m_points = []\<rparr>"

definition megabytes :: "int \<Rightarrow> jsnum" where
  "megabytes b = js_div (math_round (js_mul (js_div (js_div (of_int b) 1024) 1024) 10)) 10"

definition gc_pause_ms :: "int \<Rightarrow> jsnum" where
  "gc_pause_ms ns = js_div (math_round (js_mul (js_div (of_int ns) 1000000) 100)) 100"

definition metrics_point :: "string \<Rightarrow> Stats \<Rightarrow> TimeSeriesPoint" where
  "metrics_point now val =
     \<lparr>time = now,
      point_values = [(''alloc_mb'', megabytes (memory_alloc_bytes val)),
                      (''sys_mb'', megabytes (memory_sys_bytes val)),
                      (''goroutines'', of_int (goroutines val)),
                      (''gc_pause_ms'', gc_pause_ms (gc_pause_total_ns val))]\<rparr>"

definition metrics_watch :: "string \<Rightarrow> Stats \<Rightarrow> metrics_view \<Rightarrow> metrics_view" where
  "metrics_watch now val m = m\<lparr>m_points := push 60 (metrics_point now val) (m_points m)\<rparr>"

text \<open>A poll that settles while the view is mounted, when the watcher is active.\<close>

definition metrics_settled :: "string \<Rightarrow> js_error + Stats \<Rightarrow> metrics_view \<Rightarrow> metrics_view" where
  "metrics_settled now r m =
     (let m1 = m\<lparr>m_stats := refresh_settled r (m_stats m)\<rparr>
      in case r of Inl e \<Rightarrow> m1 | Inr val \<Rightarrow> metrics_watch now val m1)"

text \<open>\<^verbatim>\<open>Math.floor(x / n)\<close> on integers, and \<^verbatim>\<open>%\<close>, which is exact on integers.\<close>

definition floor_div :: "int \<Rightarrow> int \<Rightarrow> int" where
  "floor_div x n = \<lfloor>js_div (of_int x) (of_int n)\<rfloor>"

definition uptime_text :: "int \<Rightarrow> string" where
  "uptime_text s =
     (let d = floor_div s 86400; h = floor_div (s mod 86400) 3600; m = floor_div (s mod 3600) 60 in
      if 0 < d then show_int d @ ''d '' @ show_int h @ ''h '' @ show_int m @ ''m''
      else if 0 < h then show_int h @ ''h '' @ show_int m @ ''m''
      else show_int m @ ''m '' @ show_int (s mod 60) @ ''s'')"

definition uptimeDisplay :: "metrics_view \<Rightarrow> string" where
  "uptimeDisplay m = (case data (m_stats m) of None \<Rightarrow> ''-'' | Some st \<Rightarrow> uptime_text (uptime_seconds st))"

definition latestGoroutines :: "metrics_view \<Rightarrow> string" where
  "latestGoroutines m = (case data (m_stats m) of None \<Rightarrow> ''-'' | Some st \<Rightarrow> show_int (goroutines st))"

definition latestGcPause :: "metrics_view \<Rightarrow> string" where
  "latestGcPause m = (case data (m_stats m) of
     None \<Rightarrow> ''-''
   | Some st \<Rightarrow> to_fixed1 (js_div (of_int (gc_pause_total_ns st)) 1000000) @ ''ms'')"

definition makeAreaOption ::
    "string \<Rightarrow> string \<Rightarrow> string \<Rightarrow> string \<Rightarrow> TimeSeriesPoint list \<Rightarrow> chart_option" where
  "makeAreaOption label field unit color pts =
     \<lparr>animation = False, tooltip_trigger = ''axis'', grid = (60, 20, 20, 30),
      xAxis_type = ''category'', xAxis_data = map time pts, xAxis_show = False,
      yAxis_type = ''value'', yAxis_name = unit,
      series_list = [\<lparr>s_name = label, s_type = ''line'', s_data = map (\<lambda>p. point_field p field) pts,
        s_smooth = True, s_showSymbol = False, s_opacity = 2 / 10, s_color = Some color\<rparr>]\<rparr>"

definition allocChartOption :: "metrics_view \<Rightarrow> chart_option" where
  "allocChartOption m = makeAreaOption ''Alloc'' ''alloc_mb'' ''MB'' ''#409eff'' (m_points m)"

definition sysChartOption :: "metrics_view \<Rightarrow> chart_option" where
  "sysChartOption m = makeAreaOption ''Sys'' ''sys_mb'' ''MB'' ''#67c23a'' (m_points m)"

definition metrics_goroutineChartOption :: "metrics_view \<Rightarrow> chart_option" where
  "metrics_goroutineChartOption m = makeAreaOption ''Goroutines'' ''goroutines'' '''' ''#e6a23c'' (m_points m)"

definition gcChartOption :: "metrics_view \<Rightarrow> chart_option" where
  "gcChartOption m = makeAreaOption ''GC Pause'' ''gc_pause_ms'' ''ms'' ''#f56c6c'' (m_points m)"

subsection \<open>Template\<close>

definition metric_card :: "string \<Rightarrow> string \<Rightarrow> 'act vnode" where
  "metric_card val label = El ''el-col'' [Bind ''span'' (BInt 8)]
     [El ''el-card'' [] [El ''div'' [] [El ''div'' [] [Txt val], El ''div'' [] [Txt label]]]]"

definition metrics_template :: "translate \<Rightarrow> metrics_view \<Rightarrow> 'act vnode" where
  "metrics_template t m = El ''div'' []
     ([El ''el-row'' [Bind ''gutter'' (BInt 16)]
         [metric_card (uptimeDisplay m) (t ''metrics.uptime'' []),
          metric_card (latestGoroutines m) ''Goroutines'',
          metric_card (latestGcPause m) (t ''metrics.gcPause'' [])],
       El ''el-row'' [Bind ''gutter'' (BInt 16)]
         [chart_card (t ''metrics.memoryAlloc'' []) (allocChartOption m),
          chart_card (t ''metrics.memorySys'' []) (sysChartOption m)],
       El ''el-row'' [Bind ''gutter'' (BInt 16)]
         [chart_card (t ''metrics.goroutineCount'' []) (metrics_goroutineChartOption m),
          chart_card (t ''metrics.gcPauseTime'' []) (gcChartOption m)]] @
      error_alert (error (m_stats m)))"

subsection \<open>Numbers shown\<close>

lemma floor_div_eq: "0 \<le> x \<Longrightarrow> x < 2 ^ 53 \<Longrightarrow> 0 < n \<Longrightarrow> floor_div x n = x div n"
  by (simp add: floor_div_def floor_js_div)

lemma div_eq: "x = n * q + r \<Longrightarrow> 0 \<le> r \<Longrightarrow> r < n \<Longrightarrow> x div n = q" for x :: int
  by simp

lemma mod_eq: "x = n * q + r \<Longrightarrow> 0 \<le> r \<Longrightarrow> r < n \<Longrightarrow> x mod n = r" for x :: int
  by simp

lemma megabytes_eq:
  assumes "0 \<le> b" and "10 * b < 2 ^ 53"
  shows "megabytes b = fl (of_int ((10 * b + 2 ^ 19) div 2 ^ 20) / 10)"
proof -
  have b: "\<bar>b\<bar> < 2 ^ 53" and tb: "\<bar>10 * b\<bar> < 2 ^ 53" using assms by linarith+
  have "(of_int b / 2 ^ 20 * 10 :: rat) = of_int (10 * b) * scale2 (- 20)" by (simp add: scale2_def)
  then have "js_mul (js_div (js_div (of_int b) 1024) 1024) 10 = of_int (10 * b) * scale2 (- 20)"
    using fl_exact [OF tb] by (simp only: js_mul_def js_div_1024_twice [OF b])
  also have "\<dots> + 1 / 2 = of_int (10 * b + 2 ^ 19) / of_int (2 ^ 20)" by (simp add: scale2_def)
  finally have "\<lfloor>js_mul (js_div (js_div (of_int b) 1024) 1024) 10 + 1 / 2\<rfloor> = (10 * b + 2 ^ 19) div 2 ^ 20"
    by (simp only: floor_divide_of_int_eq)
  then show ?thesis by (simp add: megabytes_def math_round_def js_div_def)
qed

lemma memory_round_eq:
  assumes "0 \<le> b" and "b < 2 ^ 53"
  shows "math_round (js_div (js_div (of_int b) 1024) 1024) = of_int ((b + 2 ^ 19) div 2 ^ 20)"
proof -
  have b: "\<bar>b\<bar> < 2 ^ 53" using assms by linarith
  have "(of_int b / 2 ^ 20 + 1 / 2 :: rat) = of_int (b + 2 ^ 19) / of_int (2 ^ 20)" by (simp add: field_simps)
  then have "\<lfloor>of_int b / 2 ^ 20 + 1 / 2 :: rat\<rfloor> = (b + 2 ^ 19) div 2 ^ 20"
    by (simp only: floor_divide_of_int_eq)
  then show ?thesis by (simp add: math_round_def js_div_1024_twice [OF b])
qed

lemma gc_pause_error:
  assumes "0 \<le> ns" and "ns < 2 ^ 53"
  shows "\<bar>gc_pause_ms ns - of_int ns / 1000000\<bar> \<le> 501 / 100000"
proof -
  define x where "x = (of_int ns / 1000000 :: rat)"
  define a where "a = js_div (of_int ns) 1000000"
  define b where "b = js_mul a 100"
  define c where "c = math_round b"
  have n: "(of_int ns :: rat) < of_int (2 ^ 53)" using assms(2) by (simp only: of_int_less_iff)
  have x: "0 \<le> x" "x < 9007199255" using assms n by (simp_all add: x_def)
  have "\<bar>a - x\<bar> \<le> \<bar>x\<bar> / 2 ^ 53" using fl_error [of x] by (simp only: a_def js_div_def x_def)
  also have "\<dots> \<le> 1 / 900000" using x by simp
  finally have ea: "\<bar>a - x\<bar> \<le> 1 / 900000" .
  then have a: "\<bar>a\<bar> \<le> 9007199256" using x by linarith
  have "\<bar>b - a * 100\<bar> \<le> \<bar>a * 100\<bar> / 2 ^ 53"
    using fl_error [of "a * 100"] by (simp only: b_def js_mul_def)
  also have "\<dots> \<le> 1 / 9000" using a by (simp add: abs_mult)
  finally have eb: "\<bar>b - a * 100\<bar> \<le> 1 / 9000" .
  have ec: "\<bar>c - b\<bar> \<le> 1 / 2" unfolding c_def by (rule math_round_error)
  have c: "\<bar>c / 100\<bar> \<le> 9007199257" using a eb ec by linarith
  have "\<bar>js_div c 100 - c / 100\<bar> \<le> \<bar>c / 100\<bar> / 2 ^ 53"
    using fl_error [of "c / 100"] by (simp only: js_div_def)
  also have "\<dots> \<le> 1 / 900000" using c by simp
  finally have ed: "\<bar>js_div c 100 - c / 100\<bar> \<le> 1 / 900000" .
  have g: "gc_pause_ms ns = js_div c 100" by (simp add: gc_pause_ms_def c_def b_def a_def)
  show ?thesis using ea eb ec ed unfolding g x_def [symmetric] by linarith
qed

subsection \<open>Properties\<close>

text \<open>The uptime card is exact for every uptime below \<open>2 ^ 53\<close> seconds, in spite of the floating-point
  divisions: for an uptime of \<open>d\<close> days, \<open>h\<close> hours, \<open>mi\<close> minutes and \<open>sec\<close> seconds it prints these
  numbers, from the largest non-zero unit on, and drops the seconds from one hour on.\<close>

theorem uptimeDisplay_exact:
  assumes "data (m_stats m) = Some st"
    and "uptime_seconds st = 86400 * d + 3600 * h + 60 * mi + sec" and "uptime_seconds st < 2 ^ 53"
    and "0 \<le> d" and "0 \<le> h" and "h < 24" and "0 \<le> mi" and "mi < 60" and "0 \<le> sec" and "sec < 60"
  shows "uptimeDisplay m =
           (if 0 < d then show_int d @ ''d '' @ show_int h @ ''h '' @ show_int mi @ ''m''
            else if 0 < h then show_int h @ ''h '' @ show_int mi @ ''m''
            else show_int mi @ ''m '' @ show_int sec @ ''s'')"
proof -
  let ?s = "uptime_seconds st"
  have s: "0 \<le> ?s" using assms by linarith
  have lt: "?s mod n < 2 ^ 53" if "0 < n" for n :: int
    using s assms(3) that by (metis le_less_trans zmod_le_nonneg_dividend)
  have d: "?s div 86400 = d" by (rule div_eq [of _ _ _ "3600 * h + 60 * mi + sec"]) (use assms in linarith)+
  have m1: "?s mod 86400 = 3600 * h + 60 * mi + sec" by (rule mod_eq [of _ _ d]) (use assms in linarith)+
  have h: "?s mod 86400 div 3600 = h" by (rule div_eq [of _ _ _ "60 * mi + sec"]) (use assms m1 in linarith)+
  have m2: "?s mod 3600 = 60 * mi + sec" by (rule mod_eq [of _ _ "24 * d + h"]) (use assms in \<open>simp_all add: distrib_left\<close>)
  have m: "?s mod 3600 div 60 = mi" by (rule div_eq [of _ _ _ sec]) (use assms m2 in linarith)+
  have m3: "?s mod 60 = sec" by (rule mod_eq [of _ _ "1440 * d + 60 * h + mi"]) (use assms in \<open>simp_all add: distrib_left\<close>)
  have f: "floor_div ?s 86400 = d" "floor_div (?s mod 86400) 3600 = h" "floor_div (?s mod 3600) 60 = mi"
    using s assms(3) lt d h m by (simp_all only: floor_div_eq pos_mod_sign zero_less_numeral)
  show ?thesis by (simp only: uptimeDisplay_def uptime_text_def assms(1) option.case Let_def f m3)
qed

definition sample_stats :: Stats where
  "sample_stats = \<lparr>st_node_id = ''n1'', connected_clients = 3, active_subscriptions = 4,
     retained_messages = 0, cluster_nodes = 1, uptime_seconds = 90061, goroutines = 12,
     memory_alloc_bytes = 5242880, memory_sys_bytes = 10485760, gc_pause_total_ns = 1500000\<rparr>"

theorem uptimeDisplay_exact_witness:
  "uptimeDisplay (metrics_settled ''t'' (Inr sample_stats) metrics_setup) =
     show_int 1 @ ''d '' @ show_int 1 @ ''h '' @ show_int 1 @ ''m''"
  using uptimeDisplay_exact [of "metrics_settled ''t'' (Inr sample_stats) metrics_setup" sample_stats 1 1 1 1]
  by (simp add: metrics_settled_def metrics_watch_def sample_stats_def Let_def)

text \<open>Memory sizes are charted to the nearest tenth of a MiB for every size whose
  tenfold is below \<open>2 ^ 53\<close>: the divisions and the multiplication are exact there, and the value is
  the double nearest to that number of tenths.\<close>

theorem megabytes_nearest_tenth:
  assumes "0 \<le> b" and "10 * b < 2 ^ 53"
  shows "\<exists>k. megabytes b = fl (of_int k / 10) \<and> \<bar>of_int k - of_int (10 * b) / 2 ^ 20\<bar> \<le> (1 / 2 :: rat)"
proof (intro exI conjI)
  let ?k = "(10 * b + 2 ^ 19) div 2 ^ 20"
  show "megabytes b = fl (of_int ?k / 10)" using assms by (rule megabytes_eq)
  have "(of_int (10 * b) / 2 ^ 20 + 1 / 2 :: rat) = of_int (10 * b + 2 ^ 19) / of_int (2 ^ 20)"
    by (simp add: field_simps)
  then have "\<lfloor>of_int (10 * b) / 2 ^ 20 + 1 / 2 :: rat\<rfloor> = ?k" by (simp only: floor_divide_of_int_eq)
  then show "\<bar>of_int ?k - of_int (10 * b) / 2 ^ 20\<bar> \<le> (1 / 2 :: rat)" by linarith
qed

theorem megabytes_nearest_tenth_witness:
  "\<exists>k. megabytes 5242880 = fl (of_int k / 10) \<and> \<bar>of_int k - 50\<bar> \<le> (1 / 2 :: rat)"
  using megabytes_nearest_tenth [of 5242880] by simp

end
