(* ===== verification/DevicesView.thy ===== *)
theory DevicesView
  imports Browser AdminApi Vue
begin

section \<open>Devices.vue\<close>

text \<open>
  Models \<^verbatim>\<open>web/admin/src/views/Devices.vue\<close>: the device table with its search box, the polling with
  error recovery, the detail drawer and the disconnect action.  Every asynchronous function is
  split at its \<^verbatim>\<open>await\<close>: the operation itself starts a request, and the operation with suffix
  \<open>_settled\<close> is the rest of its body, run when that request settles.  Two functions of the platform
  are parameters: \<open>lc\<close> is \<^verbatim>\<open>toLowerCase\<close> (the Unicode case tables) and \<open>fmt\<close> is
  \<^verbatim>\<open>new Date(iso).toLocaleString()\<close>.
\<close>

subsection \<open>State and script\<close>

datatype devices_callback = LoadDevicesCallback

record devices_view =
  searchText :: string
  devices :: "DeviceSummary list"
  devices_loading :: bool
  clusterMode :: bool
  currentNodeId :: string
  drawerVisible :: bool
  selectedId :: string
  deviceDetail :: "DeviceDetail option"
  detailLoading :: bool
  pollInterval :: nat
  pollTimer :: nat
  consecutiveErrors :: nat
  dv_timers :: "devices_callback timers"
  dv_messages :: "el_message list"
  loads_in_flight :: nat
  details_in_flight :: "string list"
  disconnects_in_flight :: "string list"

definition filteredDevices :: "(string \<Rightarrow> string) \<Rightarrow> devices_view \<Rightarrow> DeviceSummary list" where
  "filteredDevices lc s =
     (if searchText s = [] then devices s
      else (let q = lc (searchText s) in
        filter (\<lambda>d. str_includes (lc (client_id d)) q \<or>
                    (\<exists>tp\<in>set (case subscriptions d of None \<Rightarrow> [] | Some ts \<Rightarrow> ts). str_includes (lc tp) q))
          (devices s)))"

definition subscriptionList :: "devices_view \<Rightarrow> (string \<times> int) list" where
  "subscriptionList s = (case deviceDetail s of
     None \<Rightarrow> []
   | Some d \<Rightarrow> (case session d of
       None \<Rightarrow> []
     | Some ses \<Rightarrow> (case session_subscriptions ses of None \<Rightarrow> [] | Some subs \<Rightarrow> subs)))"

definition loadDevices :: "devices_view \<Rightarrow> devices_view" where
  "loadDevices s = s\<lparr>devices_loading := True, loads_in_flight := Suc (loads_in_flight s)\<rparr>"

definition notify :: "el_message \<Rightarrow> devices_view \<Rightarrow> devices_view" where
  "notify m s = s\<lparr>dv_messages := dv_messages s @ [m]\<rparr>"

text \<open>\<^verbatim>\<open>clearInterval(pollTimer); pollInterval = ms; pollTimer = setInterval(loadDevices, pollInterval)\<close>\<close>

definition restart_poll :: "nat \<Rightarrow> devices_view \<Rightarrow> devices_view" where
  "restart_poll ms s =
     (let t = clearInterval (pollTimer s) (dv_timers s);
          (h, t') = setInterval LoadDevicesCallback ms t
      in s\<lparr>pollInterval := ms, pollTimer := h, dv_timers := t'\<rparr>)"

definition node_ids :: "DeviceSummary list \<Rightarrow> string list" where
  "node_ids ds = remdups (filter (\<lambda>n. n \<noteq> []) (List.map_filter node_id ds))"

fun loadDevices_settled :: "js_error + ClusterDeviceListResponse \<Rightarrow> devices_view \<Rightarrow> devices_view" where
  "loadDevices_settled (Inr res) s =
     (let ds = (case cdl_devices res of None \<Rightarrow> [] | Some ds \<Rightarrow> ds);
          s1 = s\<lparr>devices := ds, currentNodeId := cdl_self res, clusterMode := 1 < length (node_ids ds)\<rparr>;
          s2 = (if 0 < consecutiveErrors s1
                then notify (MsgSuccess ''devices.connectionRestored'' [])
                       (restart_poll 5000 (s1\<lparr>consecutiveErrors := 0\<rparr>))
                else s1)
      in s2\<lparr>devices_loading := False, loads_in_flight := loads_in_flight s2 - 1\<rparr>)"
| "loadDevices_settled (Inl e) s =
     (let s1 = s\<lparr>consecutiveErrors := Suc (consecutiveErrors s)\<rparr>;
          s2 = (if consecutiveErrors s1 = 1
                then (let s' = notify (MsgError ''devices.loadFailed'' []) s1
                      in restart_poll (min (pollInterval s' * 2) 30000) s')
                else s1)
      in s2\<lparr>devices_loading := False, loads_in_flight := loads_in_flight s2 - 1\<rparr>)"

definition handleRefresh :: "devices_view \<Rightarrow> devices_view" where
  "handleRefresh s = loadDevices (s\<lparr>searchText := []\<rparr>)"

definition handleDisconnect :: "string \<Rightarrow> devices_view \<Rightarrow> devices_view" where
  "handleDisconnect i s = s\<lparr>disconnects_in_flight := disconnects_in_flight s @ [i]\<rparr>"

fun handleDisconnect_settled :: "string \<Rightarrow> js_error + unit \<Rightarrow> devices_view \<Rightarrow> devices_view" where
  "handleDisconnect_settled i (Inr _) s =
     loadDevices (notify (MsgSuccess ''devices.disconnected'' [(''id'', i)])
       (s\<lparr>disconnects_in_flight := remove1 i (disconnects_in_flight s)\<rparr>))"
| "handleDisconnect_settled i (Inl e) s =
     notify (MsgError ''devices.disconnectFailed'' [])
       (s\<lparr>disconnects_in_flight := remove1 i (disconnects_in_flight s)\<rparr>)"

definition showDetail :: "string \<Rightarrow> devices_view \<Rightarrow> devices_view" where
  "showDetail i s = s\<lparr>selectedId := i, drawerVisible := True, detailLoading := True,
                      details_in_flight := details_in_flight s @ [i]\<rparr>"

fun showDetail_settled :: "string \<Rightarrow> js_error + DeviceDetail \<Rightarrow> devices_view \<Rightarrow> devices_view" where
  "showDetail_settled i (Inr d) s =
     s\<lparr>deviceDetail := Some d, detailLoading := False,
       details_in_flight := remove1 i (details_in_flight s)\<rparr>"
| "showDetail_settled i (Inl e) s =
     (notify (MsgError ''devices.loadDetailFailed'' []) s)
       \<lparr>detailLoading := False, details_in_flight := remove1 i (details_in_flight s)\<rparr>"

definition formatProtocol :: "int \<Rightarrow> string" where
  "formatProtocol v = (case map_of [(3, ''v3.1''), (4, ''v3.1.1''), (5, ''v5.0'')] v of
     Some s \<Rightarrow> s | None \<Rightarrow> ''v'' @ show_int v)"

definition formatTime :: "(string \<Rightarrow> string) \<Rightarrow> string \<Rightarrow> string" where
  "formatTime fmt stamp = fmt stamp"

text \<open>The body of \<^verbatim>\<open>script setup\<close>: the timer is set before the first load starts.\<close>

definition devices_setup :: devices_view where
  "devices_setup =
     (let (h, t) = setInterval LoadDevicesCallback 5000 no_timers in loadDevices
       \<lparr>searchText = [], devices = [], devices_loading = False, clusterMode = False,
        currentNodeId = [], drawerVisible = False, selectedId = [], deviceDetail = None,
        detailLoading = False, pollInterval = 5000, pollTimer = h, consecutiveErrors = 0,
        dv_timers = t, dv_messages = [], loads_in_flight = 0, details_in_flight = [],
        disconnects_in_flight = []\<rparr>)"

definition devices_onUnmounted :: "devices_view \<Rightarrow> devices_view" where
  "devices_onUnmounted s = s\<lparr>dv_timers := clearInterval (pollTimer s) (dv_timers s)\<rparr>"

subsection \<open>Template\<close>

datatype devices_action =
    DoLoadDevices | DoHandleRefresh | DoHandleDisconnect string | DoShowDetail string

definition devices_header :: "translate \<Rightarrow> devices_view \<Rightarrow> devices_action vnode" where
  "devices_header t s = El ''template'' [Attr ''#header'' '''']
     [El ''div'' []
        [El ''el-input'' [Bind ''v-model'' (BStr (searchText s)),
             Bind ''placeholder'' (BStr (t ''devices.searchPlaceholder'' [])), Attr ''clearable'' '''',
             On ''clear'' DoLoadDevices, On ''keyup.enter'' DoLoadDevices]
           [El ''template'' [Attr ''#prefix'' ''''] [El ''el-icon'' [] [El ''Search'' [] []]]],
         El ''el-button'' [Attr ''type'' ''primary'', On ''click'' DoLoadDevices] [Txt (t ''common.search'' [])],
         El ''el-button'' [On ''click'' DoHandleRefresh] [Txt (t ''common.refresh'' [])]]]"

definition topics_cell :: "translate \<Rightarrow> DeviceSummary \<Rightarrow> devices_action vnode list" where
  "topics_cell t r = (case subscriptions r of
     Some (tp # tps) \<Rightarrow>
       map (\<lambda>p. El ''el-tag'' [Attr ''size'' ''small'', Attr ''type'' ''warning''] [Txt p]) (tp # tps)
   | _ \<Rightarrow> [El ''span'' [] [Txt (t ''common.none'' [])]])"

definition disconnect_cell :: "translate \<Rightarrow> DeviceSummary \<Rightarrow> devices_action vnode list" where
  "disconnect_cell t r =
     [El ''el-popconfirm'' [Bind ''title'' (BStr (t ''devices.confirmDisconnect'' [])),
          Bind ''confirm-button-text'' (BStr (t ''common.confirm'' [])),
          Bind ''cancel-button-text'' (BStr (t ''common.cancel'' [])),
          On ''confirm'' (DoHandleDisconnect (client_id r))]
        [El ''template'' [Attr ''#reference'' '''']
           [El ''el-button'' [Attr ''type'' ''danger'', Attr ''size'' ''small'', Attr ''text'' '''']
              [Txt (t ''devices.disconnect'' [])]]]]"

definition devices_table ::
    "translate \<Rightarrow> (string \<Rightarrow> string) \<Rightarrow> (string \<Rightarrow> string) \<Rightarrow> devices_view \<Rightarrow> devices_action vnode" where
  "devices_table t fmt lc s = (let rows = filteredDevices lc s in
     El ''el-table''
       ([Bind ''v-loading'' (BBool (devices_loading s)), Attr ''stripe'' ''''] @
        map (\<lambda>r. On ''row-click'' (DoShowDetail (client_id r))) rows)
       ([column [Attr ''prop'' ''client_id'', Bind ''label'' (BStr (t ''devices.deviceId'' []))]
           (\<lambda>r. [El ''span'' [] [Txt (client_id r)]]) rows] @
        v_if (clusterMode s)
          (column [Bind ''label'' (BStr (t ''devices.nodeLocation'' []))]
             (\<lambda>r. [El ''el-tag'' [Attr ''size'' ''small'',
                     Bind ''type'' (BStr (if node_id r = Some (currentNodeId s) then ''success'' else ''info''))]
                   [Txt (case node_id r of None \<Rightarrow> [] | Some n \<Rightarrow> n)]]) rows) @
        [column [Bind ''label'' (BStr (t ''devices.subscribedTopics'' []))] (topics_cell t) rows,
         column [Attr ''prop'' ''remote_addr'', Bind ''label'' (BStr (t ''devices.ipAddress'' []))]
           (\<lambda>r. [Txt (remote_addr r)]) rows,
         column [Bind ''label'' (BStr (t ''devices.protocolVersion'' []))]
           (\<lambda>r. [Txt (formatProtocol (protocol_version r))]) rows,
         column [Bind ''label'' (BStr (t ''devices.connectTime'' []))]
           (\<lambda>r. [Txt (formatTime fmt (connected_at r))]) rows,
         column [Bind ''label'' (BStr (t ''common.operations'' [])), Attr ''fixed'' ''right'']
           (disconnect_cell t) rows]))"

definition item :: "string \<Rightarrow> string \<Rightarrow> 'act vnode" where
  "item label txt = El ''el-descriptions-item'' [Bind ''label'' (BStr label)] [Txt txt]"

text \<open>The label of the expiry item is a fixed Chinese text in the template, given here in UTF-8.\<close>

definition expiry_label :: string where
  "expiry_label = [CHR 0xE8, CHR 0xBF, CHR 0x87, CHR 0xE6, CHR 0x9C, CHR 0x9F,
                   CHR 0xE6, CHR 0x97, CHR 0xB6, CHR 0xE9, CHR 0x97, CHR 0xB4]"

definition session_part :: "translate \<Rightarrow> devices_view \<Rightarrow> SessionInfo \<Rightarrow> devices_action vnode" where
  "session_part t s ses = El ''div'' []
     [El ''h4'' [] [Txt (t ''devices.sessionInfo'' [])],
      El ''el-descriptions'' [Bind ''column'' (BInt 1), Attr ''border'' '''']
        [El ''el-descriptions-item'' [Attr ''label'' ''Clean Start'']
           [Txt (if clean_start ses then ''true'' else ''false'')],
         El ''el-descriptions-item'' [Attr ''label'' expiry_label]
           [Txt (show_int (expiry_interval ses) @ ''s'')]],
      El ''h4'' [] [Txt (t ''devices.subscription'' [])],
      El ''el-table'' [Attr ''size'' ''small'']
        [column [Attr ''prop'' ''topic'', Bind ''label'' (BStr (t ''devices.topic'' []))]
           (\<lambda>r. [Txt (fst r)]) (subscriptionList s),
         column [Attr ''prop'' ''qos'', Attr ''label'' ''QoS'']
           (\<lambda>r. [Txt (show_int (snd r))]) (subscriptionList s)]]"

definition detail_part ::
    "translate \<Rightarrow> (string \<Rightarrow> string) \<Rightarrow> devices_view \<Rightarrow> DeviceDetail \<Rightarrow> devices_action vnode" where
  "detail_part t fmt s d = El ''div'' [Bind ''v-loading'' (BBool (detailLoading s))]
     ([El ''el-descriptions'' [Bind ''column'' (BInt 1), Attr ''border'' '''']
         [item (t ''devices.deviceId'' []) (client_id d),
          item (t ''devices.username'' []) (username d),
          item (t ''devices.ipAddress'' []) (remote_addr d),
          item (t ''devices.protocolVersion'' []) (formatProtocol (protocol_version d)),
          item (t ''devices.connectTime'' []) (formatTime fmt (connected_at d)),
          item (t ''devices.keepAlive'' []) (show_int (keep_alive d) @ ''s''),
          El ''el-descriptions-item'' [Bind ''label'' (BStr (t ''common.status'' []))]
            [El ''el-tag'' [Bind ''type'' (BStr (if dd_connected d then ''success'' else ''danger''))]
               [Txt (if dd_connected d then t ''common.online'' [] else t ''common.offline'' [])]]]] @
      (case session d of None \<Rightarrow> [] | Some ses \<Rightarrow> [session_part t s ses]))"

definition devices_drawer :: "translate \<Rightarrow> (string \<Rightarrow> string) \<Rightarrow> devices_view \<Rightarrow> devices_action vnode" where
  "devices_drawer t fmt s = El ''el-drawer''
     [Bind ''v-model'' (BBool (drawerVisible s)),
      Bind ''title'' (BStr (t ''devices.deviceDetail'' [(''id'', selectedId s)])), Attr ''size'' ''400px'']
     (case deviceDetail s of None \<Rightarrow> [] | Some d \<Rightarrow> [detail_part t fmt s d])"

definition devices_template ::
    "translate \<Rightarrow> (string \<Rightarrow> string) \<Rightarrow> (string \<Rightarrow> string) \<Rightarrow> devices_view \<Rightarrow> devices_action vnode" where
  "devices_template t fmt lc s = El ''div'' []
     [El ''el-card'' []
        [devices_header t s, devices_table t fmt lc s,
         El ''div'' [] [Txt (t ''devices.totalDevices''
            [(''count'', show_nat (length (filteredDevices lc s)))])]],
      devices_drawer t fmt s]"

lemmas devices_view_defs = devices_template_def devices_header_def devices_table_def topics_cell_def
  disconnect_cell_def session_part_def detail_part_def devices_drawer_def item_def column_def

subsection \<open>Life of the view\<close>

text \<open>
  The events that can happen to the view: the browser runs its interval, a request settles, the
  user acts, the component is unmounted.  A request that is in flight can settle after the
  component is unmounted.
\<close>

datatype devices_event =
    EvTick
  | EvLoad "js_error + ClusterDeviceListResponse"
  | EvSearchText string
  | EvUser devices_action
  | EvDetail string "js_error + DeviceDetail"
  | EvDisconnect string "js_error + unit"
  | EvUnmount

fun devices_enabled :: "devices_event \<Rightarrow> bool \<times> devices_view \<Rightarrow> bool" where
  "devices_enabled EvTick (m, s) = (intervals (dv_timers s) \<noteq> [])"
| "devices_enabled (EvLoad r) (m, s) = (0 < loads_in_flight s)"
| "devices_enabled (EvSearchText q) (m, s) = m"
| "devices_enabled (EvUser a) (m, s) = m"
| "devices_enabled (EvDetail i r) (m, s) = (i \<in> set (details_in_flight s))"
| "devices_enabled (EvDisconnect i r) (m, s) = (i \<in> set (disconnects_in_flight s))"
| "devices_enabled EvUnmount (m, s) = m"

fun devices_act :: "devices_action \<Rightarrow> devices_view \<Rightarrow> devices_view" where
  "devices_act DoLoadDevices s = loadDevices s"
| "devices_act DoHandleRefresh s = handleRefresh s"
| "devices_act (DoHandleDisconnect i) s = handleDisconnect i s"
| "devices_act (DoShowDetail i) s = showDetail i s"

fun devices_step :: "devices_event \<Rightarrow> bool \<times> devices_view \<Rightarrow> bool \<times> devices_view" where
  "devices_step EvTick (m, s) = (m, loadDevices s)"
| "devices_step (EvLoad r) (m, s) = (m, loadDevices_settled r s)"
| "devices_step (EvSearchText q) (m, s) = (m, s\<lparr>searchText := q\<rparr>)"
| "devices_step (EvUser a) (m, s) = (m, devices_act a s)"
| "devices_step (EvDetail i r) (m, s) = (m, showDetail_settled i r s)"
| "devices_step (EvDisconnect i r) (m, s) = (m, handleDisconnect_settled i r s)"
| "devices_step EvUnmount (m, s) = (False, devices_onUnmounted s)"

inductive devices_run :: "devices_event list \<Rightarrow> bool \<times> devices_view \<Rightarrow> bool" where
  devices_init: "devices_run [] (True, devices_setup)"
| devices_next: "devices_run es c \<Longrightarrow> devices_enabled e c \<Longrightarrow> devices_run (es @ [e]) (devices_step e c)"

text \<open>
  The polling discipline: no interval but the one \<open>pollTimer\<close> names is ever registered, its period
  is the current \<open>pollInterval\<close>, and while the view is mounted it is registered.  The period is
  5000 ms after a successful load and 10000 ms during a streak of failures.
\<close>

definition poll_part :: "devices_view \<Rightarrow> nat \<times> nat \<times> nat \<times> devices_callback timers" where
  "poll_part s = (pollInterval s, pollTimer s, consecutiveErrors s, dv_timers s)"

definition poll_ok :: "bool \<Rightarrow> nat \<times> nat \<times> nat \<times> devices_callback timers \<Rightarrow> bool" where
  "poll_ok m p \<longleftrightarrow> (case p of (iv, h, errs, t) \<Rightarrow>
     timers_wf t \<and> iv = (if errs = 0 then 5000 else 10000) \<and>
     (live t = [h \<mapsto> (LoadDevicesCallback, iv)] \<or> \<not> m \<and> live t = Map.empty))"

definition devices_inv :: "bool \<times> devices_view \<Rightarrow> bool" where
  "devices_inv c \<longleftrightarrow> poll_ok (fst c) (poll_part (snd c))"

lemma devices_inv_poll_part:
  "poll_part s' = poll_part s \<Longrightarrow> devices_inv (m, s) \<Longrightarrow> devices_inv (m, s')"
  by (simp add: devices_inv_def)

lemma devices_inv_iff: "devices_inv (m, s) \<longleftrightarrow>
    timers_wf (dv_timers s) \<and> pollInterval s = (if consecutiveErrors s = 0 then 5000 else 10000) \<and>
    (live (dv_timers s) = [pollTimer s \<mapsto> (LoadDevicesCallback, pollInterval s)] \<or>
     \<not> m \<and> live (dv_timers s) = Map.empty)"
  by (simp only: devices_inv_def poll_ok_def poll_part_def fst_conv snd_conv prod.case)

lemma poll_part_simps [step_simps]:
  "poll_part (loadDevices s) = poll_part s"
  "poll_part (notify x s) = poll_part s"
  "poll_part (handleRefresh s) = poll_part s"
  "poll_part (handleDisconnect i s) = poll_part s"
  "poll_part (showDetail i s) = poll_part s"
  "poll_part (showDetail_settled i rd s) = poll_part s"
  "poll_part (handleDisconnect_settled i ru s) = poll_part s"
  "poll_part (s\<lparr>searchText := q\<rparr>) = poll_part s"
  "poll_part (devices_act a s) = poll_part s"
proof -
  show l: "poll_part (loadDevices s) = poll_part s" for s
    by (simp add: poll_part_def loadDevices_def)
  show n: "poll_part (notify x s) = poll_part s" for x s by (simp add: poll_part_def notify_def)
  show r: "poll_part (handleRefresh s) = poll_part s" by (simp add: handleRefresh_def l) (simp add: poll_part_def)
  show d: "poll_part (handleDisconnect i s) = poll_part s" for i
    by (simp add: poll_part_def handleDisconnect_def)
  show s: "poll_part (showDetail i s) = poll_part s" for i by (simp add: poll_part_def showDetail_def)
  show "poll_part (showDetail_settled i rd s) = poll_part s"
    by (cases rd) (simp_all add: poll_part_def notify_def)
  show "poll_part (handleDisconnect_settled i ru s) = poll_part s"
    by (cases ru) (simp_all add: l n, simp_all add: poll_part_def)
  show "poll_part (s\<lparr>searchText := q\<rparr>) = poll_part s" by (simp add: poll_part_def)
  show "poll_part (devices_act a s) = poll_part s" by (cases a) (simp_all add: l r d s)
qed

lemma devices_inv_restart:
  assumes "timers_wf (dv_timers s)" and "dom (live (dv_timers s)) \<subseteq> {pollTimer s}"
    and "ms = (if consecutiveErrors s = 0 then 5000 else 10000)"
  shows "devices_inv (m, restart_poll ms s)"
proof -
  let ?r = "browser.restart (pollTimer s) LoadDevicesCallback ms (dv_timers s)"
  have "timers_wf (snd ?r)" using assms(1) by (rule browser.restart_wf)
  moreover have "live (snd ?r) = [fst ?r \<mapsto> (LoadDevicesCallback, ms)]"
    using assms(1,2) by (rule browser.restart_only)
  moreover have "poll_part (restart_poll ms s) = (ms, fst ?r, consecutiveErrors s, snd ?r)"
    by (simp add: restart_poll_def browser.restart_def poll_part_def Let_def case_prod_beta)
  ultimately show ?thesis
    using assms(3) by (simp only: devices_inv_def poll_ok_def fst_conv snd_conv prod.case simp_thms)
qed

lemma devices_invD:
  assumes "devices_inv (m, s)"
  shows "timers_wf (dv_timers s)" and "dom (live (dv_timers s)) \<subseteq> {pollTimer s}"
    and "consecutiveErrors s = 0 \<Longrightarrow> pollInterval s = 5000"
  using assms by (auto simp: devices_inv_iff split: if_splits)

lemma devices_inv_load_ok:
  assumes "devices_inv (m, s)"
  shows "devices_inv (m, loadDevices_settled (Inr res) s)"
proof (cases "consecutiveErrors s = 0")
  case True
  then show ?thesis
    by (intro devices_inv_poll_part [OF _ assms]) (simp add: poll_part_def Let_def)
next
  case False
  let ?ds = "case cdl_devices res of None \<Rightarrow> [] | Some ds \<Rightarrow> ds"
  let ?s1 = "s\<lparr>devices := ?ds, currentNodeId := cdl_self res,
     clusterMode := 1 < length (node_ids ?ds), consecutiveErrors := 0\<rparr>"
  have "devices_inv (m, restart_poll 5000 ?s1)"
    by (rule devices_inv_restart) (use devices_invD [OF assms] in simp_all)
  then show ?thesis
    by (rule devices_inv_poll_part [rotated]) (use False in \<open>simp add: poll_part_def notify_def Let_def\<close>)
qed

lemma devices_inv_load_err:
  assumes "devices_inv (m, s)"
  shows "devices_inv (m, loadDevices_settled (Inl e) s)"
proof (cases "consecutiveErrors s = 0")
  case True
  let ?s1 = "notify (MsgError ''devices.loadFailed'' []) (s\<lparr>consecutiveErrors := Suc (consecutiveErrors s)\<rparr>)"
  have "devices_inv (m, restart_poll 10000 ?s1)"
    by (rule devices_inv_restart) (use devices_invD [OF assms] in \<open>simp_all add: notify_def\<close>)
  moreover have "min (pollInterval ?s1 * 2) 30000 = 10000"
    using devices_invD(3) [OF assms True] by (simp add: notify_def)
  ultimately show ?thesis
    using True by (auto intro: devices_inv_poll_part [rotated] simp: poll_part_def Let_def)
next
  case False
  then have "poll_part (loadDevices_settled (Inl e) s)
      = (pollInterval s, pollTimer s, Suc (consecutiveErrors s), dv_timers s)"
    by (simp add: poll_part_def Let_def)
  then show ?thesis using assms False by (auto simp: devices_inv_def poll_ok_def poll_part_def)
qed

lemma devices_inv_unmount:
  assumes "devices_inv (m, s)"
  shows "devices_inv (False, devices_onUnmounted s)"
  using assms browser.clear_only [OF devices_invD(2) [OF assms]]
    browser.clear_wf [OF devices_invD(1) [OF assms], of "pollTimer s"]
  by (auto simp: devices_inv_def poll_ok_def poll_part_def devices_onUnmounted_def)

lemma devices_inv_step:
  assumes "devices_inv c"
  shows "devices_inv (devices_step e c)"
proof -
  obtain m s where c: "c = (m, s)" by (cases c) auto
  show ?thesis
  proof (cases e)
    case (EvLoad r)
    then show ?thesis using assms c by (cases r) (simp_all only: devices_step.simps devices_inv_load_ok devices_inv_load_err)
  next
    case EvUnmount
    then show ?thesis using assms c by (simp add: devices_inv_unmount)
  qed (use assms c in \<open>auto intro: devices_inv_poll_part simp: step_simps\<close>)
qed

lemma devices_inv_init: "devices_inv (True, devices_setup)"
  by (simp add: devices_inv_iff devices_setup_def loadDevices_def setInterval_def no_timers_def
      timers_wf_def live_def)

lemma devices_run_inv: "devices_run es c \<Longrightarrow> devices_inv c"
  by (induction rule: devices_run.induct) (auto intro: devices_inv_init devices_inv_step)

text \<open>The states a view can be in, mounted or not.\<close>

definition devices_reach :: "bool \<times> devices_view \<Rightarrow> bool" where
  "devices_reach c \<longleftrightarrow> (\<exists>es. devices_run es c)"

lemma devices_reach_init: "devices_reach (True, devices_setup)"
  using devices_init by (auto simp: devices_reach_def)

lemma devices_reach_next: "devices_reach c \<Longrightarrow> devices_enabled e c \<Longrightarrow> devices_reach (devices_step e c)"
  unfolding devices_reach_def using devices_next by blast

lemma devices_reach_inv: "devices_reach c \<Longrightarrow> devices_inv c"
  unfolding devices_reach_def using devices_run_inv by blast

lemma devices_setup_simps [simp]:
  "consecutiveErrors devices_setup = 0" "pollInterval devices_setup = 5000"
  "loads_in_flight devices_setup = 1" "details_in_flight devices_setup = []"
  by (simp_all add: devices_setup_def loadDevices_def case_prod_beta)

lemma handlers_disconnect_cell:
  "concat (map (handlers ev) (disconnect_cell t r)) = (if ev = ''confirm'' then [DoHandleDisconnect (client_id r)] else [])"
  by (simp add: disconnect_cell_def map_filter_simps)

lemma handlers_drawer: "handlers ev (devices_drawer t fmt s) = []"
  by (auto simp: devices_drawer_def detail_part_def session_part_def item_def handler_simps split: option.splits)

lemma handlers_topics_cell: "concat (map (handlers ev) (topics_cell t r)) = []"
  by (auto simp: topics_cell_def map_filter_simps split: option.splits list.splits)

subsection \<open>Properties\<close>

text \<open>C16: In every state the device view can reach, its polling is under control: while it is mounted
  exactly one interval is registered, the one \<open>pollTimer\<close> names, with the period \<open>pollInterval\<close>;
  after it is unmounted no other can be.  The period is 5000 ms unless the last loads failed, and
  then 10000 ms: the doubling happens once per streak of failures, so the bound of 30000 ms in the
  code is never met.\<close>

theorem devices_polling:
  assumes "devices_reach (m, s)"
  shows "pollInterval s = (if consecutiveErrors s = 0 then 5000 else 10000) \<and>
         (m \<longrightarrow> live (dv_timers s) = [pollTimer s \<mapsto> (LoadDevicesCallback, pollInterval s)]) \<and>
         dom (live (dv_timers s)) \<subseteq> {pollTimer s}"
  using devices_reach_inv [OF assms] by (auto simp: devices_inv_iff split: if_splits)

theorem devices_polling_witness:
  "live (dv_timers devices_setup) = [pollTimer devices_setup \<mapsto> (LoadDevicesCallback, 5000)]"
  using devices_polling [OF devices_reach_init] by simp

text \<open>A load that is in flight when the view is unmounted and then fails brings the polling back to
  life: from every reachable mounted state without failures, the interval is registered again
  after the unmount, and nothing of the view clears it any more.\<close>

theorem devices_interval_leak:
  assumes "devices_reach (True, s)" and "0 < loads_in_flight s" and "consecutiveErrors s = 0"
    and "s' = loadDevices_settled (Inl e) (devices_onUnmounted s)"
  shows "devices_reach (False, s') \<and> live (dv_timers s') = [pollTimer s' \<mapsto> (LoadDevicesCallback, 10000)]"
proof
  have u: "devices_reach (False, devices_onUnmounted s)"
    using devices_reach_next [OF assms(1), of EvUnmount] by simp
  have "0 < loads_in_flight (devices_onUnmounted s)" using assms(2) by (simp add: devices_onUnmounted_def)
  then show r: "devices_reach (False, s')"
    using devices_reach_next [OF u, of "EvLoad (Inl e)"] assms(4) by (simp del: loadDevices_settled.simps)
  have "consecutiveErrors s' = 1"
    using assms(3,4) by (simp add: devices_onUnmounted_def notify_def restart_poll_def Let_def case_prod_beta)
  moreover have "live (dv_timers s') \<noteq> Map.empty"
    using assms(3,4) by (simp add: devices_onUnmounted_def notify_def restart_poll_def Let_def
        case_prod_beta setInterval_def live_def)
  ultimately show "live (dv_timers s') = [pollTimer s' \<mapsto> (LoadDevicesCallback, 10000)]"
    using devices_reach_inv [OF r] by (simp add: devices_inv_iff)
qed

theorem devices_interval_leak_witness:
  "devices_reach (False, loadDevices_settled (Inl (RequestError ''timeout'')) (devices_onUnmounted devices_setup))"
  using devices_interval_leak [OF devices_reach_init _ _ refl, of "RequestError ''timeout''"]
  by (simp del: loadDevices_settled.simps)

text \<open>The drawer can show one device under the title of another, although every reply belongs to the
  device that was asked for: after the details of \<open>a\<close> and then of \<open>b\<close> were opened, the replies may
  arrive in the other order, and the drawer titled \<open>b\<close> keeps the details that came for \<open>a\<close>, with
  no request left that could correct it.\<close>

theorem drawer_mismatch:
  fixes da db :: DeviceDetail
  assumes "client_id da = a" and "client_id db = b"
  shows "\<exists>es s. devices_run es (True, s) \<and> (\<forall>i d. EvDetail i (Inr d) \<in> set es \<longrightarrow> client_id d = i) \<and>
     drawerVisible s \<and> selectedId s = b \<and> details_in_flight s = [] \<and> deviceDetail s = Some da"
proof -
  let ?s1 = "showDetail a devices_setup"
  let ?s2 = "showDetail b ?s1"
  let ?s3 = "showDetail_settled b (Inr db) ?s2"
  let ?s4 = "showDetail_settled a (Inr da) ?s3"
  let ?es = "[EvUser (DoShowDetail a), EvUser (DoShowDetail b), EvDetail b (Inr db), EvDetail a (Inr da)]"
  have 1: "devices_run (take 1 ?es) (True, ?s1)"
    using devices_next [OF devices_init, of "EvUser (DoShowDetail a)"] by simp
  have 2: "devices_run (take 2 ?es) (True, ?s2)"
    using devices_next [OF 1, of "EvUser (DoShowDetail b)"] by simp
  have 3: "devices_run (take 3 ?es) (True, ?s3)"
    using devices_next [OF 2, of "EvDetail b (Inr db)"] by (simp add: showDetail_def)
  have 4: "devices_run ?es (True, ?s4)"
    using devices_next [OF 3, of "EvDetail a (Inr da)"] by (auto simp: showDetail_def)
  have "drawerVisible ?s4" "selectedId ?s4 = b" "deviceDetail ?s4 = Some da" "details_in_flight ?s4 = []"
    by (simp_all add: showDetail_def)
  moreover have "\<forall>i d. EvDetail i (Inr d) \<in> set ?es \<longrightarrow> client_id d = i" using assms by auto
  ultimately show ?thesis using 4 by blast
qed

definition sample_detail :: "string \<Rightarrow> DeviceDetail" where
  "sample_detail i = \<lparr>client_id = i, username = [], remote_addr = ''10.0.0.7:1883'',
     protocol_version = 4, connected_at = ''2024-01-01T00:00:00Z'', keep_alive = 60, subscriptions = None,
     node_id = None, dd_connected = True, session = None\<rparr>"

theorem drawer_mismatch_witness:
  "\<exists>es s. devices_run es (True, s) \<and> selectedId s = ''b'' \<and> deviceDetail s = Some (sample_detail ''a'')"
  using drawer_mismatch [of "sample_detail ''a''" "''a''" "sample_detail ''b''" "''b''"]
  by (auto simp: sample_detail_def)

text \<open>The search keeps the order and the multiplicity of the devices, and keeps a device exactly when the
  search box is empty or the lower-cased text occurs in its lower-cased id or in one of its
  lower-cased topics.\<close>

theorem filteredDevices_exact:
  "filteredDevices lc s = filter (\<lambda>d. searchText s = [] \<or>
     (\<exists>w. (w = client_id d \<or> (\<exists>ts. subscriptions d = Some ts \<and> w \<in> set ts)) \<and>
          (\<exists>pre post. lc w = pre @ lc (searchText s) @ post))) (devices s)"
  (is "_ = filter (\<lambda>d. _ \<or> ?hit d) _")
proof (cases "searchText s = []")
  case False
  have "(str_includes (lc (client_id d)) q \<or>
         (\<exists>tp\<in>set (case subscriptions d of None \<Rightarrow> [] | Some ts \<Rightarrow> ts). str_includes (lc tp) q)) = ?hit d"
    if "q = lc (searchText s)" for d q
    using that unfolding str_includes_iff by (cases "subscriptions d") (simp, simp, blast)
  then show ?thesis using False by (simp only: filteredDevices_def Let_def if_False simp_thms)
qed (simp add: filteredDevices_def)

text \<open>The buttons act on the row they stand in: the page has one disconnect confirmation and one row
  handler per displayed device, in the order of the rows, each with that device's own id.\<close>

theorem devices_row_handlers:
  "handlers ''confirm'' (devices_template t fmt lc s) =
     map (\<lambda>d. DoHandleDisconnect (client_id d)) (filteredDevices lc s) \<and>
   handlers ''row-click'' (devices_template t fmt lc s) =
     map (\<lambda>d. DoShowDetail (client_id d)) (filteredDevices lc s)"
  by (simp add: devices_template_def devices_header_def devices_table_def handlers_disconnect_cell
      handlers_topics_cell handlers_drawer handler_simps v_if_def Let_def)

end
