(* ===== verification/ClusterView.thy ===== *)
theory ClusterView
  imports Browser AdminApi Vue
begin

section \<open>Cluster.vue\<close>

text \<open>
  Models \<^verbatim>\<open>web/admin/src/views/Cluster.vue\<close>: the list of nodes and the table of shard migrations.
  As in the other views an asynchronous function is split at its \<^verbatim>\<open>await\<close>.  An object literal used
  as a table (\<^verbatim>\<open>map[status] || 'info'\<close>) is a list of its own properties.
\<close>

subsection \<open>State and script\<close>

record cluster_view =
  nodes :: "NodeInfo list"
  selfId :: string
  migrations :: "Migration list"
  migLoading :: bool
  cv_messages :: "el_message list"
  opened_windows :: "string list"
  nodes_in_flight :: nat
  migrations_in_flight :: nat
  cancels_in_flight :: "string list"

text \<open>\<^verbatim>\<open>a || b\<close> on an optional number: zero is falsy.\<close>

fun num_truthy :: "int option \<Rightarrow> bool" where
  "num_truthy None = False"
| "num_truthy (Some n) = (n \<noteq> 0)"

definition show_opt :: "int option \<Rightarrow> string" where
  "show_opt p = (case p of None \<Rightarrow> ''undefined'' | Some n \<Rightarrow> show_int n)"

definition node_admin_url :: "NodeInfo \<Rightarrow> string" where
  "node_admin_url n = ''http://'' @ n_host n @ '':'' @ show_opt (n_httpPort n) @ ''/admin/''"

definition openNodeAdmin :: "NodeInfo \<Rightarrow> cluster_view \<Rightarrow> cluster_view" where
  "openNodeAdmin n c = c\<lparr>opened_windows := opened_windows c @ [node_admin_url n]\<rparr>"

definition statusTagType :: "string \<Rightarrow> string" where
  "statusTagType status =
     (case map_of [(''running'', ''primary''), (''completed'', ''success''), (''failed'', ''danger''),
                   (''cancelled'', ''warning'')] status of
        Some ty \<Rightarrow> ty | None \<Rightarrow> ''info'')"

definition cv_notify :: "el_message \<Rightarrow> cluster_view \<Rightarrow> cluster_view" where
  "cv_notify m c = c\<lparr>cv_messages := cv_messages c @ [m]\<rparr>"

definition loadNodes :: "cluster_view \<Rightarrow> cluster_view" where
  "loadNodes c = c\<lparr>nodes_in_flight := Suc (nodes_in_flight c)\<rparr>"

fun loadNodes_settled :: "js_error + NodesResponse \<Rightarrow> cluster_view \<Rightarrow> cluster_view" where
  "loadNodes_settled (Inr res) c =
     c\<lparr>nodes := (case nr_nodes res of None \<Rightarrow> [] | Some ns \<Rightarrow> ns), selfId := nr_self res,
       nodes_in_flight := nodes_in_flight c - 1\<rparr>"
| "loadNodes_settled (Inl e) c =
     (cv_notify (MsgError ''cluster.loadNodesFailed'' []) c)\<lparr>nodes_in_flight := nodes_in_flight c - 1\<rparr>"

definition loadMigrations :: "cluster_view \<Rightarrow> cluster_view" where
  "loadMigrations c = c\<lparr>migLoading := True, migrations_in_flight := Suc (migrations_in_flight c)\<rparr>"

fun loadMigrations_settled :: "js_error + Migration list \<Rightarrow> cluster_view \<Rightarrow> cluster_view" where
  "loadMigrations_settled (Inr ms) c =
     c\<lparr>migrations := ms, migLoading := False, migrations_in_flight := migrations_in_flight c - 1\<rparr>"
| "loadMigrations_settled (Inl e) c =
     c\<lparr>migrations := [], migLoading := False, migrations_in_flight := migrations_in_flight c - 1\<rparr>"

definition handleCancel :: "string \<Rightarrow> cluster_view \<Rightarrow> cluster_view" where
  "handleCancel i c = c\<lparr>cancels_in_flight := cancels_in_flight c @ [i]\<rparr>"

fun handleCancel_settled :: "string \<Rightarrow> js_error + unit \<Rightarrow> cluster_view \<Rightarrow> cluster_view" where
  "handleCancel_settled i (Inr _) c =
     loadMigrations (cv_notify (MsgSuccess ''cluster.cancelled'' [])
       (c\<lparr>cancels_in_flight := remove1 i (cancels_in_flight c)\<rparr>))"
| "handleCancel_settled i (Inl e) c =
     cv_notify (MsgError ''cluster.cancelFailed'' [])
       (c\<lparr>cancels_in_flight := remove1 i (cancels_in_flight c)\<rparr>)"

definition cluster_setup :: cluster_view where
  "cluster_setup = \<lparr>nodes = [], selfId = [], migrations = [], migLoading = False, cv_messages = [],
     opened_windows = [], nodes_in_flight = 0, migrations_in_flight = 0, cancels_in_flight = []\<rparr>"

definition cluster_onMounted :: "cluster_view \<Rightarrow> cluster_view" where
  "cluster_onMounted c = loadMigrations (loadNodes c)"

subsection \<open>Template\<close>

datatype cluster_action = DoOpenNodeAdmin NodeInfo | DoHandleCancel string

definition node_card :: "translate \<Rightarrow> string \<Rightarrow> NodeInfo \<Rightarrow> cluster_action vnode" where
  "node_card t self n = El ''el-col'' [Bind ''span'' (BInt 8)]
     [El ''el-card'' [Attr ''shadow'' ''hover'']
        ([El ''div'' []
            [El ''el-tag'' [Bind ''type'' (BStr (if n_id n = self then ''success'' else ''info'')),
                            Attr ''size'' ''small'']
               [Txt (if n_id n = self then t ''cluster.thisNode'' [] else t ''common.online'' [])],
             El ''span'' [] [Txt (n_id n)]],
          El ''el-descriptions'' [Bind ''column'' (BInt 1), Attr ''size'' ''small'']
            [El ''el-descriptions-item'' [Bind ''label'' (BStr (t ''cluster.address'' []))] [Txt (n_host n)],
             El ''el-descriptions-item'' [Bind ''label'' (BStr (t ''cluster.mqttPort'' []))]
               [Txt (show_int (n_mqttPort n))],
             El ''el-descriptions-item'' [Bind ''label'' (BStr (t ''cluster.httpPort'' []))]
               [Txt (if num_truthy (n_httpPort n) then show_opt (n_httpPort n) else ''-'')],
             El ''el-descriptions-item'' [Bind ''label'' (BStr (t ''cluster.gossip'' []))]
               [Txt (show_int (n_gossipPort n))]]] @
         v_if (num_truthy (n_httpPort n) \<and> n_id n \<noteq> self)
           (El ''div'' []
              [El ''el-button'' [Attr ''type'' ''primary'', Attr ''size'' ''small'', Attr ''text'' '''',
                               On ''click'' (DoOpenNodeAdmin n)] [Txt (t ''cluster.openAdmin'' [])]]))]"

definition cancel_cell :: "translate \<Rightarrow> Migration \<Rightarrow> cluster_action vnode list" where
  "cancel_cell t r =
     [El ''el-popconfirm'' [Bind ''title'' (BStr (t ''cluster.cancelMigration'' [])),
                          On ''confirm'' (DoHandleCancel (mig_id r))]
        [El ''template'' [Attr ''#reference'' '''']
           [El ''el-button'' [Attr ''type'' ''warning'', Attr ''size'' ''small'', Attr ''text'' '''',
                            Bind ''disabled'' (BBool (mig_status r \<noteq> ''running''))]
              [Txt (t ''common.cancel'' [])]]]]"

definition migrations_table :: "translate \<Rightarrow> cluster_view \<Rightarrow> cluster_action vnode" where
  "migrations_table t c = (let rows = migrations c in
     El ''el-table'' [Bind ''v-loading'' (BBool (migLoading c)), Attr ''stripe'' '''']
       [column [Attr ''prop'' ''id'', Bind ''label'' (BStr (t ''cluster.id'' []))] (\<lambda>r. [Txt (mig_id r)]) rows,
        column [Attr ''prop'' ''device_id'', Bind ''label'' (BStr (t ''cluster.device'' []))]
          (\<lambda>r. [Txt (mig_device_id r)]) rows,
        column [Attr ''prop'' ''source_node'', Bind ''label'' (BStr (t ''cluster.sourceNode'' []))]
          (\<lambda>r. [Txt (mig_source_node r)]) rows,
        column [Attr ''prop'' ''target_node'', Bind ''label'' (BStr (t ''cluster.targetNode'' []))]
          (\<lambda>r. [Txt (mig_target_node r)]) rows,
        column [Bind ''label'' (BStr (t ''common.status'' []))]
          (\<lambda>r. [El ''el-tag'' [Bind ''type'' (BStr (statusTagType (mig_status r)))] [Txt (mig_status r)]]) rows,
        column [Bind ''label'' (BStr (t ''common.progress'' []))]
          (\<lambda>r. [El ''el-progress''
             [Bind ''percentage'' (BInt (case mig_progress r of None \<Rightarrow> 0 | Some p \<Rightarrow> p)),
              Bind ''stroke-width'' (BInt 8)] []]) rows,
        column [Bind ''label'' (BStr (t ''common.operations'' []))] (cancel_cell t) rows])"

definition cluster_template :: "translate \<Rightarrow> cluster_view \<Rightarrow> cluster_action vnode" where
  "cluster_template t c = El ''div'' []
     [El ''el-row'' [Bind ''gutter'' (BInt 16)] (map (node_card t (selfId c)) (nodes c)),
      El ''el-card'' [Bind ''header'' (BStr (t ''cluster.migrationTasks'' []))]
        ([migrations_table t c] @
         v_if (\<not> migLoading c \<and> migrations c = [])
           (El ''el-empty'' [Bind ''description'' (BStr (t ''cluster.noMigrations'' []))] []))]"

lemmas cluster_view_defs = cluster_template_def migrations_table_def cancel_cell_def node_card_def column_def

subsection \<open>What the page offers\<close>

text \<open>The handlers a rendered list of nodes carries, in order.\<close>

lemma handlers_node_card:
  "handlers ''click'' (node_card t self n) =
     (if num_truthy (n_httpPort n) \<and> n_id n \<noteq> self then [DoOpenNodeAdmin n] else [])"
  by (simp add: node_card_def v_if_def List.map_filter_simps)

lemma handlers_cancel_cell: "concat (map (handlers ''confirm'') (cancel_cell t r)) = [DoHandleCancel (mig_id r)]"
  by (simp add: cancel_cell_def List.map_filter_simps)

subsection \<open>Properties\<close>

text \<open>The cluster page offers exactly the actions that make sense: a link to the admin page of every node
  other than this one that reports an HTTP port, in the order of the cards, and one cancel
  confirmation per migration row with that migration's own id.\<close>

theorem cluster_page_actions:
  "handlers ''click'' (cluster_template t c) =
     map DoOpenNodeAdmin (filter (\<lambda>n. n_httpPort n \<noteq> None \<and> n_httpPort n \<noteq> Some 0 \<and> n_id n \<noteq> selfId c) (nodes c)) \<and>
   handlers ''confirm'' (cluster_template t c) = map (\<lambda>m. DoHandleCancel (mig_id m)) (migrations c)"
proof -
  have n: "num_truthy p \<longleftrightarrow> p \<noteq> None \<and> p \<noteq> Some 0" for p by (cases p) auto
  have "concat (map (handlers ''click'') (map (node_card t self) ns)) =
      map DoOpenNodeAdmin (filter (\<lambda>n. n_httpPort n \<noteq> None \<and> n_httpPort n \<noteq> Some 0 \<and> n_id n \<noteq> self) ns)" for self ns
    by (induction ns) (auto simp: handlers_node_card n)
  moreover have "concat (map (handlers ''confirm'') (map (node_card t self) ns)) = []" for self ns
    by (induction ns) (auto simp: node_card_def v_if_def handler_simps)
  moreover have "concat (map (handlers ''click'') (cancel_cell t r)) = []" for r
    by (simp add: cancel_cell_def handler_simps)
  ultimately show ?thesis
    by (simp add: cluster_template_def migrations_table_def handlers_cancel_cell handler_simps v_if_def Let_def
        del: map_map)
qed

end
