(* ===== verification/I18n.thy ===== *)
theory I18n
  imports Prelude
begin

section \<open>Message catalogues and the choice of locale\<close>

text \<open>
  Models \<^verbatim>\<open>web/admin/src/locales\<close>: the two catalogues, keyed by the dotted path the views pass to
  \<^verbatim>\<open>t\<close>, and the options \<^verbatim>\<open>index.ts\<close> gives to \<^verbatim>\<open>createI18n\<close>.  Texts are UTF-8 byte sequences.
  The library vue-i18n itself is not part of the repository: the function \<^verbatim>\<open>t\<close> is a parameter of
  the views.
\<close>

subsection \<open>en.ts\<close>

definition en_messages :: "(string \<times> string) list" where
  "en_messages = [
    (''nav.dashboard'', ''Dashboard''),
    (''nav.devices'', ''Devices''),
    (''nav.cluster'', ''Cluster''),
    (''nav.metrics'', ''Metrics''),
    (''common.node'', ''Node''),
    (''common.search'', ''Search''),
    (''common.refresh'', ''Refresh''),
    (''common.confirm'', ''OK''),
    (''common.cancel'', ''Cancel''),
    (''common.online'', ''Online''),
    (''common.offline'', ''Offline''),
    (''common.none'', ''None''),
    (''common.operations'', ''Actions''),
    (''common.status'', ''Status''),
    (''common.progress'', ''Progress''),
    (''dashboard.onlineDevices'', ''Online Devices (Cluster)''),
    (''dashboard.activeSubscriptions'', ''Active Subscriptions (Cluster)''),
    (''dashboard.retainedMessages'', ''Retained Messages''),
    (''dashboard.clusterNodes'', ''Cluster Nodes''),
    (''dashboard.nodeOverview'', ''Node Overview''),
    (''dashboard.connections'', ''Connections''),
    (''dashboard.subscriptions'', ''Subscriptions''),
    (''dashboard.retained'', ''Retained''),
    (''dashboard.connectionsTrend'', ''Connections Trend (Cluster)''),
    (''dashboard.memoryTrend'', ''Memory Usage Trend''),
    (''dashboard.goroutineTrend'', ''Goroutine Trend''),
    (''dashboard.subscriptionsTrend'', ''Subscriptions Trend (Cluster)''),
    (''dashboard.memory'', ''Memory''),
    (''devices.searchPlaceholder'', ''Search Device ID''),
    (''devices.deviceId'', ''Device ID''),
    (''devices.nodeLocation'', ''Node''),
    (''devices.subscribedTopics'', ''Subscribed Topics''),
    (''devices.ipAddress'', ''IP Address''),
    (''devices.protocolVersion'', ''Protocol''),
    (''devices.connectTime'', ''Connected At''),
    (''devices.disconnect'', ''Disconnect''),
    (''devices.confirmDisconnect'', ''Disconnect this device?''),
    (''devices.totalDevices'', ''{count} device(s) total''),
    (''devices.deviceDetail'', ''Device Detail: {id}''),
    (''devices.username'', ''Username''),
    (''devices.keepAlive'', ''KeepAlive''),
    (''devices.sessionInfo'', ''Session Info''),
    (''devices.subscription'', ''Subscriptions''),
    (''devices.disconnected'', ''Disconnected {id}''),
    (''devices.disconnectFailed'', ''Disconnect failed''),
    (''devices.loadFailed'', ''Failed to load devices, polling rate reduced''),
    (''devices.loadDetailFailed'', ''Failed to load detail''),
    (''devices.connectionRestored'', ''Device list connection restored''),
    (''devices.topic'', ''Topic''),
    (''cluster.thisNode'', ''This Node''),
    (''cluster.address'', ''Address''),
    (''cluster.mqttPort'', ''MQTT Port''),
    (''cluster.httpPort'', ''HTTP Port''),
    (''cluster.gossip'', ''Gossip''),
    (''cluster.openAdmin'', ''Open Admin '' @ [CHR 0xE2, CHR 0x86, CHR 0x92]),
    (''cluster.migrationTasks'', ''Migration Tasks''),
    (''cluster.id'', ''ID''),
    (''cluster.device'', ''Device''),
    (''cluster.sourceNode'', ''Source Node''),
    (''cluster.targetNode'', ''Target Node''),
    (''cluster.cancelMigration'', ''Cancel this migration?''),
    (''cluster.cancelled'', ''Migration cancelled''),
    (''cluster.cancelFailed'', ''Cancel failed''),
    (''cluster.loadNodesFailed'', ''Failed to load nodes''),
    (''cluster.noMigrations'', ''No migration tasks''),
    (''metrics.uptime'', ''Uptime''),
    (''metrics.gcPause'', ''GC Total Pause''),
    (''metrics.memoryAlloc'', ''Memory Alloc''),
    (''metrics.memorySys'', ''Memory Sys''),
    (''metrics.goroutineCount'', ''Goroutines''),
    (''metrics.gcPauseTime'', ''GC Pause Time'')]"
subsection \<open>zh.ts\<close>

definition zh_messages :: "(string \<times> string) list" where
  "zh_messages = [
    (''nav.dashboard'', [CHR 0xE4, CHR 0xBB, CHR 0xAA, CHR 0xE8, CHR 0xA1, CHR 0xA8, CHR 0xE7, CHR 0x9B, CHR 0x98]),
    (''nav.devices'', [CHR 0xE8, CHR 0xAE, CHR 0xBE, CHR 0xE5, CHR 0xA4, CHR 0x87, CHR 0xE7, CHR 0xAE, CHR 0xA1, CHR 0xE7, CHR 0x90, CHR 0x86]),
    (''nav.cluster'', [CHR 0xE9, CHR 0x9B, CHR 0x86, CHR 0xE7, CHR 0xBE, CHR 0xA4, CHR 0xE7, CHR 0x9B, CHR 0x91, CHR 0xE6, CHR 0x8E, CHR 0xA7]),
    (''nav.metrics'', [CHR 0xE7, CHR 0xB3, CHR 0xBB, CHR 0xE7, CHR 0xBB, CHR 0x9F, CHR 0xE6, CHR 0x8C, CHR 0x87, CHR 0xE6, CHR 0xA0, CHR 0x87]),
    (''common.node'', [CHR 0xE8, CHR 0x8A, CHR 0x82, CHR 0xE7, CHR 0x82, CHR 0xB9]),
    (''common.search'', [CHR 0xE6, CHR 0x90, CHR 0x9C, CHR 0xE7, CHR 0xB4, CHR 0xA2]),
    (''common.refresh'', [CHR 0xE5, CHR 0x88, CHR 0xB7, CHR 0xE6, CHR 0x96, CHR 0xB0]),
    (''common.confirm'', [CHR 0xE7, CHR 0xA1, CHR 0xAE, CHR 0xE5, CHR 0xAE, CHR 0x9A]),
    (''common.cancel'', [CHR 0xE5, CHR 0x8F, CHR 0x96, CHR 0xE6, CHR 0xB6, CHR 0x88]),
    (''common.online'', [CHR 0xE5, CHR 0x9C, CHR 0xA8, CHR 0xE7, CHR 0xBA, CHR 0xBF]),
    (''common.offline'', [CHR 0xE7, CHR 0xA6, CHR 0xBB, CHR 0xE7, CHR 0xBA, CHR 0xBF]),
    (''common.none'', [CHR 0xE6, CHR 0x97, CHR 0xA0]),
    (''common.operations'', [CHR 0xE6, CHR 0x93, CHR 0x8D, CHR 0xE4, CHR 0xBD, CHR 0x9C]),
    (''common.status'', [CHR 0xE7, CHR 0x8A, CHR 0xB6, CHR 0xE6, CHR 0x80, CHR 0x81]),
    (''common.progress'', [CHR 0xE8, CHR 0xBF, CHR 0x9B, CHR 0xE5, CHR 0xBA, CHR 0xA6]),
    (''dashboard.onlineDevices'', [CHR 0xE5, CHR 0x9C, CHR 0xA8, CHR 0xE7, CHR 0xBA, CHR 0xBF, CHR 0xE8, CHR 0xAE, CHR 0xBE, CHR 0xE5, CHR 0xA4, CHR 0x87, CHR 0xEF, CHR 0xBC, CHR 0x88, CHR 0xE9, CHR 0x9B, CHR 0x86, CHR 0xE7, CHR 0xBE, CHR 0xA4, CHR 0xEF, CHR 0xBC, CHR 0x89]),
    (''dashboard.activeSubscriptions'', [CHR 0xE6, CHR 0xB4, CHR 0xBB, CHR 0xE8, CHR 0xB7, CHR 0x83, CHR 0xE8, CHR 0xAE, CHR 0xA2, CHR 0xE9, CHR 0x98, CHR 0x85, CHR 0xEF, CHR 0xBC, CHR 0x88, CHR 0xE9, CHR 0x9B, CHR 0x86, CHR 0xE7, CHR 0xBE, CHR 0xA4, CHR 0xEF, CHR 0xBC, CHR 0x89]),
    (''dashboard.retainedMessages'', [CHR 0xE4, CHR 0xBF, CHR 0x9D, CHR 0xE7, CHR 0x95, CHR 0x99, CHR 0xE6, CHR 0xB6, CHR 0x88, CHR 0xE6, CHR 0x81, CHR 0xAF]),
    (''dashboard.clusterNodes'', [CHR 0xE9, CHR 0x9B, CHR 0x86, CHR 0xE7, CHR 0xBE, CHR 0xA4, CHR 0xE8, CHR 0x8A, CHR 0x82, CHR 0xE7, CHR 0x82, CHR 0xB9]),
    (''dashboard.nodeOverview'', [CHR 0xE5, CHR 0x90, CHR 0x84, CHR 0xE8, CHR 0x8A, CHR 0x82, CHR 0xE7, CHR 0x82, CHR 0xB9, CHR 0xE6, CHR 0xA6, CHR 0x82, CHR 0xE5, CHR 0x86, CHR 0xB5]),
    (''dashboard.connections'', [CHR 0xE8, CHR 0xBF, CHR 0x9E, CHR 0xE6, CHR 0x8E, CHR 0xA5, CHR 0xE6, CHR 0x95, CHR 0xB0]),
    (''dashboard.subscriptions'', [CHR 0xE8, CHR 0xAE, CHR 0xA2, CHR 0xE9, CHR 0x98, CHR 0x85, CHR 0xE6, CHR 0x95, CHR 0xB0]),
    (''dashboard.retained'', [CHR 0xE4, CHR 0xBF, CHR 0x9D, CHR 0xE7, CHR 0x95, CHR 0x99, CHR 0xE6, CHR 0xB6, CHR 0x88, CHR 0xE6, CHR 0x81, CHR 0xAF]),
    (''dashboard.connectionsTrend'', [CHR 0xE8, CHR 0xBF, CHR 0x9E, CHR 0xE6, CHR 0x8E, CHR 0xA5, CHR 0xE6, CHR 0x95, CHR 0xB0, CHR 0xE8, CHR 0xB6, CHR 0x8B, CHR 0xE5, CHR 0x8A, CHR 0xBF, CHR 0xEF, CHR 0xBC, CHR 0x88, CHR 0xE9, CHR 0x9B, CHR 0x86, CHR 0xE7, CHR 0xBE, CHR 0xA4, CHR 0xEF, CHR 0xBC, CHR 0x89]),
    (''dashboard.memoryTrend'', [CHR 0xE5, CHR 0x86, CHR 0x85, CHR 0xE5, CHR 0xAD, CHR 0x98, CHR 0xE4, CHR 0xBD, CHR 0xBF, CHR 0xE7, CHR 0x94, CHR 0xA8, CHR 0xE8, CHR 0xB6, CHR 0x8B, CHR 0xE5, CHR 0x8A, CHR 0xBF]),
    (''dashboard.goroutineTrend'', ''Goroutine '' @ [CHR 0xE8, CHR 0xB6, CHR 0x8B, CHR 0xE5, CHR 0x8A, CHR 0xBF]),
    (''dashboard.subscriptionsTrend'', [CHR 0xE8, CHR 0xAE, CHR 0xA2, CHR 0xE9, CHR 0x98, CHR 0x85, CHR 0xE6, CHR 0x95, CHR 0xB0, CHR 0xE8, CHR 0xB6, CHR 0x8B, CHR 0xE5, CHR 0x8A, CHR 0xBF, CHR 0xEF, CHR 0xBC, CHR 0x88, CHR 0xE9, CHR 0x9B, CHR 0x86, CHR 0xE7, CHR 0xBE, CHR 0xA4, CHR 0xEF, CHR 0xBC, CHR 0x89]),
    (''dashboard.memory'', [CHR 0xE5, CHR 0x86, CHR 0x85, CHR 0xE5, CHR 0xAD, CHR 0x98]),
    (''devices.searchPlaceholder'', [CHR 0xE6, CHR 0x90, CHR 0x9C, CHR 0xE7, CHR 0xB4, CHR 0xA2, CHR 0xE8, CHR 0xAE, CHR 0xBE, CHR 0xE5, CHR 0xA4, CHR 0x87] @ ''ID''),
    (''devices.deviceId'', [CHR 0xE8, CHR 0xAE, CHR 0xBE, CHR 0xE5, CHR 0xA4, CHR 0x87] @ ''ID''),
    (''devices.nodeLocation'', [CHR 0xE6, CHR 0x89, CHR 0x80, CHR 0xE5, CHR 0x9C, CHR 0xA8, CHR 0xE8, CHR 0x8A, CHR 0x82, CHR 0xE7, CHR 0x82, CHR 0xB9]),
    (''devices.subscribedTopics'', [CHR 0xE8, CHR 0xAE, CHR 0xA2, CHR 0xE9, CHR 0x98, CHR 0x85] @ ''Topic''),
    (''devices.ipAddress'', ''IP'' @ [CHR 0xE5, CHR 0x9C, CHR 0xB0, CHR 0xE5, CHR 0x9D, CHR 0x80]),
    (''devices.protocolVersion'', [CHR 0xE5, CHR 0x8D, CHR 0x8F, CHR 0xE8, CHR 0xAE, CHR 0xAE, CHR 0xE7, CHR 0x89, CHR 0x88, CHR 0xE6, CHR 0x9C, CHR 0xAC]),
    (''devices.connectTime'', [CHR 0xE8, CHR 0xBF, CHR 0x9E, CHR 0xE6, CHR 0x8E, CHR 0xA5, CHR 0xE6, CHR 0x97, CHR 0xB6, CHR 0xE9, CHR 0x97, CHR 0xB4]),
    (''devices.disconnect'', [CHR 0xE6, CHR 0x96, CHR 0xAD, CHR 0xE5, CHR 0xBC, CHR 0x80]),
    (''devices.confirmDisconnect'', [CHR 0xE7, CHR 0xA1, CHR 0xAE, CHR 0xE5, CHR 0xAE, CHR 0x9A, CHR 0xE8, CHR 0xA6, CHR 0x81, CHR 0xE6, CHR 0x96, CHR 0xAD, CHR 0xE5, CHR 0xBC, CHR 0x80, CHR 0xE6, CHR 0xAD, CHR 0xA4, CHR 0xE8, CHR 0xAE, CHR 0xBE, CHR 0xE5, CHR 0xA4, CHR 0x87, CHR 0xEF, CHR 0xBC, CHR 0x9F]),
    (''devices.totalDevices'', [CHR 0xE5, CHR 0x85, CHR 0xB1] @ '' {count} '' @ [CHR 0xE4, CHR 0xB8, CHR 0xAA, CHR 0xE8, CHR 0xAE, CHR 0xBE, CHR 0xE5, CHR 0xA4, CHR 0x87]),
    (''devices.deviceDetail'', [CHR 0xE8, CHR 0xAE, CHR 0xBE, CHR 0xE5, CHR 0xA4, CHR 0x87, CHR 0xE8, CHR 0xAF, CHR 0xA6, CHR 0xE6, CHR 0x83, CHR 0x85] @ '': {id}''),
    (''devices.username'', [CHR 0xE7, CHR 0x94, CHR 0xA8, CHR 0xE6, CHR 0x88, CHR 0xB7, CHR 0xE5, CHR 0x90, CHR 0x8D]),
    (''devices.keepAlive'', ''KeepAlive''),
    (''devices.sessionInfo'', [CHR 0xE4, CHR 0xBC, CHR 0x9A, CHR 0xE8, CHR 0xAF, CHR 0x9D, CHR 0xE4, CHR 0xBF, CHR 0xA1, CHR 0xE6, CHR 0x81, CHR 0xAF]),
    (''devices.subscription'', [CHR 0xE8, CHR 0xAE, CHR 0xA2, CHR 0xE9, CHR 0x98, CHR 0x85]),
    (''devices.disconnected'', [CHR 0xE5, CHR 0xB7, CHR 0xB2, CHR 0xE6, CHR 0x96, CHR 0xAD, CHR 0xE5, CHR 0xBC, CHR 0x80, CHR 0xE8, CHR 0xAE, CHR 0xBE, CHR 0xE5, CHR 0xA4, CHR 0x87] @ '' {id}''),
    (''devices.disconnectFailed'', [CHR 0xE6, CHR 0x96, CHR 0xAD, CHR 0xE5, CHR 0xBC, CHR 0x80, CHR 0xE5, CHR 0xA4, CHR 0xB1, CHR 0xE8, CHR 0xB4, CHR 0xA5]),
    (''devices.loadFailed'', [CHR 0xE5, CHR 0x8A, CHR 0xA0, CHR 0xE8, CHR 0xBD, CHR 0xBD, CHR 0xE8, CHR 0xAE, CHR 0xBE, CHR 0xE5, CHR 0xA4, CHR 0x87, CHR 0xE5, CHR 0x88, CHR 0x97, CHR 0xE8, CHR 0xA1, CHR 0xA8, CHR 0xE5, CHR 0xA4, CHR 0xB1, CHR 0xE8, CHR 0xB4, CHR 0xA5, CHR 0xEF, CHR 0xBC, CHR 0x8C, CHR 0xE5, CHR 0xB7, CHR 0xB2, CHR 0xE8, CHR 0x87, CHR 0xAA, CHR 0xE5, CHR 0x8A, CHR 0xA8, CHR 0xE9, CHR 0x99, CHR 0x8D, CHR 0xE4, CHR 0xBD, CHR 0x8E, CHR 0xE5, CHR 0x88, CHR 0xB7, CHR 0xE6, CHR 0x96, CHR 0xB0, CHR 0xE9, CHR 0xA2, CHR 0x91, CHR 0xE7, CHR 0x8E, CHR 0x87]),
    (''devices.loadDetailFailed'', [CHR 0xE5, CHR 0x8A, CHR 0xA0, CHR 0xE8, CHR 0xBD, CHR 0xBD, CHR 0xE8, CHR 0xAF, CHR 0xA6, CHR 0xE6, CHR 0x83, CHR 0x85, CHR 0xE5, CHR 0xA4, CHR 0xB1, CHR 0xE8, CHR 0xB4, CHR 0xA5]),
    (''devices.connectionRestored'', [CHR 0xE8, CHR 0xAE, CHR 0xBE, CHR 0xE5, CHR 0xA4, CHR 0x87, CHR 0xE5, CHR 0x88, CHR 0x97, CHR 0xE8, CHR 0xA1, CHR 0xA8, CHR 0xE8, CHR 0xBF, CHR 0x9E, CHR 0xE6, CHR 0x8E, CHR 0xA5, CHR 0xE5, CHR 0xB7, CHR 0xB2, CHR 0xE6, CHR 0x81, CHR 0xA2, CHR 0xE5, CHR 0xA4, CHR 0x8D]),
    (''devices.topic'', ''Topic''),
    (''cluster.thisNode'', [CHR 0xE6, CHR 0x9C, CHR 0xAC, CHR 0xE8, CHR 0x8A, CHR 0x82, CHR 0xE7, CHR 0x82, CHR 0xB9]),
    (''cluster.address'', [CHR 0xE5, CHR 0x9C, CHR 0xB0, CHR 0xE5, CHR 0x9D, CHR 0x80]),
    (''cluster.mqttPort'', ''MQTT'' @ [CHR 0xE7, CHR 0xAB, CHR 0xAF, CHR 0xE5, CHR 0x8F, CHR 0xA3]),
    (''cluster.httpPort'', ''HTTP'' @ [CHR 0xE7, CHR 0xAB, CHR 0xAF, CHR 0xE5, CHR 0x8F, CHR 0xA3]),
    (''cluster.gossip'', ''Gossip''),
    (''cluster.openAdmin'', [CHR 0xE6, CHR 0x89, CHR 0x93, CHR 0xE5, CHR 0xBC, CHR 0x80, CHR 0xE7, CHR 0xAE, CHR 0xA1, CHR 0xE7, CHR 0x90, CHR 0x86, CHR 0xE7, CHR 0x95, CHR 0x8C, CHR 0xE9, CHR 0x9D, CHR 0xA2] @ '' '' @ [CHR 0xE2, CHR 0x86, CHR 0x92]),
    (''cluster.migrationTasks'', [CHR 0xE8, CHR 0xBF, CHR 0x81, CHR 0xE7, CHR 0xA7, CHR 0xBB, CHR 0xE4, CHR 0xBB, CHR 0xBB, CHR 0xE5, CHR 0x8A, CHR 0xA1]),
    (''cluster.id'', ''ID''),
    (''cluster.device'', [CHR 0xE8, CHR 0xAE, CHR 0xBE, CHR 0xE5, CHR 0xA4, CHR 0x87]),
    (''cluster.sourceNode'', [CHR 0xE6, CHR 0xBA, CHR 0x90, CHR 0xE8, CHR 0x8A, CHR 0x82, CHR 0xE7, CHR 0x82, CHR 0xB9]),
    (''cluster.targetNode'', [CHR 0xE7, CHR 0x9B, CHR 0xAE, CHR 0xE6, CHR 0xA0, CHR 0x87, CHR 0xE8, CHR 0x8A, CHR 0x82, CHR 0xE7, CHR 0x82, CHR 0xB9]),
    (''cluster.cancelMigration'', [CHR 0xE7, CHR 0xA1, CHR 0xAE, CHR 0xE5, CHR 0xAE, CHR 0x9A, CHR 0xE5, CHR 0x8F, CHR 0x96, CHR 0xE6, CHR 0xB6, CHR 0x88, CHR 0xE6, CHR 0xAD, CHR 0xA4, CHR 0xE8, CHR 0xBF, CHR 0x81, CHR 0xE7, CHR 0xA7, CHR 0xBB, CHR 0xEF, CHR 0xBC, CHR 0x9F]),
    (''cluster.cancelled'', [CHR 0xE5, CHR 0xB7, CHR 0xB2, CHR 0xE5, CHR 0x8F, CHR 0x96, CHR 0xE6, CHR 0xB6, CHR 0x88, CHR 0xE8, CHR 0xBF, CHR 0x81, CHR 0xE7, CHR 0xA7, CHR 0xBB]),
    (''cluster.cancelFailed'', [CHR 0xE5, CHR 0x8F, CHR 0x96, CHR 0xE6, CHR 0xB6, CHR 0x88, CHR 0xE5, CHR 0xA4, CHR 0xB1, CHR 0xE8, CHR 0xB4, CHR 0xA5]),
    (''cluster.loadNodesFailed'', [CHR 0xE5, CHR 0x8A, CHR 0xA0, CHR 0xE8, CHR 0xBD, CHR 0xBD, CHR 0xE8, CHR 0x8A, CHR 0x82, CHR 0xE7, CHR 0x82, CHR 0xB9, CHR 0xE5, CHR 0xA4, CHR 0xB1, CHR 0xE8, CHR 0xB4, CHR 0xA5]),
    (''cluster.noMigrations'', [CHR 0xE6, CHR 0x9A, CHR 0x82, CHR 0xE6, CHR 0x97, CHR 0xA0, CHR 0xE8, CHR 0xBF, CHR 0x81, CHR 0xE7, CHR 0xA7, CHR 0xBB, CHR 0xE4, CHR 0xBB, CHR 0xBB, CHR 0xE5, CHR 0x8A, CHR 0xA1]),
    (''metrics.uptime'', [CHR 0xE8, CHR 0xBF, CHR 0x90, CHR 0xE8, CHR 0xA1, CHR 0x8C, CHR 0xE6, CHR 0x97, CHR 0xB6, CHR 0xE9, CHR 0x97, CHR 0xB4]),
    (''metrics.gcPause'', ''GC '' @ [CHR 0xE6, CHR 0x80, CHR 0xBB, CHR 0xE6, CHR 0x9A, CHR 0x82, CHR 0xE5, CHR 0x81, CHR 0x9C]),
    (''metrics.memoryAlloc'', [CHR 0xE5, CHR 0x86, CHR 0x85, CHR 0xE5, CHR 0xAD, CHR 0x98, CHR 0xE5, CHR 0x88, CHR 0x86, CHR 0xE9, CHR 0x85, CHR 0x8D] @ '' (Alloc)''),
    (''metrics.memorySys'', [CHR 0xE5, CHR 0x86, CHR 0x85, CHR 0xE5, CHR 0xAD, CHR 0x98, CHR 0xE6, CHR 0x80, CHR 0xBB, CHR 0xE9, CHR 0x87, CHR 0x8F] @ '' (Sys)''),
    (''metrics.goroutineCount'', ''Goroutine '' @ [CHR 0xE6, CHR 0x95, CHR 0xB0, CHR 0xE9, CHR 0x87, CHR 0x8F]),
    (''metrics.gcPauseTime'', ''GC '' @ [CHR 0xE6, CHR 0x9A, CHR 0x82, CHR 0xE5, CHR 0x81, CHR 0x9C, CHR 0xE6, CHR 0x97, CHR 0xB6, CHR 0xE9, CHR 0x97, CHR 0xB4])]"
subsection \<open>index.ts\<close>

record i18n_options =
  legacy :: bool
  locale_opt :: string
  fallbackLocale :: string
  messages :: "(string \<times> (string \<times> string) list) list"

text \<open>\<open>stored\<close> is \<^verbatim>\<open>localStorage.getItem('dmqtt-locale')\<close>; a missing or empty entry gives \<^verbatim>\<open>zh\<close>.\<close>

definition savedLocale :: "string option \<Rightarrow> string" where
  "savedLocale stored = (case stored of None \<Rightarrow> ''zh'' | Some s \<Rightarrow> if s = [] then ''zh'' else s)"

definition i18n :: "string option \<Rightarrow> i18n_options" where
  "i18n stored = \<lparr>legacy = False, locale_opt = savedLocale stored, fallbackLocale = ''zh'',
                  messages = [(''zh'', zh_messages), (''en'', en_messages)]\<rparr>"

subsection \<open>The catalogues agree\<close>

text \<open>The placeholders \<^verbatim>\<open>{name}\<close> of a message, in order of occurrence.\<close>

fun placeholders :: "string \<Rightarrow> string list" where
  "placeholders [] = []"
| "placeholders (c # cs) =
     (if c = CHR ''{'' then takeWhile (\<lambda>d. d \<noteq> CHR ''}'') cs # placeholders cs else placeholders cs)"

definition catalogue_keys :: "string list" where
  "catalogue_keys = map fst en_messages"

lemma zh_keys: "map fst zh_messages = catalogue_keys"
  by (simp add: catalogue_keys_def zh_messages_def en_messages_def)

lemma catalogue_keys_distinct: "distinct catalogue_keys"
  by (simp add: catalogue_keys_def en_messages_def)

lemma catalogue_placeholders:
  "map (placeholders \<circ> snd) zh_messages = map (placeholders \<circ> snd) en_messages"
  by (simp add: zh_messages_def en_messages_def)

text \<open>Membership of each key, for the proofs about the pages.\<close>

lemma catalogue_members:
  "''nav.dashboard'' \<in> set catalogue_keys"
  "''nav.devices'' \<in> set catalogue_keys"
  "''nav.cluster'' \<in> set catalogue_keys"
  "''nav.metrics'' \<in> set catalogue_keys"
  "''common.node'' \<in> set catalogue_keys"
  "''common.search'' \<in> set catalogue_keys"
  "''common.refresh'' \<in> set catalogue_keys"
  "''common.confirm'' \<in> set catalogue_keys"
  "''common.cancel'' \<in> set catalogue_keys"
  "''common.online'' \<in> set catalogue_keys"
  "''common.offline'' \<in> set catalogue_keys"
  "''common.none'' \<in> set catalogue_keys"
  "''common.operations'' \<in> set catalogue_keys"
  "''common.status'' \<in> set catalogue_keys"
  "''common.progress'' \<in> set catalogue_keys"
  "''dashboard.onlineDevices'' \<in> set catalogue_keys"
  "''dashboard.activeSubscriptions'' \<in> set catalogue_keys"
  "''dashboard.retainedMessages'' \<in> set catalogue_keys"
  "''dashboard.clusterNodes'' \<in> set catalogue_keys"
  "''dashboard.nodeOverview'' \<in> set catalogue_keys"
  "''dashboard.connections'' \<in> set catalogue_keys"
  "''dashboard.subscriptions'' \<in> set catalogue_keys"
  "''dashboard.retained'' \<in> set catalogue_keys"
  "''dashboard.connectionsTrend'' \<in> set catalogue_keys"
  "''dashboard.memoryTrend'' \<in> set catalogue_keys"
  "''dashboard.goroutineTrend'' \<in> set catalogue_keys"
  "''dashboard.subscriptionsTrend'' \<in> set catalogue_keys"
  "''dashboard.memory'' \<in> set catalogue_keys"
  "''devices.searchPlaceholder'' \<in> set catalogue_keys"
  "''devices.deviceId'' \<in> set catalogue_keys"
  "''devices.nodeLocation'' \<in> set catalogue_keys"
  "''devices.subscribedTopics'' \<in> set catalogue_keys"
  "''devices.ipAddress'' \<in> set catalogue_keys"
  "''devices.protocolVersion'' \<in> set catalogue_keys"
  "''devices.connectTime'' \<in> set catalogue_keys"
  "''devices.disconnect'' \<in> set catalogue_keys"
  "''devices.confirmDisconnect'' \<in> set catalogue_keys"
  "''devices.totalDevices'' \<in> set catalogue_keys"
  "''devices.deviceDetail'' \<in> set catalogue_keys"
  "''devices.username'' \<in> set catalogue_keys"
  "''devices.keepAlive'' \<in> set catalogue_keys"
  "''devices.sessionInfo'' \<in> set catalogue_keys"
  "''devices.subscription'' \<in> set catalogue_keys"
  "''devices.disconnected'' \<in> set catalogue_keys"
  "''devices.disconnectFailed'' \<in> set catalogue_keys"
  "''devices.loadFailed'' \<in> set catalogue_keys"
  "''devices.loadDetailFailed'' \<in> set catalogue_keys"
  "''devices.connectionRestored'' \<in> set catalogue_keys"
  "''devices.topic'' \<in> set catalogue_keys"
  "''cluster.thisNode'' \<in> set catalogue_keys"
  "''cluster.address'' \<in> set catalogue_keys"
  "''cluster.mqttPort'' \<in> set catalogue_keys"
  "''cluster.httpPort'' \<in> set catalogue_keys"
  "''cluster.gossip'' \<in> set catalogue_keys"
  "''cluster.openAdmin'' \<in> set catalogue_keys"
  "''cluster.migrationTasks'' \<in> set catalogue_keys"
  "''cluster.id'' \<in> set catalogue_keys"
  "''cluster.device'' \<in> set catalogue_keys"
  "''cluster.sourceNode'' \<in> set catalogue_keys"
  "''cluster.targetNode'' \<in> set catalogue_keys"
  "''cluster.cancelMigration'' \<in> set catalogue_keys"
  "''cluster.cancelled'' \<in> set catalogue_keys"
  "''cluster.cancelFailed'' \<in> set catalogue_keys"
  "''cluster.loadNodesFailed'' \<in> set catalogue_keys"
  "''cluster.noMigrations'' \<in> set catalogue_keys"
  "''metrics.uptime'' \<in> set catalogue_keys"
  "''metrics.gcPause'' \<in> set catalogue_keys"
  "''metrics.memoryAlloc'' \<in> set catalogue_keys"
  "''metrics.memorySys'' \<in> set catalogue_keys"
  "''metrics.goroutineCount'' \<in> set catalogue_keys"
  "''metrics.gcPauseTime'' \<in> set catalogue_keys"
  by (simp_all add: catalogue_keys_def en_messages_def)

lemma en_lookup: "k \<in> set catalogue_keys \<Longrightarrow> \<exists>m. map_of en_messages k = Some m"
  unfolding catalogue_keys_def by (metis map_of_eq_None_iff not_None_eq set_map)

lemma zh_lookup: "k \<in> set catalogue_keys \<Longrightarrow> \<exists>m. map_of zh_messages k = Some m"
  unfolding zh_keys [symmetric] by (metis map_of_eq_None_iff not_None_eq set_map)

end
