(* ===== verification/MainLayout.thy ===== *)
theory MainLayout
  imports AdminApi Vue I18n
begin

section \<open>MainLayout.vue, the router and the application entry\<close>

text \<open>
  Models \<^verbatim>\<open>web/admin/src/layouts/MainLayout.vue\<close> and \<^verbatim>\<open>web/admin/src/router/index.ts\<close>: the sidebar,
  the page title, the language switch, which is remembered in \<^verbatim>\<open>localStorage\<close>, and the route table.
\<close>

subsection \<open>Router\<close>

datatype page = DashboardPage | DevicesPage | ClusterPage | MetricsPage

record route =
  route_path :: string
  route_children :: "(string \<times> page) list"

definition router_base :: string where
  "router_base = ''/admin/''"

definition routes :: "route list" where
  "routes = [\<lparr>route_path = ''/'',
    route_children = [('''', DashboardPage), (''devices'', DevicesPage), (''cluster'', ClusterPage),
                      (''metrics'', MetricsPage)]\<rparr>]"

text \<open>The full path of a child route is the parent's path followed by its own.\<close>

definition full_routes :: "(string \<times> page) list" where
  "full_routes = concat (map (\<lambda>r. map (\<lambda>(p, c). (route_path r @ p, c)) (route_children r)) routes)"

subsection \<open>Layout\<close>

record layout =
  isCollapsed :: bool
  nodeId :: string
  cur_locale :: string
  stored_locale :: "string option"

definition layout_setup :: "string option \<Rightarrow> layout" where
  "layout_setup stored = \<lparr>isCollapsed = False, nodeId = [], cur_locale = locale_opt (i18n stored),
                          stored_locale = stored\<rparr>"

definition switchLang :: "string \<Rightarrow> layout \<Rightarrow> layout" where
  "switchLang lang l = l\<lparr>cur_locale := lang, stored_locale := Some lang\<rparr>"

definition toggleCollapsed :: "layout \<Rightarrow> layout" where
  "toggleCollapsed l = l\<lparr>isCollapsed := \<not> isCollapsed l\<rparr>"

fun layout_stats_settled :: "js_error + Stats \<Rightarrow> layout \<Rightarrow> layout" where
  "layout_stats_settled (Inr st) l = l\<lparr>nodeId := st_node_id st\<rparr>"
| "layout_stats_settled (Inl e) l = l"

definition title_map :: "translate \<Rightarrow> (string \<times> string) list" where
  "title_map t = [(''/'', t ''nav.dashboard'' []), (''/devices'', t ''nav.devices'' []),
                  (''/cluster'', t ''nav.cluster'' []), (''/metrics'', t ''nav.metrics'' [])]"

definition pageTitle :: "translate \<Rightarrow> string \<Rightarrow> string" where
  "pageTitle t path = (case map_of (title_map t) path of
     None \<Rightarrow> ''DMQTT'' | Some s \<Rightarrow> if s = [] then ''DMQTT'' else s)"

datatype layout_action = DoToggle | DoSwitchLang string

definition menu_item :: "string \<Rightarrow> string \<Rightarrow> string \<Rightarrow> layout_action vnode" where
  "menu_item index icon title = El ''el-menu-item'' [Attr ''index'' index]
     [El ''el-icon'' [] [El icon [] []], El ''template'' [Attr ''#title'' ''''] [Txt title]]"

definition lang_button :: "string \<Rightarrow> string \<Rightarrow> string \<Rightarrow> layout_action vnode" where
  "lang_button cur lang label = El ''el-button''
     [Bind ''type'' (BStr (if cur = lang then ''primary'' else ''default'')), On ''click'' (DoSwitchLang lang)]
     [Txt label]"

definition zh_label :: string where
  "zh_label = [CHR 0xE4, CHR 0xB8, CHR 0xAD, CHR 0xE6, CHR 0x96, CHR 0x87]"

definition layout_aside :: "translate \<Rightarrow> string \<Rightarrow> layout \<Rightarrow> layout_action vnode" where
  "layout_aside t path l = El ''el-aside'' [Bind ''width'' (BStr (if isCollapsed l then ''64px'' else ''200px''))]
     [El ''div'' [] [El ''span'' [] [Txt (if isCollapsed l then ''D'' else ''DMQTT'')]],
      El ''el-menu'' [Bind ''default-active'' (BStr path), Attr ''router'' '''',
                    Bind ''collapse'' (BBool (isCollapsed l))]
        [menu_item ''/'' ''Monitor'' (t ''nav.dashboard'' []),
         menu_item ''/devices'' ''Connection'' (t ''nav.devices'' []),
         menu_item ''/cluster'' ''Grid'' (t ''nav.cluster'' []),
         menu_item ''/metrics'' ''DataLine'' (t ''nav.metrics'' [])]]"

definition layout_header :: "translate \<Rightarrow> string \<Rightarrow> layout \<Rightarrow> layout_action vnode" where
  "layout_header t path l = El ''el-header'' []
     ([El ''el-icon'' [On ''click'' DoToggle] [El (if isCollapsed l then ''Expand'' else ''Fold'') [] []],
       El ''span'' [] [Txt (pageTitle t path)],
       El ''el-button-group'' [Attr ''size'' ''small'']
         [lang_button (cur_locale l) ''zh'' zh_label, lang_button (cur_locale l) ''en'' ''EN'']] @
      v_if (nodeId l \<noteq> [])
        (El ''el-tag'' [Attr ''type'' ''success'', Attr ''size'' ''small'']
           [Txt (t ''common.node'' [] @ '': '' @ nodeId l)]))"

definition layout_template :: "translate \<Rightarrow> string \<Rightarrow> layout \<Rightarrow> layout_action vnode \<Rightarrow> layout_action vnode" where
  "layout_template t path l router_view = El ''el-container'' []
     [layout_aside t path l,
      El ''el-container'' [] [layout_header t path l, El ''el-main'' [] [router_view]]]"

lemmas layout_view_defs = layout_template_def layout_aside_def layout_header_def menu_item_def
  lang_button_def pageTitle_def title_map_def

text \<open>The index attributes of the sidebar's entries.\<close>

fun attr_value :: "string \<Rightarrow> 'act attr list \<Rightarrow> string option" where
  "attr_value k [] = None"
| "attr_value k (Attr n v # as) = (if n = k then Some v else attr_value k as)"
| "attr_value k (_ # as) = attr_value k as"

definition menu_indices :: "'act vnode \<Rightarrow> string list" where
  "menu_indices n = List.map_filter
     (\<lambda>e. case e of El tag as cs \<Rightarrow> attr_value ''index'' as | Txt s \<Rightarrow> None) (elements ''el-menu-item'' n)"

lemma menu_indices_aside: "menu_indices (layout_aside t path l) = [''/'', ''/devices'', ''/cluster'', ''/metrics'']"
  by (simp add: menu_indices_def layout_aside_def menu_item_def List.map_filter_simps)

lemma full_routes_eq: "full_routes =
    [(''/'', DashboardPage), (''/devices'', DevicesPage), (''/cluster'', ClusterPage), (''/metrics'', MetricsPage)]"
  by (simp add: full_routes_def routes_def)

text \<open>The states the layout can be in: set up from the stored language, then changed by clicks on the
  controls it renders and by the reply with the node's id.\<close>

fun layout_act :: "layout_action \<Rightarrow> layout \<Rightarrow> layout" where
  "layout_act DoToggle l = toggleCollapsed l"
| "layout_act (DoSwitchLang lang) l = switchLang lang l"

inductive layout_reach :: "string option \<Rightarrow> layout \<Rightarrow> bool" for stored where
  layout_init: "layout_reach stored (layout_setup stored)"
| layout_click: "layout_reach stored l \<Longrightarrow> a \<in> set (handlers ''click'' (layout_template t path l (Txt body))) \<Longrightarrow>
     layout_reach stored (layout_act a l)"
| layout_reply: "layout_reach stored l \<Longrightarrow> layout_reach stored (layout_stats_settled r l)"

lemma layout_handlers:
  "handlers ''click'' (layout_template t path l (Txt body)) = [DoToggle, DoSwitchLang ''zh'', DoSwitchLang ''en'']"
  by (simp add: layout_view_defs handler_simps v_if_def)

lemma layout_stats_settled_locale [simp]:
  "cur_locale (layout_stats_settled r l) = cur_locale l" "stored_locale (layout_stats_settled r l) = stored_locale l"
  by (cases r; simp)+

subsection \<open>Properties\<close>

text \<open>The language of the admin pages survives a reload: in every state the layout can reach, setting the
  page up again from what is stored gives the language that was active.\<close>

theorem language_survives_reload:
  assumes "layout_reach stored l"
  shows "cur_locale (layout_setup (stored_locale l)) = cur_locale l"
  using assms
proof (induction rule: layout_reach.induct)
  case layout_init
  then show ?case by (simp add: layout_setup_def)
next
  case (layout_click l a t path body)
  then show ?case
    by (auto simp: layout_handlers switchLang_def toggleCollapsed_def layout_setup_def i18n_def savedLocale_def)
next
  case (layout_reply l r)
  then show ?case by simp
qed

theorem language_survives_reload_witness:
  "cur_locale (layout_setup (stored_locale (layout_act (DoSwitchLang ''en'') (layout_setup None)))) = ''en''"
  using language_survives_reload [OF layout_click [OF layout_init, of "DoSwitchLang ''en''" "\<lambda>k a. k" "''/''" None "''''"]]
  by (simp add: layout_handlers switchLang_def)

end
