(* ===== verification/AdminPages.thy ===== *)
theory AdminPages
  imports DashboardView MetricsView DevicesView ClusterView MainLayout I18n
begin

section \<open>The admin pages and the message catalogues\<close>

text \<open>
  The pages of \<^verbatim>\<open>web/admin/src/views\<close> take every text from \<^verbatim>\<open>t(key)\<close> of vue-i18n, which is a parameter
  of their templates.  This theory shows that they ask for keys of the catalogues only.
\<close>

text \<open>The translation function with every answer outside the catalogues forgotten.\<close>

definition only_keys :: "string list \<Rightarrow> translate \<Rightarrow> translate" where
  "only_keys ks t = (\<lambda>k args. if k \<in> set ks then t k args else [])"

lemma only_keys_agree: "agree_on ks t1 t2 \<Longrightarrow> only_keys ks t1 = only_keys ks t2"
  by (auto simp: only_keys_def agree_on_def fun_eq_iff)

lemma only_keys_catalogue:
  "k \<in> set catalogue_keys \<Longrightarrow> only_keys catalogue_keys t k = t k"
  by (simp add: only_keys_def fun_eq_iff)

lemmas catalogue_member = catalogue_members [THEN only_keys_catalogue]

lemma dashboard_within: "dashboard_template (only_keys catalogue_keys t) d = dashboard_template t d"
  by (simp add: dashboard_view_defs catalogue_member cong: option.case_cong)

lemma metrics_within: "metrics_template (only_keys catalogue_keys t) m = metrics_template t m"
  by (simp add: metrics_template_def catalogue_member)

lemma devices_within: "devices_template (only_keys catalogue_keys t) fmt lc s = devices_template t fmt lc s"
  by (simp add: devices_view_defs catalogue_member Let_def cong: option.case_cong list.case_cong if_cong)

lemma cluster_within: "cluster_template (only_keys catalogue_keys t) c = cluster_template t c"
proof -
  have "node_card (only_keys catalogue_keys t) = node_card t"
    by (simp add: fun_eq_iff node_card_def catalogue_member)
  moreover have "cancel_cell (only_keys catalogue_keys t) = cancel_cell t"
    by (simp add: fun_eq_iff cancel_cell_def catalogue_member)
  ultimately show ?thesis
    by (simp add: cluster_template_def migrations_table_def catalogue_member Let_def)
qed

lemma layout_within: "layout_template (only_keys catalogue_keys t) path l rv = layout_template t path l rv"
  by (simp add: layout_view_defs catalogue_member)

text \<open>Every text the pages ask for exists in both languages: the two catalogues have the same keys,
  each once, with the same placeholders, and two translation functions that agree on these keys
  render the same pages, whatever they do elsewhere.\<close>

theorem pages_use_catalogue_keys:
  assumes "agree_on catalogue_keys t1 t2"
  shows "map fst zh_messages = catalogue_keys \<and> distinct catalogue_keys \<and>
    map (placeholders \<circ> snd) zh_messages = map (placeholders \<circ> snd) en_messages \<and>
    dashboard_template t1 d = (dashboard_template t2 d :: unit vnode) \<and>
    metrics_template t1 m = (metrics_template t2 m :: unit vnode) \<and>
    devices_template t1 fmt lc s = devices_template t2 fmt lc s \<and>
    cluster_template t1 c = cluster_template t2 c \<and>
    layout_template t1 path l rv = layout_template t2 path l rv"
  using only_keys_agree [OF assms] dashboard_within metrics_within devices_within cluster_within layout_within
    zh_keys catalogue_keys_distinct catalogue_placeholders by metis

theorem pages_use_catalogue_keys_witness:
  "cluster_template (\<lambda>k a. k) cluster_setup = cluster_template (only_keys catalogue_keys (\<lambda>k a. k)) cluster_setup"
  using pages_use_catalogue_keys [of "\<lambda>k a. k" "only_keys catalogue_keys (\<lambda>k a. k)"]
  by (simp add: agree_on_def only_keys_catalogue)

end
