(* ===== verification/Migration.thy ===== *)
theory Migration
  imports Json
begin

section \<open>Shard migrations: task, coordinator and executor\<close>

text \<open>
  Models \<^verbatim>\<open>internal/cluster/migration.go\<close> and \<^verbatim>\<open>internal/cluster/migration_executor.go\<close>.  Every method
  of a migration locks it, so a concurrent history is a sequence of the operations below.  The
  coordinator's table is an association list with distinct keys, in the order a range over the Go
  map happens to visit it.  The current time is an argument of the operations that read it.
\<close>

subsection \<open>migration.go: a migration task\<close>

datatype MigrationPhase = PhasePrepare | PhaseHandshake | PhaseMigrate | PhaseRedirect | PhaseCleanup

fun phase_index :: "MigrationPhase \<Rightarrow> int" where
  "phase_index PhasePrepare = 0"
| "phase_index PhaseHandshake = 1"
| "phase_index PhaseMigrate = 2"
| "phase_index PhaseRedirect = 3"
| "phase_index PhaseCleanup = 4"

fun phase_String :: "MigrationPhase \<Rightarrow> string" where
  "phase_String PhasePrepare = ''prepare''"
| "phase_String PhaseHandshake = ''handshake''"
| "phase_String PhaseMigrate = ''migrate''"
| "phase_String PhaseRedirect = ''redirect''"
| "phase_String PhaseCleanup = ''cleanup''"

text \<open>\<^verbatim>\<open>if m.Phase < PhaseCleanup { m.Phase++ }\<close>\<close>

fun next_phase :: "MigrationPhase \<Rightarrow> MigrationPhase" where
  "next_phase PhasePrepare = PhaseHandshake"
| "next_phase PhaseHandshake = PhaseMigrate"
| "next_phase PhaseMigrate = PhaseRedirect"
| "next_phase PhaseRedirect = PhaseCleanup"
| "next_phase PhaseCleanup = PhaseCleanup"

datatype MigrationStatus =
    MigrationPending | MigrationRunning | MigrationCompleted | MigrationFailed | MigrationCancelled

fun status_text :: "MigrationStatus \<Rightarrow> string" where
  "status_text MigrationPending = ''pending''"
| "status_text MigrationRunning = ''running''"
| "status_text MigrationCompleted = ''completed''"
| "status_text MigrationFailed = ''failed''"
| "status_text MigrationCancelled = ''cancelled''"

record MigrationProgress =
  Total :: int
  Migrated :: int
  Failed :: int

record MigrationConfig =
  BatchSize :: int
  BatchInterval :: int
  MaxRetries :: int

definition DefaultMigrationConfig :: MigrationConfig where
  "DefaultMigrationConfig = \<lparr>BatchSize = 1000, BatchInterval = 1000000000, MaxRetries = 3\<rparr>"

record ShardMigration =
  ID :: string
  FromNode :: string
  ToNode :: string
  AffectedDevices :: "string list"
  Phase :: MigrationPhase
  Progress :: MigrationProgress
  Config :: MigrationConfig
  Status :: MigrationStatus
  Error :: string
  CreatedAt :: int
  UpdatedAt :: int

definition NewShardMigration ::
    "int \<Rightarrow> string \<Rightarrow> string \<Rightarrow> string \<Rightarrow> string list \<Rightarrow> MigrationConfig \<Rightarrow> ShardMigration" where
  "NewShardMigration now i fromNode toNode devs cfg =
     \<lparr>ID = i, FromNode = fromNode, ToNode = toNode, AffectedDevices = devs, Phase = PhasePrepare,
      Progress = \<lparr>Total = int (length devs), Migrated = 0, Failed = 0\<rparr>, Config = cfg,
      Status = MigrationPending, Error = [], CreatedAt = now, UpdatedAt = now\<rparr>"

definition AdvancePhase :: "int \<Rightarrow> ShardMigration \<Rightarrow> ShardMigration" where
  "AdvancePhase now m =
     (let m1 = (if Status m = MigrationPending then m\<lparr>Status := MigrationRunning\<rparr> else m)
      in m1\<lparr>Phase := next_phase (Phase m1), UpdatedAt := now\<rparr>)"

definition MarkCompleted :: "int \<Rightarrow> ShardMigration \<Rightarrow> ShardMigration" where
  "MarkCompleted now m = m\<lparr>Status := MigrationCompleted, UpdatedAt := now\<rparr>"

definition MarkFailed :: "int \<Rightarrow> string \<Rightarrow> ShardMigration \<Rightarrow> ShardMigration" where
  "MarkFailed now reason m = m\<lparr>Status := MigrationFailed, Error := reason, UpdatedAt := now\<rparr>"

definition CancelMigration :: "int \<Rightarrow> ShardMigration \<Rightarrow> ShardMigration" where
  "CancelMigration now m = m\<lparr>Status := MigrationCancelled, UpdatedAt := now\<rparr>"

definition RecordMigrated :: "int \<Rightarrow> int \<Rightarrow> ShardMigration \<Rightarrow> ShardMigration" where
  "RecordMigrated now n m =
     m\<lparr>Progress := (Progress m)\<lparr>Migrated := Migrated (Progress m) + n\<rparr>, UpdatedAt := now\<rparr>"

definition RecordFailed :: "int \<Rightarrow> int \<Rightarrow> ShardMigration \<Rightarrow> ShardMigration" where
  "RecordFailed now n m =
     m\<lparr>Progress := (Progress m)\<lparr>Failed := Failed (Progress m) + n\<rparr>, UpdatedAt := now\<rparr>"

definition IsTerminal :: "ShardMigration \<Rightarrow> bool" where
  "IsTerminal m \<longleftrightarrow> Status m = MigrationCompleted \<or> Status m = MigrationFailed \<or> Status m = MigrationCancelled"

subsection \<open>migration.go: the coordinator\<close>

record MigrationCoordinator =
  mc_migrations :: "(string \<times> ShardMigration) list"
  maxParallel :: int

definition NewMigrationCoordinator :: "int \<Rightarrow> MigrationCoordinator" where
  "NewMigrationCoordinator n = \<lparr>mc_migrations = [], maxParallel = (if n \<le> 0 then 3 else n)\<rparr>"

definition Submit :: "ShardMigration \<Rightarrow> MigrationCoordinator \<Rightarrow> MigrationCoordinator" where
  "Submit m mc = mc\<lparr>mc_migrations := AList.update (ID m) m (mc_migrations mc)\<rparr>"

definition Get :: "string \<Rightarrow> MigrationCoordinator \<Rightarrow> ShardMigration option" where
  "Get i mc = map_of (mc_migrations mc) i"

definition List_migrations :: "MigrationCoordinator \<Rightarrow> ShardMigration list" where
  "List_migrations mc = map snd (mc_migrations mc)"

definition Cancel :: "int \<Rightarrow> string \<Rightarrow> MigrationCoordinator \<Rightarrow> bool \<times> MigrationCoordinator" where
  "Cancel now i mc = (case map_of (mc_migrations mc) i of
     None \<Rightarrow> (False, mc)
   | Some m \<Rightarrow> (True, mc\<lparr>mc_migrations := AList.update i (CancelMigration now m) (mc_migrations mc)\<rparr>))"

definition Count :: "MigrationCoordinator \<Rightarrow> nat" where
  "Count mc = length (mc_migrations mc)"

definition ActiveCount :: "MigrationCoordinator \<Rightarrow> nat" where
  "ActiveCount mc = length (filter (\<lambda>m. Status m = MigrationRunning) (List_migrations mc))"

definition CanStartMore :: "MigrationCoordinator \<Rightarrow> bool" where
  "CanStartMore mc \<longleftrightarrow> int (ActiveCount mc) < maxParallel mc"

definition CleanupTerminal :: "MigrationCoordinator \<Rightarrow> MigrationCoordinator" where
  "CleanupTerminal mc = mc\<lparr>mc_migrations := filter (\<lambda>x. \<not> IsTerminal (snd x)) (mc_migrations mc)\<rparr>"

text \<open>Well-formedness: the Go map has one entry per key, and a migration is stored under its id.\<close>

definition coord_wf :: "MigrationCoordinator \<Rightarrow> bool" where
  "coord_wf mc \<longleftrightarrow> distinct (map fst (mc_migrations mc)) \<and> (\<forall>x\<in>set (mc_migrations mc). fst x = ID (snd x))"

lemma ID_CancelMigration [simp]: "ID (CancelMigration now m) = ID m"
  by (simp add: CancelMigration_def)

lemma coord_wf_new: "coord_wf (NewMigrationCoordinator n)"
  by (simp add: coord_wf_def NewMigrationCoordinator_def)

lemma coord_wf_update:
  assumes "coord_wf mc" and "k = ID v"
  shows "coord_wf (mc\<lparr>mc_migrations := AList.update k v (mc_migrations mc)\<rparr>)"
  using assms set_AList_update [of k v "mc_migrations mc"]
  by (fastforce simp: coord_wf_def distinct_update)

lemma coord_wf_Submit: "coord_wf mc \<Longrightarrow> coord_wf (Submit m mc)"
  by (simp add: Submit_def coord_wf_update)

lemma coord_wf_Get: "coord_wf mc \<Longrightarrow> Get i mc = Some m \<Longrightarrow> ID m = i"
  by (auto simp: coord_wf_def Get_def dest!: map_of_SomeD)

lemma coord_wf_Cancel: "coord_wf mc \<Longrightarrow> coord_wf (snd (Cancel now i mc))"
  using coord_wf_Get [of mc i]
  by (auto simp: Cancel_def Get_def intro: coord_wf_update split: option.splits)

lemma coord_wf_CleanupTerminal: "coord_wf mc \<Longrightarrow> coord_wf (CleanupTerminal mc)"
  by (auto simp: coord_wf_def CleanupTerminal_def distinct_map_filter)

subsection \<open>The coordinator as a table of tasks\<close>

text \<open>
  What the HTTP API relies on: a table from ids to tasks in which a submitted task is found under
  its id, a cancelled one is found with status cancelled, nothing else changes, and listing gives
  exactly the stored tasks.
\<close>

locale migration_table =
  fixes submit :: "ShardMigration \<Rightarrow> 'c \<Rightarrow> 'c"
    and get :: "string \<Rightarrow> 'c \<Rightarrow> ShardMigration option"
    and cancel :: "int \<Rightarrow> string \<Rightarrow> 'c \<Rightarrow> bool \<times> 'c"
    and list :: "'c \<Rightarrow> ShardMigration list"
    and wf :: "'c \<Rightarrow> bool"
  assumes get_submit: "get i (submit m c) = (if i = ID m then Some m else get i c)"
    and get_id: "wf c \<Longrightarrow> get i c = Some m \<Longrightarrow> ID m = i"
    and get_cancel: "get j (snd (cancel now i c)) =
      (if j = i then map_option (CancelMigration now) (get i c) else get j c)"
    and cancel_result: "fst (cancel now i c) \<longleftrightarrow> get i c \<noteq> None"
    and list_get: "wf c \<Longrightarrow> m \<in> set (list c) \<longleftrightarrow> get (ID m) c = Some m"
    and wf_submit: "wf c \<Longrightarrow> wf (submit m c)"
    and wf_cancel: "wf c \<Longrightarrow> wf (snd (cancel now i c))"
begin

lemma cancel_status:
  "get i c = Some m \<Longrightarrow> \<exists>m'. get i (snd (cancel now i c)) = Some m' \<and> Status m' = MigrationCancelled"
  by (simp add: get_cancel CancelMigration_def)

lemma list_after_cancel:
  assumes "wf c" and "get i c = Some m"
  shows "set (list (snd (cancel now i c))) = insert (CancelMigration now m) (set (list c) - {m})"
proof -
  have im: "ID m = i" using assms by (rule get_id)
  have "x \<in> set (list (snd (cancel now i c))) \<longleftrightarrow> x = CancelMigration now m \<or> x \<in> set (list c) - {m}" for x
    using assms im by (auto simp: list_get wf_cancel get_cancel)
  then show ?thesis by blast
qed

lemma list_after_submit:
  assumes "wf c"
  shows "set (list (submit m c)) = insert m {x \<in> set (list c). ID x \<noteq> ID m}"
  using assms by (auto simp: list_get wf_submit get_submit split: if_splits)

end

lemma coord_list_get: "coord_wf mc \<Longrightarrow> m \<in> set (List_migrations mc) \<longleftrightarrow> Get (ID m) mc = Some m"
  by (auto simp: coord_wf_def List_migrations_def Get_def dest: map_of_SomeD intro: rev_image_eqI)

lemma Get_Submit: "Get i (Submit m mc) = (if i = ID m then Some m else Get i mc)"
  by (simp add: Submit_def Get_def update_conv')

lemma Get_Cancel: "Get j (snd (Cancel now i mc)) =
    (if j = i then map_option (CancelMigration now) (Get i mc) else Get j mc)"
  by (auto simp: Cancel_def Get_def update_conv' split: option.splits)

lemma Cancel_result: "fst (Cancel now i mc) \<longleftrightarrow> Get i mc \<noteq> None"
  by (simp add: Cancel_def Get_def split: option.splits)

interpretation coordinator: migration_table Submit Get Cancel List_migrations coord_wf
  by unfold_locales
    (simp_all add: Get_Submit Get_Cancel Cancel_result coord_wf_Get coord_list_get
      coord_wf_Submit coord_wf_Cancel)

subsection \<open>migration\_executor.go\<close>

text \<open>
  The operations the executor and the API apply to a migration, and everything else the executor
  does, as effects on its environment: the connection index, the broker and the peer transport.
  Whether a send of a device's data succeeds is decided by the environment, for each device and
  each attempt.
\<close>

datatype mig_op =
    OpAdvance | OpRecordMigrated int | OpRecordFailed int | OpCompleted | OpFailed string | OpCancel

fun apply_op :: "int \<Rightarrow> mig_op \<Rightarrow> ShardMigration \<Rightarrow> ShardMigration" where
  "apply_op now OpAdvance m = AdvancePhase now m"
| "apply_op now (OpRecordMigrated n) m = RecordMigrated now n m"
| "apply_op now (OpRecordFailed n) m = RecordFailed now n m"
| "apply_op now OpCompleted m = MarkCompleted now m"
| "apply_op now (OpFailed reason) m = MarkFailed now reason m"
| "apply_op now OpCancel m = CancelMigration now m"

fun run_ops :: "(int \<times> mig_op) list \<Rightarrow> ShardMigration \<Rightarrow> ShardMigration" where
  "run_ops [] m = m"
| "run_ops ((now, x) # xs) m = run_ops xs (apply_op now x m)"

datatype effect =
    Op mig_op
  | SetMigrating string bool
  | DisconnectDevice string
  | SendMigrate string string bool
  | DeleteOfflineMessages string
  | DeleteSession string
  | RemoveConn string

type_synonym send_outcome = "string \<Rightarrow> nat \<Rightarrow> bool"

text \<open>The retry loop: \<open>n\<close> attempts are left, and \<open>sendErr\<close> is the outcome of the last attempt made
  (no error before the first).\<close>

fun send_retry :: "send_outcome \<Rightarrow> string \<Rightarrow> string \<Rightarrow> nat \<Rightarrow> nat \<Rightarrow> bool \<Rightarrow> effect list \<times> bool" where
  "send_retry ok to d retry 0 sendErr = ([], sendErr)"
| "send_retry ok to d retry (Suc n) sendErr =
     (if ok d retry then ([SendMigrate to d True], False)
      else (case send_retry ok to d (Suc retry) n True of (es, err) \<Rightarrow> (SendMigrate to d False # es, err)))"

definition migrate_device :: "send_outcome \<Rightarrow> ShardMigration \<Rightarrow> string \<Rightarrow> effect list \<times> bool" where
  "migrate_device ok m d =
     (case send_retry ok (ToNode m) d 0 (nat (MaxRetries (Config m) + 1)) False of
        (es, sendErr) \<Rightarrow>
          (DisconnectDevice d # es @ (if sendErr then [] else [DeleteOfflineMessages d, DeleteSession d]),
           sendErr))"

definition migrate_batch :: "send_outcome \<Rightarrow> ShardMigration \<Rightarrow> string list \<Rightarrow> effect list" where
  "migrate_batch ok m batch =
     concat (map (fst \<circ> migrate_device ok m) batch) @
     [Op (OpRecordMigrated (int (length (filter (\<lambda>d. \<not> snd (migrate_device ok m d)) batch)))),
      Op (OpRecordFailed (int (length (filter (\<lambda>d. snd (migrate_device ok m d)) batch))))]"

function batches :: "nat \<Rightarrow> 'a list \<Rightarrow> 'a list list" where
  "batches n xs = (if n = 0 \<or> xs = [] then [] else take n xs # batches n (drop n xs))"
  by pat_completeness auto
termination
  by (relation "measure (\<lambda>(n, xs). length xs)") auto

declare batches.simps [simp del]

definition batch_size :: "MigrationConfig \<Rightarrow> nat" where
  "batch_size cfg = nat (if BatchSize cfg \<le> 0 then 1000 else BatchSize cfg)"

definition failed_devices :: "send_outcome \<Rightarrow> ShardMigration \<Rightarrow> string list" where
  "failed_devices ok m = filter (\<lambda>d. snd (migrate_device ok m d)) (AffectedDevices m)"

definition final_op :: "send_outcome \<Rightarrow> ShardMigration \<Rightarrow> mig_op" where
  "final_op ok m =
     (let failed = Failed (Progress m) + int (length (failed_devices ok m))
      in if 0 < failed then OpFailed (show_int failed @ '' devices failed to migrate'') else OpCompleted)"

definition Execute :: "send_outcome \<Rightarrow> ShardMigration \<Rightarrow> effect list" where
  "Execute ok m =
     [Op OpAdvance] @ map (\<lambda>d. SetMigrating d True) (AffectedDevices m) @
     [Op OpAdvance, Op OpAdvance] @
     concat (map (migrate_batch ok m) (batches (batch_size (Config m)) (AffectedDevices m))) @
     [Op OpAdvance] @ concat (map (\<lambda>d. [SetMigrating d False, RemoveConn d]) (AffectedDevices m)) @
     [Op OpAdvance, Op (final_op ok m)]"

text \<open>The operations among a list of effects.\<close>

definition ops :: "effect list \<Rightarrow> mig_op list" where
  "ops es = List.map_filter (\<lambda>e. case e of Op x \<Rightarrow> Some x | _ \<Rightarrow> None) es"

lemma ops_simps [simp]:
  "ops [] = []" "ops (xs @ ys) = ops xs @ ops ys"
  "ops (e # es) = (case e of Op x \<Rightarrow> [x] | _ \<Rightarrow> []) @ ops es"
proof -
  show c: "ops (e # es) = (case e of Op x \<Rightarrow> [x] | _ \<Rightarrow> []) @ ops es" for e es
    by (cases e) (simp_all add: ops_def List.map_filter_simps)
  show "ops [] = []" by (simp add: ops_def List.map_filter_simps)
  then show "ops (xs @ ys) = ops xs @ ops ys" by (induction xs) (auto simp: c)
qed

lemma ops_concat: "ops (concat xss) = concat (map ops xss)"
  by (induction xss) auto

lemma batches_Nil [simp]: "batches n [] = []"
  by (simp add: batches.simps)

lemma concat_batches: "0 < n \<Longrightarrow> concat (batches n xs) = xs"
proof (induction n xs rule: batches.induct)
  case (1 n xs)
  then show ?case by (cases "xs = []") (simp_all add: batches.simps [of n xs])
qed

lemma batch_size_pos: "0 < batch_size cfg"
  by (simp add: batch_size_def)

lemma ops_no_op: "(\<And>x. Op x \<notin> set es) \<Longrightarrow> ops es = []"
  by (induction es) (auto split: effect.splits)

lemma send_retry_no_op: "Op x \<notin> set (fst (send_retry ok to d r n b))"
  by (induction ok to d r n b rule: send_retry.induct) (auto split: prod.splits)

lemma ops_migrate_device [simp]: "ops (fst (migrate_device ok m d)) = []"
  by (rule ops_no_op)
    (use send_retry_no_op [of _ ok "ToNode m" d 0 "nat (MaxRetries (Config m) + 1)" False]
      in \<open>auto simp: migrate_device_def split: prod.splits\<close>)

lemma ops_flags [simp]:
  "ops (map (\<lambda>d. SetMigrating d b) ds) = []"
  "ops (concat (map (\<lambda>d. [SetMigrating d False, RemoveConn d]) ds)) = []"
  by (induction ds) auto

lemma ops_migrate_batch: "ops (migrate_batch ok m b) =
    [OpRecordMigrated (int (length (filter (\<lambda>d. \<not> snd (migrate_device ok m d)) b))),
     OpRecordFailed (int (length (filter (\<lambda>d. snd (migrate_device ok m d)) b)))]"
proof -
  have "ops (concat (map (fst \<circ> migrate_device ok m) b)) = []" by (induction b) auto
  then show ?thesis by (simp add: migrate_batch_def)
qed

definition batch_ops :: "send_outcome \<Rightarrow> ShardMigration \<Rightarrow> mig_op list" where
  "batch_ops ok m = concat (map (\<lambda>b.
     [OpRecordMigrated (int (length (filter (\<lambda>d. \<not> snd (migrate_device ok m d)) b))),
      OpRecordFailed (int (length (filter (\<lambda>d. snd (migrate_device ok m d)) b)))])
     (batches (batch_size (Config m)) (AffectedDevices m)))"

lemma ops_Execute: "ops (Execute ok m) =
    [OpAdvance, OpAdvance, OpAdvance] @ batch_ops ok m @ [OpAdvance, OpAdvance, final_op ok m]"
  by (simp add: Execute_def batch_ops_def ops_concat ops_migrate_batch comp_def)

subsection \<open>What a history does to a migration\<close>

text \<open>The number of devices an operation accounts for.\<close>

fun op_migrated :: "mig_op \<Rightarrow> int" where
  "op_migrated (OpRecordMigrated n) = n"
| "op_migrated _ = 0"

fun op_failed :: "mig_op \<Rightarrow> int" where
  "op_failed (OpRecordFailed n) = n"
| "op_failed _ = 0"

lemmas op_defs = AdvancePhase_def RecordMigrated_def RecordFailed_def MarkCompleted_def MarkFailed_def
  CancelMigration_def

lemma run_ops_append: "run_ops (xs @ ys) m = run_ops ys (run_ops xs m)"
  by (induction xs m rule: run_ops.induct) auto

lemma apply_op_progress:
  "Migrated (Progress (apply_op now x m)) = Migrated (Progress m) + op_migrated x"
  "Failed (Progress (apply_op now x m)) = Failed (Progress m) + op_failed x"
  "Total (Progress (apply_op now x m)) = Total (Progress m)"
  by (cases x; simp add: op_defs Let_def)+

lemma run_ops_progress:
  "Migrated (Progress (run_ops xs m)) = Migrated (Progress m) + sum_list (map (op_migrated \<circ> snd) xs)"
  "Failed (Progress (run_ops xs m)) = Failed (Progress m) + sum_list (map (op_failed \<circ> snd) xs)"
  "Total (Progress (run_ops xs m)) = Total (Progress m)"
  by (induction xs m rule: run_ops.induct) (auto simp: apply_op_progress)

text \<open>Cancelling changes no counter, so the sums ignore cancellations.\<close>

lemma sum_no_cancel:
  "sum_list (map op_migrated (filter (\<lambda>x. x \<noteq> OpCancel) xs)) = sum_list (map op_migrated xs)"
  "sum_list (map op_failed (filter (\<lambda>x. x \<noteq> OpCancel) xs)) = sum_list (map op_failed xs)"
  by (induction xs) auto

lemma sum_batch_ops:
  fixes f g :: "'a list \<Rightarrow> int"
  shows "sum_list (map op_failed (concat (map (\<lambda>b. [OpRecordMigrated (f b), OpRecordFailed (g b)]) bs)))
      = sum_list (map g bs)"
    and "sum_list (map op_migrated (concat (map (\<lambda>b. [OpRecordMigrated (f b), OpRecordFailed (g b)]) bs)))
      = sum_list (map f bs)"
  by (induction bs) auto

lemma sum_filter_batches:
  "sum_list (map (\<lambda>b. int (length (filter P b))) bs) = int (length (filter P (concat bs)))"
  by (induction bs) auto

lemma batch_ops_sums:
  "sum_list (map op_failed (batch_ops ok m)) = int (length (failed_devices ok m))"
  "sum_list (map op_migrated (batch_ops ok m)) = int (length (AffectedDevices m)) - int (length (failed_devices ok m))"
proof -
  let ?bs = "batches (batch_size (Config m)) (AffectedDevices m)" and ?P = "\<lambda>d. snd (migrate_device ok m d)"
  have c: "concat ?bs = AffectedDevices m" by (simp add: concat_batches batch_size_pos)
  have "sum_list (map op_failed (batch_ops ok m)) = sum_list (map (\<lambda>b. int (length (filter ?P b))) ?bs)"
    unfolding batch_ops_def by (rule sum_batch_ops)
  then show "sum_list (map op_failed (batch_ops ok m)) = int (length (failed_devices ok m))"
    by (simp add: sum_filter_batches c failed_devices_def)
  have "sum_list (map op_migrated (batch_ops ok m)) = sum_list (map (\<lambda>b. int (length (filter (\<lambda>d. \<not> ?P d) b))) ?bs)"
    unfolding batch_ops_def by (rule sum_batch_ops)
  then show "sum_list (map op_migrated (batch_ops ok m)) = int (length (AffectedDevices m)) - int (length (failed_devices ok m))"
    using sum_length_filter_compl [of ?P "AffectedDevices m"]
    by (simp add: sum_filter_batches c failed_devices_def)
qed

lemma final_op_simps [simp]: "op_migrated (final_op ok m) = 0" "op_failed (final_op ok m) = 0"
  "final_op ok m \<noteq> OpCancel"
  by (simp_all add: final_op_def Let_def)

text \<open>
  A history of a migration: the executor's operations in their order, with cancellations anywhere
  before its last operation.
\<close>

definition executed_with_cancels :: "send_outcome \<Rightarrow> ShardMigration \<Rightarrow> (int \<times> mig_op) list \<Rightarrow> bool" where
  "executed_with_cancels ok m h \<longleftrightarrow>
     filter (\<lambda>x. x \<noteq> OpCancel) (map snd h) = ops (Execute ok m) \<and> h \<noteq> [] \<and> snd (last h) \<noteq> OpCancel"

lemma executed_last:
  assumes "executed_with_cancels ok m h"
  obtains h' now where "h = h' @ [(now, final_op ok m)]"
proof -
  obtain h' x where h: "h = h' @ [x]" using assms by (cases h rule: rev_cases) (auto simp: executed_with_cancels_def)
  have "last (filter (\<lambda>x. x \<noteq> OpCancel) (map snd h)) = snd x"
    using assms h by (simp add: executed_with_cancels_def)
  then have "snd x = final_op ok m" using assms by (simp add: executed_with_cancels_def ops_Execute)
  then show ?thesis using h that [of h' "fst x"] by (metis prod.collapse)
qed

lemma executed_sums:
  assumes "executed_with_cancels ok m h"
  shows "sum_list (map (op_migrated \<circ> snd) h) = int (length (AffectedDevices m)) - int (length (failed_devices ok m))"
    and "sum_list (map (op_failed \<circ> snd) h) = int (length (failed_devices ok m))"
proof -
  let ?f = "filter (\<lambda>x. x \<noteq> OpCancel) (map snd h)"
  have e: "?f = ops (Execute ok m)" using assms by (simp add: executed_with_cancels_def)
  have "sum_list (map op_migrated (map snd h)) = sum_list (map op_migrated ?f)" by (rule sum_no_cancel(1) [symmetric])
  then show "sum_list (map (op_migrated \<circ> snd) h) = int (length (AffectedDevices m)) - int (length (failed_devices ok m))"
    by (simp add: e ops_Execute batch_ops_sums)
  have "sum_list (map op_failed (map snd h)) = sum_list (map op_failed ?f)" by (rule sum_no_cancel(2) [symmetric])
  then show "sum_list (map (op_failed \<circ> snd) h) = int (length (failed_devices ok m))"
    by (simp add: e ops_Execute batch_ops_sums)
qed

subsection \<open>Data leaves the source only after it was sent\<close>

text \<open>A device's data is removed at a point of a trace only when a send of that device to the target
  has succeeded before that point.\<close>

definition deletes_after_send :: "string \<Rightarrow> effect list \<Rightarrow> bool" where
  "deletes_after_send to es \<longleftrightarrow>
     (\<forall>i<length es. \<forall>d. es ! i = DeleteOfflineMessages d \<or> es ! i = DeleteSession d \<longrightarrow>
        SendMigrate to d True \<in> set (take i es))"

lemma deletes_append:
  "deletes_after_send to xs \<Longrightarrow> deletes_after_send to ys \<Longrightarrow> deletes_after_send to (xs @ ys)"
  unfolding deletes_after_send_def by (auto simp: nth_append)

lemma deletes_none: "(\<And>d. DeleteOfflineMessages d \<notin> set es \<and> DeleteSession d \<notin> set es) \<Longrightarrow> deletes_after_send to es"
  unfolding deletes_after_send_def by (metis nth_mem)

lemma deletes_snoc:
  assumes "deletes_after_send to xs" and "SendMigrate to d True \<in> set xs"
    and "e = DeleteOfflineMessages d \<or> e = DeleteSession d"
  shows "deletes_after_send to (xs @ [e])"
  using assms by (auto simp: deletes_after_send_def nth_append less_Suc_eq)

lemma deletes_concat: "(\<And>xs. xs \<in> set xss \<Longrightarrow> deletes_after_send to xs) \<Longrightarrow> deletes_after_send to (concat xss)"
  by (induction xss) (auto intro: deletes_none deletes_append)

lemma send_retry_no_delete:
  "DeleteOfflineMessages x \<notin> set (fst (send_retry ok to d r n b)) \<and> DeleteSession x \<notin> set (fst (send_retry ok to d r n b))"
  by (induction ok to d r n b rule: send_retry.induct) (auto split: prod.splits)

lemma send_retry_sent:
  "\<not> snd (send_retry ok to d r n b) \<Longrightarrow> b \<or> 0 < n \<Longrightarrow> SendMigrate to d True \<in> set (fst (send_retry ok to d r n b))"
  by (induction ok to d r n b rule: send_retry.induct) (auto split: prod.splits if_splits)

lemma deletes_migrate_device:
  assumes "0 \<le> MaxRetries (Config m)"
  shows "deletes_after_send (ToNode m) (fst (migrate_device ok m d))"
proof -
  let ?r = "send_retry ok (ToNode m) d 0 (nat (MaxRetries (Config m) + 1)) False"
  have f: "fst (migrate_device ok m d) =
      DisconnectDevice d # fst ?r @ (if snd ?r then [] else [DeleteOfflineMessages d, DeleteSession d])"
    by (simp add: migrate_device_def split: prod.splits)
  have n: "deletes_after_send (ToNode m) (DisconnectDevice d # fst ?r)"
    using send_retry_no_delete by (intro deletes_none) auto
  show ?thesis
  proof (cases "snd ?r")
    case True
    then show ?thesis unfolding f using n by simp
  next
    case False
    then have s: "SendMigrate (ToNode m) d True \<in> set (DisconnectDevice d # fst ?r)"
      using assms send_retry_sent by fastforce
    then have "deletes_after_send (ToNode m) (((DisconnectDevice d # fst ?r) @ [DeleteOfflineMessages d]) @ [DeleteSession d])"
      by (intro deletes_snoc [of _ _ d] n) auto
    then show ?thesis unfolding f using False by simp
  qed
qed

lemma deletes_migrate_batch:
  "0 \<le> MaxRetries (Config m) \<Longrightarrow> deletes_after_send (ToNode m) (migrate_batch ok m b)"
  unfolding migrate_batch_def
  by (intro deletes_append deletes_concat) (auto intro: deletes_none simp: deletes_migrate_device)

lemma deletes_Execute:
  "0 \<le> MaxRetries (Config m) \<Longrightarrow> deletes_after_send (ToNode m) (Execute ok m)"
  unfolding Execute_def
  by (intro deletes_append deletes_concat) (auto intro: deletes_none simp: deletes_migrate_batch)

lemma send_retry_failed:
  "snd (send_retry ok to d r n b) \<longleftrightarrow> (if n = 0 then b else \<forall>k<n. \<not> ok d (r + k))"
proof (induction ok to d r n b rule: send_retry.induct)
  case (2 ok to d retry n sendErr)
  have "(\<forall>k<Suc n. \<not> ok d (retry + k)) \<longleftrightarrow> \<not> ok d retry \<and> (\<forall>k<n. \<not> ok d (Suc retry + k))"
    by (auto simp: less_Suc_eq_0_disj)
  then show ?case using 2 by (auto split: prod.splits)
qed simp

lemma migrate_device_failed:
  "snd (migrate_device ok m d) \<longleftrightarrow> 0 \<le> MaxRetries (Config m) \<and> (\<forall>k\<le>nat (MaxRetries (Config m)). \<not> ok d k)"
proof -
  have "snd (migrate_device ok m d) = snd (send_retry ok (ToNode m) d 0 (nat (MaxRetries (Config m) + 1)) False)"
    by (simp add: migrate_device_def split: prod.splits)
  moreover have "nat (MaxRetries (Config m) + 1) = Suc (nat (MaxRetries (Config m)))" if "0 \<le> MaxRetries (Config m)"
    using that by simp
  ultimately show ?thesis by (simp add: send_retry_failed less_Suc_eq_le del: nat_add_distrib)
qed

subsection \<open>Histories of the coordinator\<close>

datatype coord_op = DoSubmit ShardMigration | DoCancel int string | DoCleanup

fun coord_step :: "coord_op \<Rightarrow> MigrationCoordinator \<Rightarrow> MigrationCoordinator" where
  "coord_step (DoSubmit m) mc = Submit m mc"
| "coord_step (DoCancel now i) mc = snd (Cancel now i mc)"
| "coord_step DoCleanup mc = CleanupTerminal mc"

definition coord_after :: "int \<Rightarrow> coord_op list \<Rightarrow> MigrationCoordinator" where
  "coord_after n xs = foldl (\<lambda>mc x. coord_step x mc) (NewMigrationCoordinator n) xs"

lemma coord_after_snoc: "coord_after n (xs @ [x]) = coord_step x (coord_after n xs)"
  by (simp add: coord_after_def)

lemma coord_wf_step: "coord_wf mc \<Longrightarrow> coord_wf (coord_step x mc)"
  by (cases x) (simp_all add: coord_wf_Submit coord_wf_Cancel coord_wf_CleanupTerminal)

lemma coord_wf_after: "coord_wf (coord_after n xs)"
  by (induction xs rule: rev_induct) (simp_all add: coord_after_snoc coord_wf_step, simp add: coord_after_def coord_wf_new)

lemma map_of_filter_distinct:
  "distinct (map fst xs) \<Longrightarrow> map_of (filter (\<lambda>x. P (snd x)) xs) k =
     (case map_of xs k of Some v \<Rightarrow> if P v then Some v else None | None \<Rightarrow> None)"
  by (induction xs) (auto simp: map_of_eq_None_iff split: option.splits)

lemma Get_Cleanup: "coord_wf mc \<Longrightarrow> Get i (CleanupTerminal mc) =
    (case Get i mc of Some m \<Rightarrow> if IsTerminal m then None else Some m | None \<Rightarrow> None)"
  by (auto simp: coord_wf_def Get_def CleanupTerminal_def map_of_filter_distinct [of _ "\<lambda>m. \<not> IsTerminal m"]
      split: option.splits)

text \<open>The abstract table: a map from ids to tasks.\<close>

fun abs_step :: "coord_op \<Rightarrow> (string \<rightharpoonup> ShardMigration) \<Rightarrow> (string \<rightharpoonup> ShardMigration)" where
  "abs_step (DoSubmit m) t = t(ID m \<mapsto> m)"
| "abs_step (DoCancel now i) t = (case t i of None \<Rightarrow> t | Some m \<Rightarrow> t(i \<mapsto> CancelMigration now m))"
| "abs_step DoCleanup t = (\<lambda>i. case t i of Some m \<Rightarrow> if IsTerminal m then None else Some m | None \<Rightarrow> None)"

definition coord_abs :: "MigrationCoordinator \<Rightarrow> (string \<rightharpoonup> ShardMigration)" where
  "coord_abs mc = (\<lambda>i. Get i mc)"

lemma coord_abs_step: "coord_wf mc \<Longrightarrow> coord_abs (coord_step x mc) = abs_step x (coord_abs mc)"
  by (cases x) (auto simp: coord_abs_def fun_eq_iff Get_Submit Get_Cancel Get_Cleanup split: option.splits)

lemma run_ops_final:
  "Status (run_ops (h @ [(now, final_op ok m)]) x) =
     (if 0 < Failed (Progress m) + int (length (failed_devices ok m)) then MigrationFailed else MigrationCompleted)"
  by (simp add: run_ops_append final_op_def Let_def op_defs)

subsection \<open>Properties\<close>


text \<open>C27: An execution accounts for every device, also when cancellations arrive while it runs: at the end
  the migrated and the failed devices add up to the total, the failed ones are those whose every
  attempt failed, and the status is completed exactly when there is none, else failed.\<close>

theorem migration_accounting:
  assumes "m = NewShardMigration t i fromNode toNode devs cfg" and "executed_with_cancels ok m h"
    and "f = run_ops h m"
  shows "Migrated (Progress f) + Failed (Progress f) = Total (Progress f) \<and>
    Failed (Progress f) = int (length (filter (\<lambda>d. 0 \<le> MaxRetries cfg \<and> (\<forall>k\<le>nat (MaxRetries cfg). \<not> ok d k)) devs)) \<and>
    Status f = (if Failed (Progress f) = 0 then MigrationCompleted else MigrationFailed)"
proof -
  have p: "Progress m = \<lparr>Total = int (length devs), Migrated = 0, Failed = 0\<rparr>" "AffectedDevices m = devs" "Config m = cfg"
    using assms(1) by (simp_all add: NewShardMigration_def)
  obtain h' now where h: "h = h' @ [(now, final_op ok m)]" using assms(2) by (rule executed_last)
  have n: "Failed (Progress f) = int (length (failed_devices ok m))"
    and g: "Migrated (Progress f) = int (length devs) - int (length (failed_devices ok m))"
    and t: "Total (Progress f) = int (length devs)"
    unfolding assms(3) using run_ops_progress [of h m] executed_sums [OF assms(2)] p by simp_all
  have "Status f = (if failed_devices ok m = [] then MigrationCompleted else MigrationFailed)"
    unfolding assms(3) h run_ops_final using p by simp
  moreover have "failed_devices ok m = filter (\<lambda>d. 0 \<le> MaxRetries cfg \<and> (\<forall>k\<le>nat (MaxRetries cfg). \<not> ok d k)) devs"
    by (simp only: failed_devices_def migrate_device_failed p)
  ultimately show ?thesis using n g t by simp
qed

definition sample_migration :: ShardMigration where
  "sample_migration = NewShardMigration 0 ''m1'' ''a'' ''b'' [''d1'', ''d2''] DefaultMigrationConfig"

definition sample_outcome :: send_outcome where
  "sample_outcome d k = (d = ''d1'' \<and> k = 1)"

definition sample_history :: "(int \<times> mig_op) list" where
  "sample_history = map (Pair 7) (OpCancel # ops (Execute sample_outcome sample_migration))"

lemma sample_executed: "executed_with_cancels sample_outcome sample_migration sample_history"
proof -
  have "OpCancel \<notin> set (ops (Execute sample_outcome sample_migration))"
    by (auto simp: ops_Execute batch_ops_def final_op_def Let_def)
  then have "filter (\<lambda>x. x \<noteq> OpCancel) (ops (Execute sample_outcome sample_migration))
      = ops (Execute sample_outcome sample_migration)"
    by (simp add: filter_id_conv) blast
  then show ?thesis
    by (simp add: executed_with_cancels_def sample_history_def comp_def) (simp add: ops_Execute)
qed

theorem migration_accounting_witness:
  "Failed (Progress (run_ops sample_history sample_migration)) = 1"
  using migration_accounting [OF sample_migration_def sample_executed refl]
  by (simp add: sample_outcome_def DefaultMigrationConfig_def)

text \<open>Cancelling does not stop a migration that is being executed: wherever the cancellation falls
  before the executor's last operation, the task ends as completed or failed, not as cancelled.\<close>

theorem cancel_is_overwritten:
  assumes "xs @ ys = ops (Execute ok m)" and "ys \<noteq> []"
  shows "Status (run_ops (map (Pair now) (xs @ [OpCancel] @ ys)) m) \<in> {MigrationCompleted, MigrationFailed}"
proof -
  have "last (xs @ ys) = final_op ok m" by (simp add: assms(1) ops_Execute)
  then obtain zs where "ys = zs @ [final_op ok m]"
    using assms(2) by (cases ys rule: rev_cases) simp_all
  then have "map (Pair now) (xs @ [OpCancel] @ ys) = map (Pair now) (xs @ [OpCancel] @ zs) @ [(now, final_op ok m)]"
    by simp
  then show ?thesis by (simp only: run_ops_final) simp
qed

theorem cancel_is_overwritten_witness:
  "Status (run_ops (map (Pair 5) ([] @ [OpCancel] @ ops (Execute sample_outcome sample_migration))) sample_migration)
     \<in> {MigrationCompleted, MigrationFailed}"
  by (rule cancel_is_overwritten [of "[]"]) (simp_all add: ops_Execute)

text \<open>C10: With a retry limit that is not negative, the source deletes a device's session and offline
  messages only after that device's data was sent to the target successfully.\<close>

theorem no_delete_before_send:
  assumes "0 \<le> MaxRetries (Config m)"
  shows "deletes_after_send (ToNode m) (Execute ok m)"
  using assms by (rule deletes_Execute)

theorem no_delete_before_send_witness:
  "deletes_after_send ''b'' (Execute sample_outcome sample_migration)"
  using no_delete_before_send [of sample_migration sample_outcome]
  by (simp add: sample_migration_def NewShardMigration_def DefaultMigrationConfig_def)

text \<open>With a negative retry limit no send is attempted at all, and the device's data is deleted although
  no send would have succeeded.\<close>

lemma negative_retries_lose_data:
  assumes "MaxRetries (Config m) < 0"
  shows "migrate_device ok m d = ([DisconnectDevice d, DeleteOfflineMessages d, DeleteSession d], False)"
  using assms by (simp add: migrate_device_def)

end
