(* ===== verification/HttpApi.thy ===== *)
theory HttpApi
  imports Migration
begin

section \<open>The HTTP API server\<close>

text \<open>
  Models \<^verbatim>\<open>internal/httpapi/server.go\<close> and \<^verbatim>\<open>embed.go\<close>.  The Go interfaces \<^verbatim>\<open>BrokerAPI\<close> and \<^verbatim>\<open>ClusterAPI\<close>
  are records of the values their methods return at the time of the request; calls of
  \<^verbatim>\<open>DisconnectDevice\<close> are recorded in the server state.  Three things are parameters: \<open>remote\<close>, the
  response of another node to a request (\<^term>\<open>None\<close> when the request fails or times out); \<open>sched\<close>, the
  order in which the goroutines that query the other nodes finish; \<open>rt\<close>, what the Go runtime
  reports.  Times are already formatted.  A handler returns \<^term>\<open>None\<close> when it panics: net/http
  then closes the connection without a response.
\<close>

subsection \<open>Data the handlers read\<close>

text \<open>\<^verbatim>\<open>cluster.NodeInfo\<close>, \<^verbatim>\<open>broker.ClientInfo\<close> and \<^verbatim>\<open>cluster.MigrateSessionData\<close>.\<close>

record GoNodeInfo =
  node_ID :: string
  node_Host :: string
  node_GossipPort :: int
  node_TransportPort :: int
  node_MQTTPort :: int
  node_HTTPPort :: int
  node_Region :: string

record ClientInfo =
  ci_ClientID :: string
  ci_Username :: string
  ci_RemoteAddr :: string
  ci_ProtocolVersion :: int
  ci_ConnectedAt :: string
  ci_KeepAlive :: int

record MigrateSessionData =
  ms_ClientID :: string
  ms_CleanStart :: bool
  ms_ExpiryInterval :: int
  ms_Subscriptions :: "(string \<times> int) list"

record BrokerAPI =
  ConnectedClientIDs :: "string list"
  GetClientInfo :: "string \<Rightarrow> ClientInfo option"
  GetSessionData :: "string \<Rightarrow> MigrateSessionData option"
  ClientCount :: int
  ActiveSubscriptions :: int
  RetainedMessageCount :: int
  ClusterNodeCount :: int

record ClusterAPI =
  Self :: GoNodeInfo
  Members :: "GoNodeInfo list"

record runtime_stats =
  rt_uptime_seconds :: int
  rt_NumGoroutine :: int
  rt_Alloc :: int
  rt_Sys :: int
  rt_PauseTotalNs :: int

record server =
  coordinator :: "MigrationCoordinator option"
  brokerAPI :: "BrokerAPI option"
  clusterAPI :: "ClusterAPI option"
  apiKey :: string
  disconnect_calls :: "string list"

type_synonym remote_call = "GoNodeInfo \<Rightarrow> http_request \<Rightarrow> http_response option"

subsection \<open>JSON encoding of the responses\<close>

definition json_response :: "nat \<Rightarrow> jsval \<Rightarrow> http_response" where
  "json_response st v = \<lparr>resp_status = st, resp_body = v\<rparr>"

definition json_error :: "nat \<Rightarrow> string \<Rightarrow> http_response" where
  "json_error st e = json_response st (JObj [(''error'', JStr e)])"

text \<open>A nil slice is encoded as \<^verbatim>\<open>null\<close>; a slice that starts nil and is only appended to is nil
  exactly when it is empty.\<close>

definition nil_slice :: "string list \<Rightarrow> jsval" where
  "nil_slice xs = (if xs = [] then JNull else JArr (map JStr xs))"

definition node_json :: "GoNodeInfo \<Rightarrow> jsval" where
  "node_json n = JObj
     ([(''id'', JStr (node_ID n)), (''host'', JStr (node_Host n)), (''gossipPort'', JNum (node_GossipPort n)),
       (''transportPort'', JNum (node_TransportPort n)), (''mqttPort'', JNum (node_MQTTPort n))] @
      (if node_HTTPPort n = 0 then [] else [(''httpPort'', JNum (node_HTTPPort n))]) @
      (if node_Region n = [] then [] else [(''region'', JStr (node_Region n))]))"

definition migration_json :: "(int \<Rightarrow> string) \<Rightarrow> ShardMigration \<Rightarrow> jsval" where
  "migration_json fmtTime m = JObj
     ([(''id'', JStr (ID m)), (''from_node'', JStr (FromNode m)), (''to_node'', JStr (ToNode m)),
       (''affected_devices'', nil_slice (AffectedDevices m)), (''phase'', JNum (phase_index (Phase m))),
       (''progress'', JObj [(''total'', JNum (Total (Progress m))), (''migrated'', JNum (Migrated (Progress m))),
                          (''failed'', JNum (Failed (Progress m)))]),
       (''config'', JObj [(''batch_size'', JNum (BatchSize (Config m))),
                        (''batch_interval'', JNum (BatchInterval (Config m))),
                        (''max_retries'', JNum (MaxRetries (Config m)))]),
       (''status'', JStr (status_text (Status m)))] @
      (if Error m = [] then [] else [(''error'', JStr (Error m))]) @
      [(''created_at'', JStr (fmtTime (CreatedAt m))), (''updated_at'', JStr (fmtTime (UpdatedAt m)))])"

text \<open>The fields \<^verbatim>\<open>handleDevices\<close>, \<^verbatim>\<open>handleDeviceByID\<close> and \<^verbatim>\<open>collectLocalDevices\<close> share.\<close>

definition device_fields :: "ClientInfo \<Rightarrow> (string \<times> jsval) list" where
  "device_fields info =
     [(''client_id'', JStr (ci_ClientID info)), (''username'', JStr (ci_Username info)),
      (''remote_addr'', JStr (ci_RemoteAddr info)), (''protocol_version'', JNum (ci_ProtocolVersion info)),
      (''connected_at'', JStr (ci_ConnectedAt info)), (''keep_alive'', JNum (ci_KeepAlive info))]"

definition session_topics :: "BrokerAPI \<Rightarrow> string \<Rightarrow> string list" where
  "session_topics b i = (case GetSessionData b i of None \<Rightarrow> [] | Some ses \<Rightarrow> map fst (ms_Subscriptions ses))"

subsection \<open>Authentication\<close>

text \<open>\<^verbatim>\<open>authWrap\<close>: the key is taken from the header, or from the query when the header is empty.\<close>

definition request_key :: "http_request \<Rightarrow> string" where
  "request_key r = (if req_api_key r \<noteq> [] then req_api_key r
                    else (case map_of (req_query r) ''api_key'' of None \<Rightarrow> [] | Some k \<Rightarrow> k))"

definition authWrap ::
    "(server \<Rightarrow> http_request \<Rightarrow> http_response option \<times> server) \<Rightarrow> server \<Rightarrow> http_request \<Rightarrow> http_response option \<times> server" where
  "authWrap h s r =
     (if apiKey s \<noteq> [] \<and> request_key r \<noteq> apiKey s
      then (Some (json_error 401 ''unauthorized''), s) else h s r)"

subsection \<open>Health, readiness, statistics and nodes\<close>

definition handleHealth :: "http_response" where
  "handleHealth = json_response 200 (JObj [(''status'', JStr ''ok'')])"

definition handleReady :: "bool option \<Rightarrow> http_response" where
  "handleReady checker =
     (if checker = Some True then json_response 200 (JObj [(''status'', JStr ''ready'')])
      else json_response 503 (JObj [(''status'', JStr ''not_ready'')]))"

definition self_id :: "server \<Rightarrow> string" where
  "self_id s = (case clusterAPI s of None \<Rightarrow> [] | Some c \<Rightarrow> node_ID (Self c))"

definition stats_json :: "runtime_stats \<Rightarrow> server \<Rightarrow> BrokerAPI \<Rightarrow> jsval" where
  "stats_json rt s b = JObj
     [(''node_id'', JStr (self_id s)), (''connected_clients'', JNum (ClientCount b)),
      (''active_subscriptions'', JNum (ActiveSubscriptions b)),
      (''retained_messages'', JNum (RetainedMessageCount b)), (''cluster_nodes'', JNum (ClusterNodeCount b)),
      (''uptime_seconds'', JNum (rt_uptime_seconds rt)), (''goroutines'', JNum (rt_NumGoroutine rt)),
      (''memory_alloc_bytes'', JNum (rt_Alloc rt)), (''memory_sys_bytes'', JNum (rt_Sys rt)),
      (''gc_pause_total_ns'', JNum (rt_PauseTotalNs rt))]"

definition handleStats :: "runtime_stats \<Rightarrow> server \<Rightarrow> http_request \<Rightarrow> http_response option \<times> server" where
  "handleStats rt s r = (case brokerAPI s of
     None \<Rightarrow> (Some (json_error 503 ''broker API not configured''), s)
   | Some b \<Rightarrow> (Some (json_response 200 (stats_json rt s b)), s))"

definition handleNodes :: "server \<Rightarrow> http_request \<Rightarrow> http_response option \<times> server" where
  "handleNodes s r = (Some (json_response 200 (case clusterAPI s of
     None \<Rightarrow> JObj [(''nodes'', JArr []), (''self'', JStr [])]
   | Some c \<Rightarrow> JObj [(''nodes'', JArr (map node_json (Members c))), (''self'', JStr (node_ID (Self c)))])), s)"

subsection \<open>Migrations\<close>

definition handleMigrations ::
    "(int \<Rightarrow> string) \<Rightarrow> server \<Rightarrow> http_request \<Rightarrow> http_response option \<times> server" where
  "handleMigrations fmtTime s r = (case coordinator s of
     None \<Rightarrow> (Some (json_error 503 ''migrations not configured''), s)
   | Some mc \<Rightarrow>
      (if req_method r = GET
       then (Some (json_response 200 (JArr (map (migration_json fmtTime) (List_migrations mc)))), s)
       else (Some (json_response 405 (JStr [])), s)))"

definition handleMigrationByID ::
    "(int \<Rightarrow> string) \<Rightarrow> int \<Rightarrow> server \<Rightarrow> http_request \<Rightarrow> http_response option \<times> server" where
  "handleMigrationByID fmtTime now s r = (case coordinator s of
     None \<Rightarrow> (Some (json_error 503 ''migrations not configured''), s)
   | Some mc \<Rightarrow>
      (let parts = str_split CHR ''/'' (trim_prefix (req_path r) ''/api/v1/cluster/migrations/'');
           i = hd parts
       in if length parts = 2 \<and> parts ! 1 = ''cancel'' \<and> req_method r = POST
          then (case Cancel now i mc of (found, mc') \<Rightarrow>
             if found then (Some (json_response 200 (JObj [(''status'', JStr ''cancelled'')])),
                            s\<lparr>coordinator := Some mc'\<rparr>)
             else (Some (json_error 404 ''migration not found''), s))
          else if req_method r = GET
          then (case Get i mc of
              None \<Rightarrow> (Some (json_error 404 ''migration not found''), s)
            | Some m \<Rightarrow> (Some (json_response 200 (migration_json fmtTime m)), s))
          else (Some (json_response 405 (JStr [])), s)))"

subsection \<open>Device list\<close>

text \<open>\<^verbatim>\<open>n, _ := strconv.Atoi(s)\<close>: zero for a text that is not an integer, the nearest bound for one
  out of the range of a 64-bit int.\<close>

definition is_digit :: "char \<Rightarrow> bool" where
  "is_digit c \<longleftrightarrow> 48 \<le> (of_char c :: nat) \<and> (of_char c :: nat) \<le> 57"

definition digits_value :: "string \<Rightarrow> int" where
  "digits_value ds = foldl (\<lambda>a c. a * 10 + (of_char c - 48)) 0 ds"

definition atoi :: "string \<Rightarrow> int" where
  "atoi str =
     (let neg = (case str of c # _ \<Rightarrow> c = CHR ''-'' | [] \<Rightarrow> False);
          ds = (case str of c # cs \<Rightarrow> if c = CHR ''-'' \<or> c = CHR ''+'' then cs else str | [] \<Rightarrow> [])
      in if ds = [] \<or> \<not> list_all is_digit ds then 0
         else (let v = (if neg then - digits_value ds else digits_value ds)
               in max (- (2 ^ 63)) (min v (2 ^ 63 - 1))))"

definition query_get :: "http_request \<Rightarrow> string \<Rightarrow> string" where
  "query_get r k = (case map_of (req_query r) k of None \<Rightarrow> [] | Some v \<Rightarrow> v)"

definition page_param :: "http_request \<Rightarrow> int" where
  "page_param r = (let p = atoi (query_get r ''page''); p1 = (if p < 1 then 1 else p)
                   in if p1 > 10000 then 10000 else p1)"

definition per_page_param :: "http_request \<Rightarrow> int" where
  "per_page_param r = (let p = atoi (query_get r ''per_page''); p1 = (if p < 1 then 20 else p)
                       in if p1 > 100 then 100 else p1)"

definition page_ids :: "int \<Rightarrow> int \<Rightarrow> string list \<Rightarrow> string list" where
  "page_ids page perPage ids =
     (let sorted_ids = sort ids; total = int (length sorted_ids);
          start0 = (page - 1) * perPage;
          start = (if start0 < 0 \<or> start0 > total then total else start0);
          end0 = start + perPage;
          end' = (if end0 > total then total else end0)
      in take (nat (end' - start)) (drop (nat start) sorted_ids))"

definition device_summary_json :: "BrokerAPI \<Rightarrow> string \<Rightarrow> jsval option" where
  "device_summary_json b i = map_option
     (\<lambda>info. JObj (device_fields info @ [(''subscriptions'', nil_slice (session_topics b i))]))
     (GetClientInfo b i)"

definition handleDevices :: "server \<Rightarrow> http_request \<Rightarrow> http_response option \<times> server" where
  "handleDevices s r = (case brokerAPI s of
     None \<Rightarrow> (Some (json_error 503 ''broker API not configured''), s)
   | Some b \<Rightarrow>
      (let page = page_param r; perPage = per_page_param r; ids = ConnectedClientIDs b;
           devices = List.map_filter (device_summary_json b) (page_ids page perPage ids)
       in (Some (json_response 200 (JObj
            [(''devices'', JArr devices), (''total'', JNum (int (length ids))), (''page'', JNum page),
             (''per_page'', JNum perPage), (''node_id'', JStr (self_id s))])), s)))"

subsection \<open>A single device\<close>

text \<open>\<^verbatim>\<open>proxyDeviceDetail\<close> and \<^verbatim>\<open>proxyDeviceDisconnect\<close>: the response of the node is passed on unless it is
  404; the API key of the incoming request is not.\<close>

definition proxy :: "remote_call \<Rightarrow> http_method \<Rightarrow> string \<Rightarrow> GoNodeInfo \<Rightarrow> http_response option" where
  "proxy remote meth path n =
     (case remote n \<lparr>req_method = meth, req_path = path, req_query = [], req_api_key = []\<rparr> of
        None \<Rightarrow> None
      | Some resp \<Rightarrow> if resp_status resp = 404 then None else Some resp)"

text \<open>The nodes a request is forwarded to: every member but this node that has an HTTP port.\<close>

definition other_nodes :: "ClusterAPI \<Rightarrow> GoNodeInfo list" where
  "other_nodes c = filter (\<lambda>n. \<not> (node_ID n = node_ID (Self c) \<or> node_HTTPPort n = 0)) (Members c)"

fun first_proxy :: "remote_call \<Rightarrow> http_method \<Rightarrow> string \<Rightarrow> GoNodeInfo list \<Rightarrow> http_response option" where
  "first_proxy remote meth path [] = None"
| "first_proxy remote meth path (n # ns) =
     (case proxy remote meth path n of Some resp \<Rightarrow> Some resp | None \<Rightarrow> first_proxy remote meth path ns)"

definition forward :: "remote_call \<Rightarrow> http_method \<Rightarrow> string \<Rightarrow> server \<Rightarrow> http_response" where
  "forward remote meth path s =
     (case (case clusterAPI s of None \<Rightarrow> None | Some c \<Rightarrow> first_proxy remote meth path (other_nodes c)) of
        Some resp \<Rightarrow> resp | None \<Rightarrow> json_error 404 ''device not found'')"

definition device_detail_json :: "BrokerAPI \<Rightarrow> string \<Rightarrow> ClientInfo \<Rightarrow> jsval" where
  "device_detail_json b i info = JObj
     (device_fields info @ [(''connected'', JBool True)] @
      (case GetSessionData b i of
         None \<Rightarrow> []
       | Some ses \<Rightarrow> [(''session'', JObj
           [(''clean_start'', JBool (ms_CleanStart ses)), (''expiry_interval'', JNum (ms_ExpiryInterval ses)),
            (''subscriptions'', JObj (map (\<lambda>(k, q). (k, JNum q)) (ms_Subscriptions ses)))])]))"

definition handleDeviceByID ::
    "remote_call \<Rightarrow> server \<Rightarrow> http_request \<Rightarrow> http_response option \<times> server" where
  "handleDeviceByID remote s r = (case brokerAPI s of
     None \<Rightarrow> (Some (json_error 503 ''broker API not configured''), s)
   | Some b \<Rightarrow>
      (let parts = str_split2 CHR ''/'' (trim_prefix (req_path r) ''/api/v1/devices/'');
           did = hd parts
       in if did = [] then handleDevices s r
          else if length parts = 2 \<and> parts ! 1 = ''disconnect'' \<and> req_method r = POST
          then (case GetClientInfo b did of
              None \<Rightarrow> (Some (forward remote POST (''/api/v1/devices/'' @ did @ ''/disconnect'') s), s)
            | Some info \<Rightarrow> (Some (json_response 200 (JObj [(''status'', JStr ''disconnected'')])),
                            s\<lparr>disconnect_calls := disconnect_calls s @ [did]\<rparr>))
          else if req_method r \<noteq> GET then (Some (json_response 405 (JStr [])), s)
          else (case GetClientInfo b did of
              None \<Rightarrow> (Some (forward remote GET (''/api/v1/devices/'' @ did) s), s)
            | Some info \<Rightarrow> (Some (json_response 200 (device_detail_json b did info)), s))))"

subsection \<open>Cluster-wide device list\<close>

record clusterDeviceItem =
  cd_ClientID :: string
  cd_Username :: string
  cd_RemoteAddr :: string
  cd_ProtocolVersion :: int
  cd_ConnectedAt :: string
  cd_KeepAlive :: int
  cd_Subscriptions :: "string list"
  cd_NodeID :: string

definition item_json :: "clusterDeviceItem \<Rightarrow> jsval" where
  "item_json d = JObj
     [(''client_id'', JStr (cd_ClientID d)), (''username'', JStr (cd_Username d)),
      (''remote_addr'', JStr (cd_RemoteAddr d)), (''protocol_version'', JNum (cd_ProtocolVersion d)),
      (''connected_at'', JStr (cd_ConnectedAt d)), (''keep_alive'', JNum (cd_KeepAlive d)),
      (''subscriptions'', nil_slice (cd_Subscriptions d)), (''node_id'', JStr (cd_NodeID d))]"

definition local_item :: "BrokerAPI \<Rightarrow> string \<Rightarrow> string \<Rightarrow> clusterDeviceItem option" where
  "local_item b nodeID i = map_option
     (\<lambda>info. \<lparr>cd_ClientID = ci_ClientID info, cd_Username = ci_Username info,
        cd_RemoteAddr = ci_RemoteAddr info, cd_ProtocolVersion = ci_ProtocolVersion info,
        cd_ConnectedAt = ci_ConnectedAt info, cd_KeepAlive = ci_KeepAlive info,
        cd_Subscriptions = session_topics b i, cd_NodeID = nodeID\<rparr>) (GetClientInfo b i)"

definition collectLocalDevices :: "BrokerAPI \<Rightarrow> string \<Rightarrow> clusterDeviceItem list" where
  "collectLocalDevices b nodeID = List.map_filter (local_item b nodeID) (ConnectedClientIDs b)"

text \<open>
  \<^verbatim>\<open>json.Unmarshal\<close> into a struct: an absent or null field keeps its zero value, a field of another
  type is an error, which discards the whole response.  A JSON number outside the range of the
  field's Go type does not occur here: the values were encoded from the same types.
\<close>

fun go_string :: "jsval \<Rightarrow> string option" where
  "go_string JUndef = Some []"
| "go_string JNull = Some []"
| "go_string (JStr s) = Some s"
| "go_string _ = None"

fun go_int :: "jsval \<Rightarrow> int option" where
  "go_int JUndef = Some 0"
| "go_int JNull = Some 0"
| "go_int (JNum n) = Some n"
| "go_int _ = None"

fun go_slice :: "(jsval \<Rightarrow> 'a option) \<Rightarrow> jsval \<Rightarrow> 'a list option" where
  "go_slice f JUndef = Some []"
| "go_slice f JNull = Some []"
| "go_slice f (JArr xs) = seq_opt (map f xs)"
| "go_slice f _ = None"

definition go_item :: "jsval \<Rightarrow> clusterDeviceItem option" where
  "go_item v = do {
     cid \<leftarrow> fld ''client_id'' go_string v;
     usr \<leftarrow> fld ''username'' go_string v;
     adr \<leftarrow> fld ''remote_addr'' go_string v;
     ver \<leftarrow> fld ''protocol_version'' go_int v;
     con \<leftarrow> fld ''connected_at'' go_string v;
     kal \<leftarrow> fld ''keep_alive'' go_int v;
     sub \<leftarrow> fld ''subscriptions'' (go_slice go_string) v;
     nid \<leftarrow> fld ''node_id'' go_string v;
     Some \<lparr>cd_ClientID = cid, cd_Username = usr, cd_RemoteAddr = adr, cd_ProtocolVersion = ver,
           cd_ConnectedAt = con, cd_KeepAlive = kal, cd_Subscriptions = sub, cd_NodeID = nid\<rparr> }"

fun go_devices :: "jsval \<Rightarrow> clusterDeviceItem list option" where
  "go_devices (JObj kvs) = fld ''devices'' (go_slice go_item) (JObj kvs)"
| "go_devices JNull = Some []"
| "go_devices _ = None"

definition remote_devices_request :: http_request where
  "remote_devices_request = \<lparr>req_method = GET, req_path = ''/api/v1/devices'',
     req_query = [(''page'', ''1''), (''per_page'', ''1000'')], req_api_key = []\<rparr>"

definition fetchRemoteDevices :: "remote_call \<Rightarrow> GoNodeInfo \<Rightarrow> clusterDeviceItem list" where
  "fetchRemoteDevices remote n = (case remote n remote_devices_request of
     None \<Rightarrow> []
   | Some resp \<Rightarrow> (case go_devices (resp_body resp) of
       None \<Rightarrow> []
     | Some ds \<Rightarrow> map (\<lambda>d. d\<lparr>cd_NodeID := node_ID n\<rparr>) ds))"

definition cluster_devices_json :: "string \<Rightarrow> clusterDeviceItem list \<Rightarrow> jsval" where
  "cluster_devices_json self ds = JObj
     [(''devices'', JArr (map item_json ds)), (''total'', JNum (int (length ds))), (''self'', JStr self)]"

text \<open>\<^verbatim>\<open>sort.Slice\<close> promises no order of devices with equal ids; the model keeps the order they were
  collected in.\<close>

definition all_devices ::
    "remote_call \<Rightarrow> (GoNodeInfo list \<Rightarrow> GoNodeInfo list) \<Rightarrow> BrokerAPI \<Rightarrow> ClusterAPI \<Rightarrow> clusterDeviceItem list" where
  "all_devices remote sched b c =
     sort_key cd_ClientID
       (collectLocalDevices b (node_ID (Self c)) @
        concat (map (fetchRemoteDevices remote) (sched (other_nodes c))))"

definition handleClusterDevices ::
    "remote_call \<Rightarrow> (GoNodeInfo list \<Rightarrow> GoNodeInfo list) \<Rightarrow> server \<Rightarrow> http_request \<Rightarrow> http_response option \<times> server" where
  "handleClusterDevices remote sched s r = (case brokerAPI s of
     None \<Rightarrow> (None, s)
   | Some b \<Rightarrow> (Some (json_response 200 (cluster_devices_json (self_id s) (case clusterAPI s of
       None \<Rightarrow> collectLocalDevices b (self_id s)
     | Some c \<Rightarrow> all_devices remote sched b c))), s))"

subsection \<open>Cluster-wide statistics\<close>

record nodeStats =
  ns_NodeID :: string
  ns_Connections :: int
  ns_Subs :: int
  ns_Retained :: int

definition node_stats_json :: "nodeStats \<Rightarrow> jsval" where
  "node_stats_json n = JObj
     [(''node_id'', JStr (ns_NodeID n)), (''connections'', JNum (ns_Connections n)),
      (''subscriptions'', JNum (ns_Subs n)), (''retained'', JNum (ns_Retained n))]"

text \<open>\<^verbatim>\<open>x, _ := raw[k].(float64)\<close>: zero when the entry is absent or not a number.\<close>

definition raw_num :: "(string \<times> jsval) list \<Rightarrow> string \<Rightarrow> int" where
  "raw_num kvs k = (case map_of kvs k of Some (JNum n) \<Rightarrow> n | _ \<Rightarrow> 0)"

fun raw_object :: "jsval \<Rightarrow> (string \<times> jsval) list option" where
  "raw_object (JObj kvs) = Some kvs"
| "raw_object JNull = Some []"
| "raw_object _ = None"

definition remote_stats_request :: http_request where
  "remote_stats_request = \<lparr>req_method = GET, req_path = ''/api/v1/stats'', req_query = [], req_api_key = []\<rparr>"

definition fetchRemoteStats :: "remote_call \<Rightarrow> GoNodeInfo \<Rightarrow> nodeStats option" where
  "fetchRemoteStats remote n = (case remote n remote_stats_request of
     None \<Rightarrow> None
   | Some resp \<Rightarrow> map_option
       (\<lambda>raw. \<lparr>ns_NodeID = node_ID n, ns_Connections = raw_num raw ''connected_clients'',
               ns_Subs = raw_num raw ''active_subscriptions'', ns_Retained = raw_num raw ''retained_messages''\<rparr>)
       (raw_object (resp_body resp)))"

definition local_stats :: "server \<Rightarrow> BrokerAPI \<Rightarrow> nodeStats" where
  "local_stats s b = \<lparr>ns_NodeID = self_id s, ns_Connections = ClientCount b,
                      ns_Subs = ActiveSubscriptions b, ns_Retained = RetainedMessageCount b\<rparr>"

definition all_stats ::
    "remote_call \<Rightarrow> (GoNodeInfo list \<Rightarrow> GoNodeInfo list) \<Rightarrow> server \<Rightarrow> BrokerAPI \<Rightarrow> nodeStats list" where
  "all_stats remote sched s b = local_stats s b #
     (case clusterAPI s of None \<Rightarrow> []
      | Some c \<Rightarrow> List.map_filter (fetchRemoteStats remote) (sched (other_nodes c)))"

definition handleClusterStats ::
    "remote_call \<Rightarrow> (GoNodeInfo list \<Rightarrow> GoNodeInfo list) \<Rightarrow> server \<Rightarrow> http_request \<Rightarrow> http_response option \<times> server" where
  "handleClusterStats remote sched s r = (case brokerAPI s of
     None \<Rightarrow> (None, s)
   | Some b \<Rightarrow> (let ns = all_stats remote sched s b in (Some (json_response 200 (JObj
       [(''nodes'', JArr (map node_stats_json ns)),
        (''total_connections'', JNum (sum_list (map ns_Connections ns))),
        (''total_subscriptions'', JNum (sum_list (map ns_Subs ns))),
        (''self'', JStr (self_id s))])), s)))"

subsection \<open>The admin files\<close>

text \<open>
  \<^verbatim>\<open>adminHandler\<close>: a path under \<^verbatim>\<open>/admin/\<close> that names no embedded file is rewritten to \<^verbatim>\<open>/admin/\<close>, for
  which the file server serves \<^verbatim>\<open>index.html\<close>.  \<open>exists\<close> says which names can be opened.  The value is
  the name of the file that is served, relative to the embedded directory.
\<close>

definition adminHandler :: "(string \<Rightarrow> bool) \<Rightarrow> string \<Rightarrow> string" where
  "adminHandler exists path =
     (let p0 = trim_prefix path ''/admin/''; p = (if p0 = [] then ''index.html'' else p0);
          path' = (if exists p then path else ''/admin/'');
          rest = trim_prefix path' ''/admin/''
      in if rest = [] then ''index.html'' else rest)"

subsection \<open>Routing\<close>

text \<open>
  The patterns registered in \<^verbatim>\<open>New\<close>, for a path in canonical form.  A pattern ending in a slash
  matches every path below it, and the path without the slash is redirected.  The environment of
  a request holds the parameters of the handlers, the answer of the readiness checker (\<^term>\<open>None\<close>
  when there is none), the response of the Prometheus handler and the embedded files.  A response
  of \<^verbatim>\<open>/admin/\<close> is represented by the name of the file it serves.
\<close>

record env =
  env_remote :: remote_call
  env_sched :: "GoNodeInfo list \<Rightarrow> GoNodeInfo list"
  env_rt :: runtime_stats
  env_fmtTime :: "int \<Rightarrow> string"
  env_now :: int
  env_ready :: "bool option"
  env_metrics :: http_response
  env_exists :: "string \<Rightarrow> bool"

definition not_found :: http_response where
  "not_found = json_response 404 (JStr ''404 page not found'')"

definition serve_api :: "env \<Rightarrow> server \<Rightarrow> http_request \<Rightarrow> http_response option \<times> server" where
  "serve_api e s r =
     (let p = req_path r in
      if p = ''/metrics'' then (Some (env_metrics e), s)
      else if p = ''/health'' then (Some handleHealth, s)
      else if p = ''/ready'' then (Some (handleReady (env_ready e)), s)
      else if p = ''/api/v1/cluster/devices'' then authWrap (handleClusterDevices (env_remote e) (env_sched e)) s r
      else if p = ''/api/v1/cluster/stats'' then authWrap (handleClusterStats (env_remote e) (env_sched e)) s r
      else if p = ''/api/v1/cluster/migrations'' then authWrap (handleMigrations (env_fmtTime e)) s r
      else if str_prefix ''/api/v1/cluster/migrations/'' p
        then authWrap (handleMigrationByID (env_fmtTime e) (env_now e)) s r
      else if p = ''/api/v1/devices'' then authWrap handleDevices s r
      else if str_prefix ''/api/v1/devices/'' p then authWrap (handleDeviceByID (env_remote e)) s r
      else if p = ''/api/v1/stats'' then authWrap (handleStats (env_rt e)) s r
      else if p = ''/api/v1/nodes'' then authWrap handleNodes s r
      else if str_prefix ''/admin/'' p
        then (Some (json_response 200 (JStr (adminHandler (env_exists e) p))), s)
      else if p = ''/admin'' then (Some (json_response 301 (JStr ''/admin/'')), s)
      else (Some not_found, s))"

subsection \<open>Facts about the handlers\<close>

text \<open>Handlers only read the server, except for cancelling a migration and disconnecting a device.\<close>

lemma handleDevices_state [simp]: "snd (handleDevices s r) = s"
  by (simp add: handleDevices_def Let_def split: option.splits)

lemma authWrap_open: "apiKey s = [] \<Longrightarrow> authWrap h s r = h s r"
  by (simp add: authWrap_def)

lemma authWrap_denied:
  "apiKey s \<noteq> [] \<Longrightarrow> request_key r \<noteq> apiKey s \<Longrightarrow> authWrap h s r = (Some (json_error 401 ''unauthorized''), s)"
  by (simp add: authWrap_def)

lemma authWrap_granted: "request_key r = apiKey s \<Longrightarrow> authWrap h s r = h s r"
  by (simp add: authWrap_def)

lemma per_page_bounds: "1 \<le> per_page_param r \<and> per_page_param r \<le> 100"
  by (simp add: per_page_param_def Let_def)

lemma page_bounds: "1 \<le> page_param r \<and> page_param r \<le> 10000"
  by (simp add: page_param_def Let_def)

text \<open>A page is a slice of the sorted ids.\<close>

lemma page_ids_slice:
  assumes "1 \<le> page" and "1 \<le> perPage"
  shows "page_ids page perPage ids = take (nat perPage) (drop (nat ((page - 1) * perPage)) (sort ids))"
proof -
  let ?n = "int (length ids)" and ?s = "(page - 1) * perPage"
  have s0: "0 \<le> ?s" using assms by simp
  show ?thesis
  proof (cases "?s > ?n")
    case True
    then have "length ids \<le> nat ?s" by linarith
    then show ?thesis using True s0 by (simp add: page_ids_def Let_def)
  next
    case False
    have d: "length (drop (nat ?s) (sort ids)) = nat (?n - ?s)" using s0 False by (simp add: nat_diff_distrib')
    show ?thesis
    proof (cases "?s + perPage > ?n")
      case True
      then have "nat (?n - ?s) \<le> nat perPage" by linarith
      then show ?thesis using True False s0 d by (simp add: page_ids_def Let_def)
    next
      case nb: False
      then show ?thesis using False s0 by (simp add: page_ids_def Let_def)
    qed
  qed
qed

lemma page_ids_length: "1 \<le> page \<Longrightarrow> 1 \<le> perPage \<Longrightarrow> length (page_ids page perPage ids) \<le> nat perPage"
  by (simp add: page_ids_slice)

lemma map_filter_all_Some:
  "(\<And>x. x \<in> set xs \<Longrightarrow> f x = Some (g x)) \<Longrightarrow> List.map_filter f xs = map g xs"
  by (induction xs) (auto simp: List.map_filter_simps)

lemma other_nodes_iff:
  "n \<in> set (other_nodes c) \<longleftrightarrow> n \<in> set (Members c) \<and> node_ID n \<noteq> node_ID (Self c) \<and> node_HTTPPort n \<noteq> 0"
  by (auto simp: other_nodes_def)

subsection \<open>Reading a number back\<close>

lemma of_char_digit:
  assumes "d < 10"
  shows "(of_char (digit_char d) :: nat) = 48 + d" and "(of_char (digit_char d) :: int) = 48 + int d"
proof -
  show n: "(of_char (digit_char d) :: nat) = 48 + d" using assms by (simp add: digit_char_def)
  have "(of_char (digit_char d) :: int) = int (of_char (digit_char d))" by (simp add: of_nat_of_char)
  then show "(of_char (digit_char d) :: int) = 48 + int d" by (simp add: n)
qed

lemma show_nat_value: "list_all is_digit (show_nat n) \<and> digits_value (show_nat n) = int n"
proof (induction n rule: show_nat.induct)
  case (1 n)
  show ?case
  proof (cases "n < 10")
    case True
    then have "show_nat n = [digit_char n]" by (subst show_nat.simps) simp
    then show ?thesis using True by (simp add: is_digit_def digits_value_def of_char_digit)
  next
    case False
    then have "show_nat n = show_nat (n div 10) @ [digit_char (n mod 10)]" by (subst show_nat.simps) simp
    then show ?thesis
      using 1 False by (simp add: is_digit_def digits_value_def of_char_digit zdiv_int zmod_int)
  qed
qed

lemmas show_nat_digits = show_nat_value [THEN conjunct1] and digits_value_show = show_nat_value [THEN conjunct2]

lemma atoi_show_int:
  assumes "- (2 ^ 63) \<le> i" and "i < 2 ^ 63"
  shows "atoi (show_int i) = i"
proof -
  obtain c cs where c: "show_nat (nat \<bar>i\<bar>) = c # cs" by (cases "show_nat (nat \<bar>i\<bar>)") auto
  then have "is_digit c" using show_nat_digits [of "nat \<bar>i\<bar>"] by simp
  then have d: "c \<noteq> CHR ''-''" "c \<noteq> CHR ''+''" by (auto simp: is_digit_def)
  show ?thesis
  proof (cases "i < 0")
    case True
    then have "show_int i = CHR ''-'' # c # cs" "digits_value (c # cs) = - i" "list_all is_digit (c # cs)"
      using c digits_value_show [of "nat \<bar>i\<bar>"] show_nat_digits [of "nat \<bar>i\<bar>"] by (simp_all add: show_int_def)
    then show ?thesis using assms by (simp add: atoi_def Let_def)
  next
    case False
    then have "show_int i = c # cs" "digits_value (c # cs) = i" "list_all is_digit (c # cs)"
      using c digits_value_show [of "nat \<bar>i\<bar>"] show_nat_digits [of "nat \<bar>i\<bar>"] by (simp_all add: show_int_def)
    then show ?thesis using assms d by (simp add: atoi_def Let_def)
  qed
qed

text \<open>The pages from the first on, put together.\<close>

lemma pages_concat:
  assumes "0 < n"
  shows "concat (map (\<lambda>p. take n (drop (p * n) xs)) [0..<k]) = take (k * n) xs"
proof (induction k)
  case (Suc k)
  have "take (n + k * n) xs = take (k * n) xs @ take n (drop (k * n) xs)"
    by (metis add.commute take_add)
  then show ?case using Suc by simp
qed simp

end
