(* ===== verification/AdminBackend.thy ===== *)
theory AdminBackend
  imports HttpApi AdminApi
begin

section \<open>The front end against the server\<close>

text \<open>
  The API module of the front end talks to the HTTP server through axios.  \<open>axios\<close> is the documented
  behaviour of that client: the promise resolves with the parsed body for a status from 200 to
  299, and is rejected with an error that names the status otherwise, or with a network error when
  there is no response.  The locale \<open>admin_backend\<close> states what the views rely on: every resolved
  value has the shape its TypeScript interface declares.
\<close>

definition axios :: "(http_request \<Rightarrow> http_response option) \<Rightarrow> http_client" where
  "axios f r = (case f r of
     None \<Rightarrow> Inl (RequestError ''Network Error'')
   | Some resp \<Rightarrow>
      if 200 \<le> resp_status resp \<and> resp_status resp < 300 then Inr (resp_body resp)
      else Inl (RequestError (''Request failed with status code '' @ show_nat (resp_status resp))))"

text \<open>The client of a page whose requests are answered by the server \<open>s\<close>.\<close>

definition page_client :: "env \<Rightarrow> server \<Rightarrow> http_client" where
  "page_client e s = axios (\<lambda>r. fst (serve_api e s r))"

text \<open>A value as the view sees it: the error, or the value at its declared type; \<^term>\<open>None\<close> when the
  value does not have that type.\<close>

definition typed :: "(jsval \<Rightarrow> 'a option) \<Rightarrow> js_error + jsval \<Rightarrow> (js_error + 'a) option" where
  "typed f r = (case r of Inl e \<Rightarrow> Some (Inl e) | Inr v \<Rightarrow> map_option Inr (f v))"

locale admin_backend =
  fixes send :: http_client
  assumes devices_shape: "fetchDevices send page perPage = Inr v \<Longrightarrow> read_DeviceListResponse v \<noteq> None"
    and cluster_devices_shape: "fetchClusterDevices send = Inr v \<Longrightarrow> read_ClusterDeviceListResponse v \<noteq> None"
    and nodes_shape: "fetchNodes send = Inr v \<Longrightarrow> read_NodesResponse v \<noteq> None"
    and stats_shape: "fetchStats send = Inr v \<Longrightarrow> read_Stats v \<noteq> None"
    and cluster_stats_shape: "fetchClusterStats send = Inr v \<Longrightarrow> read_ClusterStats v \<noteq> None"
begin

lemma typed_devices: "typed read_DeviceListResponse (fetchDevices send page perPage) \<noteq> None"
  using devices_shape by (auto simp: typed_def split: sum.splits)

lemma typed_cluster_devices: "typed read_ClusterDeviceListResponse (fetchClusterDevices send) \<noteq> None"
  using cluster_devices_shape by (auto simp: typed_def split: sum.splits)

lemma typed_nodes: "typed read_NodesResponse (fetchNodes send) \<noteq> None"
  using nodes_shape by (auto simp: typed_def split: sum.splits)

lemma typed_stats: "typed read_Stats (fetchStats send) \<noteq> None"
  using stats_shape by (auto simp: typed_def split: sum.splits)

lemma typed_cluster_stats: "typed read_ClusterStats (fetchClusterStats send) \<noteq> None"
  using cluster_stats_shape by (auto simp: typed_def split: sum.splits)

end

subsection \<open>Requests reach their handlers\<close>

lemma client_path [simp]:
  "req_path (client_get p q) = ''/api/v1'' @ p" "req_path (client_post p) = ''/api/v1'' @ p"
  "req_method (client_get p q) = GET" "req_method (client_post p) = POST"
  "req_query (client_get p q) = q" "req_query (client_post p) = []"
  by (simp_all add: request_defs)

lemma client_key: "map_of q ''api_key'' = None \<Longrightarrow> request_key (client_get p q) = []"
  by (simp add: request_key_def request_defs)

lemma client_key_post: "request_key (client_post p) = []"
  by (simp add: request_key_def request_defs)

lemma serve_routes:
  "serve_api e s (client_get ''/cluster/devices'' q) =
     authWrap (handleClusterDevices (env_remote e) (env_sched e)) s (client_get ''/cluster/devices'' q)"
  "serve_api e s (client_get ''/cluster/stats'' q) =
     authWrap (handleClusterStats (env_remote e) (env_sched e)) s (client_get ''/cluster/stats'' q)"
  "serve_api e s (client_get ''/cluster/migrations'' q) =
     authWrap (handleMigrations (env_fmtTime e)) s (client_get ''/cluster/migrations'' q)"
  "serve_api e s (client_get ''/devices'' q) = authWrap handleDevices s (client_get ''/devices'' q)"
  "serve_api e s (client_get ''/stats'' q) = authWrap (handleStats (env_rt e)) s (client_get ''/stats'' q)"
  "serve_api e s (client_get ''/nodes'' q) = authWrap handleNodes s (client_get ''/nodes'' q)"
  by (simp_all add: serve_api_def Let_def)

lemma serve_route_device:
  "serve_api e s (client_get (''/devices/'' @ p) q) =
     authWrap (handleDeviceByID (env_remote e)) s (client_get (''/devices/'' @ p) q)"
  "serve_api e s (client_post (''/devices/'' @ p)) =
     authWrap (handleDeviceByID (env_remote e)) s (client_post (''/devices/'' @ p))"
  by (simp_all add: serve_api_def Let_def)

lemma serve_route_migration:
  "serve_api e s (client_post (''/cluster/migrations/'' @ p)) =
     authWrap (handleMigrationByID (env_fmtTime e) (env_now e)) s (client_post (''/cluster/migrations/'' @ p))"
  by (simp add: serve_api_def Let_def)

subsection \<open>Reading what the server writes\<close>

definition summary_of :: "clusterDeviceItem \<Rightarrow> DeviceSummary" where
  "summary_of d = \<lparr>client_id = cd_ClientID d, username = cd_Username d, remote_addr = cd_RemoteAddr d,
     protocol_version = cd_ProtocolVersion d, connected_at = cd_ConnectedAt d, keep_alive = cd_KeepAlive d,
     subscriptions = (if cd_Subscriptions d = [] then None else Some (cd_Subscriptions d)),
     node_id = Some (cd_NodeID d)\<rparr>"

lemma read_nil_slice: "opt (as_arr as_str) (nil_slice xs) = Some (if xs = [] then None else Some xs)"
  by (simp add: nil_slice_def comp_def)

lemma read_item_json: "read_DeviceSummary (item_json d) = Some (summary_of d)"
  by (simp add: read_DeviceSummary_def item_json_def summary_of_def read_nil_slice)

lemma read_cluster_devices:
  "read_ClusterDeviceListResponse (cluster_devices_json self ds) =
     Some \<lparr>cdl_devices = Some (map summary_of ds), cdl_total = int (length ds), cdl_self = self\<rparr>"
  by (simp add: read_ClusterDeviceListResponse_def cluster_devices_json_def
      seq_opt_map_Some [of ds "read_DeviceSummary \<circ> item_json" summary_of] read_item_json)

definition summary_of_info :: "BrokerAPI \<Rightarrow> string \<Rightarrow> ClientInfo \<Rightarrow> DeviceSummary" where
  "summary_of_info b i info = \<lparr>client_id = ci_ClientID info, username = ci_Username info,
     remote_addr = ci_RemoteAddr info, protocol_version = ci_ProtocolVersion info,
     connected_at = ci_ConnectedAt info, keep_alive = ci_KeepAlive info,
     subscriptions = (if session_topics b i = [] then None else Some (session_topics b i)), node_id = None\<rparr>"

lemma read_device_json:
  "device_summary_json b i = Some v \<Longrightarrow>
     \<exists>info. GetClientInfo b i = Some info \<and> read_DeviceSummary v = Some (summary_of_info b i info)"
  by (auto simp: device_summary_json_def device_fields_def read_DeviceSummary_def summary_of_info_def
      read_nil_slice)

lemma seq_opt_not_None: "(\<And>v. v \<in> set vs \<Longrightarrow> f v \<noteq> None) \<Longrightarrow> seq_opt (map f vs) \<noteq> None"
  by (induction vs) (auto split: Option.bind_splits)

lemma read_device_list:
  "seq_opt (map read_DeviceSummary (List.map_filter (device_summary_json b) ids)) \<noteq> None"
  by (rule seq_opt_not_None) (auto simp: set_map_filter dest!: read_device_json)

definition node_of :: "GoNodeInfo \<Rightarrow> NodeInfo" where
  "node_of n = \<lparr>n_id = node_ID n, n_host = node_Host n, n_gossipPort = node_GossipPort n,
     n_transportPort = node_TransportPort n, n_mqttPort = node_MQTTPort n,
     n_httpPort = (if node_HTTPPort n = 0 then None else Some (node_HTTPPort n)), n_role = None\<rparr>"

lemma read_node_json: "read_NodeInfo (node_json n) = Some (node_of n)"
  by (simp add: read_NodeInfo_def node_json_def node_of_def)

lemma read_stats_json: "read_Stats (stats_json rt s b) =
    Some \<lparr>st_node_id = self_id s, connected_clients = ClientCount b,
      active_subscriptions = ActiveSubscriptions b, retained_messages = RetainedMessageCount b,
      cluster_nodes = ClusterNodeCount b, uptime_seconds = rt_uptime_seconds rt,
      goroutines = rt_NumGoroutine rt, memory_alloc_bytes = rt_Alloc rt, memory_sys_bytes = rt_Sys rt,
      gc_pause_total_ns = rt_PauseTotalNs rt\<rparr>"
  by (simp add: read_Stats_def stats_json_def)

definition cluster_node_stats_of :: "nodeStats \<Rightarrow> ClusterNodeStats" where
  "cluster_node_stats_of n = \<lparr>cns_node_id = ns_NodeID n, cns_connections = ns_Connections n,
     cns_subscriptions = ns_Subs n, cns_retained = ns_Retained n\<rparr>"

lemma read_node_stats_json: "read_ClusterNodeStats (node_stats_json n) = Some (cluster_node_stats_of n)"
  by (simp add: read_ClusterNodeStats_def node_stats_json_def cluster_node_stats_of_def)


lemma read_cluster_stats_json:
  "read_ClusterStats (JObj [(''nodes'', JArr (map node_stats_json ns)), (''total_connections'', JNum tc),
       (''total_subscriptions'', JNum ts), (''self'', JStr slf)]) =
     Some \<lparr>cs_nodes = Some (map cluster_node_stats_of ns), cs_total_connections = tc,
           cs_total_subscriptions = ts, cs_self = slf\<rparr>"
  by (simp add: read_ClusterStats_def read_node_stats_json
      seq_opt_map_Some [of ns "read_ClusterNodeStats \<circ> node_stats_json" cluster_node_stats_of])

lemma read_nodes_json:
  "read_NodesResponse (JObj [(''nodes'', JArr (map node_json ns)), (''self'', JStr slf)]) =
     Some \<lparr>nr_nodes = Some (map node_of ns), nr_self = slf\<rparr>"
  by (simp add: read_NodesResponse_def read_node_json
      seq_opt_map_Some [of ns "read_NodeInfo \<circ> node_json" node_of])

subsection \<open>The server keeps the contract\<close>

text \<open>What a request of the page returns, given the handler's answer.\<close>

lemma axios_ok: "f r = Some (json_response 200 v) \<Longrightarrow> axios f r = Inr v"
  by (simp add: axios_def json_response_def)

lemma axios_err: "f r = Some (json_error st msg) \<Longrightarrow> 300 \<le> st \<Longrightarrow>
    axios f r = Inl (RequestError (''Request failed with status code '' @ show_nat st))"
  by (simp add: axios_def json_error_def json_response_def)

lemma axios_resolved: "axios f r = Inr v \<Longrightarrow> \<exists>resp. f r = Some resp \<and> resp_body resp = v \<and> resp_status resp < 300"
  by (auto simp: axios_def split: option.splits if_splits)

lemmas json_resp_defs = json_response_def json_error_def

lemma authWrap_resolved:
  assumes "fst (authWrap h s r) = Some resp" and "resp_status resp < 300"
  shows "fst (h s r) = Some resp"
  using assms by (auto simp: authWrap_def json_resp_defs split: if_splits)

lemma page_resolved:
  assumes "page_client e s r = Inr v" and "serve_api e s r = authWrap h s r"
  shows "\<exists>resp. fst (h s r) = Some resp \<and> resp_body resp = v \<and> resp_status resp < 300"
  using assms axios_resolved [of "\<lambda>r. fst (serve_api e s r)" r v] authWrap_resolved [of h s r]
  by (auto simp: page_client_def)

lemma devices_contract:
  assumes "fetchDevices (page_client e s) page perPage = Inr v"
  shows "read_DeviceListResponse v \<noteq> None"
proof -
  obtain resp where "fst (handleDevices s (client_get ''/devices''
      [(''page'', show_int page), (''per_page'', show_int perPage)])) = Some resp"
    and v: "resp_body resp = v" "resp_status resp < 300"
    using page_resolved [OF assms [unfolded fetchDevices_def] serve_routes(4)] by blast
  then obtain b ids pg pp tot where "v = JObj [(''devices'', JArr (List.map_filter (device_summary_json b) ids)),
      (''total'', JNum tot), (''page'', JNum pg), (''per_page'', JNum pp), (''node_id'', JStr (self_id s))]"
    by (auto simp: handleDevices_def json_resp_defs Let_def split: option.splits)
  then show ?thesis using read_device_list [of b ids] by (auto simp: read_DeviceListResponse_def)
qed

lemma cluster_devices_contract:
  assumes "fetchClusterDevices (page_client e s) = Inr v"
  shows "\<exists>ds. v = cluster_devices_json (self_id s) ds"
  using page_resolved [OF assms [unfolded fetchClusterDevices_def] serve_routes(1)]
  by (auto simp: handleClusterDevices_def json_resp_defs split: option.splits)

lemma nodes_contract:
  assumes "fetchNodes (page_client e s) = Inr v"
  shows "\<exists>ns slf. v = JObj [(''nodes'', JArr (map node_json ns)), (''self'', JStr slf)]"
  using page_resolved [OF assms [unfolded fetchNodes_def] serve_routes(6)]
  by (auto simp: handleNodes_def json_resp_defs split: option.splits intro: exI [of _ "[]"])

lemma stats_contract:
  assumes "fetchStats (page_client e s) = Inr v"
  shows "\<exists>b. brokerAPI s = Some b \<and> v = stats_json (env_rt e) s b"
  using page_resolved [OF assms [unfolded fetchStats_def] serve_routes(5)]
  by (auto simp: handleStats_def json_resp_defs split: option.splits)

lemma cluster_stats_contract:
  assumes "fetchClusterStats (page_client e s) = Inr v"
  shows "\<exists>b ns. brokerAPI s = Some b \<and> ns = all_stats (env_remote e) (env_sched e) s b \<and>
    v = JObj [(''nodes'', JArr (map node_stats_json ns)),
      (''total_connections'', JNum (sum_list (map ns_Connections ns))),
      (''total_subscriptions'', JNum (sum_list (map ns_Subs ns))), (''self'', JStr (self_id s))]"
  using page_resolved [OF assms [unfolded fetchClusterStats_def] serve_routes(2)]
  by (auto simp: handleClusterStats_def json_resp_defs Let_def split: option.splits)

interpretation page: admin_backend "page_client e s" for e s
proof (unfold_locales, goal_cases)
  case (1 page perPage v)
  then show ?case by (rule devices_contract)
next
  case (2 v)
  then show ?case using cluster_devices_contract by (fastforce simp: read_cluster_devices)
next
  case (3 v)
  then show ?case using nodes_contract by (fastforce simp: read_nodes_json)
next
  case (4 v)
  then show ?case using stats_contract by (fastforce simp: read_stats_json)
next
  case (5 v)
  then show ?case using cluster_stats_contract by (fastforce simp: read_cluster_stats_json)
qed

subsection \<open>Round trips\<close>

text \<open>
  The device id stands unescaped in the URL of a request, so only ids without the characters a URL
  gives a meaning to arrive as they are: no slash or backslash, no question mark, hash or percent
  sign, and not one of the dot segments.
\<close>

definition plain_id :: "string \<Rightarrow> bool" where
  "plain_id i \<longleftrightarrow> i \<noteq> [] \<and> i \<noteq> ''.'' \<and> i \<noteq> ''..'' \<and> list_all (\<lambda>c. c \<notin> set ''/?#%'' \<and> c \<noteq> CHR 0x5C) i"

lemma plain_id_slash: "plain_id i \<Longrightarrow> CHR ''/'' \<notin> set i"
  by (auto simp: plain_id_def list_all_iff)

lemma device_path:
  "trim_prefix (''/api/v1'' @ ''/devices/'' @ p) ''/api/v1/devices/'' = p"
  "trim_prefix (''/api/v1'' @ ''/cluster/migrations/'' @ p) ''/api/v1/cluster/migrations/'' = p"
  using trim_prefix_append [of "''/api/v1/devices/''" p] trim_prefix_append [of "''/api/v1/cluster/migrations/''" p]
  by simp_all

definition detail_of :: "BrokerAPI \<Rightarrow> string \<Rightarrow> ClientInfo \<Rightarrow> DeviceDetail" where
  "detail_of b i info = \<lparr>client_id = ci_ClientID info, username = ci_Username info,
     remote_addr = ci_RemoteAddr info, protocol_version = ci_ProtocolVersion info,
     connected_at = ci_ConnectedAt info, keep_alive = ci_KeepAlive info, subscriptions = None,
     node_id = None, dd_connected = True,
     session = map_option (\<lambda>ses. \<lparr>clean_start = ms_CleanStart ses, expiry_interval = ms_ExpiryInterval ses,
       session_subscriptions = Some (ms_Subscriptions ses)\<rparr>) (GetSessionData b i)\<rparr>"

lemma read_detail_json: "read_DeviceDetail (device_detail_json b i info) = Some (detail_of b i info)"
proof -
  have "seq_opt (map (\<lambda>(k, v). map_option (Pair k) (as_num v)) (map (\<lambda>(k, q). (k, JNum q)) subs)) = Some subs"
    for subs :: "(string \<times> int) list"
    by (induction subs) auto
  then show ?thesis
    by (cases "GetSessionData b i")
      (simp_all add: read_DeviceDetail_def read_DeviceSummary_def read_SessionInfo_def device_detail_json_def
        device_fields_def detail_of_def opt_def DeviceSummary.defs)
qed

lemma get_device:
  assumes "apiKey s = []" and "brokerAPI s = Some b" and "str_split2 CHR ''/'' x = i # rest" and "i \<noteq> []"
  shows "fst (serve_api e s (client_get (''/devices/'' @ x) [])) =
    Some (case GetClientInfo b i of Some info \<Rightarrow> json_response 200 (device_detail_json b i info)
          | None \<Rightarrow> forward (env_remote e) GET (''/api/v1/devices/'' @ i) s)"
  using assms
  by (simp add: serve_route_device authWrap_open handleDeviceByID_def device_path Let_def del: append.simps split: option.splits)

lemma post_device:
  assumes "apiKey s = []" and "brokerAPI s = Some b" and "str_split2 CHR ''/'' p = [i, x]" and "i \<noteq> []"
  shows "serve_api e s (client_post (''/devices/'' @ p)) =
    (if x = ''disconnect'' then (case GetClientInfo b i of
       None \<Rightarrow> (Some (forward (env_remote e) POST (''/api/v1/devices/'' @ i @ ''/disconnect'') s), s)
     | Some info \<Rightarrow> (Some (json_response 200 (JObj [(''status'', JStr ''disconnected'')])),
                     s\<lparr>disconnect_calls := disconnect_calls s @ [i]\<rparr>))
     else (Some (json_response 405 (JStr [])), s))"
  using assms
  by (simp add: serve_route_device authWrap_open handleDeviceByID_def device_path Let_def del: append.simps split: option.splits)

lemma split_disconnect:
  assumes "CHR ''/'' \<notin> set i"
  shows "str_split2 CHR ''/'' (i @ ''/disconnect'') = [i, ''disconnect'']"
    and "str_split2 CHR ''/'' (i @ ''/'' @ j) = [i, j]"
  using assms str_split2_append [of "CHR ''/''" i "''disconnect''"] str_split2_append [of "CHR ''/''" i j] by simp_all

lemma page_get_ok: "fst (serve_api e s r) = Some (json_response 200 v) \<Longrightarrow> page_client e s r = Inr v"
  by (simp add: page_client_def axios_ok)

text \<open>A node with one connected device, for the witnesses.\<close>

definition sample_info :: "string \<Rightarrow> ClientInfo" where
  "sample_info i = \<lparr>ci_ClientID = i, ci_Username = ''u'', ci_RemoteAddr = ''10.0.0.7:52000'',
     ci_ProtocolVersion = 5, ci_ConnectedAt = ''2024-01-01T00:00:00Z'', ci_KeepAlive = 60\<rparr>"

definition sample_broker :: BrokerAPI where
  "sample_broker = \<lparr>ConnectedClientIDs = [''dev1''],
     GetClientInfo = (\<lambda>i. if i = ''dev1'' then Some (sample_info i) else None), GetSessionData = (\<lambda>i. None),
     ClientCount = 1, ActiveSubscriptions = 2, RetainedMessageCount = 0, ClusterNodeCount = 1\<rparr>"

definition sample_server :: "string \<Rightarrow> server" where
  "sample_server key = \<lparr>coordinator = Some (Submit sample_migration (NewMigrationCoordinator 3)),
     brokerAPI = Some sample_broker, clusterAPI = None, apiKey = key, disconnect_calls = []\<rparr>"

definition sample_env :: env where
  "sample_env = \<lparr>env_remote = (\<lambda>n r. None), env_sched = (\<lambda>ns. ns),
     env_rt = \<lparr>rt_uptime_seconds = 1, rt_NumGoroutine = 2, rt_Alloc = 3, rt_Sys = 4, rt_PauseTotalNs = 5\<rparr>,
     env_fmtTime = show_int, env_now = 9, env_ready = None, env_metrics = json_response 200 JNull,
     env_exists = (\<lambda>p. p = ''index.html'')\<rparr>"

subsection \<open>Properties\<close>


text \<open>When an API key is configured, the admin page cannot do anything: it never sends the key, so every
  request it makes is rejected with status 401 and leaves the server as it was.\<close>

theorem api_key_locks_page_out:
  assumes "apiKey s \<noteq> []" and "r \<in> {client_get ''/stats'' [], client_get ''/nodes'' [], client_get ''/cluster/stats'' [],
      client_get ''/cluster/devices'' [], client_get ''/cluster/migrations'' [], client_get (''/devices/'' @ i) [],
      client_post (''/devices/'' @ i @ ''/disconnect''), client_post (''/cluster/migrations/'' @ i @ ''/cancel'')}"
  shows "page_client e s r = Inl (RequestError (''Request failed with status code '' @ show_nat 401)) \<and>
         snd (serve_api e s r) = s"
proof -
  have "request_key r \<noteq> apiKey s" using assms by (auto simp: client_key client_key_post)
  moreover have "\<exists>h. serve_api e s r = authWrap h s r"
    using assms(2) by (elim insertE emptyE) (simp_all only: serve_routes serve_route_device serve_route_migration, blast+)
  ultimately have "serve_api e s r = (Some (json_error 401 ''unauthorized''), s)"
    using authWrap_denied [OF assms(1)] by auto
  then show ?thesis by (simp add: page_client_def axios_err)
qed

theorem api_key_locks_page_out_witness:
  "snd (serve_api sample_env (sample_server ''secret'') (client_get ''/stats'' [])) = sample_server ''secret''"
  using api_key_locks_page_out [of "sample_server ''secret''" "client_get ''/stats'' []" "''dev1''" sample_env]
  by (simp add: sample_server_def)

text \<open>C39: The migrations table of the admin page is always empty: the server answers with a bare array, which
  has no member \<^verbatim>\<open>migrations\<close>, so whatever migrations exist, the front end resolves to the empty list
  or fails.\<close>

theorem migrations_never_listed:
  assumes "fetchMigrations (page_client e s) = Inr v"
  shows "v = JArr []"
proof -
  obtain d where d: "page_client e s (client_get ''/cluster/migrations'' []) = Inr d"
    using assms by (auto simp: fetchMigrations_def split: sum.splits)
  obtain resp where "fst (handleMigrations (env_fmtTime e) s (client_get ''/cluster/migrations'' [])) = Some resp"
    and "resp_body resp = d" and "resp_status resp < 300"
    using page_resolved [OF d serve_routes(3)] by blast
  then obtain vs where "d = JArr vs"
    by (auto simp: handleMigrations_def json_resp_defs split: option.splits)
  then show ?thesis using assms d by (simp add: fetchMigrations_def js_or_def)
qed

theorem migrations_never_listed_witness:
  "fetchMigrations (page_client sample_env (sample_server [])) = Inr (JArr []) \<and>
   List_migrations (Submit sample_migration (NewMigrationCoordinator 3)) = [sample_migration]"
proof -
  have "page_client sample_env (sample_server []) (client_get ''/cluster/migrations'' []) =
      Inr (JArr [migration_json show_int sample_migration])"
    by (intro page_get_ok) (simp add: serve_routes authWrap_open handleMigrations_def sample_server_def sample_env_def
        Submit_def List_migrations_def NewMigrationCoordinator_def)
  then have "\<exists>v. fetchMigrations (page_client sample_env (sample_server [])) = Inr v"
    by (simp add: fetchMigrations_def)
  then show ?thesis using migrations_never_listed [of sample_env "sample_server []"]
    by (auto simp: Submit_def List_migrations_def NewMigrationCoordinator_def)
qed

text \<open>Device details and disconnects reach the device: for a connected device whose id needs no escaping,
  the detail request resolves to exactly that device's data and session, and the disconnect
  request resolves and makes the server disconnect that device and nothing else.\<close>

theorem device_round_trip:
  assumes "apiKey s = []" and "brokerAPI s = Some b" and "GetClientInfo b i = Some info" and "plain_id i"
  shows "typed read_DeviceDetail (fetchDevice (page_client e s) i) = Some (Inr (detail_of b i info)) \<and>
    disconnectDevice (page_client e s) i = Inr () \<and>
    snd (serve_api e s (client_post (''/devices/'' @ i @ ''/disconnect''))) = s\<lparr>disconnect_calls := disconnect_calls s @ [i]\<rparr>"
proof -
  have i: "i \<noteq> []" "CHR ''/'' \<notin> set i" using assms(4) plain_id_slash by (auto simp: plain_id_def)
  show ?thesis
    using get_device [OF assms(1,2) str_split2_absent [OF i(2)] i(1), of e]
      post_device [OF assms(1,2) split_disconnect(1) [OF i(2)] i(1), of e] assms(3)
    by (simp add: fetchDevice_def disconnectDevice_def page_get_ok typed_def read_detail_json del: append.simps)
qed

theorem device_round_trip_witness:
  "disconnectDevice (page_client sample_env (sample_server [])) ''dev1'' = Inr ()"
  using device_round_trip [of "sample_server []" sample_broker "''dev1''" "sample_info ''dev1''" sample_env]
  by (simp add: sample_server_def sample_broker_def plain_id_def)

text \<open>A device whose id contains a slash, which MQTT permits, is mistaken for another: the details shown
  are those of the device named by the part before the slash, and the device cannot be
  disconnected: the request is refused with status 405.\<close>

theorem slash_id_misrouted:
  assumes "apiKey s = []" and "brokerAPI s = Some b" and "plain_id i" and "plain_id j"
  shows "fetchDevice (page_client e s) (i @ ''/'' @ j) = fetchDevice (page_client e s) i \<and>
    disconnectDevice (page_client e s) (i @ ''/'' @ j) = Inl (RequestError (''Request failed with status code '' @ show_nat 405)) \<and>
    snd (serve_api e s (client_post (''/devices/'' @ (i @ ''/'' @ j) @ ''/disconnect''))) = s"
proof -
  have i: "i \<noteq> []" "CHR ''/'' \<notin> set i" using assms(3) plain_id_slash by (auto simp: plain_id_def)
  have x: "j @ ''/disconnect'' \<noteq> ''disconnect''"
  proof
    assume "j @ ''/disconnect'' = ''disconnect''"
    then have "length (j @ ''/disconnect'') = length ''disconnect''" by (rule arg_cong)
    then show False by simp
  qed
  have p: "serve_api e s (client_post (''/devices/'' @ (i @ ''/'' @ j) @ ''/disconnect'')) = (Some (json_response 405 (JStr [])), s)"
    using post_device [OF assms(1,2) split_disconnect(2) [OF i(2), of "j @ ''/disconnect''"] i(1), of e] x by simp
  have "fetchDevice (page_client e s) (i @ ''/'' @ j) = fetchDevice (page_client e s) i"
    using get_device [OF assms(1,2) str_split2_absent [OF i(2)] i(1), of e]
      get_device [OF assms(1,2) split_disconnect(2) [OF i(2), of j] i(1), of e]
    by (simp only: fetchDevice_def page_client_def axios_def)
  moreover have "disconnectDevice (page_client e s) (i @ ''/'' @ j) = Inl (RequestError (''Request failed with status code '' @ show_nat 405))"
    using p by (simp add: disconnectDevice_def page_client_def axios_def json_response_def)
  ultimately show ?thesis using p by simp
qed

theorem slash_id_misrouted_witness:
  "fetchDevice (page_client sample_env (sample_server [])) ''dev1/x'' = fetchDevice (page_client sample_env (sample_server [])) ''dev1''"
  using slash_id_misrouted [of "sample_server []" sample_broker "''dev1''" "''x''" sample_env]
  by (simp add: sample_server_def plain_id_def)

text \<open>Cancelling from the page works: for a stored migration whose id needs no escaping, the request
  resolves, and on the server exactly that task is then cancelled.\<close>

theorem cancel_round_trip:
  assumes "apiKey s = []" and "coordinator s = Some mc" and "coord_wf mc" and "Get i mc = Some m" and "plain_id i"
  shows "cancelMigration (page_client e s) i = Inr () \<and>
    (\<exists>mc'. coordinator (snd (serve_api e s (client_post (''/cluster/migrations/'' @ i @ ''/cancel'')))) = Some mc' \<and>
       set (List_migrations mc') = insert (CancelMigration (env_now e) m) (set (List_migrations mc) - {m}))"
proof -
  have "str_split CHR ''/'' (i @ ''/cancel'') = [i, ''cancel'']"
    using plain_id_slash [OF assms(5)] str_split_append [of "CHR ''/''" i "''cancel''"] by simp
  moreover have "fst (Cancel (env_now e) i mc)" using assms(4) by (simp add: coordinator.cancel_result)
  ultimately have "serve_api e s (client_post (''/cluster/migrations/'' @ i @ ''/cancel'')) =
      (Some (json_response 200 (JObj [(''status'', JStr ''cancelled'')])),
       s\<lparr>coordinator := Some (snd (Cancel (env_now e) i mc))\<rparr>)"
    using assms(1,2)
    by (simp add: serve_route_migration authWrap_open handleMigrationByID_def device_path Let_def case_prod_beta del: append.simps)
  then show ?thesis
    using coordinator.list_after_cancel [OF assms(3,4), of "env_now e"]
    by (simp add: cancelMigration_def page_get_ok del: append.simps)
qed

theorem cancel_round_trip_witness:
  "cancelMigration (page_client sample_env (sample_server [])) ''m1'' = Inr ()"
proof -
  have "Get ''m1'' (Submit sample_migration (NewMigrationCoordinator 3)) = Some sample_migration"
    by (simp add: Get_Submit sample_migration_def NewShardMigration_def)
  then show ?thesis
    using cancel_round_trip [of "sample_server []" "Submit sample_migration (NewMigrationCoordinator 3)" "''m1''" sample_migration sample_env]
    by (simp add: sample_server_def plain_id_def coord_wf_Submit coord_wf_new)
qed

text \<open>The ids a page of the device list shows.\<close>

definition listed_ids :: "js_error + jsval \<Rightarrow> string list" where
  "listed_ids r = (case typed read_DeviceListResponse r of
     Some (Inr d) \<Rightarrow> (case dl_devices d of None \<Rightarrow> [] | Some ds \<Rightarrow> map client_id ds)
   | _ \<Rightarrow> [])"

lemma list_page:
  assumes "apiKey s = []" and "brokerAPI s = Some b" and "1 \<le> page" and "page \<le> 10000"
    and "1 \<le> perPage" and "perPage \<le> 100"
    and "\<And>i. i \<in> set (ConnectedClientIDs b) \<Longrightarrow> \<exists>info. GetClientInfo b i = Some info \<and> ci_ClientID info = i"
  shows "listed_ids (fetchDevices (page_client e s) page perPage) =
    take (nat perPage) (drop (nat ((page - 1) * perPage)) (sort (ConnectedClientIDs b)))"
proof -
  let ?r = "client_get ''/devices'' [(''page'', show_int page), (''per_page'', show_int perPage)]"
  let ?ids = "take (nat perPage) (drop (nat ((page - 1) * perPage)) (sort (ConnectedClientIDs b)))"
  have q: "page_param ?r = page" "per_page_param ?r = perPage"
    using assms(3-6) by (simp_all add: page_param_def per_page_param_def query_get_def atoi_show_int Let_def)
  obtain g where g: "\<And>i. i \<in> set (ConnectedClientIDs b) \<Longrightarrow> GetClientInfo b i = Some (g i) \<and> ci_ClientID (g i) = i"
    using assms(7) by metis
  have sub: "set ?ids \<subseteq> set (ConnectedClientIDs b)"
    by (metis order_trans set_drop_subset set_sort set_take_subset)
  define js where "js i = JObj (device_fields (g i) @ [(''subscriptions'', nil_slice (session_topics b i))])" for i
  have m: "List.map_filter (device_summary_json b) ?ids = map js ?ids"
    by (rule map_filter_all_Some) (use sub g in \<open>auto simp: device_summary_json_def js_def\<close>)
  have rd: "read_DeviceSummary (js i) = Some (summary_of_info b i (g i))" for i
    by (simp add: js_def device_fields_def read_DeviceSummary_def summary_of_info_def read_nil_slice)
  have "page_client e s ?r = Inr (JObj [(''devices'', JArr (map js ?ids)), (''total'', JNum (int (length (ConnectedClientIDs b)))),
      (''page'', JNum page), (''per_page'', JNum perPage), (''node_id'', JStr (self_id s))])"
    using assms(1,2) q m
    by (intro page_get_ok) (simp add: serve_routes authWrap_open handleDevices_def page_ids_slice [OF assms(3,5)] Let_def)
  moreover have "seq_opt (map read_DeviceSummary (map js ?ids)) = Some (map (\<lambda>i. summary_of_info b i (g i)) ?ids)"
    using seq_opt_map_Some [of ?ids "read_DeviceSummary \<circ> js" "\<lambda>i. summary_of_info b i (g i)"] rd by simp
  moreover have "map (client_id \<circ> (\<lambda>i. summary_of_info b i (g i))) ?ids = ?ids"
    by (rule map_idI) (use sub g in \<open>auto simp: summary_of_info_def\<close>)
  ultimately show ?thesis
    by (simp add: fetchDevices_def listed_ids_def typed_def read_DeviceListResponse_def opt_def)
qed

text \<open>C30: The pages of the device list cover it: with a page size from 1 to 100 and enough pages, at most
  10000, the pages together give every connected device exactly once, in the order of their ids.\<close>

theorem device_pages_cover:
  assumes "apiKey s = []" and "brokerAPI s = Some b" and "1 \<le> perPage" and "perPage \<le> 100" and "k \<le> 10000"
    and "length (ConnectedClientIDs b) \<le> k * nat perPage"
    and "\<And>i. i \<in> set (ConnectedClientIDs b) \<Longrightarrow> \<exists>info. GetClientInfo b i = Some info \<and> ci_ClientID info = i"
  shows "concat (map (\<lambda>p. listed_ids (fetchDevices (page_client e s) (1 + int p) perPage)) [0..<k])
    = sort (ConnectedClientIDs b)"
proof -
  let ?xs = "sort (ConnectedClientIDs b)"
  have "listed_ids (fetchDevices (page_client e s) (1 + int p) perPage) = take (nat perPage) (drop (p * nat perPage) ?xs)"
    if "p < k" for p
    using list_page [OF assms(1,2) _ _ assms(3,4,7), of "1 + int p"] that assms(3,5) by (simp add: nat_mult_distrib)
  then have "concat (map (\<lambda>p. listed_ids (fetchDevices (page_client e s) (1 + int p) perPage)) [0..<k])
      = concat (map (\<lambda>p. take (nat perPage) (drop (p * nat perPage) ?xs)) [0..<k])"
    by (intro arg_cong [of _ _ concat] map_cong) auto
  also have "\<dots> = take (k * nat perPage) ?xs" using assms(3) by (intro pages_concat) simp
  finally show ?thesis using assms(6) by simp
qed

theorem device_pages_cover_witness:
  "concat (map (\<lambda>p. listed_ids (fetchDevices (page_client sample_env (sample_server [])) (1 + int p) 20)) [0..<1]) = [''dev1'']"
proof -
  have b: "brokerAPI (sample_server []) = Some sample_broker" "apiKey (sample_server []) = []"
    "ConnectedClientIDs sample_broker = [''dev1'']" "GetClientInfo sample_broker ''dev1'' = Some (sample_info ''dev1'')"
    by (simp_all add: sample_server_def sample_broker_def)
  show ?thesis
    using device_pages_cover [OF b(2,1), of 20 1 sample_env] b by (simp add: sample_info_def)
qed

end
