(* ===== verification/ClusterHttp.thy ===== *)
theory ClusterHttp
  imports AdminBackend "HOL-Library.Multiset"
begin

section \<open>Nodes that query each other\<close>

text \<open>
  \<^verbatim>\<open>internal/httpapi/server.go\<close> asks the other nodes of the cluster over the same HTTP API.  Here the
  parameter \<open>remote\<close> of the handlers is the server model itself: node \<open>i\<close> of the cluster has the
  environment \<open>es i\<close> and the state \<open>srv i\<close>.
\<close>

definition peer :: "(string \<Rightarrow> env) \<Rightarrow> (string \<Rightarrow> server) \<Rightarrow> remote_call" where
  "peer es srv n r = fst (serve_api (es (node_ID n)) (srv (node_ID n)) r)"

lemma remote_requests:
  "remote_stats_request = client_get ''/stats'' []"
  "remote_devices_request = client_get ''/devices'' [(''page'', ''1''), (''per_page'', ''1000'')]"
  by (simp_all add: remote_stats_request_def remote_devices_request_def request_defs)

definition stats_of :: "GoNodeInfo \<Rightarrow> BrokerAPI \<Rightarrow> nodeStats" where
  "stats_of n b = \<lparr>ns_NodeID = node_ID n, ns_Connections = ClientCount b, ns_Subs = ActiveSubscriptions b,
                   ns_Retained = RetainedMessageCount b\<rparr>"

lemma peer_stats:
  assumes "apiKey (srv (node_ID n)) = []" and "brokerAPI (srv (node_ID n)) = Some b"
  shows "fetchRemoteStats (peer es srv) n = Some (stats_of n b)"
  using assms
  by (simp add: fetchRemoteStats_def remote_requests peer_def serve_routes authWrap_open handleStats_def
      stats_json_def json_response_def raw_num_def stats_of_def)

lemma peer_stats_keyed:
  assumes "apiKey (srv (node_ID n)) \<noteq> []"
  shows "fetchRemoteStats (peer es srv) n =
    Some \<lparr>ns_NodeID = node_ID n, ns_Connections = 0, ns_Subs = 0, ns_Retained = 0\<rparr>"
  using assms
  by (simp add: fetchRemoteStats_def remote_requests peer_def serve_routes authWrap_denied client_key
      json_error_def json_response_def raw_num_def)

lemma sum_list_perm: "mset xs = mset ys \<Longrightarrow> sum_list (map f xs) = (sum_list (map f ys) :: 'a :: comm_monoid_add)"
  by (metis mset_map sum_mset_sum_list)

text \<open>The devices a node reports to another: the first hundred of its ids.\<close>

lemma go_item_json:
  "go_item (JObj (device_fields info @ [(''subscriptions'', nil_slice ts)])) =
    Some \<lparr>cd_ClientID = ci_ClientID info, cd_Username = ci_Username info, cd_RemoteAddr = ci_RemoteAddr info,
      cd_ProtocolVersion = ci_ProtocolVersion info, cd_ConnectedAt = ci_ConnectedAt info,
      cd_KeepAlive = ci_KeepAlive info, cd_Subscriptions = ts, cd_NodeID = []\<rparr>"
proof -
  have "seq_opt (map (go_string \<circ> JStr) ts) = Some ts" by (induction ts) auto
  then show ?thesis by (simp add: go_item_def device_fields_def nil_slice_def)
qed

lemma go_items:
  "seq_opt (map go_item (List.map_filter (device_summary_json b) ids)) = Some (List.map_filter (local_item b []) ids)"
  by (induction ids) (auto simp: List.map_filter_simps device_summary_json_def local_item_def go_item_json split: option.splits)

lemma local_item_node:
  "map (\<lambda>d. d\<lparr>cd_NodeID := nid\<rparr>) (List.map_filter (local_item b []) ids) = List.map_filter (local_item b nid) ids"
  by (induction ids) (auto simp: List.map_filter_simps local_item_def split: option.splits)

lemma peer_devices:
  assumes "apiKey (srv (node_ID n)) = []" and "brokerAPI (srv (node_ID n)) = Some b"
  shows "fetchRemoteDevices (peer es srv) n =
    List.map_filter (local_item b (node_ID n)) (take 100 (sort (ConnectedClientIDs b)))"
proof -
  have q: "page_param remote_devices_request = 1" "per_page_param remote_devices_request = 100"
    by (simp_all add: page_param_def per_page_param_def query_get_def remote_devices_request_def atoi_def
        is_digit_def digits_value_def)
  show ?thesis
    using assms q
    by (simp add: fetchRemoteDevices_def peer_def remote_requests serve_routes authWrap_open handleDevices_def
        json_response_def go_items local_item_node page_ids_slice Let_def)
qed

text \<open>
  A request to one node is decided by the answer of another when that answer, unless it is a 404,
  is what the first one returns.
\<close>

definition waits_for :: "server \<Rightarrow> http_request \<Rightarrow> GoNodeInfo \<Rightarrow> http_request \<Rightarrow> bool" where
  "waits_for s r n q \<longleftrightarrow> (\<forall>remote resp. remote n q = Some resp \<longrightarrow> resp_status resp \<noteq> 404 \<longrightarrow>
     fst (handleDeviceByID remote s r) = Some resp)"

lemma waits_for_other:
  assumes "brokerAPI s = Some b" and "GetClientInfo b i = None" and "clusterAPI s = Some c"
    and "other_nodes c = n # ns" and "i \<noteq> []" and "CHR ''/'' \<notin> set i"
  shows "waits_for s (client_get (''/devices/'' @ i) []) n (client_get (''/devices/'' @ i) [])"
proof -
  have "str_split2 CHR ''/'' (trim_prefix (''/api/v1'' @ ''/devices/'' @ i) ''/api/v1/devices/'') = [i]"
    using assms(6) by (simp only: device_path) (simp add: str_split2_absent)
  moreover have "client_get (''/devices/'' @ i) [] =
      \<lparr>req_method = GET, req_path = ''/api/v1/devices/'' @ i, req_query = [], req_api_key = []\<rparr>"
    by (simp add: request_defs)
  ultimately show ?thesis
    using assms
    by (simp add: waits_for_def handleDeviceByID_def forward_def proxy_def trim_prefix_append [of "''/api/v1/devices/''" i]
        str_split2_absent Let_def del: append.simps)
qed

text \<open>A cluster of two nodes, for the witnesses.\<close>

definition sample_node :: "string \<Rightarrow> GoNodeInfo" where
  "sample_node i = \<lparr>node_ID = i, node_Host = ''10.0.0.1'', node_GossipPort = 7946, node_TransportPort = 7947,
     node_MQTTPort = 1883, node_HTTPPort = 8080, node_Region = []\<rparr>"

definition sample_cluster :: "string \<Rightarrow> ClusterAPI" where
  "sample_cluster i = \<lparr>Self = sample_node i, Members = [sample_node ''n1'', sample_node ''n2'']\<rparr>"

definition sample_member :: "string \<Rightarrow> string \<Rightarrow> server" where
  "sample_member key i = (sample_server key)\<lparr>clusterAPI := Some (sample_cluster i)\<rparr>"

lemma sample_member_simps [simp]:
  "apiKey (sample_member key i) = key" "brokerAPI (sample_member key i) = Some sample_broker"
  "clusterAPI (sample_member key i) = Some (sample_cluster i)"
  "other_nodes (sample_cluster ''n1'') = [sample_node ''n2'']" "other_nodes (sample_cluster ''n2'') = [sample_node ''n1'']"
  "node_ID (sample_node i) = i"
  by (simp_all add: sample_member_def sample_server_def sample_cluster_def sample_node_def other_nodes_def)

subsection \<open>Properties\<close>

text \<open>C14: The totals on the dashboard are the sums over the cluster: when every other node with an HTTP port is
  reachable and needs no key, the resolved totals are this node's counts plus those of all the
  others, and there is one row per node, in whatever order the answers arrive.\<close>

theorem cluster_totals_exact:
  assumes "apiKey s = []" and "brokerAPI s = Some b" and "clusterAPI s = Some c"
    and "env_remote e = peer es srv" and "\<And>ns. mset (env_sched e ns) = mset ns"
    and "\<And>n. n \<in> set (other_nodes c) \<Longrightarrow> apiKey (srv (node_ID n)) = [] \<and> brokerAPI (srv (node_ID n)) = Some (br n)"
  shows "\<exists>cs rows. typed read_ClusterStats (fetchClusterStats (page_client e s)) = Some (Inr cs) \<and>
    cs_total_connections cs = ClientCount b + (\<Sum>n\<leftarrow>other_nodes c. ClientCount (br n)) \<and>
    cs_total_subscriptions cs = ActiveSubscriptions b + (\<Sum>n\<leftarrow>other_nodes c. ActiveSubscriptions (br n)) \<and>
    cs_nodes cs = Some (cluster_node_stats_of (local_stats s b) # rows) \<and>
    mset rows = mset (map (\<lambda>n. cluster_node_stats_of (stats_of n (br n))) (other_nodes c))"
proof -
  let ?ns = "env_sched e (other_nodes c)"
  have set: "set ?ns = set (other_nodes c)" using assms(5) by (metis set_mset_mset)
  have a: "all_stats (env_remote e) (env_sched e) s b = local_stats s b # map (\<lambda>n. stats_of n (br n)) ?ns"
    using assms(3,4,6) set by (simp add: all_stats_def) (intro map_filter_all_Some, simp add: peer_stats)
  have r: "page_client e s (client_get ''/cluster/stats'' []) = Inr (JObj
      [(''nodes'', JArr (map node_stats_json (local_stats s b # map (\<lambda>n. stats_of n (br n)) ?ns))),
       (''total_connections'', JNum (ClientCount b + (\<Sum>n\<leftarrow>other_nodes c. ClientCount (br n)))),
       (''total_subscriptions'', JNum (ActiveSubscriptions b + (\<Sum>n\<leftarrow>other_nodes c. ActiveSubscriptions (br n)))),
       (''self'', JStr (self_id s))])"
    using assms(1,2)
    by (intro page_get_ok)
      (simp add: sum_list_perm [OF assms(5)] serve_routes authWrap_open handleClusterStats_def a Let_def comp_def local_stats_def stats_of_def)
  define cs where "cs =
      \<lparr>cs_nodes = Some (map cluster_node_stats_of (local_stats s b # map (\<lambda>n. stats_of n (br n)) ?ns)),
       cs_total_connections = ClientCount b + (\<Sum>n\<leftarrow>other_nodes c. ClientCount (br n)),
       cs_total_subscriptions = ActiveSubscriptions b + (\<Sum>n\<leftarrow>other_nodes c. ActiveSubscriptions (br n)),
       cs_self = self_id s\<rparr>"
  have "typed read_ClusterStats (fetchClusterStats (page_client e s)) = Some (Inr cs)"
    unfolding cs_def by (simp only: fetchClusterStats_def r typed_def sum.case read_cluster_stats_json option.map)
  moreover have "mset (map cluster_node_stats_of (map (\<lambda>n. stats_of n (br n)) ?ns))
      = mset (map (\<lambda>n. cluster_node_stats_of (stats_of n (br n))) (other_nodes c))"
    using assms(5) by (simp add: comp_def)
  ultimately show ?thesis
    by (intro exI [of _ cs] exI [of _ "map cluster_node_stats_of (map (\<lambda>n. stats_of n (br n)) ?ns)"]) (simp add: cs_def)
qed

theorem cluster_totals_exact_witness:
  "\<exists>cs. typed read_ClusterStats (fetchClusterStats
      (page_client (sample_env\<lparr>env_remote := peer (\<lambda>i. sample_env) (sample_member [])\<rparr>) (sample_member [] ''n1''))) = Some (Inr cs) \<and>
    cs_total_connections cs = 2"
proof -
  let ?e = "sample_env\<lparr>env_remote := peer (\<lambda>i. sample_env) (sample_member [])\<rparr>"
  have "env_sched ?e = (\<lambda>ns. ns)" by (simp add: sample_env_def)
  then show ?thesis
    using cluster_totals_exact [of "sample_member [] ''n1''" sample_broker "sample_cluster ''n1''" ?e "\<lambda>i. sample_env" "sample_member []" "\<lambda>n. sample_broker"]
    by (auto simp: sample_broker_def)
qed

text \<open>With an API key configured on the other nodes their counts are lost without an error: the requests
  between nodes carry no key, the refusal is read as statistics, and each of these nodes appears
  with zeros.\<close>

theorem keyed_peers_count_zero:
  assumes "clusterAPI s = Some c" and "\<And>n. n \<in> set (sched (other_nodes c)) \<Longrightarrow> apiKey (srv (node_ID n)) \<noteq> []"
  shows "all_stats (peer es srv) sched s b = local_stats s b #
    map (\<lambda>n. \<lparr>ns_NodeID = node_ID n, ns_Connections = 0, ns_Subs = 0, ns_Retained = 0\<rparr>) (sched (other_nodes c))"
  using assms by (simp add: all_stats_def) (intro map_filter_all_Some, simp add: peer_stats_keyed)

theorem keyed_peers_count_zero_witness:
  "map ns_Connections (all_stats (peer (\<lambda>i. sample_env) (sample_member ''k'')) (\<lambda>ns. ns) (sample_member ''k'' ''n1'') sample_broker) = [1, 0]"
  using keyed_peers_count_zero [of "sample_member ''k'' ''n1''" "sample_cluster ''n1''" "\<lambda>ns. ns" "sample_member ''k''" "\<lambda>i. sample_env" sample_broker]
  by (simp add: local_stats_def) (simp add: sample_broker_def)





end
