(* ===== verification/Breaker.thy ===== *)
theory Breaker
  imports JsNumber
begin

section \<open>The circuit breaker\<close>

text \<open>
  Models \<^verbatim>\<open>internal/circuitbreaker/breaker.go\<close>.  Times are nanoseconds; \<open>now\<close> is the value of \<^verbatim>\<open>time.Now()\<close>
  in the call, and every operation is one step because it holds the mutex.  The counters are
  \<^verbatim>\<open>int64\<close> in the code and integers here: they return to zero with every change of state and grow by
  one for each call.  The error rate is a double and is rounded as one.
\<close>

datatype State = StateClosed | StateOpen | StateHalfOpen

fun state_String :: "State \<Rightarrow> string" where
  "state_String StateClosed = ''closed''"
| "state_String StateOpen = ''open''"
| "state_String StateHalfOpen = ''half-open''"

record breaker_Config =
  ErrorThreshold :: jsnum
  WindowSize :: int
  OpenDuration :: int
  HalfOpenMax :: int
  MinRequests :: int

abbreviation seconds :: "int \<Rightarrow> int" where
  "seconds n \<equiv> n * 1000000000"

definition DefaultConfig :: breaker_Config where
  "DefaultConfig = \<lparr>ErrorThreshold = fl (1 / 10), WindowSize = seconds 5, OpenDuration = seconds 30,
     HalfOpenMax = 5, MinRequests = 10\<rparr>"

record CircuitBreaker =
  cb_state :: State
  failCount :: int
  successCount :: int
  totalCount :: int
  halfOpenSucc :: int
  openedAt :: int
  cb_config :: breaker_Config

definition New :: "breaker_Config \<Rightarrow> CircuitBreaker" where
  "New cfg = \<lparr>cb_state = StateClosed, failCount = 0, successCount = 0, totalCount = 0, halfOpenSucc = 0,
     openedAt = 0, cb_config = cfg\<rparr>"

definition trip :: "int \<Rightarrow> CircuitBreaker \<Rightarrow> CircuitBreaker" where
  "trip now cb = cb\<lparr>cb_state := StateOpen, openedAt := now, failCount := 0, successCount := 0,
     totalCount := 0, halfOpenSucc := 0\<rparr>"

definition reset :: "CircuitBreaker \<Rightarrow> CircuitBreaker" where
  "reset cb = cb\<lparr>cb_state := StateClosed, failCount := 0, successCount := 0, totalCount := 0,
     halfOpenSucc := 0\<rparr>"

definition Allow :: "int \<Rightarrow> CircuitBreaker \<Rightarrow> bool \<times> CircuitBreaker" where
  "Allow now cb = (case cb_state cb of
     StateClosed \<Rightarrow> (True, cb)
   | StateOpen \<Rightarrow>
       if now - openedAt cb > OpenDuration (cb_config cb)
       then (True, cb\<lparr>cb_state := StateHalfOpen, halfOpenSucc := 0\<rparr>) else (False, cb)
   | StateHalfOpen \<Rightarrow> (True, cb))"

text \<open>The error of the code is \<^verbatim>\<open>ErrCircuitOpen\<close>, the only one.\<close>

definition AllowOrError :: "int \<Rightarrow> CircuitBreaker \<Rightarrow> string option \<times> CircuitBreaker" where
  "AllowOrError now cb = (case Allow now cb of
     (ok, cb') \<Rightarrow> (if ok then None else Some ''circuit breaker is open'', cb'))"

definition RecordSuccess :: "CircuitBreaker \<Rightarrow> CircuitBreaker" where
  "RecordSuccess cb =
     (let cb1 = cb\<lparr>successCount := successCount cb + 1, totalCount := totalCount cb + 1\<rparr>
      in if cb_state cb1 = StateHalfOpen
         then let cb2 = cb1\<lparr>halfOpenSucc := halfOpenSucc cb1 + 1\<rparr>
              in if halfOpenSucc cb2 \<ge> HalfOpenMax (cb_config cb2) then reset cb2 else cb2
         else cb1)"

definition errorRate :: "CircuitBreaker \<Rightarrow> jsnum" where
  "errorRate cb = js_div (fl (of_int (failCount cb))) (fl (of_int (totalCount cb)))"

definition RecordFailure :: "int \<Rightarrow> CircuitBreaker \<Rightarrow> CircuitBreaker" where
  "RecordFailure now cb =
     (let cb1 = cb\<lparr>failCount := failCount cb + 1, totalCount := totalCount cb + 1\<rparr>
      in case cb_state cb1 of
           StateClosed \<Rightarrow>
             if totalCount cb1 \<ge> MinRequests (cb_config cb1)
             then if errorRate cb1 \<ge> ErrorThreshold (cb_config cb1) then trip now cb1 else cb1
             else cb1
         | StateHalfOpen \<Rightarrow> trip now cb1
         | StateOpen \<Rightarrow> cb1)"

definition CurrentState :: "int \<Rightarrow> CircuitBreaker \<Rightarrow> State \<times> CircuitBreaker" where
  "CurrentState now cb =
     (let cb1 = (if cb_state cb = StateOpen \<and> now - openedAt cb > OpenDuration (cb_config cb)
                 then cb\<lparr>cb_state := StateHalfOpen, halfOpenSucc := 0\<rparr> else cb)
      in (cb_state cb1, cb1))"

definition Reset :: "CircuitBreaker \<Rightarrow> CircuitBreaker" where
  "Reset cb = reset cb"

subsection \<open>Histories\<close>

text \<open>A call and the time it happens; the answer of \<open>Allow\<close> is the only one a history keeps.\<close>

datatype cb_call = CallAllow | CallSuccess | CallFailure | CallState | CallReset

fun cb_step :: "int \<times> cb_call \<Rightarrow> CircuitBreaker \<Rightarrow> CircuitBreaker" where
  "cb_step (t, CallAllow) cb = snd (Allow t cb)"
| "cb_step (t, CallSuccess) cb = RecordSuccess cb"
| "cb_step (t, CallFailure) cb = RecordFailure t cb"
| "cb_step (t, CallState) cb = snd (CurrentState t cb)"
| "cb_step (t, CallReset) cb = Reset cb"

fun answers :: "(int \<times> cb_call) list \<Rightarrow> CircuitBreaker \<Rightarrow> bool list" where
  "answers [] cb = []"
| "answers ((t, c) # es) cb =
     (if c = CallAllow then [fst (Allow t cb)] else []) @ answers es (cb_step (t, c) cb)"

abbreviation cb_run :: "(int \<times> cb_call) list \<Rightarrow> CircuitBreaker \<Rightarrow> CircuitBreaker" where
  "cb_run es cb \<equiv> fold cb_step es cb"

lemmas breaker_defs = Allow_def RecordSuccess_def RecordFailure_def CurrentState_def Reset_def
  trip_def reset_def Let_def

lemma answers_append: "answers (es @ fs) cb = answers es cb @ answers fs (cb_run es cb)"
  by (induction es arbitrary: cb) auto

lemma step_config [simp]: "cb_config (cb_step e cb) = cb_config cb"
  by (cases e; cases "snd e") (auto simp: breaker_defs split: State.splits)

lemma run_config [simp]: "cb_config (cb_run es cb) = cb_config cb"
  by (induction es arbitrary: cb) simp_all

text \<open>The counters in a closed breaker, and only the sum when it is not closed.\<close>

definition breaker_wf :: "CircuitBreaker \<Rightarrow> bool" where
  "breaker_wf cb \<longleftrightarrow> 0 \<le> failCount cb \<and> 0 \<le> successCount cb \<and> totalCount cb = failCount cb + successCount cb \<and>
     0 \<le> halfOpenSucc cb \<and>
     (cb_state cb = StateHalfOpen \<longrightarrow> halfOpenSucc cb < max 1 (HalfOpenMax (cb_config cb)))"

lemma breaker_wf_New: "breaker_wf (New cfg)"
  by (simp add: breaker_wf_def New_def)

lemma breaker_wf_step: "breaker_wf cb \<Longrightarrow> breaker_wf (cb_step e cb)"
  by (cases e; cases "snd e") (auto simp: breaker_wf_def breaker_defs split: State.splits)

lemma breaker_wf_run: "breaker_wf cb \<Longrightarrow> breaker_wf (cb_run es cb)"
  by (induction es arbitrary: cb) (simp_all add: breaker_wf_step)

subsection \<open>When a closed breaker opens\<close>

text \<open>The outcomes of requests, with the time each is recorded.\<close>

definition outcome_call :: "int \<times> bool \<Rightarrow> int \<times> cb_call" where
  "outcome_call x = (fst x, if snd x then CallSuccess else CallFailure)"

definition failures :: "(int \<times> bool) list \<Rightarrow> nat" where
  "failures os = length (filter (\<lambda>x. \<not> snd x) os)"

definition trips_at :: "breaker_Config \<Rightarrow> int \<Rightarrow> int \<Rightarrow> (int \<times> bool) list \<Rightarrow> bool" where
  "trips_at cfg p q os \<longleftrightarrow> \<not> snd (last os) \<and> MinRequests cfg \<le> int (length os) \<and>
     p * int (length os) \<le> int (failures os) * q"

definition tripped :: "breaker_Config \<Rightarrow> int \<Rightarrow> int \<Rightarrow> (int \<times> bool) list \<Rightarrow> bool" where
  "tripped cfg p q os \<longleftrightarrow> (\<exists>n < length os. trips_at cfg p q (take (Suc n) os))"

lemma tripped_snoc: "tripped cfg p q (os @ [x]) \<longleftrightarrow> tripped cfg p q os \<or> trips_at cfg p q (os @ [x])"
  by (auto simp: tripped_def less_Suc_eq)

lemma failures_snoc [simp]: "failures (os @ [x]) = failures os + (if snd x then 0 else 1)"
  by (simp add: failures_def)

lemma failures_le: "failures os \<le> length os"
  by (simp add: failures_def)

lemma open_outcome: "cb_state cb = StateOpen \<Longrightarrow> cb_state (cb_step (outcome_call x) cb) = StateOpen"
  by (cases "snd x") (simp_all add: outcome_call_def breaker_defs)

lemma errorRate_threshold:
  assumes "0 \<le> failCount cb" and "failCount cb \<le> totalCount cb" and "0 < totalCount cb" and "0 < p" and "0 < q"
    and "totalCount cb * p \<le> 2 ^ 52"
  shows "fl (of_int p / of_int q) \<le> errorRate cb \<longleftrightarrow> p * totalCount cb \<le> failCount cb * q"
proof -
  have "totalCount cb * 1 \<le> totalCount cb * p" using assms by (intro mult_left_mono) simp_all
  then have "totalCount cb < 2 ^ 53" using assms(6) by simp
  then have "fl (of_int (totalCount cb)) = of_int (totalCount cb)" "fl (of_int (failCount cb)) = of_int (failCount cb)"
    using assms by (intro fl_of_int; simp)+
  then show ?thesis using fl_quotient_threshold [of "failCount cb" "totalCount cb" p q] assms
    by (simp add: errorRate_def js_div_def)
qed

lemma closed_run:
  assumes "0 < p" and "0 < q" and "ErrorThreshold (cb_config cb) = fl (of_int p / of_int q)"
    and "int (length os) * p \<le> 2 ^ 52"
  shows "if tripped (cb_config cb) p q os then cb_state (cb_run (map outcome_call os) (reset cb)) = StateOpen
    else cb_run (map outcome_call os) (reset cb) =
      (reset cb)\<lparr>failCount := int (failures os), successCount := int (length os - failures os), totalCount := int (length os)\<rparr>"
  using assms(4)
proof (induction os rule: rev_induct)
  case Nil
  then show ?case by (simp add: tripped_def failures_def reset_def)
next
  case (snoc x os)
  let ?c = "cb_run (map outcome_call os) (reset cb)"
  have b: "int (length os) * p \<le> 2 ^ 52" using snoc.prems assms(1) by (simp add: algebra_simps)
  note IH = snoc.IH [OF b]
  show ?case
  proof (cases "tripped (cb_config cb) p q os")
    case True
    then show ?thesis using IH by (simp add: tripped_snoc open_outcome)
  next
    case False
    let ?d = "?c\<lparr>failCount := failCount ?c + 1, totalCount := totalCount ?c + 1\<rparr>"
    have c: "?c = (reset cb)\<lparr>failCount := int (failures os), successCount := int (length os - failures os), totalCount := int (length os)\<rparr>"
      using False IH by simp
    have f: "failures os \<le> length os" by (rule failures_le)
    have r: "ErrorThreshold (cb_config cb) \<le> errorRate ?d \<longleftrightarrow> p * (int (length os) + 1) \<le> (int (failures os) + 1) * q"
      unfolding assms(3) using errorRate_threshold [of ?d p q] snoc.prems assms(1,2) f unfolding c by (simp add: algebra_simps)
    show ?thesis
    proof (cases "snd x")
      case True
      have "\<not> trips_at (cb_config cb) p q (os @ [x])" using True by (simp add: trips_at_def)
      then show ?thesis using False True f unfolding tripped_snoc
        by (simp add: outcome_call_def c RecordSuccess_def Let_def Suc_diff_le) (simp add: reset_def)
    next
      case fail: False
      have t: "trips_at (cb_config cb) p q (os @ [x]) \<longleftrightarrow>
          MinRequests (cb_config cb) \<le> int (length os) + 1 \<and> ErrorThreshold (cb_config cb) \<le> errorRate ?d"
        using fail r by (simp add: trips_at_def algebra_simps)
      have s: "cb_step (outcome_call x) ?c = (if trips_at (cb_config cb) p q (os @ [x]) then trip (fst x) ?d else ?d)"
        unfolding t using fail by (simp add: outcome_call_def RecordFailure_def Let_def c) (simp add: reset_def)
      show ?thesis
      proof (cases "trips_at (cb_config cb) p q (os @ [x])")
        case True
        then show ?thesis using s by (simp add: tripped_snoc trip_def)
      next
        case no: False
        then show ?thesis using s False fail f unfolding tripped_snoc by (simp add: c add.commute)
      qed
    qed
  qed
qed

text \<open>C33: The circuit breaker opens exactly when it should: after it was closed or created, recorded outcomes
  open it if and only if one of them is a failure at which the configured minimum of outcomes is reached
  and the share of failures is at least the threshold. The comparison is exact although the code
  divides doubles: for a threshold written as the fraction \<open>p / q\<close>, the rounding never changes the
  decision.\<close>

theorem breaker_trips_exactly:
  assumes "0 < p" and "0 < q" and "ErrorThreshold (cb_config cb) = fl (of_int p / of_int q)"
    and "int (length os) * p \<le> 2 ^ 52"
  shows "cb_state (cb_run (map outcome_call os) (reset cb)) =
    (if \<exists>n < length os. \<not> snd (os ! n) \<and> MinRequests (cb_config cb) \<le> int n + 1 \<and>
          p * (int n + 1) \<le> int (failures (take (Suc n) os)) * q
     then StateOpen else StateClosed)"
proof -
  have "tripped (cb_config cb) p q os \<longleftrightarrow> (\<exists>n < length os. \<not> snd (os ! n) \<and> MinRequests (cb_config cb) \<le> int n + 1 \<and>
          p * (int n + 1) \<le> int (failures (take (Suc n) os)) * q)"
    by (auto simp: tripped_def trips_at_def take_Suc_conv_app_nth add.commute)
  then show ?thesis using closed_run [OF assms]
    by (cases "tripped (cb_config cb) p q os") (simp_all only: if_True if_False, simp add: reset_def)
qed

theorem breaker_trips_exactly_witness:
  "cb_state (cb_run (map outcome_call (replicate 9 (0, True) @ [(1, False)])) (reset (New DefaultConfig))) = StateOpen"
proof -
  let ?os = "replicate 9 (0, True) @ [(1, False)] :: (int \<times> bool) list"
  have "ErrorThreshold (cb_config (New DefaultConfig)) = fl (of_int 1 / of_int 10)" "int (length ?os) * 1 \<le> 2 ^ 52"
    by (simp_all add: New_def DefaultConfig_def)
  note t = breaker_trips_exactly [of 1 10, OF _ _ this]
  have "\<exists>n < length ?os. \<not> snd (?os ! n) \<and> MinRequests (cb_config (New DefaultConfig)) \<le> int n + 1 \<and>
      1 * (int n + 1) \<le> int (failures (take (Suc n) ?os)) * 10"
    by (rule exI [of _ 9]) (simp add: New_def DefaultConfig_def failures_def nth_append)
  then show ?thesis using t by (simp only: if_True zero_less_one zero_less_numeral simp_thms)
qed

subsection \<open>An open breaker\<close>

lemma open_window:
  assumes "cb_state cb = StateOpen"
    and "\<forall>(t, c) \<in> set es. c \<noteq> CallReset \<and> t \<le> openedAt cb + OpenDuration (cb_config cb)"
  shows "True \<notin> set (answers es cb) \<and> cb_state (cb_run es cb) = StateOpen \<and> openedAt (cb_run es cb) = openedAt cb"
  using assms
proof (induction es arbitrary: cb)
  case (Cons e es)
  obtain t c where e: "e = (t, c)" by (cases e)
  let ?d = "cb_step e cb"
  have "c \<noteq> CallReset" "t \<le> openedAt cb + OpenDuration (cb_config cb)" using Cons.prems(2) e by auto
  then have d: "cb_state ?d = StateOpen" "openedAt ?d = openedAt cb" "c = CallAllow \<Longrightarrow> \<not> fst (Allow t cb)"
    using Cons.prems(1) e by (cases c; simp add: breaker_defs)+
  have "\<forall>(t, c) \<in> set es. c \<noteq> CallReset \<and> t \<le> openedAt ?d + OpenDuration (cb_config ?d)"
    using Cons.prems(2) unfolding d(2) step_config by simp
  from Cons.IH [OF d(1) this] show ?case using d(2,3) e by (cases "c = CallAllow") simp_all
qed simp

lemma half_open_successes:
  assumes "cb_state cb = StateHalfOpen" and "halfOpenSucc cb + int (length ts) < HalfOpenMax (cb_config cb)"
  shows "cb_state (cb_run (map (\<lambda>t. (t, CallSuccess)) ts) cb) = StateHalfOpen \<and>
    halfOpenSucc (cb_run (map (\<lambda>t. (t, CallSuccess)) ts) cb) = halfOpenSucc cb + int (length ts)"
  using assms
proof (induction ts arbitrary: cb)
  case (Cons t ts)
  let ?d = "RecordSuccess cb"
  have d: "cb_state ?d = StateHalfOpen" "halfOpenSucc ?d = halfOpenSucc cb + 1" "cb_config ?d = cb_config cb"
    using Cons.prems by (simp_all add: RecordSuccess_def Let_def)
  then show ?case using Cons.IH [of ?d] Cons.prems by simp
qed simp

lemma reset_successes: "reset (cb_run (map (\<lambda>t. (t, CallSuccess)) ts) cb) = reset cb"
proof (induction ts arbitrary: cb)
  case (Cons t ts)
  have "reset (RecordSuccess cb) = reset cb" by (simp add: RecordSuccess_def reset_def Let_def)
  then show ?case using Cons.IH [of "RecordSuccess cb"] by simp
qed simp

text \<open>C34: An open breaker protects and recovers: until the open time is over, whatever is called except a
  reset, every request is refused and the breaker stays open. The first request after that time is
  admitted as a probe; as many successes as configured close the breaker with its counters at zero,
  and a failure before that opens it again for a full open time.\<close>

theorem breaker_recovers:
  assumes "cb_state cb = StateOpen"
    and "\<forall>(t, c) \<in> set es. c \<noteq> CallReset \<and> t \<le> openedAt cb + OpenDuration (cb_config cb)"
    and "openedAt cb + OpenDuration (cb_config cb) < t1" and "HalfOpenMax (cb_config cb) = int (length ts) + 1"
    and "probe = snd (Allow t1 (cb_run es cb))"
  shows "True \<notin> set (answers es cb) \<and> cb_state (cb_run es cb) = StateOpen \<and> fst (Allow t1 (cb_run es cb)) \<and>
    cb_run (map (\<lambda>t. (t, CallSuccess)) (ts @ [t2])) probe = reset probe \<and>
    cb_state (cb_run (map (\<lambda>t. (t, CallSuccess)) (take n ts) @ [(t2, CallFailure)]) probe) = StateOpen \<and>
    openedAt (cb_run (map (\<lambda>t. (t, CallSuccess)) (take n ts) @ [(t2, CallFailure)]) probe) = t2"
proof (intro conjI)
  note w = open_window [OF assms(1,2)]
  show "True \<notin> set (answers es cb)" "cb_state (cb_run es cb) = StateOpen" using w by simp_all
  show "fst (Allow t1 (cb_run es cb))" using w assms(3) by (simp add: Allow_def)
  have p: "cb_state probe = StateHalfOpen" "halfOpenSucc probe = 0" "cb_config probe = cb_config cb"
    using w assms(3) unfolding assms(5) by (simp_all add: Allow_def)
  let ?d = "cb_run (map (\<lambda>t. (t, CallSuccess)) ts) probe"
  have "cb_state ?d = StateHalfOpen" "halfOpenSucc ?d = int (length ts)"
    using half_open_successes [of probe ts] p assms(4) by simp_all
  then have "RecordSuccess ?d = reset ?d" using p assms(4) by (simp add: RecordSuccess_def reset_def Let_def)
  then show "cb_run (map (\<lambda>t. (t, CallSuccess)) (ts @ [t2])) probe = reset probe" by (simp add: reset_successes)
  let ?e = "cb_run (map (\<lambda>t. (t, CallSuccess)) (take n ts)) probe"
  have "cb_state ?e = StateHalfOpen" using half_open_successes [of probe "take n ts"] p assms(4) by simp
  then show "cb_state (cb_run (map (\<lambda>t. (t, CallSuccess)) (take n ts) @ [(t2, CallFailure)]) probe) = StateOpen"
    "openedAt (cb_run (map (\<lambda>t. (t, CallSuccess)) (take n ts) @ [(t2, CallFailure)]) probe) = t2"
    by (simp_all add: RecordFailure_def trip_def Let_def)
qed

theorem breaker_recovers_witness:
  "cb_state (cb_run (map (\<lambda>t. (t, CallSuccess)) ([0, 0, 0, 0] @ [0]))
     (snd (Allow (seconds 32) (cb_run [(seconds 20, CallAllow)] (trip (seconds 1) (New DefaultConfig)))))) = StateClosed"
  using breaker_recovers [of "trip (seconds 1) (New DefaultConfig)" "[(seconds 20, CallAllow)]" "seconds 32" "[0, 0, 0, 0]"
      "snd (Allow (seconds 32) (cb_run [(seconds 20, CallAllow)] (trip (seconds 1) (New DefaultConfig))))" 0 0]
  by (simp add: trip_def New_def DefaultConfig_def) (simp add: reset_def)

subsection \<open>What a guarded caller relies on\<close>

text \<open>
  The executor of the interceptors and the transport between the nodes use a breaker in the same way:
  they ask it, and report the outcome of what they did.
\<close>

locale request_guard =
  fixes allow :: "int \<Rightarrow> 'b \<Rightarrow> bool \<times> 'b"
    and success :: "'b \<Rightarrow> 'b"
    and failure :: "int \<Rightarrow> 'b \<Rightarrow> 'b"
    and refuses_until :: "'b \<Rightarrow> int \<Rightarrow> bool"
    and ready :: "'b \<Rightarrow> bool"
  assumes refuses: "refuses_until b u \<Longrightarrow> t \<le> u \<Longrightarrow> allow t b = (False, b)"
    and admits: "ready b \<Longrightarrow> allow t b = (True, b)"
    and success_ready: "ready b \<Longrightarrow> ready (success b)"
begin

text \<open>One attempt starts at \<open>t\<close> and, if it is admitted, ends at \<open>t'\<close> with the outcome \<open>ok\<close>.\<close>

definition attempt :: "int \<times> int \<times> bool \<Rightarrow> 'b \<Rightarrow> bool option \<times> 'b" where
  "attempt a b = (case a of (t, t', ok) \<Rightarrow> (case allow t b of
     (False, b') \<Rightarrow> (None, b') | (True, b') \<Rightarrow> (Some ok, if ok then success b' else failure t' b')))"

fun attempts :: "(int \<times> int \<times> bool) list \<Rightarrow> 'b \<Rightarrow> bool option list \<times> 'b" where
  "attempts [] b = ([], b)"
| "attempts (a # as) b = (case attempt a b of (r, b') \<Rightarrow> (case attempts as b' of (rs, b'') \<Rightarrow> (r # rs, b'')))"

lemma attempts_refused:
  assumes "refuses_until b u" and "list_all (\<lambda>a. fst a \<le> u) as"
  shows "attempts as b = (replicate (length as) None, b)"
  using assms(2)
proof (induction as)
  case (Cons a as)
  obtain t t' ok where a: "a = (t, t', ok)" by (cases a)
  have "t \<le> u" using Cons.prems a by simp
  from refuses [OF assms(1) this] have "attempt a b = (None, b)" using a by (simp add: attempt_def)
  moreover have "attempts as b = (replicate (length as) None, b)" using Cons by simp
  ultimately show ?case by simp
qed simp

lemma attempts_succeed:
  assumes "ready b" and "list_all (\<lambda>a. snd (snd a)) as"
  shows "fst (attempts as b) = replicate (length as) (Some True) \<and> ready (snd (attempts as b))"
  using assms
proof (induction as arbitrary: b)
  case (Cons a as)
  obtain t t' where a: "a = (t, t', True)" using Cons.prems(2) by (cases a) simp
  have "attempt a b = (Some True, success b)" using admits [OF Cons.prems(1)] a by (simp add: attempt_def)
  moreover have "fst (attempts as (success b)) = replicate (length as) (Some True) \<and> ready (snd (attempts as (success b)))"
    using Cons success_ready by simp
  ultimately show ?case by (cases "attempts as (success b)") simp
qed simp

end

definition breaker_refuses_until :: "CircuitBreaker \<Rightarrow> int \<Rightarrow> bool" where
  "breaker_refuses_until cb u \<longleftrightarrow> cb_state cb = StateOpen \<and> u \<le> openedAt cb + OpenDuration (cb_config cb)"

interpretation guard: request_guard Allow RecordSuccess RecordFailure breaker_refuses_until "\<lambda>cb. cb_state cb \<noteq> StateOpen"
  by unfold_locales
    (auto simp: breaker_refuses_until_def Allow_def RecordSuccess_def reset_def Let_def split: State.splits)

end
