(* ===== verification/Plugins.thy ===== *)
theory Plugins
  imports Breaker "HOL-Library.Word"
begin

section \<open>The interceptor chain\<close>

text \<open>
  Models \<^verbatim>\<open>internal/plugin/interceptor.go\<close>, \<^verbatim>\<open>executor.go\<close> and \<^verbatim>\<open>chain.go\<close>.  The state the interceptors share
  has the type \<open>'s\<close>.  A hook gets that state and the event; its run gives the new state, the event as
  the hook left it, the result (an error, a panic or nothing) and how long it took.  Times are those
  of theory \<open>Breaker\<close>; \<^verbatim>\<open>t\<close> is the time a call starts.
\<close>

type_synonym bytes = "8 word list"

record ConnectEvent =
  ce_ClientID :: string
  ce_Username :: string
  ce_CleanSession :: bool
  ce_RemoteAddr :: string

record PublishEvent =
  pe_ClientID :: string
  pe_Topic :: string
  pe_Payload :: bytes
  pe_QoS :: "8 word"
  pe_Retain :: bool

record SubscribeEvent =
  se_Client :: string
  se_TopicFilter :: string
  se_SubQoS :: "8 word"

record DeliveryEvent =
  de_ClientID :: string
  de_Topic :: string
  de_Payload :: bytes
  de_QoS :: "8 word"

record DisconnectEvent =
  xe_ClientID :: string
  xe_Reason :: string
  xe_RemoteAddr :: string

record SessionExpiredEvent =
  ee_ClientID :: string

record UnsubscribeEvent =
  ue_ClientID :: string
  ue_TopicFilter :: string

datatype hook_result = HookOk | HookErr string | HookPanic string

record ('s, 'e) hook_run =
  hr_state :: 's
  hr_event :: 'e
  hr_result :: hook_result
  hr_took :: int

type_synonym ('s, 'e) hook = "'s \<Rightarrow> 'e \<Rightarrow> ('s, 'e) hook_run"

text \<open>
  \<^verbatim>\<open>Interceptor\<close> and the hook interfaces: the type assertion \<^verbatim>\<open>ri.interceptor.(OnConnectInterceptor)\<close>
  succeeds when the hook is present.
\<close>

record 's Interceptor =
  i_Name :: string
  i_Init :: "'s \<Rightarrow> string option \<times> 's"
  i_Close :: "'s \<Rightarrow> string option \<times> 's"
  i_OnConnect :: "('s, ConnectEvent) hook option"
  i_OnPublish :: "('s, PublishEvent) hook option"
  i_OnSubscribe :: "('s, SubscribeEvent) hook option"
  i_OnDelivery :: "('s, DeliveryEvent) hook option"
  i_OnUnsubscribe :: "('s, UnsubscribeEvent) hook option"
  i_OnDisconnect :: "('s \<Rightarrow> DisconnectEvent \<Rightarrow> 's) option"
  i_OnSessionExpired :: "('s \<Rightarrow> SessionExpiredEvent \<Rightarrow> 's) option"

subsection \<open>The executor\<close>

datatype plugin_error = ErrInterceptorSkipped | HookError string | PanicError string | DeadlineExceeded

record Executor =
  ex_name :: string
  ex_timeout :: int
  ex_breaker :: CircuitBreaker

definition NewExecutor :: "string \<Rightarrow> int \<Rightarrow> breaker_Config \<Rightarrow> Executor" where
  "NewExecutor name timeout cfg = \<lparr>ex_name = name, ex_timeout = timeout, ex_breaker = New cfg\<rparr>"

text \<open>
  \<open>Run\<close> returns the error, the executor, the shared state, the event and the time it returns.  The
  hook runs in a goroutine of its own: when the time-out comes first, \<open>Run\<close> returns at that moment
  with \<^verbatim>\<open>ctx.Err()\<close> and what the hook does to the shared state happens all the same.  The event after an
  error is not used by any caller.
\<close>

definition Run :: "int \<Rightarrow> Executor \<Rightarrow> ('s, 'e) hook \<Rightarrow> 's \<Rightarrow> 'e \<Rightarrow> plugin_error option \<times> Executor \<times> 's \<times> 'e \<times> int" where
  "Run t x fn s evt = (case AllowOrError t (ex_breaker x) of
     (Some _, b) \<Rightarrow> (Some ErrInterceptorSkipped, x\<lparr>ex_breaker := b\<rparr>, s, evt, t)
   | (None, b) \<Rightarrow>
       let r = fn s evt in
       if hr_took r < ex_timeout x
       then let t' = t + hr_took r in
         (case hr_result r of
            HookOk \<Rightarrow> (None, x\<lparr>ex_breaker := RecordSuccess b\<rparr>, hr_state r, hr_event r, t')
          | HookErr m \<Rightarrow> (Some (HookError m), x\<lparr>ex_breaker := RecordFailure t' b\<rparr>, hr_state r, hr_event r, t')
          | HookPanic m \<Rightarrow>
              (Some (PanicError (''interceptor panic: '' @ m)), x\<lparr>ex_breaker := RecordFailure t' b\<rparr>, hr_state r, hr_event r, t'))
       else let t' = t + ex_timeout x in
         (Some DeadlineExceeded, x\<lparr>ex_breaker := RecordFailure t' b\<rparr>, hr_state r, hr_event r, t'))"

subsection \<open>The chain\<close>

record interceptorConfig =
  ic_timeout :: int
  ic_breakerCfg :: breaker_Config

abbreviation milliseconds :: "int \<Rightarrow> int" where
  "milliseconds n \<equiv> n * 1000000"

definition defaultInterceptorConfig :: interceptorConfig where
  "defaultInterceptorConfig = \<lparr>ic_timeout = milliseconds 100,
     ic_breakerCfg = \<lparr>ErrorThreshold = fl (1 / 2), WindowSize = seconds 10, OpenDuration = seconds 30,
       HalfOpenMax = 3, MinRequests = 5\<rparr>\<rparr>"

type_synonym InterceptorOption = "interceptorConfig \<Rightarrow> interceptorConfig"

definition WithTimeout :: "int \<Rightarrow> InterceptorOption" where
  "WithTimeout d c = c\<lparr>ic_timeout := d\<rparr>"

definition WithBreakerThreshold :: "jsnum \<Rightarrow> InterceptorOption" where
  "WithBreakerThreshold rate c = c\<lparr>ic_breakerCfg := (ic_breakerCfg c)\<lparr>ErrorThreshold := rate\<rparr>\<rparr>"

definition WithBreakerResetInterval :: "int \<Rightarrow> InterceptorOption" where
  "WithBreakerResetInterval d c = c\<lparr>ic_breakerCfg := (ic_breakerCfg c)\<lparr>OpenDuration := d\<rparr>\<rparr>"

record 's registeredInterceptor =
  ri_interceptor :: "'s Interceptor"
  ri_executor :: Executor

type_synonym 's InterceptorChain = "'s registeredInterceptor list"

definition NewInterceptorChain :: "'s InterceptorChain" where
  "NewInterceptorChain = []"

definition Register :: "'s Interceptor \<Rightarrow> InterceptorOption list \<Rightarrow> 's InterceptorChain \<Rightarrow> 's InterceptorChain" where
  "Register i opts c = (let cfg = fold (\<lambda>opt. opt) opts defaultInterceptorConfig in
     c @ [\<lparr>ri_interceptor = i, ri_executor = NewExecutor (i_Name i) (ic_timeout cfg) (ic_breakerCfg cfg)\<rparr>])"

text \<open>\<open>InitAll\<close> and \<open>CloseAll\<close>: the loop ends at the first error.\<close>

fun each_interceptor :: "('s Interceptor \<Rightarrow> 's \<Rightarrow> string option \<times> 's) \<Rightarrow> 's InterceptorChain \<Rightarrow> 's \<Rightarrow> string option \<times> 's" where
  "each_interceptor f [] s = (None, s)"
| "each_interceptor f (ri # c) s = (case f (ri_interceptor ri) s of
     (Some err, s') \<Rightarrow> (Some err, s') | (None, s') \<Rightarrow> each_interceptor f c s')"

definition InitAll :: "'s InterceptorChain \<Rightarrow> 's \<Rightarrow> string option \<times> 's" where
  "InitAll = each_interceptor i_Init"

definition CloseAll :: "'s InterceptorChain \<Rightarrow> 's \<Rightarrow> string option \<times> 's" where
  "CloseAll = each_interceptor i_Close"

text \<open>
  The loop that the five rejecting hooks have in common, \<open>sel\<close> being the type assertion: an interceptor
  without the hook or with an open breaker is passed over, an error ends the loop.
\<close>

fun dispatch :: "('s Interceptor \<Rightarrow> ('s, 'e) hook option) \<Rightarrow> int \<Rightarrow> 's InterceptorChain \<Rightarrow> 's \<Rightarrow> 'e \<Rightarrow>
    plugin_error option \<times> 's InterceptorChain \<times> 's \<times> 'e \<times> int" where
  "dispatch sel t [] s evt = (None, [], s, evt, t)"
| "dispatch sel t (ri # c) s evt =
     (case sel (ri_interceptor ri) of
        None \<Rightarrow> (case dispatch sel t c s evt of (err, c', r) \<Rightarrow> (err, ri # c', r))
      | Some hook \<Rightarrow>
          (case Run t (ri_executor ri) hook s evt of
             (err, x, s', evt', t') \<Rightarrow>
               if err = Some ErrInterceptorSkipped \<or> err = None
               then (case dispatch sel t' c s' evt' of (err', c', r) \<Rightarrow> (err', ri\<lparr>ri_executor := x\<rparr> # c', r))
               else (err, ri\<lparr>ri_executor := x\<rparr> # c, s', evt', t')))"

definition OnConnect :: "int \<Rightarrow> 's InterceptorChain \<Rightarrow> 's \<Rightarrow> ConnectEvent \<Rightarrow> plugin_error option \<times> 's InterceptorChain \<times> 's \<times> ConnectEvent \<times> int" where
  "OnConnect = dispatch i_OnConnect"

definition OnPublish :: "int \<Rightarrow> 's InterceptorChain \<Rightarrow> 's \<Rightarrow> PublishEvent \<Rightarrow> plugin_error option \<times> 's InterceptorChain \<times> 's \<times> PublishEvent \<times> int" where
  "OnPublish = dispatch i_OnPublish"

definition OnSubscribe :: "int \<Rightarrow> 's InterceptorChain \<Rightarrow> 's \<Rightarrow> SubscribeEvent \<Rightarrow> plugin_error option \<times> 's InterceptorChain \<times> 's \<times> SubscribeEvent \<times> int" where
  "OnSubscribe = dispatch i_OnSubscribe"

definition OnDelivery :: "int \<Rightarrow> 's InterceptorChain \<Rightarrow> 's \<Rightarrow> DeliveryEvent \<Rightarrow> plugin_error option \<times> 's InterceptorChain \<times> 's \<times> DeliveryEvent \<times> int" where
  "OnDelivery = dispatch i_OnDelivery"

definition OnUnsubscribe :: "int \<Rightarrow> 's InterceptorChain \<Rightarrow> 's \<Rightarrow> UnsubscribeEvent \<Rightarrow> plugin_error option \<times> 's InterceptorChain \<times> 's \<times> UnsubscribeEvent \<times> int" where
  "OnUnsubscribe = dispatch i_OnUnsubscribe"

text \<open>
  The two notifications start a goroutine for each hook; their effects are taken in the order of the
  registration.
\<close>

definition OnDisconnect :: "'s InterceptorChain \<Rightarrow> DisconnectEvent \<Rightarrow> 's \<Rightarrow> 's" where
  "OnDisconnect c evt s = fold (\<lambda>ri s. case i_OnDisconnect (ri_interceptor ri) of None \<Rightarrow> s | Some h \<Rightarrow> h s evt) c s"

definition OnSessionExpired :: "'s InterceptorChain \<Rightarrow> SessionExpiredEvent \<Rightarrow> 's \<Rightarrow> 's" where
  "OnSessionExpired c evt s =
     fold (\<lambda>ri s. case i_OnSessionExpired (ri_interceptor ri) of None \<Rightarrow> s | Some h \<Rightarrow> h s evt) c s"

subsection \<open>The chain as a pipeline\<close>

text \<open>
  The specification: the hooks that take part are run one after the other on the state and the event,
  until one fails.
\<close>

definition hook_error :: "int \<Rightarrow> ('s, 'e) hook_run \<Rightarrow> plugin_error option" where
  "hook_error timeout r =
     (if hr_took r < timeout
      then (case hr_result r of HookOk \<Rightarrow> None | HookErr m \<Rightarrow> Some (HookError m)
            | HookPanic m \<Rightarrow> Some (PanicError (''interceptor panic: '' @ m)))
      else Some DeadlineExceeded)"

fun pipeline :: "(('s, 'e) hook \<times> int) list \<Rightarrow> 's \<Rightarrow> 'e \<Rightarrow> plugin_error option \<times> 's \<times> 'e" where
  "pipeline [] s evt = (None, s, evt)"
| "pipeline ((h, timeout) # hs) s evt =
     (let r = h s evt; err = hook_error timeout r
      in if err = None then pipeline hs (hr_state r) (hr_event r) else (err, hr_state r, hr_event r))"

definition takes_part :: "('s Interceptor \<Rightarrow> ('s, 'e) hook option) \<Rightarrow> 's registeredInterceptor \<Rightarrow> (('s, 'e) hook \<times> int) option" where
  "takes_part sel ri = (case sel (ri_interceptor ri) of
     None \<Rightarrow> None
   | Some h \<Rightarrow> if cb_state (ex_breaker (ri_executor ri)) = StateOpen then None else Some (h, ex_timeout (ri_executor ri)))"

text \<open>The breakers that are open stay so for the time the whole chain may take.\<close>

definition steady :: "int \<Rightarrow> 's InterceptorChain \<Rightarrow> bool" where
  "steady t c \<longleftrightarrow> (\<forall>ri \<in> set c. 0 \<le> ex_timeout (ri_executor ri) \<and>
     (cb_state (ex_breaker (ri_executor ri)) = StateOpen \<longrightarrow>
      breaker_refuses_until (ex_breaker (ri_executor ri)) (t + sum_list (map (ex_timeout \<circ> ri_executor) c))))"

lemma Run_skipped:
  assumes "breaker_refuses_until (ex_breaker x) u" and "t \<le> u"
  shows "Run t x fn s evt = (Some ErrInterceptorSkipped, x, s, evt, t)"
  using guard.refuses [OF assms] by (simp add: Run_def AllowOrError_def)

lemma Run_executed:
  assumes "cb_state (ex_breaker x) \<noteq> StateOpen" and "r = fn s evt"
  shows "\<exists>x' t'. Run t x fn s evt = (hook_error (ex_timeout x) r, x', hr_state r, hr_event r, t') \<and>
    (0 \<le> ex_timeout x \<longrightarrow> t' \<le> t + ex_timeout x)"
  using guard.admits [OF assms(1)] assms(2)
  by (auto simp: Run_def AllowOrError_def hook_error_def Let_def split: hook_result.splits)

lemma hook_error_not_skipped: "hook_error timeout r \<noteq> Some ErrInterceptorSkipped"
  by (simp add: hook_error_def split: hook_result.splits)

lemma steady_tail:
  assumes "steady t (ri # c)" and "t' \<le> t + ex_timeout (ri_executor ri)"
  shows "steady t' c"
  using assms unfolding steady_def breaker_refuses_until_def by fastforce

lemma dispatch_pipeline:
  assumes "steady t c"
  shows "case dispatch sel t c s evt of (err, c', s', evt', t') \<Rightarrow>
    (err, s', evt') = pipeline (List.map_filter (takes_part sel) c) s evt"
  using assms
proof (induction c arbitrary: t s evt)
  case Nil
  then show ?case by (simp add: List.map_filter_simps)
next
  case (Cons ri c)
  let ?x = "ri_executor ri"
  have x0: "0 \<le> ex_timeout ?x" using Cons.prems by (simp add: steady_def)
  then have st: "steady t c" using steady_tail [OF Cons.prems, of t] by simp
  show ?case
  proof (cases "sel (ri_interceptor ri)")
    case None
    then show ?thesis using Cons.IH [OF st, of s evt]
      by (simp add: List.map_filter_simps takes_part_def split: prod.splits)
  next
    case (Some h)
    show ?thesis
    proof (cases "cb_state (ex_breaker ?x) = StateOpen")
      case True
      let ?u = "t + sum_list (map (ex_timeout \<circ> ri_executor) (ri # c))"
      have "breaker_refuses_until (ex_breaker ?x) ?u" using Cons.prems True by (simp add: steady_def)
      moreover have "0 \<le> sum_list (map (ex_timeout \<circ> ri_executor) (ri # c))"
        using Cons.prems unfolding steady_def by (intro sum_list_nonneg) auto
      then have "t \<le> ?u" by linarith
      ultimately have "Run t ?x h s evt = (Some ErrInterceptorSkipped, ?x, s, evt, t)" by (rule Run_skipped)
      then show ?thesis using Cons.IH [OF st, of s evt] Some True
        by (simp add: List.map_filter_simps takes_part_def split: prod.splits)
    next
      case False
      define r where "r = h s evt"
      obtain x' t' where R: "Run t ?x h s evt = (hook_error (ex_timeout ?x) r, x', hr_state r, hr_event r, t')"
        and t': "t' \<le> t + ex_timeout ?x" using Run_executed [where x = ?x and fn = h and s = s and evt = evt and t = t, OF False r_def] x0 by blast
      show ?thesis using Cons.IH [OF steady_tail [OF Cons.prems t'], of "hr_state r" "hr_event r"] Some False R
          hook_error_not_skipped [of "ex_timeout ?x" r]
        by (simp add: List.map_filter_simps takes_part_def Let_def flip: r_def split: prod.splits)
    qed
  qed
qed

text \<open>C35: The interceptor chain is a pipeline: the state and the event pass through the hooks of the registered
  interceptors in the order of registration, each seeing what the ones before it left, until one
  returns an error, panics or takes longer than its time-out; that error is what the chain returns.
  Interceptors without the hook, and those whose breaker is open for the time of the call, have no
  part in it.\<close>

theorem chain_is_pipeline:
  assumes "steady t c"
  shows "(case dispatch sel t c s evt of (err, c', s', evt', t') \<Rightarrow> (err, s', evt')) =
    pipeline (List.map_filter (takes_part sel) c) s evt"
  using dispatch_pipeline [OF assms, of sel s evt] by (simp split: prod.splits)

definition sample_interceptor :: "string \<Rightarrow> hook_result \<Rightarrow> nat Interceptor" where
  "sample_interceptor name r = \<lparr>i_Name = name, i_Init = Pair None, i_Close = Pair None, i_OnConnect = None,
     i_OnPublish = Some (\<lambda>s evt. \<lparr>hr_state = Suc s, hr_event = evt\<lparr>pe_Topic := name @ pe_Topic evt\<rparr>, hr_result = r, hr_took = 0\<rparr>),
     i_OnSubscribe = None, i_OnDelivery = None, i_OnUnsubscribe = None, i_OnDisconnect = None, i_OnSessionExpired = None\<rparr>"

theorem chain_is_pipeline_witness:
  "(case OnPublish 0 (Register (sample_interceptor ''b'' (HookErr ''no'')) [] (Register (sample_interceptor ''a'' HookOk) [] NewInterceptorChain))
      0 \<lparr>pe_ClientID = ''c'', pe_Topic = ''t'', pe_Payload = [], pe_QoS = 0, pe_Retain = False\<rparr>
    of (err, c', s', evt', t') \<Rightarrow> (err, s', pe_Topic evt')) = (Some (HookError ''no''), 2, ''bat'')"
proof -
  let ?c = "Register (sample_interceptor ''b'' (HookErr ''no'')) [] (Register (sample_interceptor ''a'' HookOk) [] NewInterceptorChain)"
  let ?e = "\<lparr>pe_ClientID = ''c'', pe_Topic = ''t'', pe_Payload = [], pe_QoS = 0, pe_Retain = False\<rparr>"
  have "steady 0 ?c" by (simp add: steady_def Register_def NewInterceptorChain_def NewExecutor_def New_def defaultInterceptorConfig_def Let_def)
  from chain_is_pipeline [OF this, of i_OnPublish 0 ?e]
  have "(case OnPublish 0 ?c 0 ?e of (err, c', s', evt', t') \<Rightarrow> (err, s', evt')) = (Some (HookError ''no''), 2, ?e\<lparr>pe_Topic := ''bat''\<rparr>)"
    unfolding OnPublish_def
    by (simp add: Register_def NewInterceptorChain_def NewExecutor_def New_def defaultInterceptorConfig_def Let_def
        takes_part_def sample_interceptor_def hook_error_def List.map_filter_simps)
  then show ?thesis by (simp split: prod.splits)
qed

end
