(* ===== verification/Topics.thy ===== *)
theory Topics
  imports Prelude
begin

section \<open>Topic names and topic filters\<close>

text \<open>
  Models \<^verbatim>\<open>internal/broker/topic_matcher.go\<close>.  The specification is the matching relation of MQTT on the
  levels of a filter and of a topic; \<open>TopicMatch\<close> decides it for every valid filter.
\<close>

definition starts_with_any :: "string \<Rightarrow> string \<Rightarrow> bool" where
  "starts_with_any cs s = (case s of [] \<Rightarrow> False | c # _ \<Rightarrow> c \<in> set cs)"

text \<open>The loop over the levels of the filter, from level \<open>i\<close> on, and the comparison of the lengths
  after it.\<close>

fun match_levels :: "string list \<Rightarrow> string list \<Rightarrow> bool" where
  "match_levels [] ts = (ts = [])"
| "match_levels (f # fs) ts =
     (if f = ''#'' then True
      else (case ts of
          [] \<Rightarrow> False
        | t # ts' \<Rightarrow> if f = ''+'' then match_levels fs ts' else if f \<noteq> t then False else match_levels fs ts'))"

definition TopicMatch :: "string \<Rightarrow> string \<Rightarrow> bool" where
  "TopicMatch filt topic =
     (if starts_with_any ''$'' topic \<and> starts_with_any ''+#'' filt then False
      else match_levels (str_split CHR ''/'' filt) (str_split CHR ''/'' topic))"

definition TopicValid :: "string \<Rightarrow> bool" where
  "TopicValid topic \<longleftrightarrow> topic \<noteq> [] \<and> \<not> str_includes topic ''+'' \<and> \<not> str_includes topic ''#''"

text \<open>The loop of \<open>TopicFilterValid\<close>: the second test asks for the last level.\<close>

fun filter_levels_ok :: "string list \<Rightarrow> bool" where
  "filter_levels_ok [] = True"
| "filter_levels_ok (p # ps) =
     (if str_includes p ''#'' \<and> (p \<noteq> ''#'' \<or> ps \<noteq> []) then False
      else if str_includes p ''+'' \<and> p \<noteq> ''+'' then False
      else filter_levels_ok ps)"

definition TopicFilterValid :: "string \<Rightarrow> bool" where
  "TopicFilterValid filt = (if filt = [] then False else filter_levels_ok (str_split CHR ''/'' filt))"

subsection \<open>The matching relation\<close>

text \<open>
  Section 4.7 of the MQTT specification: \<^verbatim>\<open>#\<close> as the last level stands for any number of levels,
  including none; \<^verbatim>\<open>+\<close> stands for exactly one level; every other level stands for itself.
\<close>

inductive matches :: "string list \<Rightarrow> string list \<Rightarrow> bool" where
  matches_end: "matches [] []"
| matches_multi: "matches [''#''] ts"
| matches_single: "matches fs ts \<Longrightarrow> matches (''+'' # fs) (t # ts)"
| matches_level: "matches fs ts \<Longrightarrow> matches (l # fs) (l # ts)"

inductive_cases matches_NilE: "matches [] ts"
inductive_cases matches_ConsE: "matches (f # fs) ts"
inductive_simps matches_Cons_Nil: "matches (f # fs) []"

code_pred matches .

lemma matches_iff:
  assumes "filter_levels_ok fs"
  shows "match_levels fs ts \<longleftrightarrow> matches fs ts"
  using assms
proof (induction fs ts rule: match_levels.induct)
  case (1 ts)
  then show ?case by (auto intro: matches_end elim: matches_NilE)
next
  case (2 f fs ts)
  show ?case
  proof (cases "f = ''#''")
    case True
    then have "fs = []" using 2(3) by (auto split: if_splits)
    then show ?thesis using True by (simp add: matches_multi)
  next
    case False
    have ok: "filter_levels_ok fs" using 2(3) by (auto split: if_splits)
    show ?thesis
    proof (cases ts)
      case Nil
      then show ?thesis using False by (simp add: matches_Cons_Nil)
    next
      case (Cons t ts')
      then show ?thesis using False 2(1,2) ok
        by (auto intro: matches_single matches_level elim: matches_ConsE)
    qed
  qed
qed

lemma starts_with_any_simps [simp]:
  "starts_with_any cs [] = False" "starts_with_any cs (c # s) = (c \<in> set cs)"
  by (simp_all add: starts_with_any_def)

text \<open>A filter without wildcards stands for itself only.\<close>

lemma match_levels_literal:
  assumes "\<And>f. f \<in> set fs \<Longrightarrow> f \<noteq> ''#'' \<and> f \<noteq> ''+''"
  shows "match_levels fs ts \<longleftrightarrow> fs = ts"
  using assms by (induction fs ts rule: match_levels.induct) (auto split: list.splits)

lemma TopicMatch_literal:
  assumes "TopicValid filt"
  shows "TopicMatch filt topic \<longleftrightarrow> filt = topic"
proof -
  have n: "CHR ''+'' \<notin> set filt" "CHR ''#'' \<notin> set filt"
    using assms by (simp_all add: TopicValid_def str_includes_single)
  have l: "f \<noteq> ''#'' \<and> f \<noteq> ''+''" if "f \<in> set (str_split CHR ''/'' filt)" for f
    using that n str_split_chars [of f "CHR ''/''" filt] by auto
  have "str_split CHR ''/'' filt = str_split CHR ''/'' topic \<longleftrightarrow> filt = topic"
    by (metis str_join_split)
  moreover have "\<not> starts_with_any ''+#'' filt" using n by (cases filt) auto
  ultimately show ?thesis using match_levels_literal [of "str_split CHR ''/'' filt"] l by (simp add: TopicMatch_def)
qed

subsection \<open>Properties\<close>

text \<open>C26: For every valid filter, \<open>TopicMatch\<close> decides the matching relation of the MQTT specification on the
  levels of the filter and the topic, with the exception the specification makes: a topic that
  starts with a dollar sign is not matched by a filter that starts with a wildcard.\<close>

theorem TopicMatch_decides:
  assumes "TopicFilterValid filt"
  shows "TopicMatch filt topic \<longleftrightarrow>
    matches (str_split CHR ''/'' filt) (str_split CHR ''/'' topic) \<and>
    \<not> ((\<exists>rest. topic = CHR ''$'' # rest) \<and> (\<exists>c rest. filt = c # rest \<and> (c = CHR ''+'' \<or> c = CHR ''#'')))"
proof -
  have "filter_levels_ok (str_split CHR ''/'' filt)"
    using assms by (simp add: TopicFilterValid_def split: if_splits)
  moreover have "starts_with_any ''$'' topic \<longleftrightarrow> (\<exists>rest. topic = CHR ''$'' # rest)"
    by (cases topic) auto
  moreover have "starts_with_any ''+#'' filt \<longleftrightarrow> (\<exists>c rest. filt = c # rest \<and> (c = CHR ''+'' \<or> c = CHR ''#''))"
    by (cases filt) auto
  ultimately show ?thesis by (auto simp: TopicMatch_def matches_iff)
qed

theorem TopicMatch_decides_witness:
  "TopicMatch ''a/+/#'' ''a/b'' \<and> matches (str_split CHR ''/'' ''a/+/#'') (str_split CHR ''/'' ''a/b'')"
proof -
  have "TopicFilterValid ''a/+/#''" "TopicMatch ''a/+/#'' ''a/b''"
    by (simp_all add: TopicFilterValid_def TopicMatch_def)
  then show ?thesis using TopicMatch_decides [of "''a/+/#''" "''a/b''"] by blast
qed

end
