(* ===== verification/Subscriptions.thy ===== *)
theory Subscriptions
  imports Topics "HOL-Library.Word"
begin

section \<open>The subscription index\<close>

text \<open>
  Models \<^verbatim>\<open>internal/broker/subscription.go\<close>.  The two Go maps are association lists with distinct
  keys, in the order a range over the map happens to visit them; the set of a client's filters is
  a list without repetitions.  Every method holds the lock, so a concurrent history is a sequence
  of the operations.  The specification is a partial map from pairs of a client and a filter to
  the quality of service.
\<close>

type_synonym byte = "8 word"

record subscriptionEntry =
  se_ClientID :: string
  se_QoS :: byte

record SubscriptionIndex =
  si_filters :: "(string \<times> subscriptionEntry list) list"
  si_clients :: "(string \<times> string list) list"

definition NewSubscriptionIndex :: SubscriptionIndex where
  "NewSubscriptionIndex = \<lparr>si_filters = [], si_clients = []\<rparr>"

definition entries_of :: "string \<Rightarrow> SubscriptionIndex \<Rightarrow> subscriptionEntry list" where
  "entries_of f idx = (case map_of (si_filters idx) f of None \<Rightarrow> [] | Some es \<Rightarrow> es)"

definition filters_of :: "string \<Rightarrow> SubscriptionIndex \<Rightarrow> string list" where
  "filters_of c idx = (case map_of (si_clients idx) c of None \<Rightarrow> [] | Some fs \<Rightarrow> fs)"

text \<open>The first entry of the client: its new quality of service, or its removal.\<close>

fun set_qos :: "string \<Rightarrow> byte \<Rightarrow> subscriptionEntry list \<Rightarrow> subscriptionEntry list option" where
  "set_qos c q [] = None"
| "set_qos c q (e # es) = (if se_ClientID e = c then Some (e\<lparr>se_QoS := q\<rparr> # es)
                          else map_option (\<lambda>es'. e # es') (set_qos c q es))"

fun remove_entry :: "string \<Rightarrow> subscriptionEntry list \<Rightarrow> subscriptionEntry list" where
  "remove_entry c [] = []"
| "remove_entry c (e # es) = (if se_ClientID e = c then es else e # remove_entry c es)"

definition Add :: "string \<Rightarrow> string \<Rightarrow> byte \<Rightarrow> SubscriptionIndex \<Rightarrow> SubscriptionIndex" where
  "Add c f q idx =
     (let es = entries_of f idx in
      case set_qos c q es of
        Some es' \<Rightarrow> idx\<lparr>si_filters := AList.update f es' (si_filters idx)\<rparr>
      | None \<Rightarrow> idx\<lparr>si_filters := AList.update f (es @ [\<lparr>se_ClientID = c, se_QoS = q\<rparr>]) (si_filters idx),
                    si_clients := AList.update c (List.insert f (filters_of c idx)) (si_clients idx)\<rparr>)"

text \<open>Removing the client's entry under a filter, and the filter with its last entry.\<close>

definition drop_entry :: "string \<Rightarrow> string \<Rightarrow> SubscriptionIndex \<Rightarrow> SubscriptionIndex" where
  "drop_entry c f idx =
     (let es = remove_entry c (entries_of f idx) in
      idx\<lparr>si_filters := (if es = [] then AList.delete f (si_filters idx) else AList.update f es (si_filters idx))\<rparr>)"

definition Remove :: "string \<Rightarrow> string \<Rightarrow> SubscriptionIndex \<Rightarrow> SubscriptionIndex" where
  "Remove c f idx =
     (let idx1 = drop_entry c f idx in
      case map_of (si_clients idx1) c of
        None \<Rightarrow> idx1
      | Some fs \<Rightarrow> (let fs' = remove1 f fs in
          idx1\<lparr>si_clients := (if fs' = [] then AList.delete c (si_clients idx1)
                             else AList.update c fs' (si_clients idx1))\<rparr>))"

definition RemoveAll :: "string \<Rightarrow> SubscriptionIndex \<Rightarrow> SubscriptionIndex" where
  "RemoveAll c idx = (case map_of (si_clients idx) c of
     None \<Rightarrow> idx
   | Some fs \<Rightarrow> (fold (drop_entry c) fs idx)\<lparr>si_clients := AList.delete c (si_clients idx)\<rparr>)"

definition AllFilters :: "SubscriptionIndex \<Rightarrow> string list" where
  "AllFilters idx = map fst (si_filters idx)"

definition ClientFilters :: "string \<Rightarrow> SubscriptionIndex \<Rightarrow> string list" where
  "ClientFilters c idx = filters_of c idx"

text \<open>\<open>best\<close> maps a client to the highest quality of service seen so far.\<close>

definition best_step :: "subscriptionEntry \<Rightarrow> (string \<times> byte) list \<Rightarrow> (string \<times> byte) list" where
  "best_step e best = (case map_of best (se_ClientID e) of
     None \<Rightarrow> AList.update (se_ClientID e) (se_QoS e) best
   | Some existing \<Rightarrow> if existing < se_QoS e then AList.update (se_ClientID e) (se_QoS e) best else best)"

definition Match :: "string \<Rightarrow> SubscriptionIndex \<Rightarrow> (string \<times> byte) list" where
  "Match topic idx =
     fold (\<lambda>(f, es) best. if TopicMatch f topic then fold best_step es best else best) (si_filters idx) []"

definition Count_subs :: "SubscriptionIndex \<Rightarrow> nat" where
  "Count_subs idx = sum_list (map (\<lambda>x. length (snd x)) (si_filters idx))"

subsection \<open>Specification\<close>

type_synonym subs = "string \<times> string \<rightharpoonup> byte"

definition find_qos :: "string \<Rightarrow> subscriptionEntry list \<Rightarrow> byte option" where
  "find_qos c es = map_option se_QoS (find (\<lambda>e. se_ClientID e = c) es)"

definition subs_of :: "SubscriptionIndex \<Rightarrow> subs" where
  "subs_of idx = (\<lambda>(c, f). find_qos c (entries_of f idx))"

text \<open>
  Well-formedness: one entry per key in either map and no empty ones, one subscription per client
  under a filter, and the two maps agree.
\<close>

definition table_ok :: "('v list \<Rightarrow> bool) \<Rightarrow> (string \<times> 'v list) list \<Rightarrow> bool" where
  "table_ok P t \<longleftrightarrow> distinct (map fst t) \<and> (\<forall>x\<in>set t. snd x \<noteq> [] \<and> P (snd x))"

definition si_wf :: "SubscriptionIndex \<Rightarrow> bool" where
  "si_wf idx \<longleftrightarrow> table_ok (\<lambda>es. distinct (map se_ClientID es)) (si_filters idx) \<and>
     table_ok distinct (si_clients idx) \<and>
     (\<forall>c f. f \<in> set (filters_of c idx) \<longleftrightarrow> subs_of idx (c, f) \<noteq> None)"

subsection \<open>Entries of one filter\<close>

lemma find_qos_simps [simp]:
  "find_qos c [] = None"
  "find_qos c (e # es) = (if se_ClientID e = c then Some (se_QoS e) else find_qos c es)"
  by (simp_all add: find_qos_def)

lemma find_qos_append: "find_qos c (xs @ ys) = (case find_qos c xs of None \<Rightarrow> find_qos c ys | Some q \<Rightarrow> Some q)"
  by (induction xs) auto

lemma find_qos_None: "find_qos c es = None \<longleftrightarrow> c \<notin> se_ClientID ` set es"
  by (induction es) auto

lemma set_qos_None: "set_qos c q es = None \<longleftrightarrow> find_qos c es = None"
  by (induction es) auto

lemma set_qos_Some:
  "set_qos c q es = Some es' \<Longrightarrow> find_qos d es' = (if d = c then Some q else find_qos d es) \<and>
     map se_ClientID es' = map se_ClientID es"
proof (induction es arbitrary: es')
  case (Cons e es)
  show ?case
  proof (cases "se_ClientID e = c")
    case True
    then have "es' = e\<lparr>se_QoS := q\<rparr> # es" using Cons.prems by simp
    then show ?thesis using True by simp
  next
    case False
    then obtain es1 where "set_qos c q es = Some es1" "es' = e # es1" using Cons.prems by auto
    then show ?thesis using False Cons.IH [of es1] by (cases "d = c") simp_all
  qed
qed simp

lemma remove_entry_ids: "map se_ClientID (remove_entry c es) = remove1 c (map se_ClientID es)"
  by (induction es) auto

lemma find_remove_entry:
  "distinct (map se_ClientID es) \<Longrightarrow> find_qos d (remove_entry c es) = (if d = c then None else find_qos d es)"
  by (induction es) (auto simp: find_qos_None image_iff)

lemma remove_entry_absent: "find_qos c es = None \<Longrightarrow> remove_entry c es = es"
  by (induction es) (auto split: if_splits)

lemma find_qos_mem: "distinct (map se_ClientID es) \<Longrightarrow>
    find_qos c es = Some q \<longleftrightarrow> (\<exists>e\<in>set es. se_ClientID e = c \<and> se_QoS e = q)"
proof (induction es)
  case (Cons e es)
  show ?case
  proof (cases "se_ClientID e = c")
    case True
    then have "se_ClientID x \<noteq> c" if "x \<in> set es" for x using Cons.prems that by (auto simp: image_iff)
    then show ?thesis using True by auto
  next
    case False
    then show ?thesis using Cons by simp
  qed
qed simp

subsection \<open>Tables\<close>

lemma table_ok_Nil: "table_ok P []"
  by (simp add: table_ok_def)

lemma table_ok_update: "table_ok P t \<Longrightarrow> v \<noteq> [] \<Longrightarrow> P v \<Longrightarrow> table_ok P (AList.update k v t)"
  using set_AList_update [of k v t] by (auto simp: table_ok_def distinct_update dest!: subsetD)

lemma table_ok_delete: "table_ok P t \<Longrightarrow> table_ok P (AList.delete k t)"
  by (simp add: table_ok_def distinct_delete) (auto simp: AList.delete_eq)

lemma table_ok_lookup: "table_ok P t \<Longrightarrow> map_of t k = Some v \<Longrightarrow> v \<noteq> [] \<and> P v"
  by (force simp: table_ok_def dest: map_of_SomeD)

lemma entries_of_simps [simp]:
  "entries_of g (idx\<lparr>si_filters := AList.update f es (si_filters idx)\<rparr>) = (if g = f then es else entries_of g idx)"
  "entries_of g (idx\<lparr>si_filters := AList.delete f (si_filters idx)\<rparr>) = (if g = f then [] else entries_of g idx)"
  "entries_of g (idx\<lparr>si_clients := cs\<rparr>) = entries_of g idx"
  by (simp_all add: entries_of_def update_conv' delete_conv')

lemma filters_of_simps [simp]:
  "filters_of d (idx\<lparr>si_clients := AList.update c fs (si_clients idx)\<rparr>) = (if d = c then fs else filters_of d idx)"
  "filters_of d (idx\<lparr>si_clients := AList.delete c (si_clients idx)\<rparr>) = (if d = c then [] else filters_of d idx)"
  "filters_of d (idx\<lparr>si_filters := t\<rparr>) = filters_of d idx"
  by (simp_all add: filters_of_def update_conv' delete_conv')

lemma entries_distinct: "si_wf idx \<Longrightarrow> distinct (map se_ClientID (entries_of f idx))"
  using table_ok_lookup by (fastforce simp: si_wf_def entries_of_def split: option.splits)

subsection \<open>Every operation refines its specification\<close>

lemma subs_of_Add: "subs_of (Add c f q idx) = (subs_of idx)((c, f) \<mapsto> q)"
proof (cases "set_qos c q (entries_of f idx)")
  case None
  then have "find_qos c (entries_of f idx) = None" by (simp add: set_qos_None)
  then show ?thesis using None
    by (auto simp: Add_def subs_of_def fun_eq_iff find_qos_append Let_def split: option.splits)
next
  case (Some es')
  then show ?thesis using set_qos_Some [OF Some] by (auto simp: Add_def subs_of_def fun_eq_iff Let_def)
qed

lemma entries_of_drop: "entries_of g (drop_entry c f idx) = (if g = f then remove_entry c (entries_of f idx) else entries_of g idx)"
  by (simp add: drop_entry_def Let_def)

lemma subs_of_drop:
  assumes "distinct (map se_ClientID (entries_of f idx))"
  shows "subs_of (drop_entry c f idx) = (subs_of idx)((c, f) := None)"
  using assms by (auto simp: subs_of_def fun_eq_iff entries_of_drop find_remove_entry)

lemma filters_of_drop [simp]: "si_clients (drop_entry c f idx) = si_clients idx" "filters_of d (drop_entry c f idx) = filters_of d idx"
  by (simp_all add: drop_entry_def Let_def filters_of_def)

lemma subs_of_clients [simp]: "subs_of (idx\<lparr>si_clients := cs\<rparr>) = subs_of idx"
  by (simp add: subs_of_def)

lemma subs_of_Remove: "si_wf idx \<Longrightarrow> subs_of (Remove c f idx) = (subs_of idx)((c, f) := None)"
  by (simp add: Remove_def Let_def subs_of_drop entries_distinct split: option.splits)

definition filters_ok :: "SubscriptionIndex \<Rightarrow> bool" where
  "filters_ok idx \<longleftrightarrow> table_ok (\<lambda>es. distinct (map se_ClientID es)) (si_filters idx)"

lemma filters_ok_entries: "filters_ok idx \<Longrightarrow> distinct (map se_ClientID (entries_of f idx))"
  using table_ok_lookup by (fastforce simp: filters_ok_def entries_of_def split: option.splits)

lemma filters_ok_drop: "filters_ok idx \<Longrightarrow> filters_ok (drop_entry c f idx)"
  using filters_ok_entries [of idx f]
  by (auto simp: filters_ok_def drop_entry_def Let_def remove_entry_ids intro!: table_ok_update table_ok_delete distinct_remove1)

lemma fold_drop:
  "filters_ok idx \<Longrightarrow> filters_ok (fold (drop_entry c) fs idx) \<and>
     si_clients (fold (drop_entry c) fs idx) = si_clients idx \<and>
     subs_of (fold (drop_entry c) fs idx) = (\<lambda>(d, g). if d = c \<and> g \<in> set fs then None else subs_of idx (d, g))"
proof (induction fs arbitrary: idx)
  case Nil
  then show ?case by auto
next
  case (Cons f fs)
  then show ?case
    by (auto simp: filters_ok_drop subs_of_drop filters_ok_entries fun_eq_iff)
qed

lemma si_wfD:
  assumes "si_wf idx"
  shows "filters_ok idx" and "table_ok distinct (si_clients idx)"
    and "f \<in> set (filters_of c idx) \<longleftrightarrow> subs_of idx (c, f) \<noteq> None"
  using assms by (simp_all add: si_wf_def filters_ok_def)

lemma subs_of_RemoveAll:
  assumes "si_wf idx"
  shows "subs_of (RemoveAll c idx) = (\<lambda>(d, f). if d = c then None else subs_of idx (d, f))"
proof (cases "map_of (si_clients idx) c")
  case None
  then have "filters_of c idx = []" by (simp add: filters_of_def)
  then have "subs_of idx (c, f) = None" for f using si_wfD(3) [OF assms, of f c] by simp
  then show ?thesis using None by (auto simp: RemoveAll_def fun_eq_iff)
next
  case (Some fs)
  then have "filters_of c idx = fs" by (simp add: filters_of_def)
  then have "subs_of idx (c, f) = None" if "f \<notin> set fs" for f using si_wfD(3) [OF assms, of f c] that by simp
  then show ?thesis using Some fold_drop [OF si_wfD(1) [OF assms], of c fs]
    by (auto simp: RemoveAll_def fun_eq_iff)
qed

subsection \<open>Well-formedness is kept\<close>

lemma si_wf_New: "si_wf NewSubscriptionIndex"
  by (simp add: si_wf_def NewSubscriptionIndex_def table_ok_Nil filters_of_def subs_of_def entries_of_def)

lemma si_wfI:
  assumes "filters_ok idx" and "table_ok distinct (si_clients idx)"
    and "\<And>c f. f \<in> set (filters_of c idx) \<longleftrightarrow> subs_of idx (c, f) \<noteq> None"
  shows "si_wf idx"
  using assms by (simp add: si_wf_def filters_ok_def)

lemma filters_of_distinct: "si_wf idx \<Longrightarrow> distinct (filters_of c idx)"
  using table_ok_lookup [OF si_wfD(2), of idx c] by (cases "map_of (si_clients idx) c") (simp_all add: filters_of_def)

lemma filters_ok_Add:
  assumes "filters_ok idx"
  shows "filters_ok (Add c f q idx)"
proof (cases "set_qos c q (entries_of f idx)")
  case None
  then have "c \<notin> se_ClientID ` set (entries_of f idx)" by (simp add: set_qos_None find_qos_None)
  then show ?thesis using None assms filters_ok_entries [OF assms, of f]
    by (simp add: filters_ok_def Add_def Let_def table_ok_update)
next
  case (Some es')
  have "map se_ClientID es' = map se_ClientID (entries_of f idx)" using set_qos_Some [OF Some] by blast
  moreover have "entries_of f idx \<noteq> []" using Some by (cases "entries_of f idx") auto
  ultimately show ?thesis using Some assms filters_ok_entries [OF assms, of f]
    by (auto simp: filters_ok_def Add_def Let_def intro!: table_ok_update)
qed

lemma filters_of_Add: "filters_of d (Add c f q idx) =
    (if subs_of idx (c, f) = None \<and> d = c then List.insert f (filters_of c idx) else filters_of d idx)"
  by (auto simp: Add_def Let_def filters_of_def subs_of_def update_conv' set_qos_None [symmetric, of _ _ q] split: option.splits)

lemma si_wf_Add:
  assumes "si_wf idx"
  shows "si_wf (Add c f q idx)"
proof (rule si_wfI)
  show "filters_ok (Add c f q idx)" using si_wfD(1) [OF assms] by (rule filters_ok_Add)
  have "distinct (List.insert f (filters_of c idx)) \<and> List.insert f (filters_of c idx) \<noteq> []"
    using filters_of_distinct [OF assms, of c] by (auto simp: List.insert_def)
  then show "table_ok distinct (si_clients (Add c f q idx))"
    using si_wfD(2) [OF assms] by (auto simp: Add_def Let_def intro!: table_ok_update split: option.splits)
  show "g \<in> set (filters_of d (Add c f q idx)) \<longleftrightarrow> subs_of (Add c f q idx) (d, g) \<noteq> None" for d g
    using si_wfD(3) [OF assms] unfolding subs_of_Add filters_of_Add by auto
qed

lemma si_wf_Remove:
  assumes "si_wf idx"
  shows "si_wf (Remove c f idx)"
proof (rule si_wfI)
  have o: "filters_ok (drop_entry c f idx)" using si_wfD(1) [OF assms] by (rule filters_ok_drop)
  then show "filters_ok (Remove c f idx)" by (auto simp: Remove_def Let_def filters_ok_def split: option.splits)
  show "table_ok distinct (si_clients (Remove c f idx))"
    using si_wfD(2) [OF assms] table_ok_lookup [OF si_wfD(2) [OF assms], of c]
    by (cases "map_of (si_clients idx) c") (simp_all add: Remove_def Let_def table_ok_update table_ok_delete distinct_remove1)
  have "filters_of d (Remove c f idx) = (if d = c then remove1 f (filters_of c idx) else filters_of d idx)" for d
    by (auto simp: Remove_def Let_def filters_of_def update_conv' delete_conv' split: option.splits)
  then show "g \<in> set (filters_of d (Remove c f idx)) \<longleftrightarrow> subs_of (Remove c f idx) (d, g) \<noteq> None" for d g
    by (cases "d = c") (auto simp: subs_of_Remove [OF assms] si_wfD(3) [OF assms] set_remove1_eq [OF filters_of_distinct [OF assms]])
qed

lemma si_wf_RemoveAll:
  assumes "si_wf idx"
  shows "si_wf (RemoveAll c idx)"
proof (cases "map_of (si_clients idx) c")
  case None
  then show ?thesis using assms by (simp add: RemoveAll_def)
next
  case (Some fs)
  note f = fold_drop [OF si_wfD(1) [OF assms], of c fs]
  show ?thesis
  proof (rule si_wfI)
    show "filters_ok (RemoveAll c idx)" using Some f by (simp add: RemoveAll_def filters_ok_def)
    show "table_ok distinct (si_clients (RemoveAll c idx))"
      using Some si_wfD(2) [OF assms] by (simp add: RemoveAll_def table_ok_delete)
    have "filters_of d (RemoveAll c idx) = (if d = c then [] else filters_of d idx)" for d
      using Some by (simp add: RemoveAll_def filters_of_def delete_conv')
    then show "g \<in> set (filters_of d (RemoveAll c idx)) \<longleftrightarrow> subs_of (RemoveAll c idx) (d, g) \<noteq> None" for d g
      using si_wfD(3) [OF assms] by (simp add: subs_of_RemoveAll [OF assms])
  qed
qed

subsection \<open>A store of subscriptions\<close>

text \<open>What the broker relies on: the operations act on the subscriptions as on a partial map.\<close>

datatype sub_op = OpSubscribe string string byte | OpUnsubscribe string string | OpDropClient string

fun subs_step :: "sub_op \<Rightarrow> subs \<Rightarrow> subs" where
  "subs_step (OpSubscribe c f q) m = m((c, f) \<mapsto> q)"
| "subs_step (OpUnsubscribe c f) m = m((c, f) := None)"
| "subs_step (OpDropClient c) m = (\<lambda>(d, f). if d = c then None else m (d, f))"

locale subscription_store =
  fixes new :: 's
    and add :: "string \<Rightarrow> string \<Rightarrow> byte \<Rightarrow> 's \<Rightarrow> 's"
    and remove :: "string \<Rightarrow> string \<Rightarrow> 's \<Rightarrow> 's"
    and remove_all :: "string \<Rightarrow> 's \<Rightarrow> 's"
    and lookup :: "'s \<Rightarrow> subs"
    and wf :: "'s \<Rightarrow> bool"
  assumes wf_new: "wf new"
    and wf_add: "wf s \<Longrightarrow> wf (add c f q s)"
    and wf_remove: "wf s \<Longrightarrow> wf (remove c f s)"
    and wf_remove_all: "wf s \<Longrightarrow> wf (remove_all c s)"
    and lookup_new: "lookup new = Map.empty"
    and lookup_add: "wf s \<Longrightarrow> lookup (add c f q s) = (lookup s)((c, f) \<mapsto> q)"
    and lookup_remove: "wf s \<Longrightarrow> lookup (remove c f s) = (lookup s)((c, f) := None)"
    and lookup_remove_all: "wf s \<Longrightarrow> lookup (remove_all c s) = (\<lambda>(d, f). if d = c then None else lookup s (d, f))"
begin

definition step :: "sub_op \<Rightarrow> 's \<Rightarrow> 's" where
  "step x s = (case x of
     OpSubscribe c f q \<Rightarrow> add c f q s | OpUnsubscribe c f \<Rightarrow> remove c f s | OpDropClient c \<Rightarrow> remove_all c s)"

lemma step_wf: "wf s \<Longrightarrow> wf (step x s)"
  by (cases x) (simp_all add: step_def wf_add wf_remove wf_remove_all)

lemma step_refines: "wf s \<Longrightarrow> lookup (step x s) = subs_step x (lookup s)"
  by (cases x) (simp_all add: step_def lookup_add lookup_remove lookup_remove_all)

lemma run_wf: "wf s \<Longrightarrow> wf (fold step xs s)"
  by (induction xs arbitrary: s) (simp_all add: step_wf)

lemma run_refines: "wf s \<Longrightarrow> lookup (fold step xs s) = fold subs_step xs (lookup s)"
  by (induction xs arbitrary: s) (simp_all add: step_wf step_refines)

lemma run_new: "wf (fold step xs new)" "lookup (fold step xs new) = fold subs_step xs Map.empty"
  by (simp_all add: run_wf run_refines wf_new lookup_new)

end

lemma subs_of_New: "subs_of NewSubscriptionIndex = Map.empty"
  by (simp add: subs_of_def NewSubscriptionIndex_def entries_of_def fun_eq_iff)

interpretation index: subscription_store NewSubscriptionIndex Add Remove RemoveAll subs_of si_wf
  by unfold_locales
    (simp_all only: si_wf_New si_wf_Add si_wf_Remove si_wf_RemoveAll subs_of_New subs_of_Add subs_of_Remove subs_of_RemoveAll)

fun index_step :: "sub_op \<Rightarrow> SubscriptionIndex \<Rightarrow> SubscriptionIndex" where
  "index_step (OpSubscribe c f q) idx = Add c f q idx"
| "index_step (OpUnsubscribe c f) idx = Remove c f idx"
| "index_step (OpDropClient c) idx = RemoveAll c idx"

definition index_after :: "sub_op list \<Rightarrow> SubscriptionIndex" where
  "index_after xs = fold index_step xs NewSubscriptionIndex"

lemma index_after_run: "index_after xs = fold index.step xs NewSubscriptionIndex"
proof -
  have "index_step x = index.step x" for x by (cases x) (simp_all add: index.step_def fun_eq_iff)
  then have "index_step = index.step" by (rule ext)
  then show ?thesis by (simp only: index_after_def)
qed

lemma index_after_facts: "si_wf (index_after xs)" "subs_of (index_after xs) = fold subs_step xs Map.empty"
  unfolding index_after_run by (rule index.run_new)+

subsection \<open>Matching\<close>

definition max_opt :: "byte set \<Rightarrow> byte option" where
  "max_opt S = (if S = {} then None else Some (Max S))"

lemma best_step_map: "map_of (best_step e best) c =
    (if c = se_ClientID e then Some (case map_of best c of None \<Rightarrow> se_QoS e | Some x \<Rightarrow> max x (se_QoS e)) else map_of best c)"
  by (auto simp: best_step_def update_conv' max_def split: option.splits)

lemma best_step_distinct: "distinct (map fst best) \<Longrightarrow> distinct (map fst (best_step e best))"
  by (simp add: best_step_def distinct_update split: option.splits)

lemma max_opt_insert: "finite S \<Longrightarrow> max_opt (insert q S) = Some (case max_opt S of None \<Rightarrow> q | Some x \<Rightarrow> max x q)"
  by (auto simp: max_opt_def max.commute)

lemma fold_best:
  "map_of (fold best_step es best) c =
     (case map_of best c of
        None \<Rightarrow> max_opt (se_QoS ` {e \<in> set es. se_ClientID e = c})
      | Some x \<Rightarrow> max_opt (insert x (se_QoS ` {e \<in> set es. se_ClientID e = c})))"
proof (induction es arbitrary: best)
  case Nil
  then show ?case by (simp add: max_opt_def split: option.splits)
next
  case (Cons e es)
  let ?S = "se_QoS ` {e \<in> set es. se_ClientID e = c}"
  have s: "se_QoS ` {a \<in> set (e # es). se_ClientID a = c} = (if se_ClientID e = c then insert (se_QoS e) ?S else ?S)"
    by auto
  have "max_opt (insert (max x y) ?S) = max_opt (insert x (insert y ?S))" for x y
    by (simp add: max_opt_insert max.left_commute max.commute split: option.splits)
  then show ?case using Cons [of "best_step e best"] s by (auto simp: best_step_map split: option.splits)
qed

lemma fold_filters:
  "fold (\<lambda>(f, es) b. if TopicMatch f topic then fold best_step es b else b) t best =
     fold best_step (concat (map snd (filter (\<lambda>x. TopicMatch (fst x) topic) t))) best"
  by (induction t arbitrary: best) auto

lemma Match_map:
  assumes "si_wf idx"
  shows "map_of (Match topic idx) c = max_opt {q. \<exists>f. TopicMatch f topic \<and> subs_of idx (c, f) = Some q}"
proof -
  let ?t = "si_filters idx"
  have d: "distinct (map fst ?t)" "\<And>x. x \<in> set ?t \<Longrightarrow> distinct (map se_ClientID (snd x))"
    using assms by (simp_all add: si_wf_def table_ok_def)
  have e: "subs_of idx (c, f) = Some q \<longleftrightarrow> (\<exists>es. (f, es) \<in> set ?t \<and> (\<exists>e\<in>set es. se_ClientID e = c \<and> se_QoS e = q))" for f q
  proof (cases "map_of ?t f")
    case None
    then have "(f, es) \<notin> set ?t" for es by (auto simp: map_of_eq_None_iff rev_image_eqI)
    then show ?thesis using None by (simp add: subs_of_def entries_of_def)
  next
    case (Some es)
    then have "(f, es) \<in> set ?t" by (rule map_of_SomeD)
    moreover have "es' = es" if "(f, es') \<in> set ?t" for es' using that d(1) Some by (simp add: map_of_SomeI)
    moreover have "subs_of idx (c, f) = Some q \<longleftrightarrow> (\<exists>e\<in>set es. se_ClientID e = c \<and> se_QoS e = q)"
      using Some d(2) [of "(f, es)"] \<open>(f, es) \<in> set ?t\<close> find_qos_mem [of es c q] by (simp add: subs_of_def entries_of_def)
    ultimately show ?thesis by blast
  qed
  have "se_QoS ` {e \<in> set (concat (map snd (filter (\<lambda>x. TopicMatch (fst x) topic) ?t))). se_ClientID e = c} =
      {q. \<exists>f. TopicMatch f topic \<and> subs_of idx (c, f) = Some q}" (is "?L = ?R")
  proof (intro set_eqI iffI)
    fix q assume "q \<in> ?L"
    then obtain f es a where "(f, es) \<in> set ?t" "TopicMatch f topic" "a \<in> set es" "se_ClientID a = c" "se_QoS a = q"
      by auto
    then show "q \<in> ?R" unfolding e by blast
  next
    fix q assume "q \<in> ?R"
    then obtain f es a where "TopicMatch f topic" "(f, es) \<in> set ?t" "a \<in> set es" "se_ClientID a = c" "se_QoS a = q"
      unfolding e by blast
    then show "q \<in> ?L" by (intro image_eqI [of _ _ a]) auto
  qed
  then show ?thesis by (simp add: Match_def fold_filters fold_best)
qed

lemma Match_distinct: "distinct (map fst (Match topic idx))"
proof -
  have "distinct (map fst best) \<Longrightarrow> distinct (map fst (fold best_step es best))" for es and best :: "(string \<times> byte) list"
    by (induction es arbitrary: best) (simp_all add: best_step_distinct)
  then show ?thesis by (simp add: Match_def fold_filters)
qed

lemma Count_card:
  assumes "si_wf idx"
  shows "Count_subs idx = card (dom (subs_of idx))"
proof -
  let ?t = "si_filters idx" and ?ids = "\<lambda>f. se_ClientID ` set (entries_of f idx)"
  have d: "distinct (map fst ?t)" using assms by (simp add: si_wf_def table_ok_def)
  have "entries_of f idx = []" if "f \<notin> set (map fst ?t)" for f
    using that by (simp add: entries_of_def map_of_eq_None_iff [THEN iffD2])
  then have i: "(c, f) \<in> dom (subs_of idx) \<longleftrightarrow> f \<in> set (map fst ?t) \<and> c \<in> ?ids f" for c f
    using find_qos_None [of c "entries_of f idx"] by (cases "f \<in> set (map fst ?t)") (auto simp: subs_of_def domIff simp del: not_None_eq)
  have "dom (subs_of idx) = prod.swap ` (SIGMA f:set (map fst ?t). ?ids f)"
    by (rule set_eqI) (simp add: i split_paired_all)
  then have "card (dom (subs_of idx)) = (\<Sum>f\<in>set (map fst ?t). card (?ids f))"
    by (simp only: card_image [OF inj_swap [THEN inj_on_subset, OF subset_UNIV]]) (simp add: card_SigmaI)
  also have "\<dots> = sum_list (map (\<lambda>f. card (?ids f)) (map fst ?t))" using d by (rule sum.distinct_set_conv_list)
  also have "\<dots> = sum_list (map (\<lambda>x. length (snd x)) ?t)"
  proof -
    have "card (?ids (fst x)) = length (snd x)" if "x \<in> set ?t" for x
    proof -
      have "map_of ?t (fst x) = Some (snd x)" using d that by (intro map_of_SomeI) simp_all
      then have "entries_of (fst x) idx = snd x" by (simp add: entries_of_def)
      then show ?thesis using distinct_card [OF entries_distinct [OF assms, of "fst x"]] by simp
    qed
    then show ?thesis by (intro arg_cong [of _ _ sum_list]) simp
  qed
  finally show ?thesis by (simp add: Count_subs_def)
qed

subsection \<open>Properties\<close>

text \<open>C15: The subscription index refines a partial map from clients and filters to qualities of service: after
  every sequence of subscribing, unsubscribing and dropping clients, the stored subscriptions are
  those of the map operations, the count is their number, and the filters listed for a client are
  exactly the ones it is subscribed to, each once.\<close>

theorem subscriptions_refine:
  "subs_of (index_after xs) = fold subs_step xs Map.empty \<and>
   Count_subs (index_after xs) = card (dom (fold subs_step xs Map.empty)) \<and>
   distinct (ClientFilters c (index_after xs)) \<and>
   set (ClientFilters c (index_after xs)) = {f. fold subs_step xs Map.empty (c, f) \<noteq> None}"
  using index_after_facts [of xs] Count_card [of "index_after xs"] filters_of_distinct [of "index_after xs" c]
    si_wfD(3) [of "index_after xs" _ c]
  by (simp add: ClientFilters_def) blast

text \<open>C9: A published message goes to exactly the right clients, once each and with the right quality of
  service: after every sequence of operations, the match of a topic lists each client at most
  once, and lists it with \<open>q\<close> exactly when \<open>q\<close> is the highest quality of service among its
  subscriptions whose filter matches the topic.\<close>

theorem Match_exact:
  "distinct (map fst (Match topic (index_after xs))) \<and>
   ((c, q) \<in> set (Match topic (index_after xs)) \<longleftrightarrow>
      (\<exists>f. TopicMatch f topic \<and> fold subs_step xs Map.empty (c, f) = Some q) \<and>
      \<not> (\<exists>f q'. TopicMatch f topic \<and> fold subs_step xs Map.empty (c, f) = Some q' \<and> q < q'))"
proof -
  let ?S = "{q. \<exists>f. TopicMatch f topic \<and> fold subs_step xs Map.empty (c, f) = Some q}"
  have fin: "finite ?S" by (rule finite_subset [OF subset_UNIV]) simp
  have "(c, q) \<in> set (Match topic (index_after xs)) \<longleftrightarrow> map_of (Match topic (index_after xs)) c = Some q"
    using Match_distinct by (simp add: map_of_eq_Some_iff)
  also have "\<dots> \<longleftrightarrow> max_opt ?S = Some q" by (simp add: Match_map index_after_facts)
  also have "\<dots> \<longleftrightarrow> q \<in> ?S \<and> (\<forall>q'\<in>?S. \<not> q < q')"
    using fin Max_eq_iff [OF fin, of q] by (auto simp: max_opt_def not_less)
  finally show ?thesis using Match_distinct by blast
qed

end
