(* ===== verification/Tenants.thy ===== *)
theory Tenants
  imports Plugins Subscriptions
begin

section \<open>Tenants\<close>

text \<open>
  Models \<^verbatim>\<open>internal/tenant/tenant.go\<close>, \<^verbatim>\<open>manager.go\<close> and \<^verbatim>\<open>interceptor.go\<close>.  The token bucket is a third-party
  package: a limiter has the type \<open>'l\<close>, \<open>newLimiter\<close> makes one for a rate (\<open>None\<close> is \<^verbatim>\<open>rate.Inf\<close>) and
  \<open>allow\<close> is its \<^verbatim>\<open>Allow\<close>.  The YAML parser is the parameter \<open>unmarshal\<close>.  Maps are association lists
  with distinct keys; the pointer to a tenant's state is the entry of its map, and \<^verbatim>\<open>defaultTenant\<close>,
  a variable of the package, is a field of the manager.  Metrics and log lines are left out.
\<close>

record Tenant =
  tenant_ID :: string
  MaxConnections :: int
  MaxMessageRate :: int
  MaxMessageSize :: int
  TopicPrefix :: string

text \<open>The loop of \<open>ParseTenants\<close> over the parsed tenants; \<open>seen\<close> holds the ids so far.\<close>

fun check_tenants :: "string list \<Rightarrow> Tenant list \<Rightarrow> string + Tenant list" where
  "check_tenants seen [] = Inr []"
| "check_tenants seen (t # ts) =
     (if tenant_ID t = [] then Inl ''tenant_id cannot be empty''
      else if tenant_ID t \<in> set seen then Inl (''duplicate tenant_id: '' @ tenant_ID t)
      else case check_tenants (tenant_ID t # seen) ts of
             Inl e \<Rightarrow> Inl e
           | Inr ts' \<Rightarrow> Inr ((if TopicPrefix t = [] then t\<lparr>TopicPrefix := tenant_ID t\<rparr> else t) # ts'))"

definition ParseTenants :: "('y \<Rightarrow> string + Tenant list) \<Rightarrow> 'y \<Rightarrow> string + Tenant list" where
  "ParseTenants unmarshal data = (case unmarshal data of
     Inl e \<Rightarrow> Inl (''failed to parse tenants YAML: '' @ e) | Inr ts \<Rightarrow> check_tenants [] ts)"

record 'l tenantState =
  ts_config :: Tenant
  ts_connections :: int
  ts_rateLimiter :: 'l

record 'l TenantManager =
  tm_tenants :: "(string \<times> 'l tenantState) list"
  tm_clients :: "(string \<times> string) list"
  tm_default :: "'l tenantState"

definition defaultTenant :: "(int option \<Rightarrow> 'l) \<Rightarrow> 'l tenantState" where
  "defaultTenant newLimiter = \<lparr>ts_config = \<lparr>tenant_ID = [], MaxConnections = 0, MaxMessageRate = 0, MaxMessageSize = 0, TopicPrefix = []\<rparr>,
     ts_connections = 0, ts_rateLimiter = newLimiter None\<rparr>"

definition NewManager :: "(int option \<Rightarrow> 'l) \<Rightarrow> 'l TenantManager" where
  "NewManager newLimiter = \<lparr>tm_tenants = [], tm_clients = [], tm_default = defaultTenant newLimiter\<rparr>"

text \<open>One round of the loop of \<open>LoadTenantsFromBytes\<close>: a tenant that is there keeps its connections.\<close>

definition load_tenant :: "(int option \<Rightarrow> 'l) \<Rightarrow> 'l TenantManager \<Rightarrow> Tenant \<Rightarrow> 'l tenantState" where
  "load_tenant newLimiter m t =
     (let rl = newLimiter (if MaxMessageRate t > 0 then Some (MaxMessageRate t) else None)
      in case map_of (tm_tenants m) (tenant_ID t) of
           Some existing \<Rightarrow> existing\<lparr>ts_config := t, ts_rateLimiter := rl\<rparr>
         | None \<Rightarrow> \<lparr>ts_config = t, ts_connections = 0, ts_rateLimiter = rl\<rparr>)"

definition LoadTenantsFromBytes ::
    "('y \<Rightarrow> string + Tenant list) \<Rightarrow> (int option \<Rightarrow> 'l) \<Rightarrow> 'y \<Rightarrow> 'l TenantManager \<Rightarrow> string option \<times> 'l TenantManager" where
  "LoadTenantsFromBytes unmarshal newLimiter data m = (case ParseTenants unmarshal data of
     Inl e \<Rightarrow> (Some e, m)
   | Inr parsed \<Rightarrow> (None, m\<lparr>tm_tenants := fold (\<lambda>t. AList.update (tenant_ID t) (load_tenant newLimiter m t)) parsed []\<rparr>))"

definition TenantCount :: "'l TenantManager \<Rightarrow> nat" where
  "TenantCount m = length (tm_tenants m)"

definition effectiveTenantID :: "string \<Rightarrow> string" where
  "effectiveTenantID tenantID = (if tenantID = [] then ''default'' else tenantID)"

text \<open>The verb \<^verbatim>\<open>%q\<close>, for a text without characters to escape.\<close>

definition quoted :: "string \<Rightarrow> string" where
  "quoted s = CHR 0x22 # s @ [CHR 0x22]"

definition getState :: "string \<Rightarrow> 'l TenantManager \<Rightarrow> 'l tenantState" where
  "getState tenantID m =
     (if tenantID = [] then tm_default m
      else case map_of (tm_tenants m) tenantID of None \<Rightarrow> tm_default m | Some s \<Rightarrow> s)"

text \<open>A write through the pointer that \<open>getState\<close> returns.\<close>

definition setState :: "string \<Rightarrow> 'l tenantState \<Rightarrow> 'l TenantManager \<Rightarrow> 'l TenantManager" where
  "setState tenantID s m =
     (if tenantID = [] then m\<lparr>tm_default := s\<rparr>
      else case map_of (tm_tenants m) tenantID of
             None \<Rightarrow> m\<lparr>tm_default := s\<rparr>
           | Some _ \<Rightarrow> m\<lparr>tm_tenants := AList.update tenantID s (tm_tenants m)\<rparr>)"

definition add_connections :: "int \<Rightarrow> string \<Rightarrow> 'l TenantManager \<Rightarrow> 'l TenantManager" where
  "add_connections d tenantID m =
     (let s = getState tenantID m in setState tenantID (s\<lparr>ts_connections := ts_connections s + d\<rparr>) m)"

definition quota_error :: "string \<Rightarrow> 'l TenantManager \<Rightarrow> string option" where
  "quota_error tenantID m = (let s = getState tenantID m in
     if MaxConnections (ts_config s) > 0 \<and> ts_connections s \<ge> MaxConnections (ts_config s)
     then Some (''tenant '' @ quoted (effectiveTenantID tenantID) @ '' connection quota exhausted ('' @ show_int (ts_connections s) @
            ''/'' @ show_int (MaxConnections (ts_config s)) @ '')'')
     else None)"

definition TryConnect :: "string \<Rightarrow> string \<Rightarrow> 'l TenantManager \<Rightarrow> string option \<times> 'l TenantManager" where
  "TryConnect clientID tenantID m = (case quota_error tenantID m of
     Some e \<Rightarrow> (Some e, m)
   | None \<Rightarrow> (let m1 = add_connections 1 tenantID m
              in (None, m1\<lparr>tm_clients := AList.update clientID tenantID (tm_clients m1)\<rparr>)))"

definition manager_OnDisconnect :: "string \<Rightarrow> 'l TenantManager \<Rightarrow> 'l TenantManager" where
  "manager_OnDisconnect clientID m = (case map_of (tm_clients m) clientID of
     None \<Rightarrow> m
   | Some tenantID \<Rightarrow> add_connections (-1) tenantID (m\<lparr>tm_clients := AList.delete clientID (tm_clients m)\<rparr>))"

definition CheckPublish :: "('l \<Rightarrow> bool \<times> 'l) \<Rightarrow> string \<Rightarrow> int \<Rightarrow> 'l TenantManager \<Rightarrow> string option \<times> 'l TenantManager" where
  "CheckPublish allow clientID payloadSize m = (case map_of (tm_clients m) clientID of
     None \<Rightarrow> (None, m)
   | Some tenantID \<Rightarrow>
       (let s = getState tenantID m in
        if MaxMessageSize (ts_config s) > 0 \<and> payloadSize > MaxMessageSize (ts_config s)
        then (Some (''tenant '' @ quoted (effectiveTenantID tenantID) @ '' message size '' @ show_int payloadSize @ '' exceeds limit '' @
                show_int (MaxMessageSize (ts_config s))), m)
        else (case allow (ts_rateLimiter s) of (ok, l) \<Rightarrow>
          (if ok then None else Some (''tenant '' @ quoted (effectiveTenantID tenantID) @ '' message rate limit exceeded''),
           setState tenantID (s\<lparr>ts_rateLimiter := l\<rparr>) m))))"

definition GetTopicPrefix :: "string \<Rightarrow> 'l TenantManager \<Rightarrow> string" where
  "GetTopicPrefix clientID m = (case map_of (tm_clients m) clientID of
     None \<Rightarrow> [] | Some tenantID \<Rightarrow> TopicPrefix (ts_config (getState tenantID m)))"

definition GetTenantID :: "string \<Rightarrow> 'l TenantManager \<Rightarrow> string" where
  "GetTenantID clientID m = (case map_of (tm_clients m) clientID of None \<Rightarrow> [] | Some tenantID \<Rightarrow> tenantID)"

definition ActiveConnections :: "string \<Rightarrow> 'l TenantManager \<Rightarrow> int" where
  "ActiveConnections tenantID m = ts_connections (getState tenantID m)"

subsection \<open>The interceptor\<close>

text \<open>
  The hooks of \<^verbatim>\<open>TenantInterceptor\<close> on the manager; \<open>resolve\<close> is \<^verbatim>\<open>TenantResolver\<close>, and \<open>d\<close> is how long a hook
  takes.
\<close>

definition hook_return :: "int \<Rightarrow> 's \<Rightarrow> 'e \<Rightarrow> string option \<Rightarrow> ('s, 'e) hook_run" where
  "hook_return d s evt err = \<lparr>hr_state = s, hr_event = evt, hr_result = (case err of None \<Rightarrow> HookOk | Some e \<Rightarrow> HookErr e), hr_took = d\<rparr>"

definition tenant_OnConnect :: "(string \<Rightarrow> string) \<Rightarrow> int \<Rightarrow> ('l TenantManager, ConnectEvent) hook" where
  "tenant_OnConnect resolve d m evt = (case TryConnect (ce_ClientID evt) (resolve (ce_Username evt)) m of
     (err, m') \<Rightarrow> hook_return d m' evt err)"

definition prefixed :: "string \<Rightarrow> string \<Rightarrow> string" where
  "prefixed prefix topic = (if prefix \<noteq> [] \<and> \<not> str_prefix ''$'' topic then prefix @ ''/'' @ topic else topic)"

definition tenant_OnPublish :: "('l \<Rightarrow> bool \<times> 'l) \<Rightarrow> int \<Rightarrow> ('l TenantManager, PublishEvent) hook" where
  "tenant_OnPublish allow d m evt = (case CheckPublish allow (pe_ClientID evt) (int (length (pe_Payload evt))) m of
     (Some err, m') \<Rightarrow> hook_return d m' evt (Some err)
   | (None, m') \<Rightarrow> hook_return d m' (evt\<lparr>pe_Topic := prefixed (GetTopicPrefix (pe_ClientID evt) m') (pe_Topic evt)\<rparr>) None)"

definition tenant_OnSubscribe :: "int \<Rightarrow> ('l TenantManager, SubscribeEvent) hook" where
  "tenant_OnSubscribe d m evt =
     hook_return d m (evt\<lparr>se_TopicFilter := prefixed (GetTopicPrefix (se_Client evt) m) (se_TopicFilter evt)\<rparr>) None"

definition tenant_OnDelivery :: "int \<Rightarrow> ('l TenantManager, DeliveryEvent) hook" where
  "tenant_OnDelivery d m evt =
     (let prefix = GetTopicPrefix (de_ClientID evt) m; pfx = prefix @ ''/'' in
      hook_return d m
        (if prefix \<noteq> [] \<and> str_prefix pfx (de_Topic evt) then evt\<lparr>de_Topic := trim_prefix (de_Topic evt) pfx\<rparr> else evt) None)"

definition tenant_OnUnsubscribe :: "int \<Rightarrow> ('l TenantManager, UnsubscribeEvent) hook" where
  "tenant_OnUnsubscribe d m evt =
     hook_return d m (evt\<lparr>ue_TopicFilter := prefixed (GetTopicPrefix (ue_ClientID evt) m) (ue_TopicFilter evt)\<rparr>) None"

definition tenant_OnDisconnect :: "'l TenantManager \<Rightarrow> DisconnectEvent \<Rightarrow> 'l TenantManager" where
  "tenant_OnDisconnect m evt = manager_OnDisconnect (xe_ClientID evt) m"

definition TenantInterceptor :: "('l \<Rightarrow> bool \<times> 'l) \<Rightarrow> (string \<Rightarrow> string) \<Rightarrow> int \<Rightarrow> 'l TenantManager Interceptor" where
  "TenantInterceptor allow resolve d = \<lparr>i_Name = ''tenant'', i_Init = Pair None, i_Close = Pair None,
     i_OnConnect = Some (tenant_OnConnect resolve d), i_OnPublish = Some (tenant_OnPublish allow d),
     i_OnSubscribe = Some (tenant_OnSubscribe d), i_OnDelivery = Some (tenant_OnDelivery d),
     i_OnUnsubscribe = Some (tenant_OnUnsubscribe d), i_OnDisconnect = Some tenant_OnDisconnect, i_OnSessionExpired = None\<rparr>"

text \<open>The chain of \<^verbatim>\<open>cmd/dmqtt/main.go\<close> when tenants are configured and nothing else is.\<close>

definition tenant_chain :: "('l \<Rightarrow> bool \<times> 'l) \<Rightarrow> (string \<Rightarrow> string) \<Rightarrow> int \<Rightarrow> 'l TenantManager InterceptorChain" where
  "tenant_chain allow resolve d =
     Register (TenantInterceptor allow resolve d) [WithTimeout (milliseconds 50)] NewInterceptorChain"

subsection \<open>Isolation\<close>

definition prefix_ok :: "string \<Rightarrow> bool" where
  "prefix_ok p \<longleftrightarrow> p \<noteq> [] \<and> set p \<inter> set ''/+#'' = {}"

lemma starts_dollar: "starts_with_any ''$'' s \<longleftrightarrow> str_prefix ''$'' s"
  by (cases s) (auto simp: starts_with_any_def)

lemma TopicMatch_plain: "\<not> str_prefix ''$'' topic \<Longrightarrow> TopicMatch f topic = match_levels (str_split CHR ''/'' f) (str_split CHR ''/'' topic)"
  by (simp add: TopicMatch_def starts_dollar)

lemma TopicMatch_prefixed:
  assumes "prefix_ok p" and "prefix_ok q"
  shows "TopicMatch (q @ ''/'' @ f) (p @ ''/'' @ t) \<longleftrightarrow> p = q \<and> match_levels (str_split CHR ''/'' f) (str_split CHR ''/'' t)"
proof -
  have s: "CHR ''/'' \<notin> set p" "CHR ''/'' \<notin> set q" using assms by (auto simp: prefix_ok_def)
  have q: "q \<noteq> ''#''" "q \<noteq> ''+''" using assms(2) by (auto simp: prefix_ok_def)
  have "\<not> starts_with_any ''+#'' (q @ ''/'' @ f)"
    using assms(2) by (cases q) (auto simp: prefix_ok_def starts_with_any_def)
  then show ?thesis using q str_split_append [OF s(1), of t] str_split_append [OF s(2), of f]
    by (auto simp: TopicMatch_def)
qed

lemma TopicMatch_tenants:
  assumes "prefix_ok p" and "prefix_ok q" and "\<not> str_prefix ''$'' topic" and "\<not> str_prefix ''$'' filt"
  shows "TopicMatch (prefixed q filt) (prefixed p topic) \<longleftrightarrow> p = q \<and> TopicMatch filt topic"
proof -
  have "prefixed q filt = q @ ''/'' @ filt" "prefixed p topic = p @ ''/'' @ topic"
    using assms by (simp_all add: prefixed_def prefix_ok_def)
  then show ?thesis using TopicMatch_prefixed [OF assms(1,2)] TopicMatch_plain [OF assms(3)] by simp
qed

lemma CheckPublish_clients: "tm_clients (snd (CheckPublish allow c n m)) = tm_clients m"
  by (simp add: CheckPublish_def setState_def Let_def split: option.splits prod.splits)

lemma setState_config:
  assumes "ts_config s = ts_config (getState j m)"
  shows "ts_config (getState i (setState j s m)) = ts_config (getState i m)"
  using assms by (auto simp: getState_def setState_def update_conv' split: option.splits)

lemma CheckPublish_prefix: "GetTopicPrefix i (snd (CheckPublish allow c n m)) = GetTopicPrefix i m"
  unfolding GetTopicPrefix_def CheckPublish_clients
  by (simp add: CheckPublish_def setState_config Let_def split: option.splits prod.splits)

lemma tenant_OnPublish_ok:
  assumes "hr_result (tenant_OnPublish allow d m evt) = HookOk"
  shows "hr_event (tenant_OnPublish allow d m evt) = evt\<lparr>pe_Topic := prefixed (GetTopicPrefix (pe_ClientID evt) m) (pe_Topic evt)\<rparr>"
    and "GetTopicPrefix i (hr_state (tenant_OnPublish allow d m evt)) = GetTopicPrefix i m"
  using assms CheckPublish_prefix [of _ allow "pe_ClientID evt" "int (length (pe_Payload evt))" m]
  by (auto simp: tenant_OnPublish_def hook_return_def split: prod.splits option.splits)

text \<open>The operation on the subscription index after the hooks of the tenant interceptor.\<close>

fun tenant_op :: "'l TenantManager \<Rightarrow> sub_op \<Rightarrow> sub_op" where
  "tenant_op m (OpSubscribe c f q) =
     OpSubscribe c (se_TopicFilter (hr_event (tenant_OnSubscribe 0 m \<lparr>se_Client = c, se_TopicFilter = f, se_SubQoS = q\<rparr>))) q"
| "tenant_op m (OpUnsubscribe c f) =
     OpUnsubscribe c (ue_TopicFilter (hr_event (tenant_OnUnsubscribe 0 m \<lparr>ue_ClientID = c, ue_TopicFilter = f\<rparr>)))"
| "tenant_op m (OpDropClient c) = OpDropClient c"

text \<open>The filters are ordinary ones, and their clients belong to tenants with proper prefixes.\<close>

fun tenant_op_ok :: "'l TenantManager \<Rightarrow> sub_op \<Rightarrow> bool" where
  "tenant_op_ok m (OpSubscribe c f q) \<longleftrightarrow> prefix_ok (GetTopicPrefix c m) \<and> \<not> str_prefix ''$'' f"
| "tenant_op_ok m (OpUnsubscribe c f) \<longleftrightarrow> prefix_ok (GetTopicPrefix c m) \<and> \<not> str_prefix ''$'' f"
| "tenant_op_ok m (OpDropClient c) \<longleftrightarrow> True"

lemma prefixed_inj: "prefix_ok p \<Longrightarrow> \<not> str_prefix ''$'' f \<Longrightarrow> \<not> str_prefix ''$'' g \<Longrightarrow> prefixed p f = prefixed p g \<longleftrightarrow> f = g"
  by (simp add: prefixed_def prefix_ok_def)

lemma ex_prefixed:
  assumes "prefix_ok p" and "\<not> str_prefix ''$'' f"
  shows "(\<exists>h. \<not> str_prefix ''$'' h \<and> prefix_ok p \<and> prefixed p f = prefixed p h \<and> X h) \<longleftrightarrow> X f"
  using assms prefixed_inj [OF assms(1,2)] by blast

lemma ex_not_prefixed:
  assumes "\<And>h. g = p h \<Longrightarrow> X h = Y h"
  shows "(\<exists>h. A h \<and> B \<and> g = p h \<and> X h) \<longleftrightarrow> (\<exists>h. A h \<and> B \<and> g = p h \<and> Y h)"
  using assms by blast

lemma tenant_subs:
  assumes "list_all (tenant_op_ok m) xs"
  shows "fold subs_step (map (tenant_op m) xs) Map.empty (b, g) = Some q \<longleftrightarrow>
    (\<exists>f. \<not> str_prefix ''$'' f \<and> prefix_ok (GetTopicPrefix b m) \<and> g = prefixed (GetTopicPrefix b m) f \<and>
         fold subs_step xs Map.empty (b, f) = Some q)"
  using assms
proof (induction xs arbitrary: q rule: rev_induct)
  case (snoc x xs)
  let ?M = "fold subs_step xs Map.empty" and ?M' = "fold subs_step (map (tenant_op m) xs) Map.empty"
  have ok: "tenant_op_ok m x" using snoc.prems by simp
  have IH: "?M' (b, g) = Some q \<longleftrightarrow> (\<exists>f. \<not> str_prefix ''$'' f \<and> prefix_ok (GetTopicPrefix b m) \<and>
      g = prefixed (GetTopicPrefix b m) f \<and> ?M (b, f) = Some q)" for q
    using snoc.IH snoc.prems by (simp only: list_all_append)
  let ?P = "\<lambda>c. GetTopicPrefix c m"
  show ?case
  proof (cases x)
    case (OpSubscribe c f r)
    then have c: "prefix_ok (?P c)" "\<not> str_prefix ''$'' f" using ok by simp_all
    have L: "fold subs_step (map (tenant_op m) (xs @ [x])) Map.empty = ?M'((c, prefixed (?P c) f) \<mapsto> r)"
      by (simp add: OpSubscribe tenant_OnSubscribe_def hook_return_def)
    have R: "fold subs_step (xs @ [x]) Map.empty = ?M((c, f) \<mapsto> r)" by (simp add: OpSubscribe)
    show ?thesis
    proof (cases "b = c \<and> g = prefixed (?P c) f")
      case True
      then show ?thesis unfolding L R using ex_prefixed [OF c, where X = "\<lambda>h. (?M((c, f) \<mapsto> r)) (b, h) = Some q"] by simp
    next
      case False
      then have n: "(?M'((c, prefixed (?P c) f) \<mapsto> r)) (b, g) = ?M' (b, g)" by (intro fun_upd_other) blast
      have "((?M((c, f) \<mapsto> r)) (b, h) = Some q) = (?M (b, h) = Some q)" if "g = prefixed (?P b) h" for h
      proof -
        have "(b, h) \<noteq> (c, f)" using False that by blast
        then show ?thesis using fun_upd_other [of "(b, h)" "(c, f)" ?M] by (simp only: simp_thms)
      qed
      then show ?thesis unfolding L R n IH by (rule ex_not_prefixed [symmetric])
    qed
  next
    case (OpUnsubscribe c f)
    then have c: "prefix_ok (?P c)" "\<not> str_prefix ''$'' f" using ok by simp_all
    have L: "fold subs_step (map (tenant_op m) (xs @ [x])) Map.empty = ?M'((c, prefixed (?P c) f) := None)"
      by (simp add: OpUnsubscribe tenant_OnUnsubscribe_def hook_return_def)
    have R: "fold subs_step (xs @ [x]) Map.empty = ?M((c, f) := None)" by (simp add: OpUnsubscribe)
    show ?thesis
    proof (cases "b = c \<and> g = prefixed (?P c) f")
      case True
      then show ?thesis unfolding L R using ex_prefixed [OF c, where X = "\<lambda>h. (?M((c, f) := None)) (b, h) = Some q"] by simp
    next
      case False
      then have n: "(?M'((c, prefixed (?P c) f) := None)) (b, g) = ?M' (b, g)" by (intro fun_upd_other) blast
      have "((?M((c, f) := None)) (b, h) = Some q) = (?M (b, h) = Some q)" if "g = prefixed (?P b) h" for h
      proof -
        have "(b, h) \<noteq> (c, f)" using False that by blast
        then show ?thesis using fun_upd_other [of "(b, h)" "(c, f)" ?M] by (simp only: simp_thms)
      qed
      then show ?thesis unfolding L R n IH by (rule ex_not_prefixed [symmetric])
    qed
  next
    case (OpDropClient c)
    have L: "fold subs_step (map (tenant_op m) (xs @ [x])) Map.empty = (\<lambda>(d, f). if d = c then None else ?M' (d, f))"
      and R: "fold subs_step (xs @ [x]) Map.empty = (\<lambda>(d, f). if d = c then None else ?M (d, f))"
      by (simp_all add: OpDropClient)
    show ?thesis unfolding L R by (cases "b = c") (simp, simp only: prod.case if_False IH)
  qed
qed simp

lemma tenant_subs_plain:
  assumes "list_all (tenant_op_ok m) xs" and "fold subs_step xs Map.empty (b, f) = Some q"
  shows "\<not> str_prefix ''$'' f"
  using assms
proof (induction xs arbitrary: q rule: rev_induct)
  case (snoc x xs)
  then show ?case by (cases x) (auto split: if_splits)
qed simp


text \<open>Two tenants, one client each; limiters that always allow.\<close>

definition sample_tenant :: "string \<Rightarrow> int \<Rightarrow> Tenant" where
  "sample_tenant i limit = \<lparr>tenant_ID = i, MaxConnections = 2, MaxMessageRate = 0, MaxMessageSize = limit, TopicPrefix = i\<rparr>"

definition sample_manager :: "unit TenantManager" where
  "sample_manager = snd (TryConnect ''bob'' ''blue'' (snd (TryConnect ''ann'' ''acme''
     (snd (LoadTenantsFromBytes Inr (\<lambda>_. ()) [sample_tenant ''acme'' 10, sample_tenant ''blue'' 10] (NewManager (\<lambda>_. ())))))))"

lemma sample_manager_eq: "sample_manager =
   \<lparr>tm_tenants = [(''acme'', \<lparr>ts_config = sample_tenant ''acme'' 10, ts_connections = 1, ts_rateLimiter = ()\<rparr>),
                  (''blue'', \<lparr>ts_config = sample_tenant ''blue'' 10, ts_connections = 1, ts_rateLimiter = ()\<rparr>)],
    tm_clients = [(''ann'', ''acme''), (''bob'', ''blue'')], tm_default = defaultTenant (\<lambda>_. ())\<rparr>"
  by code_simp

lemma sample_prefix [simp]: "GetTopicPrefix ''ann'' sample_manager = ''acme''" "GetTopicPrefix ''bob'' sample_manager = ''blue''"
  by code_simp+


subsection \<open>The breaker of the tenant interceptor\<close>

text \<open>A publication as the broker handles it: the hooks of the chain, at its time.\<close>

definition publish_step :: "int \<times> PublishEvent \<Rightarrow> 's InterceptorChain \<times> 's \<Rightarrow> 's InterceptorChain \<times> 's" where
  "publish_step x cs = (case OnPublish (fst x) (fst cs) (snd cs) (snd x) of (err, c', s', evt', t') \<Rightarrow> (c', s'))"

definition oversized :: "'l TenantManager \<Rightarrow> PublishEvent \<Rightarrow> bool" where
  "oversized m evt = (case map_of (tm_clients m) (pe_ClientID evt) of
     None \<Rightarrow> False
   | Some i \<Rightarrow> 0 < MaxMessageSize (ts_config (getState i m)) \<and>
       MaxMessageSize (ts_config (getState i m)) < int (length (pe_Payload evt)))"

definition with_breaker :: "('l \<Rightarrow> bool \<times> 'l) \<Rightarrow> (string \<Rightarrow> string) \<Rightarrow> int \<Rightarrow> CircuitBreaker \<Rightarrow> 'l TenantManager InterceptorChain" where
  "with_breaker allow resolve d b = [\<lparr>ri_interceptor = TenantInterceptor allow resolve d,
     ri_executor = \<lparr>ex_name = ''tenant'', ex_timeout = milliseconds 50, ex_breaker = b\<rparr>\<rparr>]"

abbreviation plugin_breaker :: CircuitBreaker where
  "plugin_breaker \<equiv> New (ic_breakerCfg defaultInterceptorConfig)"

lemma tenant_chain_eq: "tenant_chain allow resolve d = with_breaker allow resolve d plugin_breaker"
  by (simp add: tenant_chain_def with_breaker_def Register_def NewInterceptorChain_def NewExecutor_def
      WithTimeout_def TenantInterceptor_def Let_def defaultInterceptorConfig_def)

lemma publish_oversized:
  assumes "cb_state b = StateClosed" and "d < milliseconds 50" and "oversized m evt"
  shows "publish_step (t, evt) (with_breaker allow resolve d b, m) = (with_breaker allow resolve d (RecordFailure (t + d) b), m)"
proof -
  obtain e where e: "CheckPublish allow (pe_ClientID evt) (int (length (pe_Payload evt))) m = (Some e, m)"
    using assms(3) by (auto simp: CheckPublish_def oversized_def Let_def split: option.splits)
  have "tenant_OnPublish allow d m evt = hook_return d m evt (Some e)" by (simp add: tenant_OnPublish_def e)
  then show ?thesis using assms(1,2)
    by (simp add: publish_step_def OnPublish_def with_breaker_def TenantInterceptor_def Run_def AllowOrError_def Allow_def
        hook_return_def Let_def)
qed

definition rejections :: "int \<Rightarrow> (int \<times> 'e) list \<Rightarrow> (int \<times> bool) list" where
  "rejections d es = map (\<lambda>x. (fst x + d, False)) es"

lemma reset_plugin_breaker: "reset plugin_breaker = plugin_breaker"
  by (simp add: reset_def New_def)

lemma rejections_snoc: "map outcome_call (rejections d (es @ [x])) = map outcome_call (rejections d es) @ [(fst x + d, CallFailure)]"
  by (simp add: rejections_def outcome_call_def)

lemma failures_rejections: "failures (rejections d es) = length es"
  by (simp add: failures_def rejections_def comp_def)

lemma rejections_few:
  assumes "length es < 5"
  shows "cb_run (map outcome_call (rejections d es)) plugin_breaker =
    plugin_breaker\<lparr>failCount := int (length es), totalCount := int (length es)\<rparr>"
proof -
  have "length (rejections d es) < 5" using assms by (simp add: rejections_def)
  then have "\<not> tripped (cb_config plugin_breaker) 1 2 (rejections d es)" "int (length (rejections d es)) * 1 \<le> 2 ^ 52"
    by (auto simp: tripped_def trips_at_def New_def defaultInterceptorConfig_def)
  then show ?thesis
    using closed_run [where cb = plugin_breaker and p = 1 and q = 2 and os = "rejections d es"]
    by (simp add: New_def defaultInterceptorConfig_def reset_plugin_breaker [unfolded New_def defaultInterceptorConfig_def]
        failures_rejections) (simp add: rejections_def reset_def)
qed

lemma rejections_five:
  assumes "length es = 5"
  shows "cb_run (map outcome_call (rejections d es)) plugin_breaker = trip (fst (last es) + d) plugin_breaker"
proof -
  obtain fs x where es: "es = fs @ [x]" and fs: "length fs = 4" using assms by (cases es rule: rev_cases) auto
  let ?c = "plugin_breaker\<lparr>failCount := 5, totalCount := 5\<rparr>"
  have "fl (of_int 1 / of_int 2) \<le> errorRate ?c \<longleftrightarrow> 1 * totalCount ?c \<le> failCount ?c * 2"
    by (rule errorRate_threshold) simp_all
  then have "fl (1 / 2) \<le> errorRate ?c" by simp
  then have "RecordFailure t (plugin_breaker\<lparr>failCount := 4, totalCount := 4\<rparr>) = trip t plugin_breaker" for t
    by (simp add: RecordFailure_def Let_def trip_def New_def defaultInterceptorConfig_def)
  then show ?thesis using rejections_few [of fs d] fs unfolding es rejections_snoc by simp
qed

lemma publish_rejections:
  assumes "length es \<le> 5" and "d < milliseconds 50" and "list_all (oversized m \<circ> snd) es"
  shows "fold publish_step es (with_breaker allow resolve d plugin_breaker, m) =
    (with_breaker allow resolve d (cb_run (map outcome_call (rejections d es)) plugin_breaker), m)"
  using assms(1,3)
proof (induction es rule: rev_induct)
  case (snoc x es)
  have len: "length es < 5" using snoc.prems by simp
  have "cb_state (cb_run (map outcome_call (rejections d es)) plugin_breaker) = StateClosed"
    unfolding rejections_few [OF len] by (simp add: New_def)
  from publish_oversized [OF this assms(2), of m "snd x" "fst x" allow resolve] snoc
  show ?case unfolding rejections_snoc by simp
qed (simp add: rejections_def)


definition sample_publish :: PublishEvent where
  "sample_publish = \<lparr>pe_ClientID = ''ann'', pe_Topic = ''t'', pe_Payload = replicate 11 0, pe_QoS = 0, pe_Retain = False\<rparr>"


subsection \<open>Connection quotas\<close>

datatype tenant_call = CallTryConnect string string | CallOnDisconnect string

fun tenant_step :: "tenant_call \<Rightarrow> 'l TenantManager \<Rightarrow> 'l TenantManager" where
  "tenant_step (CallTryConnect c i) m = snd (TryConnect c i m)"
| "tenant_step (CallOnDisconnect c) m = manager_OnDisconnect c m"

text \<open>Histories in which a client id connects only when it is not connected.\<close>

fun orderly :: "tenant_call list \<Rightarrow> 'l TenantManager \<Rightarrow> bool" where
  "orderly [] m \<longleftrightarrow> True"
| "orderly (x # xs) m \<longleftrightarrow>
     (case x of CallTryConnect c i \<Rightarrow> map_of (tm_clients m) c = None | CallOnDisconnect c \<Rightarrow> True) \<and> orderly xs (tenant_step x m)"

definition clients_of :: "string \<Rightarrow> 'l TenantManager \<Rightarrow> string set" where
  "clients_of i m = {c. map_of (tm_clients m) c = Some i}"

definition configured :: "string \<Rightarrow> 'l TenantManager \<Rightarrow> bool" where
  "configured i m \<longleftrightarrow> i \<noteq> [] \<and> map_of (tm_tenants m) i \<noteq> None"

definition quota_ok :: "'l TenantManager \<Rightarrow> bool" where
  "quota_ok m \<longleftrightarrow> (\<forall>i. configured i m \<longrightarrow> ActiveConnections i m = int (card (clients_of i m)) \<and>
     (0 < MaxConnections (ts_config (getState i m)) \<longrightarrow> ActiveConnections i m \<le> MaxConnections (ts_config (getState i m))))"

lemma finite_clients_of [simp]: "finite (clients_of i m)"
proof -
  have "clients_of i m \<subseteq> dom (map_of (tm_clients m))" by (auto simp: clients_of_def)
  then show ?thesis by (rule finite_subset) (rule finite_dom_map_of)
qed

lemma add_connections_facts:
  shows "tm_clients (add_connections d j m) = tm_clients m"
    and "configured i (add_connections d j m) = configured i m"
    and "ts_config (getState i (add_connections d j m)) = ts_config (getState i m)"
    and "configured i m \<Longrightarrow> ActiveConnections i (add_connections d j m) = ActiveConnections i m + (if i = j then d else 0)"
  by (auto simp: add_connections_def setState_def getState_def configured_def ActiveConnections_def Let_def update_conv' split: option.splits)

lemma clients_of_update: "clients_of i (m\<lparr>tm_clients := AList.update c j (tm_clients m)\<rparr>) =
    (if i = j then insert c (clients_of i m) else clients_of i m - {c})"
  by (auto simp: clients_of_def update_conv')

lemma clients_of_delete: "clients_of i (m\<lparr>tm_clients := AList.delete c (tm_clients m)\<rparr>) = clients_of i m - {c}"
  by (auto simp: clients_of_def delete_conv')

lemma fields_of_clients_update [simp]:
  "getState i (m\<lparr>tm_clients := cs\<rparr>) = getState i m" "configured i (m\<lparr>tm_clients := cs\<rparr>) = configured i m"
  "ActiveConnections i (m\<lparr>tm_clients := cs\<rparr>) = ActiveConnections i m"
  by (simp_all add: getState_def configured_def ActiveConnections_def split: option.split)

lemma quota_connect:
  assumes "quota_ok m" and "map_of (tm_clients m) c = None"
  shows "quota_ok (snd (TryConnect c j m))"
proof (cases "quota_error j m")
  case None
  let ?m1 = "add_connections 1 j m"
  let ?m2 = "?m1\<lparr>tm_clients := AList.update c j (tm_clients ?m1)\<rparr>"
  have m2: "snd (TryConnect c j m) = ?m2" by (simp add: TryConnect_def None Let_def)
  have c: "c \<notin> clients_of i m" for i using assms(2) by (simp add: clients_of_def)
  have "clients_of i ?m1 = clients_of i m" for i by (simp add: clients_of_def add_connections_facts)
  then have k: "clients_of i ?m2 = (if i = j then insert c (clients_of i m) else clients_of i m)" for i
    unfolding clients_of_update using c by auto
  have free: "0 < MaxConnections (ts_config (getState j m)) \<longrightarrow> ActiveConnections j m < MaxConnections (ts_config (getState j m))"
    using None by (auto simp: quota_error_def ActiveConnections_def Let_def split: if_splits)
  show ?thesis unfolding m2 quota_ok_def k unfolding fields_of_clients_update add_connections_facts
  proof (intro allI impI)
    fix i assume i: "configured i m"
    then have q: "ActiveConnections i m = int (card (clients_of i m))"
      "0 < MaxConnections (ts_config (getState i m)) \<longrightarrow> ActiveConnections i m \<le> MaxConnections (ts_config (getState i m))"
      using assms(1) unfolding quota_ok_def by blast+
    show "ActiveConnections i ?m1 = int (card (if i = j then insert c (clients_of i m) else clients_of i m)) \<and>
      (0 < MaxConnections (ts_config (getState i m)) \<longrightarrow> ActiveConnections i ?m1 \<le> MaxConnections (ts_config (getState i m)))"
      unfolding add_connections_facts(4) [OF i] using q c [of i] free
      by (cases "i = j"; cases "0 < MaxConnections (ts_config (getState i m))") simp_all
  qed
qed (simp add: TryConnect_def assms(1))

lemma quota_disconnect:
  assumes "quota_ok m"
  shows "quota_ok (manager_OnDisconnect c m)"
proof (cases "map_of (tm_clients m) c")
  case (Some j)
  let ?m1 = "m\<lparr>tm_clients := AList.delete c (tm_clients m)\<rparr>"
  let ?m2 = "add_connections (-1) j ?m1"
  have m2: "manager_OnDisconnect c m = ?m2" by (simp add: manager_OnDisconnect_def Some)
  have k: "clients_of i ?m2 = clients_of i m - {c}" for i
    by (auto simp: clients_of_def add_connections_facts delete_conv')
  have c: "c \<in> clients_of i m \<longleftrightarrow> i = j" for i using Some by (auto simp: clients_of_def)
  show ?thesis unfolding m2 quota_ok_def add_connections_facts fields_of_clients_update k
  proof (intro allI impI)
    fix i assume i: "configured i m"
    then have i': "configured i ?m1" by simp
    have q: "ActiveConnections i m = int (card (clients_of i m))"
      "0 < MaxConnections (ts_config (getState i m)) \<longrightarrow> ActiveConnections i m \<le> MaxConnections (ts_config (getState i m))"
      using assms i unfolding quota_ok_def by blast+
    have "0 < card (clients_of j m)" using c by (auto simp: card_gt_0_iff)
    then show "ActiveConnections i ?m2 = int (card (clients_of i m - {c})) \<and>
      (0 < MaxConnections (ts_config (getState i m)) \<longrightarrow> ActiveConnections i ?m2 \<le> MaxConnections (ts_config (getState i m)))"
      unfolding add_connections_facts(4) [OF i'] using q c [of i]
      by (cases "i = j"; cases "0 < MaxConnections (ts_config (getState i m))") (simp_all add: of_nat_diff)
  qed
qed (simp add: manager_OnDisconnect_def assms)

lemma quota_run: "quota_ok m \<Longrightarrow> orderly xs m \<Longrightarrow> quota_ok (fold tenant_step xs m)"
proof (induction xs arbitrary: m)
  case (Cons x xs)
  have "quota_ok (tenant_step x m)"
    using Cons.prems by (cases x) (simp_all add: quota_connect quota_disconnect)
  then show ?case using Cons by simp
qed simp

text \<open>The connection quota of a tenant holds: starting with no clients, after any sequence of connections and
  disconnections in which no client id connects twice without disconnecting, the counter of each
  configured tenant is the number of its connected clients and never above its limit, and the next
  connection is refused exactly when the limit is reached.\<close>

theorem tenant_quota:
  assumes "tm_clients m = []" and "\<And>i. configured i m \<Longrightarrow> ActiveConnections i m = 0" and "orderly xs m"
    and "m' = fold tenant_step xs m" and "configured i m'" and "0 < MaxConnections (ts_config (getState i m'))"
  shows "ActiveConnections i m' = int (card (clients_of i m')) \<and>
    int (card (clients_of i m')) \<le> MaxConnections (ts_config (getState i m')) \<and>
    (fst (TryConnect c i m') \<noteq> None \<longleftrightarrow> int (card (clients_of i m')) = MaxConnections (ts_config (getState i m')))"
proof -
  have "clients_of i m = {}" for i using assms(1) by (simp add: clients_of_def)
  then have "quota_ok m" using assms(2) by (simp add: quota_ok_def)
  then have "quota_ok m'" unfolding assms(4) using assms(3) by (rule quota_run)
  then have q: "ActiveConnections i m' = int (card (clients_of i m'))" "ActiveConnections i m' \<le> MaxConnections (ts_config (getState i m'))"
    using assms(5,6) unfolding quota_ok_def by blast+
  have "fst (TryConnect c i m') \<noteq> None \<longleftrightarrow> MaxConnections (ts_config (getState i m')) \<le> ActiveConnections i m'"
    using assms(6) by (simp add: TryConnect_def quota_error_def ActiveConnections_def Let_def)
  then show ?thesis using q by linarith
qed

definition sample_tenants :: "unit TenantManager" where
  "sample_tenants = snd (LoadTenantsFromBytes Inr (\<lambda>_. ()) [sample_tenant ''acme'' 10] (NewManager (\<lambda>_. ())))"

lemma sample_tenants_eq: "sample_tenants =
   \<lparr>tm_tenants = [(''acme'', \<lparr>ts_config = sample_tenant ''acme'' 10, ts_connections = 0, ts_rateLimiter = ()\<rparr>)],
    tm_clients = [], tm_default = defaultTenant (\<lambda>_. ())\<rparr>"
  by code_simp

theorem tenant_quota_witness:
  "fst (TryConnect ''eve'' ''acme'' (fold tenant_step [CallTryConnect ''ann'' ''acme'', CallTryConnect ''bob'' ''acme''] sample_tenants)) \<noteq> None"
proof -
  let ?xs = "[CallTryConnect ''ann'' ''acme'', CallTryConnect ''bob'' ''acme'']"
  let ?m = "fold tenant_step ?xs sample_tenants"
  have "tm_clients sample_tenants = []" "configured i sample_tenants \<Longrightarrow> ActiveConnections i sample_tenants = 0" for i
    by (simp_all add: sample_tenants_eq configured_def ActiveConnections_def getState_def split: if_splits)
  moreover have "orderly ?xs sample_tenants" by code_simp
  moreover have m: "?m = sample_tenants\<lparr>tm_tenants := [(''acme'', \<lparr>ts_config = sample_tenant ''acme'' 10, ts_connections = 2, ts_rateLimiter = ()\<rparr>)],
      tm_clients := [(''ann'', ''acme''), (''bob'', ''acme'')]\<rparr>" by code_simp
  moreover have c: "configured ''acme'' ?m" "0 < MaxConnections (ts_config (getState ''acme'' ?m))"
    unfolding m by (simp_all add: configured_def getState_def sample_tenant_def)
  ultimately have "fst (TryConnect ''eve'' ''acme'' ?m) \<noteq> None \<longleftrightarrow>
      int (card (clients_of ''acme'' ?m)) = MaxConnections (ts_config (getState ''acme'' ?m))"
    using tenant_quota [OF _ _ _ refl c, of "''eve''"] by blast
  moreover have "clients_of ''acme'' ?m = {''ann'', ''bob''}" unfolding m by (auto simp: clients_of_def split: if_splits)
  ultimately show ?thesis unfolding m by (simp add: getState_def sample_tenant_def)
qed

text \<open>A client id that is taken over loses its tenant: when a second connection with the id of a connected
  client is accepted and the first one ends after that, the live connection has no tenant any more. Its topics
  and filters get no prefix and its messages are not limited, and when it ends too, the tenant keeps
  counting a connection that nobody has.\<close>

theorem takeover_loses_tenant:
  assumes "quota_ok m" and "map_of (tm_clients m) c = Some i" and "configured i m"
    and "TryConnect c i m = (None, m1)" and "m2 = manager_OnDisconnect c m1"
  shows "GetTenantID c m2 = [] \<and> prefixed (GetTopicPrefix c m2) f = f \<and> CheckPublish allow c n m2 = (None, m2) \<and>
    manager_OnDisconnect c m2 = m2 \<and> ActiveConnections i m2 = int (card (clients_of i m2)) + 1"
proof -
  let ?a = "add_connections 1 i m"
  have m1: "m1 = ?a\<lparr>tm_clients := AList.update c i (tm_clients m)\<rparr>"
    using assms(4) by (simp add: TryConnect_def add_connections_facts(1) Let_def split: option.splits)
  have c1: "map_of (tm_clients m1) c = Some i" by (simp add: m1 update_conv')
  let ?d = "m1\<lparr>tm_clients := AList.delete c (tm_clients m1)\<rparr>"
  have m2: "m2 = add_connections (-1) i ?d" using assms(5) c1 by (simp add: manager_OnDisconnect_def)
  have none: "map_of (tm_clients m2) c = None" by (simp add: m2 add_connections_facts delete_conv')
  have conf: "configured i ?d" using assms(3) by (simp add: m1 add_connections_facts)
  have "ActiveConnections i m2 = ActiveConnections i m"
    unfolding m2 add_connections_facts(4) [OF conf] using assms(3) by (simp add: m1 add_connections_facts)
  moreover have "ActiveConnections i m = int (card (clients_of i m))" using assms(1,3) unfolding quota_ok_def by blast
  moreover have "clients_of i m2 = clients_of i m - {c}"
    by (auto simp: clients_of_def m2 m1 add_connections_facts delete_conv' update_conv')
  moreover have "c \<in> clients_of i m" using assms(2) by (simp add: clients_of_def)
  moreover have "0 < card (clients_of i m)" using \<open>c \<in> clients_of i m\<close> by (auto simp: card_gt_0_iff)
  ultimately have "ActiveConnections i m2 = int (card (clients_of i m2)) + 1" by simp
  then show ?thesis using none
    by (simp add: GetTenantID_def GetTopicPrefix_def prefixed_def CheckPublish_def manager_OnDisconnect_def)
qed

theorem takeover_loses_tenant_witness:
  "prefixed (GetTopicPrefix ''ann'' (manager_OnDisconnect ''ann'' (snd (TryConnect ''ann'' ''acme'' sample_manager)))) ''#'' = ''#''"
proof -
  have "clients_of ''acme'' sample_manager = {''ann''}" "clients_of ''blue'' sample_manager = {''bob''}"
    by (auto simp: clients_of_def sample_manager_eq split: if_splits)
  then have q: "quota_ok sample_manager"
    by (auto simp: quota_ok_def configured_def ActiveConnections_def getState_def sample_manager_eq sample_tenant_def
        split: if_splits)
  have f: "fst (TryConnect ''ann'' ''acme'' sample_manager) = None" by code_simp
  have "TryConnect ''ann'' ''acme'' sample_manager = (None, snd (TryConnect ''ann'' ''acme'' sample_manager))"
    by (rule prod_eqI) (simp_all add: f)
  then show ?thesis using takeover_loses_tenant [OF q _ _ _ refl, of "''ann''" "''acme''" _ "''#''"]
    by (simp add: sample_manager_eq configured_def)
qed

end
