(* ===== verification/Codec.thy ===== *)
theory Codec
  imports Prelude "HOL-Library.Word" "HOL-Library.Signed_Division"
begin

unbundle bit_operations_syntax

section \<open>The fixed header of MQTT packets\<close>

text \<open>
  Models \<^verbatim>\<open>internal/codec/fixed_header.go\<close> and \<^verbatim>\<open>reader.go\<close>.  A reader is the list of the bytes it still
  holds; a decoder returns its result and the bytes it left.  \<^verbatim>\<open>io.ReadFull\<close> fails with \<open>EOF\<close> when there
  is no byte left and with \<open>UnexpectedEOF\<close> when there are too few; \<open>Wrapped\<close> is an error that \<^verbatim>\<open>fmt.Errorf\<close> wraps in a text.  The length is a Go \<^verbatim>\<open>int\<close>, whose
  division and remainder truncate towards zero.
\<close>

type_synonym octet = "8 word"

datatype codec_error = EOF | UnexpectedEOF | ErrMalformedPacket string | Wrapped string codec_error

type_synonym 'a decoder = "octet list \<Rightarrow> (codec_error + 'a) \<times> octet list"

definition ReadFull :: "nat \<Rightarrow> octet list decoder" where
  "ReadFull n r = (if n \<le> length r then (Inr (take n r), drop n r)
                   else if r = [] then (Inl EOF, []) else (Inl UnexpectedEOF, []))"

subsection \<open>Remaining length\<close>

function EncodeRemainingLength :: "int \<Rightarrow> octet list" where
  "EncodeRemainingLength len =
     (let encodedByte = word_of_int (len smod 128); len' = len sdiv 128;
          b = (if 0 < len' then encodedByte OR 0x80 else encodedByte)
      in if len' = 0 then [b] else b # EncodeRemainingLength len')"
  by pat_completeness auto
termination
proof (relation "measure (\<lambda>len. nat \<bar>len\<bar>)")
  fix len encodedByte len' :: int and b :: octet
  assume "len' = len sdiv 128" and "len' \<noteq> 0"
  moreover have "\<bar>len sdiv 128\<bar> = \<bar>len\<bar> div 128" by (cases "len = 0") (simp_all add: signed_divide_int_def abs_mult abs_sgn_eq)
  ultimately show "(len', len) \<in> measure (\<lambda>len. nat \<bar>len\<bar>)" by auto
qed simp

declare EncodeRemainingLength.simps [simp del]

text \<open>The loop of \<open>DecodeRemainingLength\<close> with \<open>n\<close> iterations left.\<close>

fun decode_loop :: "nat \<Rightarrow> int \<Rightarrow> int \<Rightarrow> int decoder" where
  "decode_loop 0 multiplier value r = (Inl (ErrMalformedPacket ''remaining length exceeds 4 bytes''), r)"
| "decode_loop (Suc n) multiplier value r =
     (case ReadFull 1 r of
        (Inl e, r') \<Rightarrow> (Inl e, r')
      | (Inr bs, r') \<Rightarrow>
          (let b = hd bs; value' = value + uint (b AND 0x7F) * multiplier
           in if b AND 0x80 = 0 then (Inr value', r') else decode_loop n (multiplier * 128) value' r'))"

definition DecodeRemainingLength :: "int decoder" where
  "DecodeRemainingLength r = decode_loop 4 1 0 r"

subsection \<open>Fixed header and packet\<close>

record FixedHeader =
  PacketType :: octet
  Dup :: bool
  QoS :: octet
  Retain :: bool
  RemainingLength :: int

definition first_byte :: "FixedHeader \<Rightarrow> octet" where
  "first_byte fh =
     (let b0 = push_bit 4 (PacketType fh);
          b1 = (if Dup fh then b0 OR 0x08 else b0);
          b2 = b1 OR push_bit 1 (QoS fh AND 0x03)
      in if Retain fh then b2 OR 0x01 else b2)"

definition Encode :: "FixedHeader \<Rightarrow> octet list" where
  "Encode fh = [first_byte fh] @ EncodeRemainingLength (RemainingLength fh)"

definition DecodeFixedHeader :: "FixedHeader decoder" where
  "DecodeFixedHeader r = (case ReadFull 1 r of
     (Inl e, r1) \<Rightarrow> (Inl e, r1)
   | (Inr bs, r1) \<Rightarrow>
      (let b = hd bs in
       case DecodeRemainingLength r1 of
         (Inl e, r2) \<Rightarrow> (Inl e, r2)
       | (Inr remaining, r2) \<Rightarrow>
          (Inr \<lparr>PacketType = drop_bit 4 b AND 0x0F, Dup = (b AND 0x08 \<noteq> 0), QoS = drop_bit 1 b AND 0x03,
                Retain = (b AND 0x01 \<noteq> 0), RemainingLength = remaining\<rparr>, r2)))"

definition ReadPacket :: "(FixedHeader \<times> octet list) decoder" where
  "ReadPacket r = (case DecodeFixedHeader r of
     (Inl e, r1) \<Rightarrow> (Inl e, r1)
   | (Inr fh, r1) \<Rightarrow>
      (if 0 < RemainingLength fh
       then (case ReadFull (nat (RemainingLength fh)) r1 of
           (Inl e, r2) \<Rightarrow> (Inl e, r2)
         | (Inr bs, r2) \<Rightarrow> (Inr (fh, bs), r2))
       else (Inr (fh, []), r1)))"

subsection \<open>Encoding digit by digit\<close>

lemma octet_top: "(b :: octet) AND 0x80 = 0 \<longleftrightarrow> \<not> bit b 7"
  using and_exp_eq_0_iff_not_bit [of b 7] by simp

lemma octet_low: "uint ((b :: octet) AND 0x7F) = uint b mod 128"
proof -
  have m: "(0x7F :: octet) = mask 7" by (simp add: mask_eq_exp_minus_1)
  have "b AND 0x7F = take_bit 7 b" unfolding m by (rule take_bit_eq_mask [symmetric])
  then have "uint (b AND 0x7F) = take_bit 7 (uint b)" by (simp add: unsigned_take_bit_eq)
  then show ?thesis by (simp add: take_bit_eq_mod)
qed

lemma digit_plain:
  assumes "0 \<le> d" and "d < 128"
  shows "(word_of_int d :: octet) AND 0x80 = 0" and "uint ((word_of_int d :: octet) AND 0x7F) = d"
proof -
  have "uint (word_of_int d :: octet) = d" using assms by (simp add: uint_word_of_int)
  then show "uint ((word_of_int d :: octet) AND 0x7F) = d" using assms by (simp add: octet_low)
  have "\<not> bit (word_of_int d :: octet) 7" using assms by (subst bit_word_of_int_iff) (simp add: bit_iff_odd)
  then show "(word_of_int d :: octet) AND 0x80 = 0" by (simp add: octet_top)
qed

lemma digit_more:
  assumes "0 \<le> d" and "d < 128"
  shows "((word_of_int d :: octet) OR 0x80) AND 0x80 \<noteq> 0" and "uint (((word_of_int d :: octet) OR 0x80) AND 0x7F) = d"
proof -
  have "bit (0x80 :: octet) 7" using and_exp_eq_0_iff_not_bit [of "0x80 :: octet" 7] by simp
  then show "((word_of_int d :: octet) OR 0x80) AND 0x80 \<noteq> 0" by (simp add: octet_top bit_or_iff)
  have "((word_of_int d :: octet) OR 0x80) AND 0x7F = word_of_int d AND 0x7F"
    by (simp add: bit.conj_disj_distrib2)
  then show "uint (((word_of_int d :: octet) OR 0x80) AND 0x7F) = d" using digit_plain [OF assms] by simp
qed

lemma encode_nonneg:
  assumes "0 \<le> n"
  shows "EncodeRemainingLength n =
    (if n < 128 then [word_of_int n] else (word_of_int (n mod 128) OR 0x80) # EncodeRemainingLength (n div 128))"
proof -
  have "n smod 128 = n mod 128" "n sdiv 128 = n div 128"
    using assms by (simp_all add: signed_modulo_int_def signed_divide_int_def sgn_if)
  then show ?thesis
    using assms by (subst EncodeRemainingLength.simps) (auto simp: Let_def div_eq_0_iff pos_imp_zdiv_pos_iff)
qed

lemma ReadFull_one [simp]: "ReadFull 1 (b # r) = (Inr [b], r)" "ReadFull (Suc 0) (b # r) = (Inr [b], r)"
  "ReadFull 1 [] = (Inl EOF, [])" "ReadFull (Suc 0) [] = (Inl EOF, [])"
  by (simp_all add: ReadFull_def)

lemma div_128_less: "n div 128 < x \<longleftrightarrow> n < x * 128" for n x :: int
  by arith

lemma decode_encode:
  assumes "0 \<le> n"
  shows "decode_loop (Suc k) m v (EncodeRemainingLength n @ r) =
    (if n < 128 ^ Suc k then (Inr (v + n * m), r)
     else (Inl (ErrMalformedPacket ''remaining length exceeds 4 bytes''), drop (Suc k) (EncodeRemainingLength n @ r)))"
  using assms
proof (induction k arbitrary: m v n)
  case 0
  then show ?case using digit_plain [of n] digit_more [of "n mod 128"] by (simp add: encode_nonneg)
next
  case (Suc k)
  show ?case
  proof (cases "n < 128")
    case True
    have "(1 :: int) \<le> 128 ^ Suc k" by (rule one_le_power) simp
    then have "n < 128 ^ Suc (Suc k)" using True by simp
    then show ?thesis using True Suc.prems digit_plain [of n] by (simp add: encode_nonneg)
  next
    case False
    have d: "0 \<le> n mod 128" "n mod 128 < 128" "0 \<le> n div 128" using Suc.prems by (simp_all add: pos_imp_zdiv_nonneg_iff)
    have i: "n div 128 < 128 ^ Suc k \<longleftrightarrow> n < 128 ^ Suc (Suc k)"
      by (simp only: power_Suc2 [of _ "Suc k"] div_128_less)
    have s: "n mod 128 * m + n div 128 * (m * 128) = n * m"
      by (subst (3) mod_mult_div_eq [of n 128, symmetric]) (simp only: distrib_left mult.assoc mult.commute mult.left_commute)
    have "decode_loop (Suc (Suc k)) m v (EncodeRemainingLength n @ r) =
        decode_loop (Suc k) (m * 128) (v + n mod 128 * m) (EncodeRemainingLength (n div 128) @ r)"
      using False digit_more [OF d(1,2)] by (simp add: encode_nonneg [OF Suc.prems])
    then show ?thesis
      using False Suc.IH [OF d(3), of "m * 128" "v + n mod 128 * m"] i s
      by (simp only: if_False add.assoc encode_nonneg [OF Suc.prems] append_Cons drop_Suc_Cons split: if_split)
  qed
qed

lemma encode_length:
  assumes "0 \<le> n" and "n < 128 ^ Suc k"
  shows "length (EncodeRemainingLength n) \<le> Suc k"
  using assms
proof (induction k arbitrary: n)
  case (Suc k)
  have "n div 128 < 128 ^ Suc k" using Suc.prems(2) by (simp only: power_Suc2 [of _ "Suc k"] div_128_less)
  then show ?case using Suc by (simp add: encode_nonneg [OF Suc.prems(1)] pos_imp_zdiv_nonneg_iff)
qed (simp add: encode_nonneg)

lemma decode_bounds:
  assumes "decode_loop k m v r = (Inr x, r')" and "0 \<le> v" and "v < m"
  shows "0 \<le> x \<and> x < m * 128 ^ k \<and> (\<exists>bs. r = bs @ r' \<and> 0 < length bs \<and> length bs \<le> k)"
  using assms
proof (induction k arbitrary: m v r)
  case (Suc k)
  obtain b r1 where r: "r = b # r1" using Suc.prems(1) by (cases r) auto
  let ?v = "v + uint (b AND 0x7F) * m"
  have d: "0 \<le> uint (b AND 0x7F)" "uint (b AND 0x7F) \<le> 127" using octet_low [of b] by auto
  have m: "0 < m" using Suc.prems by linarith
  have "0 \<le> uint (b AND 0x7F) * m" "uint (b AND 0x7F) * m \<le> 127 * m"
    using d m by (simp_all add: mult_right_mono)
  then have v: "0 \<le> ?v" "?v < m * 128" using Suc.prems by linarith+
  show ?case
  proof (cases "b AND 0x80 = 0")
    case True
    have "(1 :: int) \<le> 128 ^ k" by (rule one_le_power) simp
    then have "m * 128 * 1 \<le> m * 128 * 128 ^ k" using m by (intro mult_left_mono) simp_all
    then have "m * 128 \<le> m * 128 ^ Suc k" by (simp add: mult.assoc)
    moreover have "x = ?v" "r1 = r'" using Suc.prems(1) r True by auto
    ultimately have "x < m * 128 ^ Suc k" "0 \<le> x" "r = [b] @ r'" using v r by (linarith, simp_all)
    then show ?thesis by (intro conjI exI [of _ "[b]"]) simp_all
  next
    case False
    then have "decode_loop k (m * 128) ?v r1 = (Inr x, r')" using Suc.prems(1) r by simp
    from Suc.IH [OF this v] obtain bs where "0 \<le> x" "x < m * 128 * 128 ^ k" "r1 = bs @ r'" "length bs \<le> k" by auto
    then show ?thesis using r by (intro conjI exI [of _ "b # bs"]) (simp_all add: mult.assoc)
  qed
qed simp

lemma decode_loop_shorter: "decode_loop k m v r = (Inr x, r') \<Longrightarrow> length r' \<le> length r"
proof (induction k arbitrary: m v r)
  case (Suc k)
  obtain b r1 where r: "r = b # r1" using Suc.prems by (cases r) auto
  show ?case
  proof (cases "b AND 0x80 = 0")
    case True
    then show ?thesis using Suc.prems r by simp
  next
    case False
    then have "decode_loop k (m * 128) (v + uint (b AND 0x7F) * m) r1 = (Inr x, r')" using Suc.prems r by simp
    from Suc.IH [OF this] show ?thesis using r by simp
  qed
qed simp

subsection \<open>The first byte\<close>

text \<open>All values of the four fields of the first byte, and what the decoder reads back.\<close>

lemma first_byte_all:
  "list_all (\<lambda>p. list_all (\<lambda>q. list_all (\<lambda>d. list_all (\<lambda>t.
     (let b = first_byte \<lparr>PacketType = p, Dup = d, QoS = q, Retain = t, RemainingLength = 0\<rparr>
      in drop_bit 4 b AND 0x0F = p \<and> drop_bit 1 b AND 0x03 = q \<and> (b AND 0x08 \<noteq> 0) = d \<and> (b AND 0x01 \<noteq> 0) = t))
     [False, True]) [False, True]) (map word_of_nat [0..<4])) (map word_of_nat [0..<16])"
  by code_simp

lemma octet_below: "(p :: octet) < of_nat n \<Longrightarrow> n < 256 \<Longrightarrow> p \<in> set (map word_of_nat [0..<n])"
proof -
  assume "p < of_nat n" and "n < 256"
  then have "unat p < n" by (simp add: word_less_nat_alt unsigned_of_nat take_bit_nat_eq_self)
  moreover have "p = word_of_nat (unat p)" by simp
  ultimately show ?thesis by (metis atLeast_upt image_eqI list.set_map lessThan_iff)
qed

lemma first_byte_fields:
  assumes "PacketType fh < 16" and "QoS fh < 4"
  shows "drop_bit 4 (first_byte fh) AND 0x0F = PacketType fh" and "drop_bit 1 (first_byte fh) AND 0x03 = QoS fh"
    and "(first_byte fh AND 0x08 \<noteq> 0) = Dup fh" and "(first_byte fh AND 0x01 \<noteq> 0) = Retain fh"
proof -
  have f: "first_byte fh = first_byte \<lparr>PacketType = PacketType fh, Dup = Dup fh, QoS = QoS fh, Retain = Retain fh, RemainingLength = 0\<rparr>"
    by (simp add: first_byte_def)
  have "PacketType fh \<in> set (map word_of_nat [0..<16])" "QoS fh \<in> set (map word_of_nat [0..<4])"
    using assms by (intro octet_below; simp)+
  moreover have "Dup fh \<in> set [False, True]" "Retain fh \<in> set [False, True]" by auto
  ultimately have "let b = first_byte fh
      in drop_bit 4 b AND 0x0F = PacketType fh \<and> drop_bit 1 b AND 0x03 = QoS fh \<and> (b AND 0x08 \<noteq> 0) = Dup fh \<and> (b AND 0x01 \<noteq> 0) = Retain fh"
    using first_byte_all unfolding list_all_iff f by (metis (no_types, lifting))
  then show "drop_bit 4 (first_byte fh) AND 0x0F = PacketType fh" and "drop_bit 1 (first_byte fh) AND 0x03 = QoS fh"
    and "(first_byte fh AND 0x08 \<noteq> 0) = Dup fh" and "(first_byte fh AND 0x01 \<noteq> 0) = Retain fh"
    unfolding Let_def by blast+
qed

lemma DecodeRemainingLength_encode:
  assumes "0 \<le> n"
  shows "DecodeRemainingLength (EncodeRemainingLength n @ r) =
    (if n < 2 ^ 28 then (Inr n, r)
     else (Inl (ErrMalformedPacket ''remaining length exceeds 4 bytes''), drop 4 (EncodeRemainingLength n @ r)))"
  using decode_encode [OF assms, of 3 1 0 r] by (simp add: DecodeRemainingLength_def numeral_eq_Suc)

subsection \<open>Properties\<close>

text \<open>The remaining length survives the wire exactly when it is below \<open>2 ^ 28\<close>: every such length is
  encoded in at most four bytes, and the decoder reads it back and leaves the bytes that follow;
  every larger one is encoded without an error and then rejected by the decoder.\<close>

theorem remaining_length_round_trip:
  assumes "0 \<le> n"
  shows "(n < 2 ^ 28 \<longrightarrow> DecodeRemainingLength (EncodeRemainingLength n @ r) = (Inr n, r) \<and>
            length (EncodeRemainingLength n) \<le> 4) \<and>
         (2 ^ 28 \<le> n \<longrightarrow> (\<exists>e. fst (DecodeRemainingLength (EncodeRemainingLength n @ r)) = Inl (ErrMalformedPacket e)))"
  using DecodeRemainingLength_encode [OF assms] encode_length [OF assms, of 3] by simp

theorem remaining_length_round_trip_witness:
  "DecodeRemainingLength (EncodeRemainingLength 321 @ [7]) = (Inr 321, [7])"
  using remaining_length_round_trip [of 321 "[7]"] by simp

lemma read_packet:
  assumes "PacketType fh < 16" and "QoS fh < 4" and "RemainingLength fh = int (length data)" and "length data < 2 ^ 28"
  shows "ReadPacket (Encode fh @ data @ rest) = (Inr (fh, data), rest)"
proof -
  have "DecodeRemainingLength (EncodeRemainingLength (RemainingLength fh) @ data @ rest) = (Inr (RemainingLength fh), data @ rest)"
    using assms(3,4) DecodeRemainingLength_encode [of "RemainingLength fh" "data @ rest"] by simp
  then have "DecodeFixedHeader (Encode fh @ data @ rest) = (Inr fh, data @ rest)"
    using first_byte_fields [OF assms(1,2)] by (simp add: DecodeFixedHeader_def Encode_def)
  then show ?thesis using assms(3) by (simp add: ReadPacket_def ReadFull_def)
qed

text \<open>Packets survive the wire: a fixed header whose type fits in four bits and whose quality of service
  fits in two, followed by the number of bytes it announces, is read back as that header and those
  bytes, and what follows them is left for the next packet.\<close>

theorem packet_round_trip:
  assumes "PacketType fh < 16" and "QoS fh < 4" and "RemainingLength fh = int (length data)" and "length data < 2 ^ 28"
  shows "ReadPacket (Encode fh @ data @ rest) = (Inr (fh, data), rest)"
  using assms by (rule read_packet)

theorem packet_round_trip_witness:
  "ReadPacket (Encode \<lparr>PacketType = 3, Dup = False, QoS = 1, Retain = True, RemainingLength = 2\<rparr> @ [9, 8] @ [7]) =
     (Inr (\<lparr>PacketType = 3, Dup = False, QoS = 1, Retain = True, RemainingLength = 2\<rparr>, [9, 8]), [7])"
  by (rule packet_round_trip) simp_all

end
