(* ===== verification/MqttProperties.thy ===== *)
theory MqttProperties
  imports Codec
begin

section \<open>The properties of MQTT 5\<close>

text \<open>
  Models \<^verbatim>\<open>internal/codec/properties.go\<close>.  A Go string is a sequence of bytes, as is a HOL string; a slice is a list and
  an offset into it a natural number.  A pointer that may be nil is an \<open>option\<close>.
\<close>

subsection \<open>Bytes\<close>

definition bytes_of :: "string \<Rightarrow> octet list" where
  "bytes_of s = map (\<lambda>c. word_of_nat (of_char c)) s"

definition string_of :: "octet list \<Rightarrow> string" where
  "string_of bs = map (\<lambda>b. char_of (unat b)) bs"

text \<open>\<^verbatim>\<open>binary.BigEndian\<close>, and the two bytes \<^verbatim>\<open>byte(n>>8), byte(n)\<close> of a length, which drop what is above.\<close>

definition put_len :: "nat \<Rightarrow> octet list" where
  "put_len n = [word_of_nat (n div 256), word_of_nat n]"

definition put16 :: "16 word \<Rightarrow> octet list" where
  "put16 x = put_len (unat x)"

definition get16 :: "octet \<Rightarrow> octet \<Rightarrow> 16 word" where
  "get16 a b = word_of_nat (unat a * 256 + unat b)"

definition put32 :: "32 word \<Rightarrow> octet list" where
  "put32 x = put_len (unat x div 65536) @ put_len (unat x)"

definition get32 :: "octet \<Rightarrow> octet \<Rightarrow> octet \<Rightarrow> octet \<Rightarrow> 32 word" where
  "get32 a b c d = word_of_nat (((unat a * 256 + unat b) * 256 + unat c) * 256 + unat d)"

lemma char_of_byte: "char_of (unat (word_of_nat (of_char c) :: octet)) = c"
proof -
  have "of_char c mod 256 < (256 :: nat)" by simp
  then have "of_char c < (256 :: nat)" by (simp only: of_char_mod_256)
  then have "unat (word_of_nat (of_char c) :: octet) = of_char c" by (simp add: unsigned_of_nat take_bit_nat_eq_self)
  then show ?thesis by simp
qed

lemma byte_of_char: "word_of_nat (of_char (char_of (unat (b :: octet)))) = b"
proof -
  have "unat b < 256" using unsigned_less [of b] by simp
  then show ?thesis by (simp add: of_char_of)
qed

lemma string_of_bytes [simp]: "string_of (bytes_of s) = s"
  by (simp add: string_of_def bytes_of_def comp_def char_of_byte)

lemma length_bytes [simp]: "length (bytes_of s) = length s" "length (string_of bs) = length bs"
  by (simp_all add: bytes_of_def string_of_def)

lemma bytes_of_string [simp]: "bytes_of (string_of bs) = bs"
  unfolding string_of_def bytes_of_def map_map comp_def byte_of_char by simp

lemma unat_octet: "unat (word_of_nat n :: octet) = n mod 256"
  by (simp add: unsigned_of_nat take_bit_eq_mod)

lemma two_bytes: "unat (word_of_nat (n div 256) :: octet) * 256 + unat (word_of_nat n :: octet) = n mod 65536"
proof -
  have "n mod (256 * 256) = 256 * (n div 256 mod 256) + n mod 256" by (rule mod_mult2_eq)
  then show ?thesis by (simp add: unat_octet)
qed

lemma get16_len: "n < 65536 \<Longrightarrow> unat (get16 (word_of_nat (n div 256)) (word_of_nat n)) = n"
  unfolding get16_def two_bytes by (simp add: unsigned_of_nat take_bit_eq_mod)

lemma get16_put16: "get16 (word_of_nat (unat x div 256)) (word_of_nat (unat x)) = x"
proof -
  have "unat x < 65536" using unsigned_less [of x] by simp
  then show ?thesis by (simp only: word_unat_eq_iff get16_len)
qed

lemma get32_put32:
  "get32 (word_of_nat (unat x div 65536 div 256)) (word_of_nat (unat x div 65536)) (word_of_nat (unat x div 256)) (word_of_nat (unat x)) = x"
proof -
  define h l where "h = unat x div 65536" and "l = unat x"
  have "l < 65536 * 65536" using unsigned_less [of x] by (simp add: l_def)
  then have h: "h mod 65536 = h" unfolding h_def l_def [symmetric] by (simp add: less_mult_imp_div_less)
  have s: "((a * 256 + b) * 256 + c) * 256 + d = l" if "a * 256 + b = h" "c * 256 + d = m" "h * 65536 + m = l" for a b c d m :: nat
    unfolding that(3) [symmetric] that(1,2) [symmetric] by simp
  have m: "h * 65536 + l mod 65536 = l" by (simp add: h_def l_def)
  have "((unat (word_of_nat (h div 256) :: octet) * 256 + unat (word_of_nat h :: octet)) * 256 +
      unat (word_of_nat (l div 256) :: octet)) * 256 + unat (word_of_nat l :: octet) = l"
    by (rule s [OF _ two_bytes m]) (simp only: two_bytes h)
  then have "get32 (word_of_nat (h div 256)) (word_of_nat h) (word_of_nat (l div 256)) (word_of_nat l) = word_of_nat l"
    by (simp only: get32_def)
  then show ?thesis by (simp only: h_def l_def) simp
qed

subsection \<open>Properties of MQTT 5\<close>

record UserProperty =
  up_Key :: string
  up_Value :: string

record Properties =
  SessionExpiryInterval :: "32 word option"
  ReceiveMaximum :: "16 word option"
  MaximumQoS :: "octet option"
  RetainAvailable :: "octet option"
  MaximumPacketSize :: "32 word option"
  AssignedClientIdentifier :: "string option"
  TopicAliasMaximum :: "16 word option"
  ReasonString :: "string option"
  WildcardSubAvailable :: "octet option"
  SubIdentifierAvailable :: "octet option"
  SharedSubAvailable :: "octet option"
  ServerKeepAlive :: "16 word option"
  ServerReference :: "string option"
  ResponseInformation :: "string option"
  PayloadFormatIndicator :: "octet option"
  MessageExpiryInterval :: "32 word option"
  TopicAlias :: "16 word option"
  ResponseTopic :: "string option"
  CorrelationData :: "octet list option"
  ContentType :: "string option"
  SubscriptionIdentifier :: "32 word option"
  WillDelayInterval :: "32 word option"
  AuthenticationMethod :: "string option"
  AuthenticationData :: "octet list option"
  RequestProblemInfo :: "octet option"
  RequestResponseInfo :: "octet option"
  UserProperties :: "UserProperty list"

abbreviation no_Properties :: Properties where
  "no_Properties \<equiv> \<lparr>SessionExpiryInterval = None, ReceiveMaximum = None, MaximumQoS = None,
     RetainAvailable = None, MaximumPacketSize = None, AssignedClientIdentifier = None,
     TopicAliasMaximum = None, ReasonString = None, WildcardSubAvailable = None,
     SubIdentifierAvailable = None, SharedSubAvailable = None, ServerKeepAlive = None,
     ServerReference = None, ResponseInformation = None, PayloadFormatIndicator = None,
     MessageExpiryInterval = None, TopicAlias = None, ResponseTopic = None,
     CorrelationData = None, ContentType = None, SubscriptionIdentifier = None,
     WillDelayInterval = None, AuthenticationMethod = None, AuthenticationData = None,
     RequestProblemInfo = None, RequestResponseInfo = None,
     UserProperties = []\<rparr>"

text \<open>\<^verbatim>\<open>encodeVarInt\<close> is the loop of \<open>EncodeRemainingLength\<close> once more.\<close>

function encodeVarInt :: "int \<Rightarrow> octet list" where
  "encodeVarInt n =
     (let b = word_of_int (n smod 128); n' = n sdiv 128;
          b' = (if 0 < n' then b OR 0x80 else b)
      in if n' = 0 then [b'] else b' # encodeVarInt n')"
  by pat_completeness auto
termination
proof (relation "measure (\<lambda>n. nat \<bar>n\<bar>)")
  fix n n' :: int and b b' :: octet
  assume "n' = n sdiv 128" and "n' \<noteq> 0"
  moreover have "\<bar>n sdiv 128\<bar> = \<bar>n\<bar> div 128" by (cases "n = 0") (simp_all add: signed_divide_int_def abs_mult abs_sgn_eq)
  ultimately show "(n', n) \<in> measure (\<lambda>n. nat \<bar>n\<bar>)" by auto
qed simp

declare encodeVarInt.simps [simp del]

fun decode_var_loop :: "octet list \<Rightarrow> nat \<Rightarrow> nat \<Rightarrow> nat \<Rightarrow> int \<Rightarrow> int \<Rightarrow> codec_error + int \<times> nat" where
  "decode_var_loop data offset i 0 multiplier val = Inl (ErrMalformedPacket ''variable byte integer exceeds 4 bytes'')"
| "decode_var_loop data offset i (Suc k) multiplier val =
     (if offset + i \<ge> length data then Inl (ErrMalformedPacket ''truncated variable byte integer'')
      else let b = data ! (offset + i); val' = val + uint (b AND 0x7F) * multiplier
           in if b AND 0x80 = 0 then Inr (val', i + 1) else decode_var_loop data offset (i + 1) k (multiplier * 128) val')"

definition decodeVarInt :: "octet list \<Rightarrow> nat \<Rightarrow> codec_error + int \<times> nat" where
  "decodeVarInt data offset = decode_var_loop data offset 0 4 1 0"

definition appendUTF8 :: "octet list \<Rightarrow> string \<Rightarrow> octet list" where
  "appendUTF8 buf s = buf @ put_len (length s) @ bytes_of s"

definition appendByteProp :: "octet list \<Rightarrow> octet \<Rightarrow> octet option \<Rightarrow> octet list" where
  "appendByteProp buf i val = (case val of None \<Rightarrow> buf | Some v \<Rightarrow> buf @ [i, v])"

definition appendUint16Prop :: "octet list \<Rightarrow> octet \<Rightarrow> 16 word option \<Rightarrow> octet list" where
  "appendUint16Prop buf i val = (case val of None \<Rightarrow> buf | Some v \<Rightarrow> (buf @ [i]) @ put16 v)"

definition appendUint32Prop :: "octet list \<Rightarrow> octet \<Rightarrow> 32 word option \<Rightarrow> octet list" where
  "appendUint32Prop buf i val = (case val of None \<Rightarrow> buf | Some v \<Rightarrow> (buf @ [i]) @ put32 v)"

definition appendStringProp :: "octet list \<Rightarrow> octet \<Rightarrow> string option \<Rightarrow> octet list" where
  "appendStringProp buf i val = (case val of None \<Rightarrow> buf | Some v \<Rightarrow> appendUTF8 (buf @ [i]) v)"

definition appendBinaryProp :: "octet list \<Rightarrow> octet \<Rightarrow> octet list option \<Rightarrow> octet list" where
  "appendBinaryProp buf i val = (case val of None \<Rightarrow> buf | Some v \<Rightarrow> (buf @ [i]) @ put_len (length v) @ v)"

definition appendUserProp :: "octet list \<Rightarrow> UserProperty \<Rightarrow> octet list" where
  "appendUserProp buf u = appendUTF8 (appendUTF8 (buf @ [0x26]) (up_Key u)) (up_Value u)"

text \<open>The body that \<^verbatim>\<open>Properties.Encode\<close> builds, and its encoding; nil has the empty body.\<close>

definition props_body :: "Properties \<Rightarrow> octet list" where
  "props_body p =
     (let body = [];
          body = appendUint32Prop body 0x11 (SessionExpiryInterval p);
          body = appendUint16Prop body 0x21 (ReceiveMaximum p);
          body = appendByteProp body 0x24 (MaximumQoS p);
          body = appendByteProp body 0x25 (RetainAvailable p);
          body = appendUint32Prop body 0x27 (MaximumPacketSize p);
          body = appendStringProp body 0x12 (AssignedClientIdentifier p);
          body = appendUint16Prop body 0x22 (TopicAliasMaximum p);
          body = appendStringProp body 0x1F (ReasonString p);
          body = appendByteProp body 0x28 (WildcardSubAvailable p);
          body = appendByteProp body 0x29 (SubIdentifierAvailable p);
          body = appendByteProp body 0x2A (SharedSubAvailable p);
          body = appendUint16Prop body 0x13 (ServerKeepAlive p);
          body = appendStringProp body 0x1C (ServerReference p);
          body = appendStringProp body 0x1A (ResponseInformation p);
          body = appendByteProp body 0x01 (PayloadFormatIndicator p);
          body = appendUint32Prop body 0x02 (MessageExpiryInterval p);
          body = appendUint16Prop body 0x23 (TopicAlias p);
          body = appendStringProp body 0x08 (ResponseTopic p);
          body = appendBinaryProp body 0x09 (CorrelationData p);
          body = appendStringProp body 0x03 (ContentType p);
          body = (case SubscriptionIdentifier p of None \<Rightarrow> body | Some v \<Rightarrow> body @ [0x0B] @ encodeVarInt (uint v));
          body = appendUint32Prop body 0x18 (WillDelayInterval p);
          body = appendStringProp body 0x15 (AuthenticationMethod p);
          body = appendBinaryProp body 0x16 (AuthenticationData p);
          body = appendByteProp body 0x17 (RequestProblemInfo p);
          body = appendByteProp body 0x19 (RequestResponseInfo p)
      in foldl appendUserProp body (UserProperties p))"

definition props_Encode :: "Properties option \<Rightarrow> octet list" where
  "props_Encode po = (case po of
     None \<Rightarrow> [0x00]
   | Some p \<Rightarrow> (let body = props_body p in encodeVarInt (int (length body)) @ body))"

definition readByte :: "octet list \<Rightarrow> nat \<Rightarrow> nat \<Rightarrow> codec_error + octet \<times> nat" where
  "readByte data offset end' =
     (if offset \<ge> end' \<or> offset \<ge> length data then Inl (ErrMalformedPacket ''truncated byte property'') else Inr (data ! offset, 1))"

definition readUint16 :: "octet list \<Rightarrow> nat \<Rightarrow> nat \<Rightarrow> codec_error + 16 word \<times> nat" where
  "readUint16 data offset end' =
     (if offset + 2 > end' \<or> offset + 2 > length data then Inl (ErrMalformedPacket ''truncated uint16 property'')
      else Inr (get16 (data ! offset) (data ! (offset + 1)), 2))"

definition readUint32 :: "octet list \<Rightarrow> nat \<Rightarrow> nat \<Rightarrow> codec_error + 32 word \<times> nat" where
  "readUint32 data offset end' =
     (if offset + 4 > end' \<or> offset + 4 > length data then Inl (ErrMalformedPacket ''truncated uint32 property'')
      else Inr (get32 (data ! offset) (data ! (offset + 1)) (data ! (offset + 2)) (data ! (offset + 3)), 4))"

definition readPropString :: "octet list \<Rightarrow> nat \<Rightarrow> nat \<Rightarrow> codec_error + string \<times> nat" where
  "readPropString data offset end' =
     (if offset + 2 > end' \<or> offset + 2 > length data then Inl (ErrMalformedPacket ''truncated string property length'')
      else let len = unat (get16 (data ! offset) (data ! (offset + 1))) in
        if offset + 2 + len > end' \<or> offset + 2 + len > length data then Inl (ErrMalformedPacket ''truncated string property'')
        else Inr (string_of (take len (drop (offset + 2) data)), 2 + len))"

definition readPropBinaryData :: "octet list \<Rightarrow> nat \<Rightarrow> nat \<Rightarrow> codec_error + octet list \<times> nat" where
  "readPropBinaryData data offset end' =
     (if offset + 2 > end' \<or> offset + 2 > length data then Inl (ErrMalformedPacket ''truncated binary data length'')
      else let len = unat (get16 (data ! offset) (data ! (offset + 1))) in
        if offset + 2 + len > end' \<or> offset + 2 + len > length data then Inl (ErrMalformedPacket ''truncated binary data'')
        else Inr (take len (drop (offset + 2) data), 2 + len))"

text \<open>
  One round of the loop of \<open>DecodeProperties\<close> after the identifier was read: the new properties and the number
  of bytes consumed.  \<open>set_with\<close> is the part every case has in common.
\<close>

definition set_with :: "('v \<Rightarrow> Properties \<Rightarrow> Properties) \<Rightarrow> codec_error + 'v \<times> nat \<Rightarrow> Properties \<Rightarrow> codec_error + Properties \<times> nat" where
  "set_with upd r p = (case r of Inl e \<Rightarrow> Inl e | Inr (v, n) \<Rightarrow> Inr (upd v p, n))"

definition decode_user_property :: "octet list \<Rightarrow> nat \<Rightarrow> nat \<Rightarrow> codec_error + UserProperty \<times> nat" where
  "decode_user_property data offset end' = (case readPropString data offset end' of
     Inl e \<Rightarrow> Inl e
   | Inr (key, n1) \<Rightarrow> (case readPropString data (offset + n1) end' of
        Inl e \<Rightarrow> Inl e
      | Inr (val, n2) \<Rightarrow> Inr (\<lparr>up_Key = key, up_Value = val\<rparr>, n1 + n2)))"

definition decode_property :: "octet \<Rightarrow> octet list \<Rightarrow> nat \<Rightarrow> nat \<Rightarrow> Properties \<Rightarrow> codec_error + Properties \<times> nat" where
  "decode_property propID data offset end' p =
     (if propID = 0x11 then set_with (\<lambda>v p. p\<lparr>SessionExpiryInterval := Some v\<rparr>) (readUint32 data offset end') p
      else if propID = 0x21 then set_with (\<lambda>v p. p\<lparr>ReceiveMaximum := Some v\<rparr>) (readUint16 data offset end') p
      else if propID = 0x24 then set_with (\<lambda>v p. p\<lparr>MaximumQoS := Some v\<rparr>) (readByte data offset end') p
      else if propID = 0x25 then set_with (\<lambda>v p. p\<lparr>RetainAvailable := Some v\<rparr>) (readByte data offset end') p
      else if propID = 0x27 then set_with (\<lambda>v p. p\<lparr>MaximumPacketSize := Some v\<rparr>) (readUint32 data offset end') p
      else if propID = 0x12 then set_with (\<lambda>v p. p\<lparr>AssignedClientIdentifier := Some v\<rparr>) (readPropString data offset end') p
      else if propID = 0x22 then set_with (\<lambda>v p. p\<lparr>TopicAliasMaximum := Some v\<rparr>) (readUint16 data offset end') p
      else if propID = 0x1F then set_with (\<lambda>v p. p\<lparr>ReasonString := Some v\<rparr>) (readPropString data offset end') p
      else if propID = 0x28 then set_with (\<lambda>v p. p\<lparr>WildcardSubAvailable := Some v\<rparr>) (readByte data offset end') p
      else if propID = 0x29 then set_with (\<lambda>v p. p\<lparr>SubIdentifierAvailable := Some v\<rparr>) (readByte data offset end') p
      else if propID = 0x2A then set_with (\<lambda>v p. p\<lparr>SharedSubAvailable := Some v\<rparr>) (readByte data offset end') p
      else if propID = 0x13 then set_with (\<lambda>v p. p\<lparr>ServerKeepAlive := Some v\<rparr>) (readUint16 data offset end') p
      else if propID = 0x1C then set_with (\<lambda>v p. p\<lparr>ServerReference := Some v\<rparr>) (readPropString data offset end') p
      else if propID = 0x1A then set_with (\<lambda>v p. p\<lparr>ResponseInformation := Some v\<rparr>) (readPropString data offset end') p
      else if propID = 0x01 then set_with (\<lambda>v p. p\<lparr>PayloadFormatIndicator := Some v\<rparr>) (readByte data offset end') p
      else if propID = 0x02 then set_with (\<lambda>v p. p\<lparr>MessageExpiryInterval := Some v\<rparr>) (readUint32 data offset end') p
      else if propID = 0x23 then set_with (\<lambda>v p. p\<lparr>TopicAlias := Some v\<rparr>) (readUint16 data offset end') p
      else if propID = 0x08 then set_with (\<lambda>v p. p\<lparr>ResponseTopic := Some v\<rparr>) (readPropString data offset end') p
      else if propID = 0x09 then set_with (\<lambda>v p. p\<lparr>CorrelationData := Some v\<rparr>) (readPropBinaryData data offset end') p
      else if propID = 0x03 then set_with (\<lambda>v p. p\<lparr>ContentType := Some v\<rparr>) (readPropString data offset end') p
      else if propID = 0x0B then set_with (\<lambda>v p. p\<lparr>SubscriptionIdentifier := Some (word_of_int v)\<rparr>) (decodeVarInt data offset) p
      else if propID = 0x18 then set_with (\<lambda>v p. p\<lparr>WillDelayInterval := Some v\<rparr>) (readUint32 data offset end') p
      else if propID = 0x15 then set_with (\<lambda>v p. p\<lparr>AuthenticationMethod := Some v\<rparr>) (readPropString data offset end') p
      else if propID = 0x16 then set_with (\<lambda>v p. p\<lparr>AuthenticationData := Some v\<rparr>) (readPropBinaryData data offset end') p
      else if propID = 0x17 then set_with (\<lambda>v p. p\<lparr>RequestProblemInfo := Some v\<rparr>) (readByte data offset end') p
      else if propID = 0x19 then set_with (\<lambda>v p. p\<lparr>RequestResponseInfo := Some v\<rparr>) (readByte data offset end') p
      else if propID = 0x26 then set_with (\<lambda>u p. p\<lparr>UserProperties := UserProperties p @ [u]\<rparr>) (decode_user_property data offset end') p
      else Inl (ErrMalformedPacket ''unknown property identifier''))"

function decode_props_loop :: "octet list \<Rightarrow> nat \<Rightarrow> nat \<Rightarrow> Properties \<Rightarrow> codec_error + Properties" where
  "decode_props_loop data offset end' p =
     (if offset < end' then
        if offset \<ge> length data then Inl (ErrMalformedPacket ''truncated property'')
        else case decode_property (data ! offset) data (offset + 1) end' p of
               Inl e \<Rightarrow> Inl e
             | Inr (p', n) \<Rightarrow> decode_props_loop data (offset + 1 + n) end' p'
      else Inr p)"
  by pat_completeness auto
termination by (relation "measure (\<lambda>(data, offset, end', p). end' - offset)") auto

declare decode_props_loop.simps [simp del]

definition DecodeProperties :: "octet list \<Rightarrow> int \<Rightarrow> codec_error + Properties" where
  "DecodeProperties data propertyLength =
     (if propertyLength = 0 then Inr no_Properties
      else if propertyLength > int (length data) then Inl (ErrMalformedPacket ''property length exceeds available data'')
      else decode_props_loop data 0 (nat propertyLength) no_Properties)"

subsection \<open>Reading properties back\<close>

lemma encodeVarInt_eq: "encodeVarInt n = EncodeRemainingLength n"
proof (induction n rule: encodeVarInt.induct)
  case (1 n)
  show ?case using 1 by (subst encodeVarInt.simps, subst EncodeRemainingLength.simps) (simp add: Let_def)
qed

lemma drop_past: "drop offset data = xs @ ys \<Longrightarrow> drop (offset + length xs) data = ys"
  using drop_drop [of "length xs" offset data] by (simp add: add.commute)

lemma decode_var_loop_read:
  assumes "decode_loop k m v (drop (offset + i) data) = (Inr x, r')"
  shows "decode_var_loop data offset i k m v = Inr (x, i + (length (drop (offset + i) data) - length r'))"
  using assms
proof (induction k arbitrary: i m v)
  case (Suc k)
  obtain b r where d: "drop (offset + i) data = b # r" using Suc.prems by (cases "drop (offset + i) data") auto
  have lt: "offset + i < length data"
  proof (rule ccontr)
    assume "\<not> offset + i < length data"
    then show False using d by simp
  qed
  have nth: "data ! (offset + i) = b" using d lt by (metis hd_drop_conv_nth list.sel(1))
  have r: "drop (offset + (i + 1)) data = r" using drop_past [of "offset + i" data "[b]" r] d by (simp add: add.assoc)
  show ?case
  proof (cases "b AND 0x80 = 0")
    case True
    then show ?thesis using Suc.prems d lt nth by (simp add: Let_def)
  next
    case False
    let ?v = "v + uint (b AND 0x7F) * m"
    have "decode_loop k (m * 128) ?v (drop (offset + (i + 1)) data) = (Inr x, r')"
      using Suc.prems d False r by simp
    from Suc.IH [OF this] have "decode_var_loop data offset (i + 1) k (m * 128) ?v = Inr (x, i + 1 + (length r - length r'))"
      unfolding r .
    moreover have "length r' \<le> length r"
      using decode_loop_shorter [of k "m * 128" ?v r] Suc.prems d False by simp
    ultimately show ?thesis using d lt nth False by (simp add: Let_def Suc_diff_le)
  qed
qed simp

lemma decodeVarInt_encode:
  assumes "drop offset data = encodeVarInt n @ rest" and "0 \<le> n" and "n < 2 ^ 28"
  shows "decodeVarInt data offset = Inr (n, length (encodeVarInt n))"
proof -
  have "decode_loop 4 1 0 (drop (offset + 0) data) = (Inr n, rest)"
    using DecodeRemainingLength_encode [OF assms(2), of rest] assms(1,3) by (simp add: DecodeRemainingLength_def encodeVarInt_eq)
  from decode_var_loop_read [OF this] show ?thesis using assms(1) by (simp add: decodeVarInt_def)
qed

text \<open>\<open>reads bs f\<close>: the loop that finds \<open>bs\<close> at its offset goes on behind them, with \<open>f\<close> applied to the properties.\<close>

definition reads :: "octet list \<Rightarrow> (Properties \<Rightarrow> Properties) \<Rightarrow> bool" where
  "reads bs f \<longleftrightarrow> (\<forall>data offset end' rest p. drop offset data = bs @ rest \<longrightarrow> offset + length bs \<le> end' \<longrightarrow> end' \<le> length data \<longrightarrow>
     decode_props_loop data offset end' p = decode_props_loop data (offset + length bs) end' (f p))"

lemma reads_Nil: "reads [] (\<lambda>p. p)"
  by (simp add: reads_def)

lemma readsD: "reads bs f \<Longrightarrow> drop offset data = bs @ rest \<Longrightarrow> offset + length bs \<le> end' \<Longrightarrow> end' \<le> length data \<Longrightarrow>
    decode_props_loop data offset end' p = decode_props_loop data (offset + length bs) end' (f p)"
  unfolding reads_def by blast

lemma reads_append:
  assumes "reads xs f" and "reads ys g"
  shows "reads (xs @ ys) (\<lambda>p. g (f p))"
  unfolding reads_def
proof (intro allI impI)
  fix data offset end' rest p
  assume d: "drop offset data = (xs @ ys) @ rest" and e: "offset + length (xs @ ys) \<le> end'" "end' \<le> length data"
  have d1: "drop offset data = xs @ (ys @ rest)" using d by simp
  have "decode_props_loop data offset end' p = decode_props_loop data (offset + length xs) end' (f p)"
    by (rule readsD [OF assms(1) d1]) (use e in simp_all)
  also have "\<dots> = decode_props_loop data (offset + length xs + length ys) end' (g (f p))"
    by (rule readsD [OF assms(2) drop_past [OF d1]]) (use e in simp_all)
  finally show "decode_props_loop data offset end' p = decode_props_loop data (offset + length (xs @ ys)) end' (g (f p))"
    by (simp add: add.assoc)
qed

lemma at_offset:
  assumes "drop offset data = xs @ rest"
  shows "i < length xs \<Longrightarrow> data ! (offset + i) = xs ! i" and "offset + length xs \<le> length data \<or> xs = []"
    and "take (length xs) (drop offset data) = xs"
proof -
  show "take (length xs) (drop offset data) = xs" using assms by simp
  have l: "length data - offset = length xs + length rest" using assms by (metis length_append length_drop)
  then show "offset + length xs \<le> length data \<or> xs = []" by (cases xs) auto
  assume i: "i < length xs"
  then have "offset + i < length data" using l by linarith
  then have "data ! (offset + i) = drop offset data ! i" by (simp add: less_imp_le)
  then show "data ! (offset + i) = xs ! i" using assms i by (simp add: nth_append)
qed

lemma reads_item:
  assumes "\<And>data offset end' rest p. drop offset data = bs @ rest \<Longrightarrow> offset + length bs \<le> end' \<Longrightarrow> end' \<le> length data \<Longrightarrow>
    decode_property i data offset end' p = Inr (f p, length bs)"
  shows "reads (i # bs) f"
  unfolding reads_def
proof (intro allI impI)
  fix data offset end' rest p
  assume d: "drop offset data = (i # bs) @ rest" and e: "offset + length (i # bs) \<le> end'" "end' \<le> length data"
  have "data ! offset = i" using at_offset(1) [OF d, of 0] by simp
  moreover have "drop (offset + 1) data = bs @ rest" using drop_past [of offset data "[i]" "bs @ rest"] d by simp
  ultimately show "decode_props_loop data offset end' p = decode_props_loop data (offset + length (i # bs)) end' (f p)"
    using assms [of "offset + 1" data rest end' p] e by (subst decode_props_loop.simps) simp
qed

lemma readByte_at: "drop offset data = [v] @ rest \<Longrightarrow> offset + 1 \<le> end' \<Longrightarrow> end' \<le> length data \<Longrightarrow> readByte data offset end' = Inr (v, 1)"
  using at_offset(1) [of offset data "[v]" rest 0] by (simp add: readByte_def)

lemma put_len_at:
  assumes "drop offset data = put_len n @ rest"
  shows "data ! offset = word_of_nat (n div 256)" and "data ! (offset + 1) = word_of_nat n"
  using at_offset(1) [OF assms, of 0] at_offset(1) [OF assms, of 1] by (simp_all add: put_len_def)

lemma readUint16_at:
  assumes "drop offset data = put16 x @ rest" and "offset + 2 \<le> end'" and "end' \<le> length data"
  shows "readUint16 data offset end' = Inr (x, 2)"
proof -
  note a = put_len_at [OF assms(1) [unfolded put16_def]]
  have "\<not> (offset + 2 > end' \<or> offset + 2 > length data)" using assms(2,3) by simp
  then show ?thesis unfolding readUint16_def a get16_put16 by (simp only: if_False)
qed

lemma readUint32_at:
  assumes "drop offset data = put32 x @ rest" and "offset + 4 \<le> end'" and "end' \<le> length data"
  shows "readUint32 data offset end' = Inr (x, 4)"
proof -
  have d: "drop offset data = put_len (unat x div 65536) @ put_len (unat x) @ rest" using assms(1) by (simp add: put32_def)
  have d': "drop (offset + 2) data = put_len (unat x) @ rest" using drop_past [OF d] by (simp add: put_len_def)
  note a = put_len_at [OF d] put_len_at [OF d']
  have e: "offset + 2 + 1 = offset + 3" by simp
  have "\<not> (offset + 4 > end' \<or> offset + 4 > length data)" using assms(2,3) by simp
  then show ?thesis unfolding readUint32_def a [unfolded e] get32_put32 by (simp only: if_False)
qed

lemma length_at:
  assumes "drop offset data = put_len (length bs) @ bs @ rest" and "length bs < 65536"
  shows "unat (get16 (data ! offset) (data ! (offset + 1))) = length bs" and "take (length bs) (drop (offset + 2) data) = bs"
proof -
  have d: "drop (offset + 2) data = bs @ rest" using drop_past [OF assms(1)] by (simp add: put_len_def)
  then show "take (length bs) (drop (offset + 2) data) = bs" by simp
  show "unat (get16 (data ! offset) (data ! (offset + 1))) = length bs"
    unfolding put_len_at [OF assms(1)] by (rule get16_len [OF assms(2)])
qed

lemma readPropString_at:
  assumes "drop offset data = put_len (length s) @ bytes_of s @ rest" and "length s < 65536"
    and "offset + 2 + length s \<le> end'" and "end' \<le> length data"
  shows "readPropString data offset end' = Inr (s, 2 + length s)"
  using assms length_at [of offset data "bytes_of s" rest] by (simp add: readPropString_def)

lemma readPropBinaryData_at:
  assumes "drop offset data = put_len (length bs) @ bs @ rest" and "length bs < 65536"
    and "offset + 2 + length bs \<le> end'" and "end' \<le> length data"
  shows "readPropBinaryData data offset end' = Inr (bs, 2 + length bs)"
  using assms length_at [of offset data bs rest] by (simp add: readPropBinaryData_def)

lemma reads_byte:
  assumes "\<And>data offset end' p. decode_property i data offset end' p = set_with upd (readByte data offset end') p"
  shows "reads (appendByteProp [] i v) (\<lambda>p. case v of None \<Rightarrow> p | Some x \<Rightarrow> upd x p)"
proof (cases v)
  case (Some x)
  have "reads (i # [x]) (upd x)" by (rule reads_item) (simp add: assms set_with_def readByte_at)
  then show ?thesis by (simp add: Some appendByteProp_def)
qed (simp add: appendByteProp_def reads_Nil)

lemma reads_uint16:
  assumes "\<And>data offset end' p. decode_property i data offset end' p = set_with upd (readUint16 data offset end') p"
  shows "reads (appendUint16Prop [] i v) (\<lambda>p. case v of None \<Rightarrow> p | Some x \<Rightarrow> upd x p)"
proof (cases v)
  case (Some x)
  have "length (put16 x) = 2" by (simp add: put16_def put_len_def)
  then have "reads (i # put16 x) (upd x)" by (intro reads_item) (simp add: assms set_with_def readUint16_at)
  then show ?thesis by (simp add: Some appendUint16Prop_def)
qed (simp add: appendUint16Prop_def reads_Nil)

lemma reads_uint32:
  assumes "\<And>data offset end' p. decode_property i data offset end' p = set_with upd (readUint32 data offset end') p"
  shows "reads (appendUint32Prop [] i v) (\<lambda>p. case v of None \<Rightarrow> p | Some x \<Rightarrow> upd x p)"
proof (cases v)
  case (Some x)
  have "length (put32 x) = 4" by (simp add: put32_def put_len_def)
  then have "reads (i # put32 x) (upd x)" by (intro reads_item) (simp add: assms set_with_def readUint32_at)
  then show ?thesis by (simp add: Some appendUint32Prop_def)
qed (simp add: appendUint32Prop_def reads_Nil)

lemma reads_string:
  assumes "\<And>data offset end' p. decode_property i data offset end' p = set_with upd (readPropString data offset end') p"
    and "pred_option (\<lambda>s. length s < 65536) v"
  shows "reads (appendStringProp [] i v) (\<lambda>p. case v of None \<Rightarrow> p | Some x \<Rightarrow> upd x p)"
proof (cases v)
  case (Some x)
  have "length (put_len (length x)) = 2" by (simp add: put_len_def)
  then have "reads (i # put_len (length x) @ bytes_of x) (upd x)"
    using assms(2) by (intro reads_item) (simp add: assms(1) Some set_with_def readPropString_at)
  then show ?thesis by (simp add: Some appendStringProp_def appendUTF8_def)
qed (simp add: appendStringProp_def reads_Nil)

lemma reads_binary:
  assumes "\<And>data offset end' p. decode_property i data offset end' p = set_with upd (readPropBinaryData data offset end') p"
    and "pred_option (\<lambda>s. length s < 65536) v"
  shows "reads (appendBinaryProp [] i v) (\<lambda>p. case v of None \<Rightarrow> p | Some x \<Rightarrow> upd x p)"
proof (cases v)
  case (Some x)
  have "length (put_len (length x)) = 2" by (simp add: put_len_def)
  then have "reads (i # put_len (length x) @ x) (upd x)"
    using assms(2) by (intro reads_item) (simp add: assms(1) Some set_with_def readPropBinaryData_at)
  then show ?thesis by (simp add: Some appendBinaryProp_def)
qed (simp add: appendBinaryProp_def reads_Nil)

lemma reads_varint:
  assumes "\<And>data offset end' p. decode_property i data offset end' p = set_with upd (decodeVarInt data offset) p" and "0 \<le> n" and "n < 2 ^ 28"
  shows "reads (i # encodeVarInt n) (upd n)"
  by (rule reads_item) (simp add: assms(1) set_with_def decodeVarInt_encode [OF _ assms(2,3)])

lemma reads_user:
  assumes "length (up_Key u) < 65536" and "length (up_Value u) < 65536"
  shows "reads (appendUserProp [] u) (\<lambda>p. p\<lparr>UserProperties := UserProperties p @ [u]\<rparr>)"
proof -
  let ?k = "put_len (length (up_Key u)) @ bytes_of (up_Key u)" and ?v = "put_len (length (up_Value u)) @ bytes_of (up_Value u)"
  have l: "length ?k = 2 + length (up_Key u)" "length ?v = 2 + length (up_Value u)" by (simp_all add: put_len_def)
  have "reads (0x26 # ?k @ ?v) (\<lambda>p. p\<lparr>UserProperties := UserProperties p @ [u]\<rparr>)"
  proof (rule reads_item)
    fix data offset end' rest p
    assume d: "drop offset data = (?k @ ?v) @ rest" and e: "offset + length (?k @ ?v) \<le> end'" "end' \<le> length data"
    have k: "readPropString data offset end' = Inr (up_Key u, 2 + length (up_Key u))"
      by (rule readPropString_at [where rest = "?v @ rest"]) (use d e l assms in simp_all)
    have "drop (offset + length ?k) data = ?v @ rest" by (rule drop_past) (use d in simp)
    then have d': "drop (offset + (2 + length (up_Key u))) data = put_len (length (up_Value u)) @ bytes_of (up_Value u) @ rest" using l by simp
    have "offset + (2 + length (up_Key u)) + 2 + length (up_Value u) \<le> end'" using e(1) l by simp
    from readPropString_at [OF d' assms(2) this e(2)]
    have "decode_user_property data offset end' = Inr (u, 2 + length (up_Key u) + (2 + length (up_Value u)))"
      by (simp add: decode_user_property_def k)
    then show "decode_property 0x26 data offset end' p = Inr (p\<lparr>UserProperties := UserProperties p @ [u]\<rparr>, length (?k @ ?v))"
      using l by (simp add: decode_property_def set_with_def)
  qed
  then show ?thesis by (simp add: appendUserProp_def appendUTF8_def)
qed

text \<open>What fits the wire: texts and binary data with a 16-bit length, and a subscription identifier of at most four bytes.\<close>

definition short :: "'a list option \<Rightarrow> bool" where
  "short v \<longleftrightarrow> pred_option (\<lambda>s. length s < 65536) v"

definition props_ok :: "Properties \<Rightarrow> bool" where
  "props_ok p \<longleftrightarrow> short (AssignedClientIdentifier p) \<and> short (ReasonString p) \<and> short (ServerReference p) \<and> short (ResponseInformation p) \<and>
     short (ResponseTopic p) \<and> short (CorrelationData p) \<and> short (ContentType p) \<and> short (AuthenticationMethod p) \<and>
     short (AuthenticationData p) \<and>
     pred_option (\<lambda>i. uint i < 2 ^ 28) (SubscriptionIdentifier p) \<and>
     list_all (\<lambda>u. length (up_Key u) < 65536 \<and> length (up_Value u) < 65536) (UserProperties p)"

lemma append_prop:
  "buf @ appendByteProp [] i a = appendByteProp buf i a" "buf @ appendUint16Prop [] i b = appendUint16Prop buf i b"
  "buf @ appendUint32Prop [] i c = appendUint32Prop buf i c" "buf @ appendStringProp [] i s = appendStringProp buf i s"
  "buf @ appendBinaryProp [] i d = appendBinaryProp buf i d" "buf @ appendUserProp [] u = appendUserProp buf u"
  "buf @ (case v of None \<Rightarrow> [] | Some x \<Rightarrow> f x) = (case v of None \<Rightarrow> buf | Some x \<Rightarrow> buf @ f x)"
  by (simp_all add: appendByteProp_def appendUint16Prop_def appendUint32Prop_def appendStringProp_def appendBinaryProp_def
      appendUserProp_def appendUTF8_def split: option.split)

lemma append_users: "buf @ concat (map (appendUserProp []) us) = foldl appendUserProp buf us"
proof (induction us arbitrary: buf)
  case (Cons u us)
  have "buf @ concat (map (appendUserProp []) (u # us)) = (buf @ appendUserProp [] u) @ concat (map (appendUserProp []) us)" by simp
  also have "\<dots> = foldl appendUserProp buf (u # us)" unfolding append_prop(6) Cons.IH by simp
  finally show ?case .
qed simp

lemma reads_users:
  "list_all (\<lambda>u. length (up_Key u) < 65536 \<and> length (up_Value u) < 65536) us \<Longrightarrow>
   reads (concat (map (appendUserProp []) us)) (\<lambda>p. p\<lparr>UserProperties := UserProperties p @ us\<rparr>)"
proof (induction us)
  case (Cons u us)
  then have "reads (concat (map (appendUserProp []) us)) (\<lambda>p. p\<lparr>UserProperties := UserProperties p @ us\<rparr>)" by simp
  from reads_append [OF reads_user [of u] this] Cons.prems show ?case by simp
qed (simp add: reads_Nil)

lemma reads_subscription_identifier:
  assumes "pred_option (\<lambda>i. uint i < 2 ^ 28) v"
  shows "reads (case v of None \<Rightarrow> [] | Some v \<Rightarrow> [0x0B] @ encodeVarInt (uint v))
    (\<lambda>p. case v of None \<Rightarrow> p | Some x \<Rightarrow> p\<lparr>SubscriptionIdentifier := Some x\<rparr>)"
proof (cases v)
  case (Some x)
  have "reads (0x0B # encodeVarInt (uint x)) (\<lambda>p. p\<lparr>SubscriptionIdentifier := Some (word_of_int (uint x))\<rparr>)"
    by (rule reads_varint [where upd = "\<lambda>v p. p\<lparr>SubscriptionIdentifier := Some (word_of_int v)\<rparr>"])
      (use assms Some in \<open>simp_all add: decode_property_def\<close>)
  then show ?thesis by (simp add: Some)
qed (simp add: reads_Nil)

text \<open>The encoding in the order of the fields, and the effect of reading it.\<close>

lemma props_body_append: "props_body p =
    appendUint32Prop [] 0x11 (SessionExpiryInterval p) @
    appendUint16Prop [] 0x21 (ReceiveMaximum p) @
    appendByteProp [] 0x24 (MaximumQoS p) @
    appendByteProp [] 0x25 (RetainAvailable p) @
    appendUint32Prop [] 0x27 (MaximumPacketSize p) @
    appendStringProp [] 0x12 (AssignedClientIdentifier p) @
    appendUint16Prop [] 0x22 (TopicAliasMaximum p) @
    appendStringProp [] 0x1F (ReasonString p) @
    appendByteProp [] 0x28 (WildcardSubAvailable p) @
    appendByteProp [] 0x29 (SubIdentifierAvailable p) @
    appendByteProp [] 0x2A (SharedSubAvailable p) @
    appendUint16Prop [] 0x13 (ServerKeepAlive p) @
    appendStringProp [] 0x1C (ServerReference p) @
    appendStringProp [] 0x1A (ResponseInformation p) @
    appendByteProp [] 0x01 (PayloadFormatIndicator p) @
    appendUint32Prop [] 0x02 (MessageExpiryInterval p) @
    appendUint16Prop [] 0x23 (TopicAlias p) @
    appendStringProp [] 0x08 (ResponseTopic p) @
    appendBinaryProp [] 0x09 (CorrelationData p) @
    appendStringProp [] 0x03 (ContentType p) @
    (case SubscriptionIdentifier p of None \<Rightarrow> [] | Some v \<Rightarrow> [0x0B] @ encodeVarInt (uint v)) @
    appendUint32Prop [] 0x18 (WillDelayInterval p) @
    appendStringProp [] 0x15 (AuthenticationMethod p) @
    appendBinaryProp [] 0x16 (AuthenticationData p) @
    appendByteProp [] 0x17 (RequestProblemInfo p) @
    appendByteProp [] 0x19 (RequestResponseInfo p) @
    concat (map (appendUserProp []) (UserProperties p))"
  unfolding props_body_def Let_def
  by (cases "SubscriptionIdentifier p")
    (simp only: option.case append_Nil, simp only: append.assoc [symmetric], simp only: append_prop append_users)+

definition or_else :: "'a option \<Rightarrow> 'a option \<Rightarrow> 'a option" where
  "or_else v d = (case v of None \<Rightarrow> d | Some x \<Rightarrow> Some x)"

lemma or_else_simps [simp]: "or_else None d = d" "or_else (Some x) d = Some x" "or_else v None = v"
  by (simp_all add: or_else_def split: option.split)

lemma decode_property_ids:
  "decode_property 0x11 data offset end' q = set_with (\<lambda>v p. p\<lparr>SessionExpiryInterval := Some v\<rparr>) (readUint32 data offset end') q"
  "decode_property 0x21 data offset end' q = set_with (\<lambda>v p. p\<lparr>ReceiveMaximum := Some v\<rparr>) (readUint16 data offset end') q"
  "decode_property 0x24 data offset end' q = set_with (\<lambda>v p. p\<lparr>MaximumQoS := Some v\<rparr>) (readByte data offset end') q"
  "decode_property 0x25 data offset end' q = set_with (\<lambda>v p. p\<lparr>RetainAvailable := Some v\<rparr>) (readByte data offset end') q"
  "decode_property 0x27 data offset end' q = set_with (\<lambda>v p. p\<lparr>MaximumPacketSize := Some v\<rparr>) (readUint32 data offset end') q"
  "decode_property 0x12 data offset end' q = set_with (\<lambda>v p. p\<lparr>AssignedClientIdentifier := Some v\<rparr>) (readPropString data offset end') q"
  "decode_property 0x22 data offset end' q = set_with (\<lambda>v p. p\<lparr>TopicAliasMaximum := Some v\<rparr>) (readUint16 data offset end') q"
  "decode_property 0x1F data offset end' q = set_with (\<lambda>v p. p\<lparr>ReasonString := Some v\<rparr>) (readPropString data offset end') q"
  "decode_property 0x28 data offset end' q = set_with (\<lambda>v p. p\<lparr>WildcardSubAvailable := Some v\<rparr>) (readByte data offset end') q"
  "decode_property 0x29 data offset end' q = set_with (\<lambda>v p. p\<lparr>SubIdentifierAvailable := Some v\<rparr>) (readByte data offset end') q"
  "decode_property 0x2A data offset end' q = set_with (\<lambda>v p. p\<lparr>SharedSubAvailable := Some v\<rparr>) (readByte data offset end') q"
  "decode_property 0x13 data offset end' q = set_with (\<lambda>v p. p\<lparr>ServerKeepAlive := Some v\<rparr>) (readUint16 data offset end') q"
  "decode_property 0x1C data offset end' q = set_with (\<lambda>v p. p\<lparr>ServerReference := Some v\<rparr>) (readPropString data offset end') q"
  "decode_property 0x1A data offset end' q = set_with (\<lambda>v p. p\<lparr>ResponseInformation := Some v\<rparr>) (readPropString data offset end') q"
  "decode_property 0x01 data offset end' q = set_with (\<lambda>v p. p\<lparr>PayloadFormatIndicator := Some v\<rparr>) (readByte data offset end') q"
  "decode_property 0x02 data offset end' q = set_with (\<lambda>v p. p\<lparr>MessageExpiryInterval := Some v\<rparr>) (readUint32 data offset end') q"
  "decode_property 0x23 data offset end' q = set_with (\<lambda>v p. p\<lparr>TopicAlias := Some v\<rparr>) (readUint16 data offset end') q"
  "decode_property 0x08 data offset end' q = set_with (\<lambda>v p. p\<lparr>ResponseTopic := Some v\<rparr>) (readPropString data offset end') q"
  "decode_property 0x09 data offset end' q = set_with (\<lambda>v p. p\<lparr>CorrelationData := Some v\<rparr>) (readPropBinaryData data offset end') q"
  "decode_property 0x03 data offset end' q = set_with (\<lambda>v p. p\<lparr>ContentType := Some v\<rparr>) (readPropString data offset end') q"
  "decode_property 0x0B data offset end' q = set_with (\<lambda>v p. p\<lparr>SubscriptionIdentifier := Some (word_of_int v)\<rparr>) (decodeVarInt data offset) q"
  "decode_property 0x18 data offset end' q = set_with (\<lambda>v p. p\<lparr>WillDelayInterval := Some v\<rparr>) (readUint32 data offset end') q"
  "decode_property 0x15 data offset end' q = set_with (\<lambda>v p. p\<lparr>AuthenticationMethod := Some v\<rparr>) (readPropString data offset end') q"
  "decode_property 0x16 data offset end' q = set_with (\<lambda>v p. p\<lparr>AuthenticationData := Some v\<rparr>) (readPropBinaryData data offset end') q"
  "decode_property 0x17 data offset end' q = set_with (\<lambda>v p. p\<lparr>RequestProblemInfo := Some v\<rparr>) (readByte data offset end') q"
  "decode_property 0x19 data offset end' q = set_with (\<lambda>v p. p\<lparr>RequestResponseInfo := Some v\<rparr>) (readByte data offset end') q"
  by (simp_all add: decode_property_def)

text \<open>One lemma for each field, in the order of the encoding.\<close>

lemma or_else_fun: "or_else None = (\<lambda>d. d)" "or_else (Some x) = (\<lambda>_. Some x)"
  by (simp_all add: or_else_def fun_eq_iff)

lemma or_else_update:
  "(case v17 of None \<Rightarrow> q | Some x \<Rightarrow> q\<lparr>SessionExpiryInterval := Some x\<rparr>) = SessionExpiryInterval_update (or_else v17) q"
  "(case v33 of None \<Rightarrow> q | Some x \<Rightarrow> q\<lparr>ReceiveMaximum := Some x\<rparr>) = ReceiveMaximum_update (or_else v33) q"
  "(case v36 of None \<Rightarrow> q | Some x \<Rightarrow> q\<lparr>MaximumQoS := Some x\<rparr>) = MaximumQoS_update (or_else v36) q"
  "(case v37 of None \<Rightarrow> q | Some x \<Rightarrow> q\<lparr>RetainAvailable := Some x\<rparr>) = RetainAvailable_update (or_else v37) q"
  "(case v39 of None \<Rightarrow> q | Some x \<Rightarrow> q\<lparr>MaximumPacketSize := Some x\<rparr>) = MaximumPacketSize_update (or_else v39) q"
  "(case v18 of None \<Rightarrow> q | Some x \<Rightarrow> q\<lparr>AssignedClientIdentifier := Some x\<rparr>) = AssignedClientIdentifier_update (or_else v18) q"
  "(case v34 of None \<Rightarrow> q | Some x \<Rightarrow> q\<lparr>TopicAliasMaximum := Some x\<rparr>) = TopicAliasMaximum_update (or_else v34) q"
  "(case v31 of None \<Rightarrow> q | Some x \<Rightarrow> q\<lparr>ReasonString := Some x\<rparr>) = ReasonString_update (or_else v31) q"
  "(case v40 of None \<Rightarrow> q | Some x \<Rightarrow> q\<lparr>WildcardSubAvailable := Some x\<rparr>) = WildcardSubAvailable_update (or_else v40) q"
  "(case v41 of None \<Rightarrow> q | Some x \<Rightarrow> q\<lparr>SubIdentifierAvailable := Some x\<rparr>) = SubIdentifierAvailable_update (or_else v41) q"
  "(case v42 of None \<Rightarrow> q | Some x \<Rightarrow> q\<lparr>SharedSubAvailable := Some x\<rparr>) = SharedSubAvailable_update (or_else v42) q"
  "(case v19 of None \<Rightarrow> q | Some x \<Rightarrow> q\<lparr>ServerKeepAlive := Some x\<rparr>) = ServerKeepAlive_update (or_else v19) q"
  "(case v28 of None \<Rightarrow> q | Some x \<Rightarrow> q\<lparr>ServerReference := Some x\<rparr>) = ServerReference_update (or_else v28) q"
  "(case v26 of None \<Rightarrow> q | Some x \<Rightarrow> q\<lparr>ResponseInformation := Some x\<rparr>) = ResponseInformation_update (or_else v26) q"
  "(case v1 of None \<Rightarrow> q | Some x \<Rightarrow> q\<lparr>PayloadFormatIndicator := Some x\<rparr>) = PayloadFormatIndicator_update (or_else v1) q"
  "(case v2 of None \<Rightarrow> q | Some x \<Rightarrow> q\<lparr>MessageExpiryInterval := Some x\<rparr>) = MessageExpiryInterval_update (or_else v2) q"
  "(case v35 of None \<Rightarrow> q | Some x \<Rightarrow> q\<lparr>TopicAlias := Some x\<rparr>) = TopicAlias_update (or_else v35) q"
  "(case v8 of None \<Rightarrow> q | Some x \<Rightarrow> q\<lparr>ResponseTopic := Some x\<rparr>) = ResponseTopic_update (or_else v8) q"
  "(case v9 of None \<Rightarrow> q | Some x \<Rightarrow> q\<lparr>CorrelationData := Some x\<rparr>) = CorrelationData_update (or_else v9) q"
  "(case v3 of None \<Rightarrow> q | Some x \<Rightarrow> q\<lparr>ContentType := Some x\<rparr>) = ContentType_update (or_else v3) q"
  "(case v11 of None \<Rightarrow> q | Some x \<Rightarrow> q\<lparr>SubscriptionIdentifier := Some x\<rparr>) = SubscriptionIdentifier_update (or_else v11) q"
  "(case v24 of None \<Rightarrow> q | Some x \<Rightarrow> q\<lparr>WillDelayInterval := Some x\<rparr>) = WillDelayInterval_update (or_else v24) q"
  "(case v21 of None \<Rightarrow> q | Some x \<Rightarrow> q\<lparr>AuthenticationMethod := Some x\<rparr>) = AuthenticationMethod_update (or_else v21) q"
  "(case v22 of None \<Rightarrow> q | Some x \<Rightarrow> q\<lparr>AuthenticationData := Some x\<rparr>) = AuthenticationData_update (or_else v22) q"
  "(case v23 of None \<Rightarrow> q | Some x \<Rightarrow> q\<lparr>RequestProblemInfo := Some x\<rparr>) = RequestProblemInfo_update (or_else v23) q"
  "(case v25 of None \<Rightarrow> q | Some x \<Rightarrow> q\<lparr>RequestResponseInfo := Some x\<rparr>) = RequestResponseInfo_update (or_else v25) q"
  by (simp_all add: or_else_fun split: option.split)

lemma reads_props:
  assumes "props_ok p"
  shows "\<exists>f. reads (props_body p) f \<and> f no_Properties = p"
proof -
  note ok = assms [unfolded props_ok_def short_def]
  have r1: "reads (appendUint32Prop [] 0x11 (SessionExpiryInterval p)) (\<lambda>q. SessionExpiryInterval_update (or_else (SessionExpiryInterval p)) q)"
    by (rule reads_uint32 [OF decode_property_ids(1), unfolded or_else_update])
  have r2: "reads (appendUint16Prop [] 0x21 (ReceiveMaximum p)) (\<lambda>q. ReceiveMaximum_update (or_else (ReceiveMaximum p)) q)"
    by (rule reads_uint16 [OF decode_property_ids(2), unfolded or_else_update])
  have r3: "reads (appendByteProp [] 0x24 (MaximumQoS p)) (\<lambda>q. MaximumQoS_update (or_else (MaximumQoS p)) q)"
    by (rule reads_byte [OF decode_property_ids(3), unfolded or_else_update])
  have r4: "reads (appendByteProp [] 0x25 (RetainAvailable p)) (\<lambda>q. RetainAvailable_update (or_else (RetainAvailable p)) q)"
    by (rule reads_byte [OF decode_property_ids(4), unfolded or_else_update])
  have r5: "reads (appendUint32Prop [] 0x27 (MaximumPacketSize p)) (\<lambda>q. MaximumPacketSize_update (or_else (MaximumPacketSize p)) q)"
    by (rule reads_uint32 [OF decode_property_ids(5), unfolded or_else_update])
  have r6: "reads (appendStringProp [] 0x12 (AssignedClientIdentifier p)) (\<lambda>q. AssignedClientIdentifier_update (or_else (AssignedClientIdentifier p)) q)"
    by (rule reads_string [OF decode_property_ids(6), unfolded or_else_update]) (use ok in blast)
  have r7: "reads (appendUint16Prop [] 0x22 (TopicAliasMaximum p)) (\<lambda>q. TopicAliasMaximum_update (or_else (TopicAliasMaximum p)) q)"
    by (rule reads_uint16 [OF decode_property_ids(7), unfolded or_else_update])
  have r8: "reads (appendStringProp [] 0x1F (ReasonString p)) (\<lambda>q. ReasonString_update (or_else (ReasonString p)) q)"
    by (rule reads_string [OF decode_property_ids(8), unfolded or_else_update]) (use ok in blast)
  have r9: "reads (appendByteProp [] 0x28 (WildcardSubAvailable p)) (\<lambda>q. WildcardSubAvailable_update (or_else (WildcardSubAvailable p)) q)"
    by (rule reads_byte [OF decode_property_ids(9), unfolded or_else_update])
  have r10: "reads (appendByteProp [] 0x29 (SubIdentifierAvailable p)) (\<lambda>q. SubIdentifierAvailable_update (or_else (SubIdentifierAvailable p)) q)"
    by (rule reads_byte [OF decode_property_ids(10), unfolded or_else_update])
  have r11: "reads (appendByteProp [] 0x2A (SharedSubAvailable p)) (\<lambda>q. SharedSubAvailable_update (or_else (SharedSubAvailable p)) q)"
    by (rule reads_byte [OF decode_property_ids(11), unfolded or_else_update])
  have r12: "reads (appendUint16Prop [] 0x13 (ServerKeepAlive p)) (\<lambda>q. ServerKeepAlive_update (or_else (ServerKeepAlive p)) q)"
    by (rule reads_uint16 [OF decode_property_ids(12), unfolded or_else_update])
  have r13: "reads (appendStringProp [] 0x1C (ServerReference p)) (\<lambda>q. ServerReference_update (or_else (ServerReference p)) q)"
    by (rule reads_string [OF decode_property_ids(13), unfolded or_else_update]) (use ok in blast)
  have r14: "reads (appendStringProp [] 0x1A (ResponseInformation p)) (\<lambda>q. ResponseInformation_update (or_else (ResponseInformation p)) q)"
    by (rule reads_string [OF decode_property_ids(14), unfolded or_else_update]) (use ok in blast)
  have r15: "reads (appendByteProp [] 0x01 (PayloadFormatIndicator p)) (\<lambda>q. PayloadFormatIndicator_update (or_else (PayloadFormatIndicator p)) q)"
    by (rule reads_byte [OF decode_property_ids(15), unfolded or_else_update])
  have r16: "reads (appendUint32Prop [] 0x02 (MessageExpiryInterval p)) (\<lambda>q. MessageExpiryInterval_update (or_else (MessageExpiryInterval p)) q)"
    by (rule reads_uint32 [OF decode_property_ids(16), unfolded or_else_update])
  have r17: "reads (appendUint16Prop [] 0x23 (TopicAlias p)) (\<lambda>q. TopicAlias_update (or_else (TopicAlias p)) q)"
    by (rule reads_uint16 [OF decode_property_ids(17), unfolded or_else_update])
  have r18: "reads (appendStringProp [] 0x08 (ResponseTopic p)) (\<lambda>q. ResponseTopic_update (or_else (ResponseTopic p)) q)"
    by (rule reads_string [OF decode_property_ids(18), unfolded or_else_update]) (use ok in blast)
  have r19: "reads (appendBinaryProp [] 0x09 (CorrelationData p)) (\<lambda>q. CorrelationData_update (or_else (CorrelationData p)) q)"
    by (rule reads_binary [OF decode_property_ids(19), unfolded or_else_update]) (use ok in blast)
  have r20: "reads (appendStringProp [] 0x03 (ContentType p)) (\<lambda>q. ContentType_update (or_else (ContentType p)) q)"
    by (rule reads_string [OF decode_property_ids(20), unfolded or_else_update]) (use ok in blast)
  have r21: "reads (case SubscriptionIdentifier p of None \<Rightarrow> [] | Some v \<Rightarrow> [0x0B] @ encodeVarInt (uint v)) (\<lambda>q. SubscriptionIdentifier_update (or_else (SubscriptionIdentifier p)) q)"
    by (rule reads_subscription_identifier [unfolded or_else_update]) (use ok in blast)
  have r22: "reads (appendUint32Prop [] 0x18 (WillDelayInterval p)) (\<lambda>q. WillDelayInterval_update (or_else (WillDelayInterval p)) q)"
    by (rule reads_uint32 [OF decode_property_ids(22), unfolded or_else_update])
  have r23: "reads (appendStringProp [] 0x15 (AuthenticationMethod p)) (\<lambda>q. AuthenticationMethod_update (or_else (AuthenticationMethod p)) q)"
    by (rule reads_string [OF decode_property_ids(23), unfolded or_else_update]) (use ok in blast)
  have r24: "reads (appendBinaryProp [] 0x16 (AuthenticationData p)) (\<lambda>q. AuthenticationData_update (or_else (AuthenticationData p)) q)"
    by (rule reads_binary [OF decode_property_ids(24), unfolded or_else_update]) (use ok in blast)
  have r25: "reads (appendByteProp [] 0x17 (RequestProblemInfo p)) (\<lambda>q. RequestProblemInfo_update (or_else (RequestProblemInfo p)) q)"
    by (rule reads_byte [OF decode_property_ids(25), unfolded or_else_update])
  have r26: "reads (appendByteProp [] 0x19 (RequestResponseInfo p)) (\<lambda>q. RequestResponseInfo_update (or_else (RequestResponseInfo p)) q)"
    by (rule reads_byte [OF decode_property_ids(26), unfolded or_else_update])
  have u: "reads (concat (map (appendUserProp []) (UserProperties p))) (\<lambda>q. q\<lparr>UserProperties := UserProperties q @ UserProperties p\<rparr>)"
    by (rule reads_users) (use ok in blast)
  note s26 = reads_append [OF r26 u]
  note s25 = reads_append [OF r25 s26]
  note s24 = reads_append [OF r24 s25]
  note s23 = reads_append [OF r23 s24]
  note s22 = reads_append [OF r22 s23]
  note s21 = reads_append [OF r21 s22]
  note s20 = reads_append [OF r20 s21]
  note s19 = reads_append [OF r19 s20]
  note s18 = reads_append [OF r18 s19]
  note s17 = reads_append [OF r17 s18]
  note s16 = reads_append [OF r16 s17]
  note s15 = reads_append [OF r15 s16]
  note s14 = reads_append [OF r14 s15]
  note s13 = reads_append [OF r13 s14]
  note s12 = reads_append [OF r12 s13]
  note s11 = reads_append [OF r11 s12]
  note s10 = reads_append [OF r10 s11]
  note s9 = reads_append [OF r9 s10]
  note s8 = reads_append [OF r8 s9]
  note s7 = reads_append [OF r7 s8]
  note s6 = reads_append [OF r6 s7]
  note s5 = reads_append [OF r5 s6]
  note s4 = reads_append [OF r4 s5]
  note s3 = reads_append [OF r3 s4]
  note s2 = reads_append [OF r2 s3]
  note s1 = reads_append [OF r1 s2]
  show ?thesis by (rule exI, rule conjI, rule s1 [folded props_body_append]) simp
qed

lemma props_loop:
  assumes "props_ok p" and "drop offset data = props_body p @ rest" and "offset + length (props_body p) \<le> length data"
  shows "decode_props_loop data offset (offset + length (props_body p)) no_Properties = Inr p"
proof -
  obtain f where f: "reads (props_body p) f" "f no_Properties = p" using reads_props [OF assms(1)] by blast
  have "decode_props_loop data offset (offset + length (props_body p)) no_Properties =
      decode_props_loop data (offset + length (props_body p)) (offset + length (props_body p)) p"
    using readsD [OF f(1) assms(2) order_refl assms(3), of no_Properties] f(2) by simp
  then show ?thesis by (simp add: decode_props_loop.simps)
qed

lemma DecodeProperties_at:
  assumes "props_ok p" and "drop offset data = props_body p @ rest"
  shows "DecodeProperties (drop offset data) (int (length (props_body p))) = Inr p"
proof (cases "props_body p = []")
  case True
  have "decode_props_loop [] 0 (0 + length (props_body p)) no_Properties = Inr p"
    by (rule props_loop [OF assms(1), of 0 "[]" "[]"]) (simp_all add: True)
  then show ?thesis by (simp add: DecodeProperties_def True decode_props_loop.simps)
next
  case False
  have "decode_props_loop (drop offset data) 0 (0 + length (props_body p)) no_Properties = Inr p"
    by (rule props_loop [OF assms(1), of 0 _ rest]) (simp_all add: assms(2))
  then show ?thesis using False assms(2) by (simp add: DecodeProperties_def)
qed

end
