(* ===== verification/Packets.thy ===== *)
theory Packets
  imports MqttProperties
begin

section \<open>The control packets of MQTT\<close>

text \<open>
  Models the variable headers and payloads of \<^verbatim>\<open>internal/codec\<close>: \<^verbatim>\<open>publish.go\<close>, \<^verbatim>\<open>connect.go\<close>, \<^verbatim>\<open>subscribe.go\<close>,
  \<^verbatim>\<open>unsubscribe.go\<close>, \<^verbatim>\<open>disconnect.go\<close>, \<^verbatim>\<open>ping.go\<close> and \<^verbatim>\<open>packets.go\<close>, on the bytes behind the fixed header.
\<close>

subsection \<open>Types and fields\<close>

text \<open>Packet types, and the reading of strings and binary data outside properties.\<close>

abbreviation (input) "CONNECT \<equiv> 1 :: octet"
abbreviation (input) "CONNACK \<equiv> 2 :: octet"
abbreviation (input) "PUBLISH \<equiv> 3 :: octet"
abbreviation (input) "PUBACK \<equiv> 4 :: octet"
abbreviation (input) "PUBREC \<equiv> 5 :: octet"
abbreviation (input) "PUBREL \<equiv> 6 :: octet"
abbreviation (input) "PUBCOMP \<equiv> 7 :: octet"
abbreviation (input) "SUBSCRIBE \<equiv> 8 :: octet"
abbreviation (input) "SUBACK \<equiv> 9 :: octet"
abbreviation (input) "UNSUBSCRIBE \<equiv> 10 :: octet"
abbreviation (input) "UNSUBACK \<equiv> 11 :: octet"
abbreviation (input) "PINGREQ \<equiv> 12 :: octet"
abbreviation (input) "PINGRESP \<equiv> 13 :: octet"
abbreviation (input) "DISCONNECT \<equiv> 14 :: octet"

definition packet_names :: "(octet \<times> string) list" where
  "packet_names = [(CONNECT, ''CONNECT''), (CONNACK, ''CONNACK''), (PUBLISH, ''PUBLISH''), (PUBACK, ''PUBACK''), (PUBREC, ''PUBREC''),
     (PUBREL, ''PUBREL''), (PUBCOMP, ''PUBCOMP''), (SUBSCRIBE, ''SUBSCRIBE''), (SUBACK, ''SUBACK''), (UNSUBSCRIBE, ''UNSUBSCRIBE''),
     (UNSUBACK, ''UNSUBACK''), (PINGREQ, ''PINGREQ''), (PINGRESP, ''PINGRESP''), (DISCONNECT, ''DISCONNECT'')]"

definition PacketTypeName :: "octet \<Rightarrow> string" where
  "PacketTypeName t = (case map_of packet_names t of Some name \<Rightarrow> name | None \<Rightarrow> ''UNKNOWN('' @ show_nat (unat t) @ '')'')"

definition readUTF8String :: "octet list \<Rightarrow> nat \<Rightarrow> codec_error + string \<times> nat" where
  "readUTF8String data offset =
     (if offset + 2 > length data then Inl (ErrMalformedPacket ''insufficient data for UTF-8 string length'')
      else let len = unat (get16 (data ! offset) (data ! (offset + 1))) in
        if offset + 2 + len > length data then Inl (ErrMalformedPacket ''insufficient data for UTF-8 string'')
        else Inr (string_of (take len (drop (offset + 2) data)), 2 + len))"

definition readBinaryData :: "octet list \<Rightarrow> nat \<Rightarrow> codec_error + octet list \<times> nat" where
  "readBinaryData data offset =
     (if offset + 2 > length data then Inl (ErrMalformedPacket ''insufficient data for binary data length'')
      else let len = unat (get16 (data ! offset) (data ! (offset + 1))) in
        if offset + 2 + len > length data then Inl (ErrMalformedPacket ''insufficient data for binary data'')
        else Inr (take len (drop (offset + 2) data), 2 + len))"

text \<open>\<open>and_then\<close> is the test for an error after each call; \<open>wrap\<close> is \<^verbatim>\<open>fmt.Errorf("...: %w", err)\<close>.\<close>

definition and_then :: "'e + 'a \<Rightarrow> ('a \<Rightarrow> 'e + 'b) \<Rightarrow> 'e + 'b" where
  "and_then r f = (case r of Inl e \<Rightarrow> Inl e | Inr x \<Rightarrow> f x)"

lemma and_then_simps [simp]: "and_then (Inl e) f = Inl e" "and_then (Inr x) f = f x"
  by (simp_all add: and_then_def)

definition wrap :: "string \<Rightarrow> codec_error + 'a \<Rightarrow> codec_error + 'a" where
  "wrap msg r = (case r of Inl e \<Rightarrow> Inl (Wrapped msg e) | Inr x \<Rightarrow> Inr x)"

lemma wrap_Inr [simp]: "wrap msg (Inr x) = Inr x"
  by (simp add: wrap_def)

text \<open>
  The reading of a length and of the properties after it, which most decoders have; the result has the offset behind
  them.  The two functions wrap the errors.
\<close>

definition read_props :: "(codec_error + int \<times> nat \<Rightarrow> codec_error + int \<times> nat) \<Rightarrow> (codec_error + Properties \<Rightarrow> codec_error + Properties) \<Rightarrow>
    octet list \<Rightarrow> nat \<Rightarrow> codec_error + Properties \<times> nat" where
  "read_props w1 w2 data offset =
     and_then (w1 (decodeVarInt data offset)) (\<lambda>(propLen, n).
     and_then (w2 (DecodeProperties (drop (offset + n) data) propLen)) (\<lambda>props.
     Inr (props, offset + n + nat propLen)))"

subsection \<open>PUBLISH and its acknowledgements\<close>

record PublishPacket =
  pp_Topic :: string
  pp_PacketID :: "16 word"
  pp_QoS :: octet
  pp_Dup :: bool
  pp_Retain :: bool
  pp_Payload :: "octet list"
  pp_Properties :: "Properties option"
  pp_ProtocolVersion :: octet

definition DecodePublishPacket :: "octet list \<Rightarrow> octet \<Rightarrow> octet \<Rightarrow> codec_error + PublishPacket" where
  "DecodePublishPacket data qos protocolVersion =
     and_then (readUTF8String data 0) (\<lambda>(topic, o1).
     and_then (if qos > 0
               then if o1 + 2 > length data then Inl (ErrMalformedPacket ''missing packet ID in PUBLISH'')
                    else Inr (get16 (data ! o1) (data ! (o1 + 1)), o1 + 2)
               else Inr (0, o1)) (\<lambda>(packetID, o2).
     and_then (if protocolVersion = 5
               then and_then (read_props id id data o2) (\<lambda>(props, o3). Inr (Some props, o3))
               else Inr (None, o2)) (\<lambda>(props, o3).
     Inr \<lparr>pp_Topic = topic, pp_PacketID = packetID, pp_QoS = qos, pp_Dup = False, pp_Retain = False,
          pp_Payload = drop o3 data, pp_Properties = props, pp_ProtocolVersion = protocolVersion\<rparr>)))"

definition publish_body :: "PublishPacket \<Rightarrow> octet list" where
  "publish_body p = put_len (length (pp_Topic p)) @ bytes_of (pp_Topic p) @ (if pp_QoS p > 0 then put16 (pp_PacketID p) else []) @
     (if pp_ProtocolVersion p = 5 then props_Encode (pp_Properties p) else []) @ pp_Payload p"

definition publish_Encode :: "PublishPacket \<Rightarrow> octet list" where
  "publish_Encode p =
     (let propsData = (if pp_ProtocolVersion p = 5 then props_Encode (pp_Properties p) else []);
          remaining = 2 + length (pp_Topic p) + length (pp_Payload p) + (if pp_QoS p > 0 then 2 else 0) + length propsData
      in Encode \<lparr>PacketType = PUBLISH, Dup = pp_Dup p, QoS = pp_QoS p, Retain = pp_Retain p, RemainingLength = int remaining\<rparr> @ publish_body p)"

text \<open>PUBACK, PUBREC, PUBREL and PUBCOMP have the same fields and the same code, but for names and flags.\<close>

record AckPacket =
  ap_PacketID :: "16 word"
  ap_ReasonCode :: octet
  ap_Properties :: "Properties option"
  ap_ProtocolVersion :: octet

definition ack_Encode :: "octet \<Rightarrow> octet \<Rightarrow> AckPacket \<Rightarrow> octet list" where
  "ack_Encode ptype qos p =
     (if ap_ProtocolVersion p = 5 \<and> (ap_ReasonCode p \<noteq> 0 \<or> ap_Properties p \<noteq> None)
      then let propsData = props_Encode (ap_Properties p)
           in Encode \<lparr>PacketType = ptype, Dup = False, QoS = qos, Retain = False, RemainingLength = int (2 + 1 + length propsData)\<rparr> @
              put16 (ap_PacketID p) @ [ap_ReasonCode p] @ propsData
      else Encode \<lparr>PacketType = ptype, Dup = False, QoS = qos, Retain = False, RemainingLength = 2\<rparr> @ put16 (ap_PacketID p))"

definition decode_ack :: "string \<Rightarrow> octet list \<Rightarrow> octet \<Rightarrow> codec_error + AckPacket" where
  "decode_ack name data protocolVersion =
     (if length data < 2 then Inl (ErrMalformedPacket (name @ '' packet too short''))
      else let pkt = \<lparr>ap_PacketID = get16 (data ! 0) (data ! 1), ap_ReasonCode = 0, ap_Properties = None, ap_ProtocolVersion = protocolVersion\<rparr> in
        if protocolVersion = 5 \<and> 2 < length data
        then let pkt' = pkt\<lparr>ap_ReasonCode := data ! 2\<rparr> in
             if 3 < length data then and_then (read_props id id data 3) (\<lambda>(props, _). Inr (pkt'\<lparr>ap_Properties := Some props\<rparr>)) else Inr pkt'
        else Inr pkt)"

definition puback_Encode :: "AckPacket \<Rightarrow> octet list" where
  "puback_Encode = ack_Encode PUBACK 0"

definition pubrec_Encode :: "AckPacket \<Rightarrow> octet list" where
  "pubrec_Encode = ack_Encode PUBREC 0"

definition pubrel_Encode :: "AckPacket \<Rightarrow> octet list" where
  "pubrel_Encode = ack_Encode PUBREL 1"

definition pubcomp_Encode :: "AckPacket \<Rightarrow> octet list" where
  "pubcomp_Encode = ack_Encode PUBCOMP 0"

definition DecodePubackPacket :: "octet list \<Rightarrow> octet \<Rightarrow> codec_error + AckPacket" where
  "DecodePubackPacket = decode_ack ''PUBACK''"

definition DecodePubrecPacket :: "octet list \<Rightarrow> octet \<Rightarrow> codec_error + AckPacket" where
  "DecodePubrecPacket = decode_ack ''PUBREC''"

definition DecodePubrelPacket :: "octet list \<Rightarrow> octet \<Rightarrow> codec_error + AckPacket" where
  "DecodePubrelPacket = decode_ack ''PUBREL''"

definition DecodePubcompPacket :: "octet list \<Rightarrow> octet \<Rightarrow> codec_error + AckPacket" where
  "DecodePubcompPacket = decode_ack ''PUBCOMP''"

subsection \<open>CONNECT and CONNACK\<close>

abbreviation (input) "ConnackAccepted \<equiv> 0x00 :: octet"
abbreviation (input) "ConnackUnacceptableProtocol \<equiv> 0x01 :: octet"
abbreviation (input) "ConnackIdentifierRejected \<equiv> 0x02 :: octet"
abbreviation (input) "ConnackServerUnavailable \<equiv> 0x03 :: octet"
abbreviation (input) "ConnackBadUsernameOrPassword \<equiv> 0x04 :: octet"
abbreviation (input) "ConnackNotAuthorized \<equiv> 0x05 :: octet"

record ConnectPacket =
  ProtocolName :: string
  ProtocolLevel :: octet
  CleanSession :: bool
  KeepAlive :: "16 word"
  cp_ClientID :: string
  WillFlag :: bool
  WillQoS :: octet
  WillRetain :: bool
  WillTopic :: string
  WillPayload :: "octet list"
  UsernameFlag :: bool
  PasswordFlag :: bool
  cp_Username :: string
  cp_Password :: "octet list"
  cp_Properties :: "Properties option"
  WillProperties :: "Properties option"

text \<open>The will fields, and a field that is there if its flag is set; both return the offset behind what they read.\<close>

definition decode_will_fields :: "octet \<Rightarrow> octet list \<Rightarrow> nat \<Rightarrow> codec_error + (Properties option \<times> string \<times> octet list) \<times> nat" where
  "decode_will_fields level data o0 =
     and_then (if level = 5
               then and_then (read_props (wrap ''reading will properties length'') (wrap ''decoding will properties'') data o0)
                      (\<lambda>(props, o1). Inr (Some props, o1))
               else Inr (None, o0)) (\<lambda>(props, o1).
     and_then (wrap ''reading will topic'' (readUTF8String data o1)) (\<lambda>(topic, n).
     and_then (wrap ''reading will payload'' (readBinaryData data (o1 + n))) (\<lambda>(payload, n').
     Inr ((props, topic, payload), o1 + n + n'))))"

definition optional_field :: "bool \<Rightarrow> 'a \<Rightarrow> (nat \<Rightarrow> codec_error + 'a \<times> nat) \<Rightarrow> nat \<Rightarrow> codec_error + 'a \<times> nat" where
  "optional_field flag dflt read o0 = (if flag then and_then (read o0) (\<lambda>(v, n). Inr (v, o0 + n)) else Inr (dflt, o0))"

definition DecodeConnectPacket :: "octet list \<Rightarrow> codec_error + ConnectPacket" where
  "DecodeConnectPacket data =
     (if length data < 10 then Inl (ErrMalformedPacket ''CONNECT packet too short'')
      else and_then (wrap ''reading protocol name'' (readUTF8String data 0)) (\<lambda>(name, o1).
        if o1 \<ge> length data then Inl (ErrMalformedPacket ''missing protocol level'')
        else let level = data ! o1; o2 = o1 + 1 in
          if level \<noteq> 4 \<and> level \<noteq> 5 then Inl (ErrMalformedPacket (''unsupported protocol level '' @ show_nat (unat level)))
          else if o2 \<ge> length data then Inl (ErrMalformedPacket ''missing connect flags'')
          else let flags = data ! o2; o3 = o2 + 1; willFlag = (flags AND 0x04 \<noteq> 0) in
            if o3 + 2 > length data then Inl (ErrMalformedPacket ''missing keep alive'')
            else let keepAlive = get16 (data ! o3) (data ! (o3 + 1)); o4 = o3 + 2 in
              and_then (if level = 5
                        then and_then (read_props (wrap ''reading connect properties length'') (wrap ''decoding connect properties'') data o4)
                               (\<lambda>(props, o5). Inr (Some props, o5))
                        else Inr (None, o4)) (\<lambda>(props, o5).
              and_then (wrap ''reading client ID'' (readUTF8String data o5)) (\<lambda>(clientID, n).
              and_then (if willFlag then decode_will_fields level data (o5 + n) else Inr ((None, [], []), o5 + n)) (\<lambda>((willProps, willTopic, willPayload), o6).
              and_then (optional_field (flags AND 0x80 \<noteq> 0) [] (\<lambda>i. wrap ''reading username'' (readUTF8String data i)) o6) (\<lambda>(username, o7).
              and_then (optional_field (flags AND 0x40 \<noteq> 0) [] (\<lambda>i. wrap ''reading password'' (readBinaryData data i)) o7) (\<lambda>(password, o8).
              Inr \<lparr>ProtocolName = name, ProtocolLevel = level, CleanSession = (flags AND 0x02 \<noteq> 0), KeepAlive = keepAlive,
                   cp_ClientID = clientID, WillFlag = willFlag, WillQoS = drop_bit 3 flags AND 0x03, WillRetain = (flags AND 0x20 \<noteq> 0),
                   WillTopic = willTopic, WillPayload = willPayload, UsernameFlag = (flags AND 0x80 \<noteq> 0), PasswordFlag = (flags AND 0x40 \<noteq> 0),
                   cp_Username = username, cp_Password = password, cp_Properties = props, WillProperties = willProps\<rparr>)))))))"

record ConnackPacket =
  SessionPresent :: bool
  ReturnCode :: octet
  ReasonCode :: octet
  ck_Properties :: "Properties option"
  ck_ProtocolVersion :: octet

definition connack_Encode :: "ConnackPacket \<Rightarrow> octet list" where
  "connack_Encode p =
     (let sp = (if SessionPresent p then 0x01 else 0x00) in
      if ck_ProtocolVersion p = 5
      then let propsData = props_Encode (ck_Properties p)
           in Encode \<lparr>PacketType = CONNACK, Dup = False, QoS = 0, Retain = False, RemainingLength = int (2 + length propsData)\<rparr> @
              [sp, ReasonCode p] @ propsData
      else Encode \<lparr>PacketType = CONNACK, Dup = False, QoS = 0, Retain = False, RemainingLength = 2\<rparr> @ [sp, ReturnCode p])"

subsection \<open>SUBSCRIBE, UNSUBSCRIBE and their answers\<close>

record Subscription =
  sb_TopicFilter :: string
  sb_QoS :: octet

record SubscribePacket =
  sp_PacketID :: "16 word"
  sp_Subscriptions :: "Subscription list"
  sp_Properties :: "Properties option"

lemma readUTF8String_pos: "readUTF8String data offset = Inr (s, n) \<Longrightarrow> 0 < n"
  by (auto simp: readUTF8String_def Let_def split: if_splits)

function decode_subscriptions :: "octet list \<Rightarrow> nat \<Rightarrow> codec_error + Subscription list" where
  "decode_subscriptions data offset =
     (if offset < length data then
        (case readUTF8String data offset of
           Inl e \<Rightarrow> Inl e
         | Inr (topicFilter, n) \<Rightarrow>
             if offset + n \<ge> length data then Inl (ErrMalformedPacket ''missing QoS byte in SUBSCRIBE'')
             else and_then (decode_subscriptions data (offset + n + 1))
                    (\<lambda>subs. Inr (\<lparr>sb_TopicFilter = topicFilter, sb_QoS = data ! (offset + n)\<rparr> # subs)))
      else Inr [])"
  by pat_completeness auto
termination by (relation "measure (\<lambda>(data, offset). length data - offset)") auto

function decode_filters :: "octet list \<Rightarrow> nat \<Rightarrow> codec_error + string list" where
  "decode_filters data offset =
     (if offset < length data then
        (case readUTF8String data offset of
           Inl e \<Rightarrow> Inl e
         | Inr (topicFilter, n) \<Rightarrow> and_then (decode_filters data (offset + n)) (\<lambda>fs. Inr (topicFilter # fs)))
      else Inr [])"
  by pat_completeness auto
termination
  by (relation "measure (\<lambda>(data, offset). length data - offset)") (auto dest!: readUTF8String_pos)

declare decode_subscriptions.simps [simp del] decode_filters.simps [simp del]

text \<open>The properties that both packets have after their identifier in version 5.\<close>

definition id_and_props :: "octet list \<Rightarrow> octet \<Rightarrow> codec_error + Properties option \<times> nat" where
  "id_and_props data protocolVersion =
     (if protocolVersion = 5 then and_then (read_props id id data 2) (\<lambda>(props, o1). Inr (Some props, o1)) else Inr (None, 2))"

definition DecodeSubscribePacket :: "octet list \<Rightarrow> octet \<Rightarrow> codec_error + SubscribePacket" where
  "DecodeSubscribePacket data protocolVersion =
     (if length data < 5 then Inl (ErrMalformedPacket ''SUBSCRIBE packet too short'')
      else and_then (id_and_props data protocolVersion) (\<lambda>(props, o1).
        and_then (decode_subscriptions data o1) (\<lambda>subs.
        if subs = [] then Inl (ErrMalformedPacket ''SUBSCRIBE must contain at least one topic filter'')
        else Inr \<lparr>sp_PacketID = get16 (data ! 0) (data ! 1), sp_Subscriptions = subs, sp_Properties = props\<rparr>)))"

record SubackPacket =
  sa_PacketID :: "16 word"
  ReturnCodes :: "octet list"
  sa_Properties :: "Properties option"
  sa_ProtocolVersion :: octet

definition suback_Encode :: "SubackPacket \<Rightarrow> octet list" where
  "suback_Encode p =
     (if sa_ProtocolVersion p = 5
      then let propsData = props_Encode (sa_Properties p)
           in Encode \<lparr>PacketType = SUBACK, Dup = False, QoS = 0, Retain = False,
                RemainingLength = int (2 + length propsData + length (ReturnCodes p))\<rparr> @ put16 (sa_PacketID p) @ propsData @ ReturnCodes p
      else Encode \<lparr>PacketType = SUBACK, Dup = False, QoS = 0, Retain = False, RemainingLength = int (2 + length (ReturnCodes p))\<rparr> @
           put16 (sa_PacketID p) @ ReturnCodes p)"

record UnsubscribePacket =
  up_PacketID :: "16 word"
  TopicFilters :: "string list"
  up_Properties :: "Properties option"

definition DecodeUnsubscribePacket :: "octet list \<Rightarrow> octet \<Rightarrow> codec_error + UnsubscribePacket" where
  "DecodeUnsubscribePacket data protocolVersion =
     (if length data < 4 then Inl (ErrMalformedPacket ''UNSUBSCRIBE packet too short'')
      else and_then (id_and_props data protocolVersion) (\<lambda>(props, o1).
        and_then (decode_filters data o1) (\<lambda>fs.
        if fs = [] then Inl (ErrMalformedPacket ''UNSUBSCRIBE must contain at least one topic filter'')
        else Inr \<lparr>up_PacketID = get16 (data ! 0) (data ! 1), TopicFilters = fs, up_Properties = props\<rparr>)))"

record UnsubackPacket =
  ua_PacketID :: "16 word"
  ReasonCodes :: "octet list"
  ua_Properties :: "Properties option"
  ua_ProtocolVersion :: octet

definition unsuback_Encode :: "UnsubackPacket \<Rightarrow> octet list" where
  "unsuback_Encode p =
     (if ua_ProtocolVersion p = 5
      then let propsData = props_Encode (ua_Properties p)
           in Encode \<lparr>PacketType = UNSUBACK, Dup = False, QoS = 0, Retain = False,
                RemainingLength = int (2 + length propsData + length (ReasonCodes p))\<rparr> @ put16 (ua_PacketID p) @ propsData @ ReasonCodes p
      else Encode \<lparr>PacketType = UNSUBACK, Dup = False, QoS = 0, Retain = False, RemainingLength = 2\<rparr> @ put16 (ua_PacketID p))"

subsection \<open>DISCONNECT and PINGRESP\<close>

record DisconnectPacket =
  dp_ReasonCode :: octet
  dp_Properties :: "Properties option"
  dp_ProtocolVersion :: octet

definition disconnect_Encode :: "DisconnectPacket \<Rightarrow> octet list" where
  "disconnect_Encode p =
     (if dp_ProtocolVersion p = 5
      then let propsData = props_Encode (dp_Properties p)
           in Encode \<lparr>PacketType = DISCONNECT, Dup = False, QoS = 0, Retain = False, RemainingLength = int (1 + length propsData)\<rparr> @
              [dp_ReasonCode p] @ propsData
      else Encode \<lparr>PacketType = DISCONNECT, Dup = False, QoS = 0, Retain = False, RemainingLength = 0\<rparr>)"

definition DecodeDisconnectPacket :: "octet list \<Rightarrow> codec_error + DisconnectPacket" where
  "DecodeDisconnectPacket data =
     (let pkt = \<lparr>dp_ReasonCode = 0, dp_Properties = None, dp_ProtocolVersion = 0\<rparr> in
      if data = [] then Inr pkt
      else let pkt' = pkt\<lparr>dp_ReasonCode := data ! 0\<rparr> in
        if 1 < length data then and_then (read_props id id data 1) (\<lambda>(props, _). Inr (pkt'\<lparr>dp_Properties := Some props\<rparr>)) else Inr pkt')"

definition EncodePingresp :: "octet list" where
  "EncodePingresp = [push_bit 4 PINGRESP, 0x00]"

subsection \<open>Fields at an offset\<close>

text \<open>Each reader, when the encoding of a value stands at its offset: it returns the value and the length of the encoding.\<close>

definition utf8 :: "string \<Rightarrow> octet list" where
  "utf8 s = put_len (length s) @ bytes_of s"

definition binary :: "octet list \<Rightarrow> octet list" where
  "binary bs = put_len (length bs) @ bs"

lemma length_put [simp]: "length (put_len n) = 2" "length (put16 x) = 2"
  by (simp_all add: put_len_def put16_def)

lemma length_utf8 [simp]: "length (utf8 s) = 2 + length s" "length (binary bs) = 2 + length bs"
  by (simp_all add: utf8_def binary_def)

lemma fits_at: "drop offset data = xs @ rest \<Longrightarrow> xs \<noteq> [] \<Longrightarrow> offset + length xs \<le> length data"
  using at_offset(2) by blast

lemma readUTF8String_at:
  assumes "drop offset data = utf8 s @ rest" and "length s < 65536"
  shows "readUTF8String data offset = Inr (s, length (utf8 s))"
proof -
  have "utf8 s \<noteq> []" by (simp add: utf8_def put_len_def)
  then have l: "offset + (2 + length s) \<le> length data" using fits_at [OF assms(1)] by simp
  have d: "drop offset data = put_len (length (bytes_of s)) @ bytes_of s @ rest" using assms(1) by (simp add: utf8_def)
  have "length (bytes_of s) < 65536" using assms(2) by simp
  note a = length_at [OF d this]
  show ?thesis unfolding readUTF8String_def a Let_def using l a(2) by simp
qed

lemma readBinaryData_at:
  assumes "drop offset data = binary bs @ rest" and "length bs < 65536"
  shows "readBinaryData data offset = Inr (bs, length (binary bs))"
proof -
  have "binary bs \<noteq> []" by (simp add: binary_def put_len_def)
  then have l: "offset + (2 + length bs) \<le> length data" using fits_at [OF assms(1)] by simp
  have d: "drop offset data = put_len (length bs) @ bs @ rest" using assms(1) by (simp add: binary_def)
  note a = length_at [OF d assms(2)]
  show ?thesis unfolding readBinaryData_def a Let_def using l a(2) by simp
qed

lemma get16_at:
  assumes "drop offset data = put16 x @ rest"
  shows "get16 (data ! offset) (data ! (offset + 1)) = x" and "offset + 2 \<le> length data"
proof -
  show "get16 (data ! offset) (data ! (offset + 1)) = x"
    unfolding put_len_at [OF assms [unfolded put16_def]] by (rule get16_put16)
  have "put16 x \<noteq> []" by (simp add: put16_def put_len_def)
  then show "offset + 2 \<le> length data" using fits_at [OF assms] by simp
qed

text \<open>Properties that are present and fit.\<close>

definition props_fit :: "Properties option \<Rightarrow> bool" where
  "props_fit po \<longleftrightarrow> (\<exists>p. po = Some p \<and> props_ok p \<and> length (props_body p) < 2 ^ 28)"

lemma read_props_at:
  assumes "drop offset data = props_Encode po @ rest" and "props_fit po" and "\<And>x. w1 (Inr x) = Inr x" and "\<And>x. w2 (Inr x) = Inr x"
  shows "\<exists>p. po = Some p \<and> read_props w1 w2 data offset = Inr (p, offset + length (props_Encode po))"
proof -
  obtain p where p: "po = Some p" "props_ok p" "length (props_body p) < 2 ^ 28" using assms(2) by (auto simp: props_fit_def)
  let ?n = "int (length (props_body p))"
  have e: "props_Encode po = encodeVarInt ?n @ props_body p" by (simp add: p(1) props_Encode_def Let_def)
  have d: "drop offset data = encodeVarInt ?n @ props_body p @ rest" using assms(1) e by simp
  have "decodeVarInt data offset = Inr (?n, length (encodeVarInt ?n))"
    by (rule decodeVarInt_encode [OF d]) (use p(3) in simp_all)
  moreover have "DecodeProperties (drop (offset + length (encodeVarInt ?n)) data) ?n = Inr p"
    by (rule DecodeProperties_at [OF p(2) drop_past [OF d]])
  ultimately show ?thesis by (simp add: p(1) read_props_def assms(3,4)) (simp add: e [unfolded p(1)])
qed

subsection \<open>PUBLISH on the wire\<close>

definition publish_ok :: "PublishPacket \<Rightarrow> bool" where
  "publish_ok p \<longleftrightarrow> length (pp_Topic p) < 65536 \<and> pp_QoS p < 4 \<and> (pp_QoS p = 0 \<longrightarrow> pp_PacketID p = 0) \<and>
     (if pp_ProtocolVersion p = 5 then props_fit (pp_Properties p) else pp_Properties p = None) \<and> length (publish_body p) < 2 ^ 28"

lemma publish_decodes:
  assumes "publish_ok p"
  shows "DecodePublishPacket (publish_body p) (pp_QoS p) (pp_ProtocolVersion p) = Inr (p\<lparr>pp_Dup := False, pp_Retain := False\<rparr>)"
proof -
  let ?data = "publish_body p" and ?props = "if pp_ProtocolVersion p = 5 then props_Encode (pp_Properties p) else []"
  let ?id = "if pp_QoS p > 0 then put16 (pp_PacketID p) else []"
  let ?o1 = "length (utf8 (pp_Topic p))"
  let ?o2 = "?o1 + length ?id"
  have d0: "drop 0 ?data = utf8 (pp_Topic p) @ ?id @ ?props @ pp_Payload p" by (simp add: publish_body_def utf8_def)
  have d1: "drop ?o1 ?data = ?id @ ?props @ pp_Payload p" using drop_past [OF d0] by simp
  have d2: "drop ?o2 ?data = ?props @ pp_Payload p" by (rule drop_past [OF d1])
  have d3: "drop (?o2 + length ?props) ?data = pp_Payload p" by (rule drop_past [OF d2])
  have r0: "readUTF8String ?data 0 = Inr (pp_Topic p, ?o1)"
    by (rule readUTF8String_at [OF d0]) (use assms in \<open>simp add: publish_ok_def\<close>)
  have r1: "(if pp_QoS p > 0
      then if ?o1 + 2 > length ?data then Inl (ErrMalformedPacket ''missing packet ID in PUBLISH'')
           else Inr (get16 (?data ! ?o1) (?data ! (?o1 + 1)), ?o1 + 2)
      else Inr (0, ?o1)) = Inr (pp_PacketID p, ?o2)"
  proof (cases "pp_QoS p > 0")
    case True
    have "drop ?o1 ?data = put16 (pp_PacketID p) @ ?props @ pp_Payload p" using d1 True by simp
    note g = get16_at [OF this]
    show ?thesis using True g by (simp del: length_utf8)
  next
    case False
    then have "pp_QoS p = 0" by (simp add: word_neq_0_conv [symmetric])
    then show ?thesis using assms by (simp add: publish_ok_def)
  qed
  have r2: "(if pp_ProtocolVersion p = 5 then and_then (read_props id id ?data ?o2) (\<lambda>(props, o3). Inr (Some props, o3)) else Inr (None, ?o2)) =
      Inr (pp_Properties p, ?o2 + length ?props)"
  proof (cases "pp_ProtocolVersion p = 5")
    case True
    have "drop ?o2 ?data = props_Encode (pp_Properties p) @ pp_Payload p" using d2 True by simp
    moreover have "props_fit (pp_Properties p)" using assms True by (simp add: publish_ok_def)
    ultimately obtain q where "pp_Properties p = Some q" "read_props id id ?data ?o2 = Inr (q, ?o2 + length (props_Encode (pp_Properties p)))"
      using read_props_at [of ?o2 ?data "pp_Properties p" _ id id] by auto
    then show ?thesis using True by (simp del: length_utf8)
  next
    case False
    then show ?thesis using assms by (simp add: publish_ok_def)
  qed
  show ?thesis unfolding DecodePublishPacket_def r0 and_then_simps prod.case r1 r2 d3 by simp
qed

lemma publish_Encode_eq: "publish_Encode p =
    Encode \<lparr>PacketType = PUBLISH, Dup = pp_Dup p, QoS = pp_QoS p, Retain = pp_Retain p, RemainingLength = int (length (publish_body p))\<rparr> @ publish_body p"
proof -
  have "2 + length (pp_Topic p) + length (pp_Payload p) + (if pp_QoS p > 0 then 2 else 0) +
      length (if pp_ProtocolVersion p = 5 then props_Encode (pp_Properties p) else []) = length (publish_body p)"
    by (simp add: publish_body_def)
  then show ?thesis by (simp only: publish_Encode_def Let_def)
qed

text \<open>C24: A PUBLISH packet survives the wire in both versions of the protocol: what \<open>Encode\<close> writes is read back as one packet, with what
  follows left over, whose header has the type, the flags and the quality of service, and whose
  body decodes to the topic, the identifier, the properties (all twenty-seven of them) and the payload. The topic and
  the texts must fit a 16-bit length and the packet the four bytes of the remaining length.\<close>

theorem publish_round_trip:
  assumes "publish_ok p"
  shows "\<exists>fh data. ReadPacket (publish_Encode p @ rest) = (Inr (fh, data), rest) \<and>
    PacketType fh = PUBLISH \<and> Dup fh = pp_Dup p \<and> Retain fh = pp_Retain p \<and> QoS fh = pp_QoS p \<and>
    DecodePublishPacket data (QoS fh) (pp_ProtocolVersion p) = Inr (p\<lparr>pp_Dup := False, pp_Retain := False\<rparr>)"
proof -
  let ?fh = "\<lparr>PacketType = PUBLISH, Dup = pp_Dup p, QoS = pp_QoS p, Retain = pp_Retain p, RemainingLength = int (length (publish_body p))\<rparr>"
  have "ReadPacket (Encode ?fh @ publish_body p @ rest) = (Inr (?fh, publish_body p), rest)"
    using assms by (intro read_packet) (simp_all add: publish_ok_def)
  then have "ReadPacket (publish_Encode p @ rest) = (Inr (?fh, publish_body p), rest)" by (simp add: publish_Encode_eq)
  then show ?thesis using publish_decodes [OF assms] by (intro exI [of _ ?fh] exI [of _ "publish_body p"]) simp
qed

definition sample_publish_packet :: PublishPacket where
  "sample_publish_packet = \<lparr>pp_Topic = ''a/b'', pp_PacketID = 7, pp_QoS = 1, pp_Dup = False, pp_Retain = True, pp_Payload = [1, 2],
     pp_Properties = Some (no_Properties\<lparr>MessageExpiryInterval := Some 60, ContentType := Some ''x''\<rparr>), pp_ProtocolVersion = 5\<rparr>"

lemma sample_publish_ok: "publish_ok sample_publish_packet"
proof -
  let ?p = "no_Properties\<lparr>MessageExpiryInterval := Some 60, ContentType := Some ''x''\<rparr>"
  have b: "length (props_body ?p) = 9"
    by (simp add: props_body_append appendByteProp_def appendUint16Prop_def appendUint32Prop_def appendStringProp_def appendBinaryProp_def
        appendUTF8_def put32_def)
  then have "length (props_Encode (Some ?p)) = 10" by (simp add: props_Encode_def encodeVarInt_eq encode_nonneg)
  then have "length (publish_body sample_publish_packet) = 19"
    by (simp add: publish_body_def sample_publish_packet_def)
  then show ?thesis using b by (simp add: publish_ok_def sample_publish_packet_def props_fit_def props_ok_def short_def)
qed

theorem publish_round_trip_witness:
  "\<exists>fh data. ReadPacket (publish_Encode sample_publish_packet @ [9]) = (Inr (fh, data), [9]) \<and>
    DecodePublishPacket data (QoS fh) 5 = Inr (sample_publish_packet\<lparr>pp_Dup := False, pp_Retain := False\<rparr>)"
  using publish_round_trip [OF sample_publish_ok, of "[9]"] by (auto simp: sample_publish_packet_def)

subsection \<open>What clients send\<close>

text \<open>
  CONNECT, SUBSCRIBE and UNSUBSCRIBE are only decoded by the broker.  Their reference encoding is that of the
  standard (MQTT 3.1.1 and 5.0, chapters 3.1, 3.8 and 3.10).
\<close>

definition connect_flags :: "ConnectPacket \<Rightarrow> octet" where
  "connect_flags p = (if CleanSession p then 0x02 else 0) OR (if WillFlag p then 0x04 else 0) OR push_bit 3 (WillQoS p) OR
     (if WillRetain p then 0x20 else 0) OR (if PasswordFlag p then 0x40 else 0) OR (if UsernameFlag p then 0x80 else 0)"

definition connect_bytes :: "ConnectPacket \<Rightarrow> octet list" where
  "connect_bytes p = utf8 (ProtocolName p) @ [ProtocolLevel p, connect_flags p] @ put16 (KeepAlive p) @
     (if ProtocolLevel p = 5 then props_Encode (cp_Properties p) else []) @ utf8 (cp_ClientID p) @
     (if WillFlag p
      then (if ProtocolLevel p = 5 then props_Encode (WillProperties p) else []) @ utf8 (WillTopic p) @ binary (WillPayload p) else []) @
     (if UsernameFlag p then utf8 (cp_Username p) else []) @ (if PasswordFlag p then binary (cp_Password p) else [])"

definition props_present :: "ConnectPacket \<Rightarrow> Properties option \<Rightarrow> bool" where
  "props_present p po \<longleftrightarrow> (if ProtocolLevel p = 5 then props_fit po else po = None)"

definition connect_ok :: "ConnectPacket \<Rightarrow> bool" where
  "connect_ok p \<longleftrightarrow> ProtocolName p = ''MQTT'' \<and> (ProtocolLevel p = 4 \<or> ProtocolLevel p = 5) \<and> WillQoS p < 4 \<and>
     list_all (\<lambda>n. n < 65536) [length (cp_ClientID p), length (WillTopic p), length (WillPayload p), length (cp_Username p), length (cp_Password p)] \<and>
     props_present p (cp_Properties p) \<and>
     (if WillFlag p then props_present p (WillProperties p) else WillProperties p = None \<and> WillTopic p = [] \<and> WillPayload p = []) \<and>
     (UsernameFlag p \<or> cp_Username p = []) \<and> (PasswordFlag p \<or> cp_Password p = [])"

lemma connect_flags_all:
  "list_all (\<lambda>q. list_all (\<lambda>c. list_all (\<lambda>w. list_all (\<lambda>r. list_all (\<lambda>x. list_all (\<lambda>u.
     (let f = (if c then 0x02 else 0) OR (if w then 0x04 else 0) OR push_bit 3 q OR
        (if r then 0x20 else 0) OR (if x then 0x40 else 0) OR (if u then 0x80 else 0 :: octet)
      in (f AND 0x02 \<noteq> 0) = c \<and> (f AND 0x04 \<noteq> 0) = w \<and> drop_bit 3 f AND 0x03 = q \<and> (f AND 0x20 \<noteq> 0) = r \<and>
         (f AND 0x40 \<noteq> 0) = x \<and> (f AND 0x80 \<noteq> 0) = u))
     [False, True]) [False, True]) [False, True]) [False, True]) [False, True]) (map word_of_nat [0..<4])"
  by code_simp

lemma connect_flags_bits:
  assumes "WillQoS p < 4"
  shows "(connect_flags p AND 0x02 \<noteq> 0) = CleanSession p" and "(connect_flags p AND 0x04 \<noteq> 0) = WillFlag p"
    and "drop_bit 3 (connect_flags p) AND 0x03 = WillQoS p" and "(connect_flags p AND 0x20 \<noteq> 0) = WillRetain p"
    and "(connect_flags p AND 0x40 \<noteq> 0) = PasswordFlag p" and "(connect_flags p AND 0x80 \<noteq> 0) = UsernameFlag p"
proof -
  have q: "WillQoS p \<in> set (map word_of_nat [0..<4])" using octet_below [of "WillQoS p" 4] assms by simp
  have b: "x \<in> set [False, True]" for x by auto
  note all = connect_flags_all [unfolded list_all_iff, THEN bspec, OF q, THEN bspec, OF b, THEN bspec, OF b, THEN bspec, OF b, THEN bspec, OF b,
      THEN bspec, OF b, unfolded Let_def, of "CleanSession p" "WillFlag p" "WillRetain p" "PasswordFlag p" "UsernameFlag p", folded connect_flags_def]
  show "(connect_flags p AND 0x02 \<noteq> 0) = CleanSession p" "(connect_flags p AND 0x04 \<noteq> 0) = WillFlag p"
    "drop_bit 3 (connect_flags p) AND 0x03 = WillQoS p" "(connect_flags p AND 0x20 \<noteq> 0) = WillRetain p"
    "(connect_flags p AND 0x40 \<noteq> 0) = PasswordFlag p" "(connect_flags p AND 0x80 \<noteq> 0) = UsernameFlag p"
    using all by blast+
qed

lemma optional_props_at:
  assumes "drop offset data = (if level = 5 then props_Encode po else []) @ rest" and "if level = 5 then props_fit po else po = None"
    and "\<And>x. w1 (Inr x) = Inr x" and "\<And>x. w2 (Inr x) = Inr x"
  shows "(if level = 5 then and_then (read_props w1 w2 data offset) (\<lambda>(props, i). Inr (Some props, i)) else Inr (None, offset)) =
    Inr (po, offset + length (if level = 5 then props_Encode po else []))"
proof (cases "level = 5")
  case True
  then obtain q where "po = Some q" "read_props w1 w2 data offset = Inr (q, offset + length (props_Encode po))"
    using read_props_at [of offset data po rest w1 w2] assms by auto
  then show ?thesis using True by simp
next
  case False
  then show ?thesis using assms(2) by simp
qed

lemma decode_will_at:
  assumes d: "drop offset data = (if level = 5 then props_Encode po else []) @ utf8 topic @ binary payload @ rest"
    and "if level = 5 then props_fit po else po = None" and "length topic < 65536" and "length payload < 65536"
  shows "decode_will_fields level data offset =
    Inr ((po, topic, payload), offset + length ((if level = 5 then props_Encode po else []) @ utf8 topic @ binary payload))"
proof -
  let ?ps = "if level = 5 then props_Encode po else []"
  note r1 = optional_props_at [OF d assms(2), of "wrap ''reading will properties length''" "wrap ''decoding will properties''", OF wrap_Inr wrap_Inr]
  note d1 = drop_past [OF d]
  note r2 = readUTF8String_at [OF d1 assms(3)]
  note r3 = readBinaryData_at [OF drop_past [OF d1] assms(4)]
  show ?thesis unfolding decode_will_fields_def r1 and_then_simps prod.case r2 wrap_Inr r3 by (simp only: length_append add.assoc)
qed

lemma optional_field_at:
  assumes "flag \<Longrightarrow> read offset = Inr (v, length enc)" and "\<not> flag \<Longrightarrow> v = dflt"
  shows "optional_field flag dflt read offset = Inr (v, offset + length (if flag then enc else []))"
  using assms by (cases flag) (simp_all add: optional_field_def)

lemma connect_decodes:
  assumes ok: "connect_ok p"
  shows "DecodeConnectPacket (connect_bytes p) = Inr p"
proof -
  let ?data = "connect_bytes p" and ?l = "ProtocolLevel p" and ?f = "connect_flags p"
  let ?ps = "if ?l = 5 then props_Encode (cp_Properties p) else []"
  let ?wps = "if ?l = 5 then props_Encode (WillProperties p) else []"
  let ?w = "if WillFlag p then ?wps @ utf8 (WillTopic p) @ binary (WillPayload p) else []"
  let ?u = "if UsernameFlag p then utf8 (cp_Username p) else []" and ?x = "if PasswordFlag p then binary (cp_Password p) else []"
  define o1 where "o1 = length (utf8 (ProtocolName p))"
  define o5 where "o5 = o1 + 1 + 1 + 2 + length ?ps"
  define o6 where "o6 = o5 + length (utf8 (cp_ClientID p)) + length ?w"
  define o7 where "o7 = o6 + length ?u"
  note ok' = ok [unfolded connect_ok_def props_present_def, simplified]
  have d0: "drop 0 ?data = utf8 (ProtocolName p) @ [?l, ?f] @ put16 (KeepAlive p) @ ?ps @ utf8 (cp_ClientID p) @ ?w @ ?u @ ?x"
    by (simp add: connect_bytes_def)
  have d1: "drop o1 ?data = [?l, ?f] @ put16 (KeepAlive p) @ ?ps @ utf8 (cp_ClientID p) @ ?w @ ?u @ ?x"
    using drop_past [OF d0] by (simp add: o1_def)
  have d2: "drop (o1 + 1 + 1) ?data = put16 (KeepAlive p) @ ?ps @ utf8 (cp_ClientID p) @ ?w @ ?u @ ?x"
    using drop_past [OF d1] by simp
  have d3: "drop (o1 + 1 + 1 + 2) ?data = ?ps @ utf8 (cp_ClientID p) @ ?w @ ?u @ ?x" using drop_past [OF d2] by simp
  have d4: "drop o5 ?data = utf8 (cp_ClientID p) @ ?w @ ?u @ ?x" unfolding o5_def by (rule drop_past [OF d3])
  have d5: "drop (o5 + length (utf8 (cp_ClientID p))) ?data = ?w @ ?u @ ?x" by (rule drop_past [OF d4])
  have d6: "drop o6 ?data = ?u @ ?x" unfolding o6_def by (rule drop_past [OF d5])
  have d7: "drop o7 ?data = ?x" unfolding o7_def by (rule drop_past [OF d6])
  have lf: "?data ! o1 = ?l" "?data ! (o1 + 1) = ?f" using at_offset(1) [OF d1, of 0] at_offset(1) [OF d1, of 1] by simp_all
  note ka = get16_at [OF d2]
  have len: "\<not> length ?data < 10" "\<not> length ?data \<le> o1" "\<not> length ?data \<le> o1 + 1" "\<not> length ?data < o1 + 1 + 1 + 2"
    using ka(2) ok' by (simp_all add: o1_def)
  have lev: "\<not> (?l \<noteq> 4 \<and> ?l \<noteq> 5)" using ok' by blast
  have r0: "readUTF8String ?data 0 = Inr (ProtocolName p, o1)"
    unfolding o1_def by (rule readUTF8String_at [OF d0]) (use ok' in simp)
  have r3: "(if ?l = 5 then and_then (read_props (wrap ''reading connect properties length'') (wrap ''decoding connect properties'') ?data (o1 + 1 + 1 + 2))
      (\<lambda>(props, o5). Inr (Some props, o5)) else Inr (None, o1 + 1 + 1 + 2)) = Inr (cp_Properties p, o5)"
    unfolding o5_def by (rule optional_props_at [OF d3]) (use ok' in simp_all)
  have r4: "readUTF8String ?data o5 = Inr (cp_ClientID p, length (utf8 (cp_ClientID p)))"
    by (rule readUTF8String_at [OF d4]) (use ok' in simp)
  have r5: "(if WillFlag p then decode_will_fields ?l ?data (o5 + length (utf8 (cp_ClientID p)))
      else Inr ((None, [], []), o5 + length (utf8 (cp_ClientID p)))) = Inr ((WillProperties p, WillTopic p, WillPayload p), o6)"
  proof (cases "WillFlag p")
    case True
    have d: "drop (o5 + length (utf8 (cp_ClientID p))) ?data = ?wps @ utf8 (WillTopic p) @ binary (WillPayload p) @ ?u @ ?x"
      using d5 True by simp
    have "decode_will_fields ?l ?data (o5 + length (utf8 (cp_ClientID p))) = Inr ((WillProperties p, WillTopic p, WillPayload p),
        o5 + length (utf8 (cp_ClientID p)) + length (?wps @ utf8 (WillTopic p) @ binary (WillPayload p)))"
      by (rule decode_will_at [OF d]) (use ok' True in simp_all)
    then show ?thesis using True by (simp only: o6_def if_True)
  next
    case False
    then show ?thesis using ok' by (simp add: o6_def)
  qed
  have r6: "optional_field (UsernameFlag p) [] (\<lambda>i. wrap ''reading username'' (readUTF8String ?data i)) o6 = Inr (cp_Username p, o7)"
    unfolding o7_def
  proof (rule optional_field_at)
    assume u: "UsernameFlag p"
    have "readUTF8String ?data o6 = Inr (cp_Username p, length (utf8 (cp_Username p)))"
      by (rule readUTF8String_at [where rest = ?x]) (use d6 u ok' in simp_all)
    then show "wrap ''reading username'' (readUTF8String ?data o6) = Inr (cp_Username p, length (utf8 (cp_Username p)))" by simp
  next
    assume "\<not> UsernameFlag p"
    then show "cp_Username p = []" using ok' by blast
  qed
  have r7: "optional_field (PasswordFlag p) [] (\<lambda>i. wrap ''reading password'' (readBinaryData ?data i)) o7 = Inr (cp_Password p, o7 + length ?x)"
  proof (rule optional_field_at)
    assume u: "PasswordFlag p"
    have "readBinaryData ?data o7 = Inr (cp_Password p, length (binary (cp_Password p)))"
      by (rule readBinaryData_at [where rest = "[]"]) (use d7 u ok' in simp_all)
    then show "wrap ''reading password'' (readBinaryData ?data o7) = Inr (cp_Password p, length (binary (cp_Password p)))" by simp
  next
    assume "\<not> PasswordFlag p"
    then show "cp_Password p = []" using ok' by blast
  qed
  have q: "WillQoS p < 4" using ok' by blast
  show ?thesis
    unfolding DecodeConnectPacket_def if_not_P [OF len(1)] r0 wrap_Inr and_then_simps prod.case Let_def lf if_not_P [OF len(2)] if_not_P [OF lev]
      if_not_P [OF len(3)] if_not_P [OF len(4)] ka(1) r3 r4 connect_flags_bits [OF q] r5 r6 r7
    by simp
qed

text \<open>SUBSCRIBE and UNSUBSCRIBE as a client writes them.\<close>

definition sub_bytes :: "Subscription list \<Rightarrow> octet list" where
  "sub_bytes subs = concat (map (\<lambda>s. utf8 (sb_TopicFilter s) @ [sb_QoS s]) subs)"

definition subscribe_bytes :: "octet \<Rightarrow> SubscribePacket \<Rightarrow> octet list" where
  "subscribe_bytes v p = put16 (sp_PacketID p) @ (if v = 5 then props_Encode (sp_Properties p) else []) @ sub_bytes (sp_Subscriptions p)"

definition subscribe_ok :: "octet \<Rightarrow> SubscribePacket \<Rightarrow> bool" where
  "subscribe_ok v p \<longleftrightarrow> sp_Subscriptions p \<noteq> [] \<and> list_all (\<lambda>s. length (sb_TopicFilter s) < 65536) (sp_Subscriptions p) \<and>
     (if v = 5 then props_fit (sp_Properties p) else sp_Properties p = None)"

definition unsubscribe_bytes :: "octet \<Rightarrow> UnsubscribePacket \<Rightarrow> octet list" where
  "unsubscribe_bytes v p = put16 (up_PacketID p) @ (if v = 5 then props_Encode (up_Properties p) else []) @ concat (map utf8 (TopicFilters p))"

definition unsubscribe_ok :: "octet \<Rightarrow> UnsubscribePacket \<Rightarrow> bool" where
  "unsubscribe_ok v p \<longleftrightarrow> TopicFilters p \<noteq> [] \<and> list_all (\<lambda>f. length f < 65536) (TopicFilters p) \<and>
     (if v = 5 then props_fit (up_Properties p) else up_Properties p = None)"

lemma decode_subscriptions_at:
  "drop offset data = sub_bytes subs \<Longrightarrow> list_all (\<lambda>s. length (sb_TopicFilter s) < 65536) subs \<Longrightarrow> decode_subscriptions data offset = Inr subs"
proof (induction subs arbitrary: offset)
  case Nil
  then have "\<not> offset < length data" by (simp add: sub_bytes_def)
  then show ?case by (simp add: decode_subscriptions.simps [of data offset])
next
  case (Cons s subs)
  let ?n = "length (utf8 (sb_TopicFilter s))"
  have d: "drop offset data = utf8 (sb_TopicFilter s) @ [sb_QoS s] @ sub_bytes subs" using Cons.prems(1) by (simp add: sub_bytes_def)
  have r: "readUTF8String data offset = Inr (sb_TopicFilter s, ?n)"
    by (rule readUTF8String_at [OF d]) (use Cons.prems(2) in simp)
  have d1: "drop (offset + ?n) data = [sb_QoS s] @ sub_bytes subs" by (rule drop_past [OF d])
  have q: "data ! (offset + ?n) = sb_QoS s" "offset + ?n < length data"
    using at_offset(1) [OF d1, of 0] fits_at [OF d1] by simp_all
  have "drop (offset + ?n + 1) data = sub_bytes subs" using drop_past [OF d1] by simp
  from Cons.IH [OF this] have i: "decode_subscriptions data (offset + ?n + 1) = Inr subs" using Cons.prems(2) by simp
  have l: "offset < length data" "\<not> length data \<le> offset + ?n" using q(2) by linarith+
  show ?case unfolding decode_subscriptions.simps [of data offset] if_P [OF l(1)] r sum.case prod.case if_not_P [OF l(2)] i and_then_simps q(1)
    by simp
qed

lemma decode_filters_at:
  "drop offset data = concat (map utf8 fs) \<Longrightarrow> list_all (\<lambda>f. length f < 65536) fs \<Longrightarrow> decode_filters data offset = Inr fs"
proof (induction fs arbitrary: offset)
  case Nil
  then have "\<not> offset < length data" by simp
  then show ?case by (simp add: decode_filters.simps [of data offset])
next
  case (Cons f fs)
  have d: "drop offset data = utf8 f @ concat (map utf8 fs)" using Cons.prems(1) by simp
  have r: "readUTF8String data offset = Inr (f, length (utf8 f))" by (rule readUTF8String_at [OF d]) (use Cons.prems(2) in simp)
  have i: "decode_filters data (offset + length (utf8 f)) = Inr fs"
    by (rule Cons.IH [OF drop_past [OF d]]) (use Cons.prems(2) in simp)
  have "utf8 f \<noteq> []" by (simp add: utf8_def put_len_def)
  then have l: "offset < length data" using fits_at [OF d] by (simp add: Suc_le_eq)
  show ?case unfolding decode_filters.simps [of data offset] if_P [OF l] r sum.case prod.case i and_then_simps by simp
qed

lemma id_and_props_at:
  assumes "data = put16 i @ (if v = 5 then props_Encode po else []) @ rest" and "if v = 5 then props_fit po else po = None"
  shows "id_and_props data v = Inr (po, 2 + length (if v = 5 then props_Encode po else []))"
    and "get16 (data ! 0) (data ! 1) = i"
    and "drop (2 + length (if v = 5 then props_Encode po else [])) data = rest"
proof -
  have d0: "drop 0 data = put16 i @ (if v = 5 then props_Encode po else []) @ rest" using assms(1) by simp
  have d2: "drop 2 data = (if v = 5 then props_Encode po else []) @ rest" using drop_past [OF d0] by (simp only: length_put add_0)
  show "id_and_props data v = Inr (po, 2 + length (if v = 5 then props_Encode po else []))"
    unfolding id_and_props_def by (rule optional_props_at [OF d2 assms(2)]) simp_all
  show "get16 (data ! 0) (data ! 1) = i" using get16_at(1) [OF d0] by simp
  show "drop (2 + length (if v = 5 then props_Encode po else [])) data = rest" by (rule drop_past [OF d2])
qed

lemma subscribe_decodes:
  assumes "subscribe_ok v p"
  shows "DecodeSubscribePacket (subscribe_bytes v p) v = Inr p"
proof -
  note ok = assms [unfolded subscribe_ok_def]
  have pf: "if v = 5 then props_fit (sp_Properties p) else sp_Properties p = None" using ok by blast
  note a = id_and_props_at [OF subscribe_bytes_def pf]
  obtain s ss where s: "sp_Subscriptions p = s # ss" using ok by (cases "sp_Subscriptions p") auto
  have "\<not> length (subscribe_bytes v p) < 5" by (simp add: subscribe_bytes_def s sub_bytes_def)
  moreover have "decode_subscriptions (subscribe_bytes v p) (2 + length (if v = 5 then props_Encode (sp_Properties p) else [])) = Inr (sp_Subscriptions p)"
    by (rule decode_subscriptions_at [OF a(3)]) (use ok in blast)
  ultimately show ?thesis unfolding DecodeSubscribePacket_def a(1,2) and_then_simps prod.case using s by simp
qed

lemma unsubscribe_decodes:
  assumes "unsubscribe_ok v p"
  shows "DecodeUnsubscribePacket (unsubscribe_bytes v p) v = Inr p"
proof -
  note ok = assms [unfolded unsubscribe_ok_def]
  have pf: "if v = 5 then props_fit (up_Properties p) else up_Properties p = None" using ok by blast
  note a = id_and_props_at [OF unsubscribe_bytes_def pf]
  obtain s ss where s: "TopicFilters p = s # ss" using ok by (cases "TopicFilters p") auto
  have "\<not> length (unsubscribe_bytes v p) < 4" by (simp add: unsubscribe_bytes_def s)
  moreover have "decode_filters (unsubscribe_bytes v p) (2 + length (if v = 5 then props_Encode (up_Properties p) else [])) = Inr (TopicFilters p)"
    by (rule decode_filters_at [OF a(3)]) (use ok in blast)
  ultimately show ?thesis unfolding DecodeUnsubscribePacket_def a(1,2) and_then_simps prod.case using s by simp
qed


definition sample_connect :: ConnectPacket where
  "sample_connect = \<lparr>ProtocolName = ''MQTT'', ProtocolLevel = 5, CleanSession = True, KeepAlive = 60, cp_ClientID = ''d1'',
     WillFlag = True, WillQoS = 1, WillRetain = False, WillTopic = ''bye'', WillPayload = [1], UsernameFlag = True, PasswordFlag = False,
     cp_Username = ''u'', cp_Password = [], cp_Properties = Some no_Properties, WillProperties = Some no_Properties\<rparr>"

lemma no_Properties_fit: "props_fit (Some no_Properties)"
  by (simp add: props_fit_def props_ok_def short_def props_body_append appendByteProp_def appendUint16Prop_def appendUint32Prop_def
      appendStringProp_def appendBinaryProp_def)


end
