(* ===== verification/Storage.thy ===== *)
theory Storage
  imports Prelude "HOL-Library.Word"
begin

section \<open>The key-value store\<close>

text \<open>
  Models \<^verbatim>\<open>internal/storage/store.go\<close> and \<^verbatim>\<open>pebble.go\<close>.  The database is a third-party package; what the
  code relies on is that it maps keys to values and that an iterator with a lower and an upper bound visits the
  keys from the lower bound on, below the upper one, in the order of the keys.  Keys are texts; failures
  of the database are left out.  A value stands for what was marshalled: the encodings of the standard library
  are exact.
\<close>

type_synonym 'v database = "(string \<times> 'v) list"

definition store_Get :: "string \<Rightarrow> 'v database \<Rightarrow> 'v option" where
  "store_Get key db = map_of db key"

definition store_Set :: "string \<Rightarrow> 'v \<Rightarrow> 'v database \<Rightarrow> 'v database" where
  "store_Set key val db = AList.update key val db"

definition store_Delete :: "string \<Rightarrow> 'v database \<Rightarrow> 'v database" where
  "store_Delete key db = AList.delete key db"

text \<open>The loop of \<^verbatim>\<open>prefixUpperBound\<close>, from the last byte backwards: \<open>None\<close> is a nil bound.\<close>

fun bump :: "string \<Rightarrow> string option" where
  "bump [] = None"
| "bump (c # cs) =
     (if of_char c < (0xFF :: nat) then Some (rev (char_of (of_char c + 1 :: nat) # cs)) else bump cs)"

definition prefixUpperBound :: "string \<Rightarrow> string option" where
  "prefixUpperBound prefix = bump (rev prefix)"

definition store_Scan :: "string \<Rightarrow> 'v database \<Rightarrow> (string \<times> 'v) list" where
  "store_Scan prefix db =
     sort_key fst (filter (\<lambda>(k, v). prefix \<le> k \<and> (case prefixUpperBound prefix of None \<Rightarrow> True | Some u \<Rightarrow> k < u)) db)"

subsection \<open>A range of keys is a prefix\<close>

lemma less_char_iff: "(c :: char) < d \<longleftrightarrow> (of_char c :: nat) < of_char d"
  by (simp add: less_char_def)

lemma of_char_255: "(of_char c :: nat) \<le> 255"
  using of_char_mod_256 [of c, where ?'a = nat] mod_less_divisor [of 256 "of_char c :: nat"] by linarith

lemma range_snoc:
  assumes "(of_char c :: nat) < 255"
  shows "p @ [c] \<le> k \<and> k < p @ [char_of (of_char c + 1 :: nat)] \<longleftrightarrow> str_prefix (p @ [c]) k"
proof (induction p arbitrary: k)
  case Nil
  have n: "of_char (char_of (of_char c + 1 :: nat)) = (of_char c + 1 :: nat)" using assms by (simp add: of_char_of)
  show ?case
  proof (cases k)
    case (Cons d ds)
    have "d < char_of (of_char c + 1 :: nat) \<longleftrightarrow> \<not> c < d" unfolding less_char_iff n by linarith
    then show ?thesis unfolding Cons by (cases "c = d"; cases "c < d") simp_all
  qed simp
next
  case (Cons a p)
  show ?case
  proof (cases k)
    case k: (Cons b bs)
    show ?thesis
    proof (cases "a = b")
      case True
      then show ?thesis using Cons.IH [of bs] unfolding k by simp
    next
      case False
      then show ?thesis unfolding k using less_imp_not_less [of a b] by (cases "a < b") simp_all
    qed
  qed simp
qed

lemma append_le_prefix: "p @ s \<le> p @ t \<longleftrightarrow> s \<le> (t :: string)"
  by (induction p) simp_all

lemma le_append: "p \<le> p @ (s :: string)"
  by (induction p) simp_all

text \<open>The keys between the bounds of a scan are those with its prefix.\<close>

lemma range_is_prefix:
  "prefix \<le> k \<and> (case prefixUpperBound prefix of None \<Rightarrow> True | Some u \<Rightarrow> k < u) \<longleftrightarrow> str_prefix prefix k"
proof (induction prefix rule: rev_induct)
  case Nil
  then show ?case by (simp add: prefixUpperBound_def)
next
  case (snoc c p)
  show ?case
  proof (cases "(of_char c :: nat) < 255")
    case True
    then show ?thesis using range_snoc [OF True, of p k] by (simp add: prefixUpperBound_def)
  next
    case False
    have top: "d \<le> c" for d
      using False of_char_255 [of d] unfolding linorder_not_less [symmetric] less_char_iff by linarith
    have b: "prefixUpperBound (p @ [c]) = prefixUpperBound p" using False by (simp add: prefixUpperBound_def)
    have "p @ [c] \<le> k \<Longrightarrow> p \<le> k" using le_append [of p "[c]"] by (rule order_trans)
    then have "p @ [c] \<le> k \<and> (case prefixUpperBound p of None \<Rightarrow> True | Some u \<Rightarrow> k < u) \<longleftrightarrow> p @ [c] \<le> k \<and> str_prefix p k"
      using snoc by blast
    also have "\<dots> \<longleftrightarrow> (\<exists>t. k = p @ t \<and> p @ [c] \<le> p @ t)" unfolding str_prefix_iff by blast
    also have "\<dots> \<longleftrightarrow> (\<exists>t. k = p @ t \<and> [c] \<le> t)" unfolding append_le_prefix ..
    also have "\<dots> \<longleftrightarrow> (\<exists>t. k = p @ c # t)"
    proof -
      have "[c] \<le> t \<longleftrightarrow> (\<exists>u. t = c # u)" for t
      proof (cases t)
        case (Cons d ds)
        have "\<not> c < d" using top [of d] by (rule leD)
        then show ?thesis unfolding Cons by simp blast
      qed simp
      then show ?thesis by blast
    qed
    finally show ?thesis unfolding b by (simp add: str_prefix_iff)
  qed
qed

lemma store_Scan_prefix: "store_Scan prefix db = sort_key fst (filter (\<lambda>kv. str_prefix prefix (fst kv)) db)"
  unfolding store_Scan_def range_is_prefix case_prod_beta ..

subsection \<open>What the stores of the broker rely on\<close>

text \<open>
  The interface \<^verbatim>\<open>storage.Store\<close> with its laws.  The client's side: a map in memory is mirrored under a
  prefix of the keys, and a scan of that prefix gives the map back.
\<close>

locale key_value_store =
  fixes get :: "string \<Rightarrow> 'd \<Rightarrow> 'v option"
    and put :: "string \<Rightarrow> 'v \<Rightarrow> 'd \<Rightarrow> 'd"
    and del :: "string \<Rightarrow> 'd \<Rightarrow> 'd"
    and scan :: "string \<Rightarrow> 'd \<Rightarrow> (string \<times> 'v) list"
    and wf :: "'d \<Rightarrow> bool"
  assumes get_put: "get k (put k' v d) = (if k = k' then Some v else get k d)"
    and get_del: "get k (del k' d) = (if k = k' then None else get k d)"
    and wf_put: "wf d \<Longrightarrow> wf (put k v d)"
    and wf_del: "wf d \<Longrightarrow> wf (del k d)"
    and scan_mem: "wf d \<Longrightarrow> (k, v) \<in> set (scan p d) \<longleftrightarrow> str_prefix p k \<and> get k d = Some v"
    and scan_sorted: "wf d \<Longrightarrow> sorted (map fst (scan p d)) \<and> distinct (map fst (scan p d))"
begin

definition mirrors :: "string \<Rightarrow> ('a \<Rightarrow> 'v) \<Rightarrow> (string \<rightharpoonup> 'a) \<Rightarrow> 'd \<Rightarrow> bool" where
  "mirrors p enc m d \<longleftrightarrow> (\<forall>k. get (p @ k) d = map_option enc (m k))"

lemma mirrors_put: "mirrors p enc m d \<Longrightarrow> mirrors p enc (m(k \<mapsto> a)) (put (p @ k) (enc a) d)"
  by (simp add: mirrors_def get_put)

lemma mirrors_del: "mirrors p enc m d \<Longrightarrow> mirrors p enc (m(k := None)) (del (p @ k) d)"
  by (simp add: mirrors_def get_del)

lemma mirrors_put_other: "mirrors p enc m d \<Longrightarrow> \<not> str_prefix p k \<Longrightarrow> mirrors p enc m (put k v d)"
  by (auto simp: mirrors_def get_put str_prefix_iff)

lemma mirrors_del_other: "mirrors p enc m d \<Longrightarrow> \<not> str_prefix p k \<Longrightarrow> mirrors p enc m (del k d)"
  by (auto simp: mirrors_def get_del str_prefix_iff)

text \<open>Loading: each value that can be decoded becomes the entry of its key without the prefix.\<close>

definition load_entry :: "string \<Rightarrow> (string \<Rightarrow> 'v \<Rightarrow> 'a option) \<Rightarrow> string \<times> 'v \<Rightarrow> (string \<times> 'a) list \<Rightarrow> (string \<times> 'a) list" where
  "load_entry p dec kv ms = (case dec (trim_prefix (fst kv) p) (snd kv) of
     None \<Rightarrow> ms | Some a \<Rightarrow> AList.update (trim_prefix (fst kv) p) a ms)"

definition load :: "string \<Rightarrow> (string \<Rightarrow> 'v \<Rightarrow> 'a option) \<Rightarrow> 'd \<Rightarrow> (string \<times> 'a) list \<Rightarrow> (string \<times> 'a) list" where
  "load p dec d ms = fold (load_entry p dec) (scan p d) ms"

lemma fold_load_entry:
  assumes "distinct (map fst xs)" and "list_all (\<lambda>kv. str_prefix p (fst kv)) xs"
  shows "map_of (fold (load_entry p dec) xs ms) t =
    (case Option.bind (map_of xs (p @ t)) (dec t) of None \<Rightarrow> map_of ms t | Some a \<Rightarrow> Some a)"
  using assms
proof (induction xs arbitrary: ms)
  case (Cons x xs)
  obtain s where k: "fst x = p @ s" using Cons.prems(2) by (auto simp: str_prefix_iff)
  have IH: "map_of (fold (load_entry p dec) xs ms') t =
      (case Option.bind (map_of xs (p @ t)) (dec t) of None \<Rightarrow> map_of ms' t | Some a \<Rightarrow> Some a)" for ms'
    using Cons.IH Cons.prems by simp
  have e: "map_of (load_entry p dec x ms) t = (if s = t then (case dec s (snd x) of None \<Rightarrow> map_of ms t | Some a \<Rightarrow> Some a) else map_of ms t)"
    by (simp add: load_entry_def k update_conv' split: option.split)
  show ?case
  proof (cases "s = t")
    case True
    have "map_of xs (p @ t) = None" using Cons.prems(1) True k by (simp add: map_of_eq_None_iff)
    then show ?thesis using IH e True k by (cases x) simp
  next
    case False
    then show ?thesis using IH e k by (cases x) (simp cong: option.case_cong)
  qed
qed simp

lemma scan_get:
  assumes "wf d"
  shows "map_of (scan p d) (p @ k) = get (p @ k) d"
proof (cases "get (p @ k) d")
  case None
  then have "(p @ k, v) \<notin> set (scan p d)" for v using scan_mem [OF assms, of "p @ k" v p] by simp
  then show ?thesis using None by (metis map_of_SomeD option.exhaust)
next
  case (Some v)
  then have "(p @ k, v) \<in> set (scan p d)" using scan_mem [OF assms, of "p @ k" v p] by (simp add: str_prefix_iff)
  then show ?thesis using Some scan_sorted [OF assms, of p] by (simp add: map_of_SomeI)
qed

lemma load_get:
  assumes "wf d"
  shows "map_of (load p dec d []) t = Option.bind (get (p @ t) d) (dec t)"
proof -
  have "list_all (\<lambda>kv. str_prefix p (fst kv)) (scan p d)" using scan_mem [OF assms] by (auto simp: list_all_iff)
  then show ?thesis
    unfolding load_def using fold_load_entry [of "scan p d" p dec "[]" t] scan_sorted [OF assms] scan_get [OF assms]
    by (simp split: option.splits)
qed

lemma load_mirrors:
  assumes "wf d" and "mirrors p enc m d" and "\<And>a. m t = Some a \<Longrightarrow> dec t (enc a) = Some a"
  shows "map_of (load p dec d []) t = m t"
  using assms(2,3) load_get [OF assms(1), of p dec t] by (cases "m t") (simp_all add: mirrors_def)

end

definition db_wf :: "'v database \<Rightarrow> bool" where
  "db_wf db \<longleftrightarrow> distinct (map fst db)"

lemma store_Scan_mem: "db_wf db \<Longrightarrow> (k, v) \<in> set (store_Scan p db) \<longleftrightarrow> str_prefix p k \<and> store_Get k db = Some v"
  by (auto simp: store_Scan_prefix store_Get_def db_wf_def map_of_SomeI dest: map_of_SomeD)

lemma store_Scan_sorted:
  assumes "db_wf db"
  shows "sorted (map fst (store_Scan p db)) \<and> distinct (map fst (store_Scan p db))"
proof -
  have "distinct (map fst (filter (\<lambda>kv. str_prefix p (fst kv)) db))" using assms by (simp add: db_wf_def distinct_map_filter)
  then show ?thesis unfolding store_Scan_prefix by (simp add: distinct_map)
qed

interpretation pebble: key_value_store store_Get store_Set store_Delete store_Scan db_wf
  by unfold_locales
    (simp_all add: store_Get_def store_Set_def store_Delete_def update_conv' delete_conv' db_wf_def distinct_update distinct_delete
      store_Scan_mem [unfolded store_Get_def db_wf_def] store_Scan_sorted [unfolded db_wf_def])

end
