(* ===== verification/Stores.thy ===== *)
theory Stores
  imports Storage Subscriptions
begin

section \<open>Retained messages, sessions and wills\<close>

text \<open>
  Models \<^verbatim>\<open>retain.go\<close>, \<^verbatim>\<open>session.go\<close>, \<^verbatim>\<open>will.go\<close> and \<^verbatim>\<open>will_persist.go\<close> of \<^verbatim>\<open>internal/broker\<close>.  Each store keeps a
  map in memory and writes every change to the database, if there is one; the database is an argument
  and a result of the operations.  Times are integers and \<open>now\<close> is \<^verbatim>\<open>time.Now()\<close>.  A pointer to a session
  is the entry of its map.
\<close>

record retainedMessage =
  rm_Topic :: string
  rm_Payload :: "8 word list"
  rm_QoS :: "8 word"

record Session =
  s_ClientID :: string
  s_CleanStart :: bool
  s_ExpiryInterval :: "32 word"
  s_Subscriptions :: "(string \<times> 8 word) list"
  s_DisconnectedAt :: "int option"
  s_Epoch :: "64 word"
  s_ConnectTimestamp :: int
  s_NodeID :: string

record WillMessage =
  w_Topic :: string
  w_Payload :: "8 word list"
  w_QoS :: "8 word"
  w_Retain :: bool
  w_ClientID :: string
  w_PersistedAt :: int

record OfflineMessage =
  om_Topic :: string
  om_Payload :: "8 word list"
  om_QoS :: "8 word"
  om_Priority :: "8 word"
  om_CreatedAt :: "int option"
  om_ExpiresAt :: "int option"

text \<open>
  What the values of the database stand for.  \<open>StoredOldSession cs s\<close> is a session in the old format, with the
  field \<^verbatim>\<open>cleanSession\<close> and without \<^verbatim>\<open>cleanStart\<close>; \<open>s\<close> has the other fields.
\<close>

datatype stored =
    StoredRetained "8 word list" "8 word"
  | StoredSession Session
  | StoredOldSession bool Session
  | StoredWill WillMessage
  | StoredMark
  | StoredOffline OfflineMessage
  | StoredSeq nat

type_synonym disk = "stored database"

subsection \<open>Retained messages\<close>

type_synonym RetainStore = "(string \<times> retainedMessage) list"

definition NewRetainStore :: RetainStore where
  "NewRetainStore = []"

fun decode_retained :: "string \<Rightarrow> stored \<Rightarrow> retainedMessage option" where
  "decode_retained topic (StoredRetained payload qos) = Some \<lparr>rm_Topic = topic, rm_Payload = payload, rm_QoS = qos\<rparr>"
| "decode_retained topic _ = None"

definition retain_Load :: "disk option \<Rightarrow> RetainStore \<Rightarrow> RetainStore" where
  "retain_Load db rs = (case db of
     None \<Rightarrow> rs
   | Some d \<Rightarrow> fold (\<lambda>(key, val) ms. let topic = trim_prefix key ''r/'' in
       case decode_retained topic val of None \<Rightarrow> ms | Some m \<Rightarrow> AList.update topic m ms) (store_Scan ''r/'' d) rs)"

definition retain_Set :: "string \<Rightarrow> 8 word list \<Rightarrow> 8 word \<Rightarrow> RetainStore \<times> disk option \<Rightarrow> RetainStore \<times> disk option" where
  "retain_Set topic payload qos s =
     (if payload = [] then (AList.delete topic (fst s), map_option (store_Delete (''r/'' @ topic)) (snd s))
      else (AList.update topic \<lparr>rm_Topic = topic, rm_Payload = payload, rm_QoS = qos\<rparr> (fst s),
            map_option (store_Set (''r/'' @ topic) (StoredRetained payload qos)) (snd s)))"

definition retain_Match :: "string \<Rightarrow> RetainStore \<Rightarrow> retainedMessage list" where
  "retain_Match filt rs = map snd (filter (\<lambda>(topic, msg). TopicMatch filt topic) rs)"

definition retain_Count :: "RetainStore \<Rightarrow> nat" where
  "retain_Count rs = length rs"

subsection \<open>Sessions\<close>

definition SetSubscription :: "string \<Rightarrow> 8 word \<Rightarrow> Session \<Rightarrow> Session" where
  "SetSubscription topic qos s = s\<lparr>s_Subscriptions := AList.update topic qos (s_Subscriptions s)\<rparr>"

definition RemoveSubscription :: "string \<Rightarrow> Session \<Rightarrow> Session" where
  "RemoveSubscription topic s = s\<lparr>s_Subscriptions := AList.delete topic (s_Subscriptions s)\<rparr>"

type_synonym SessionStore = "(string \<times> Session) list"

definition NewSessionStore :: SessionStore where
  "NewSessionStore = []"

definition session_persist :: "string \<Rightarrow> Session \<Rightarrow> disk option \<Rightarrow> disk option" where
  "session_persist c s db = map_option (store_Set (''s/'' @ c) (StoredSession s)) db"

fun decode_session :: "string \<Rightarrow> stored \<Rightarrow> Session option" where
  "decode_session c (StoredSession s) = Some (s\<lparr>s_ClientID := c\<rparr>)"
| "decode_session c (StoredOldSession cs s) =
     Some (s\<lparr>s_ClientID := c, s_CleanStart := cs, s_ExpiryInterval := (if cs then 0 else 0xFFFFFFFF)\<rparr>)"
| "decode_session c _ = None"

definition session_Load :: "disk option \<Rightarrow> SessionStore \<Rightarrow> SessionStore" where
  "session_Load db ss = (case db of
     None \<Rightarrow> ss
   | Some d \<Rightarrow> fold (\<lambda>(key, val) ms. let c = trim_prefix key ''s/'' in
       case decode_session c val of None \<Rightarrow> ms | Some s \<Rightarrow> AList.update c s ms) (store_Scan ''s/'' d) ss)"

definition session_Get :: "string \<Rightarrow> SessionStore \<Rightarrow> Session option" where
  "session_Get c ss = map_of ss c"

definition session_Create :: "string \<Rightarrow> bool \<Rightarrow> 32 word \<Rightarrow> SessionStore \<times> disk option \<Rightarrow> SessionStore \<times> disk option" where
  "session_Create c cleanStart expiryInterval s =
     (let ses = \<lparr>s_ClientID = c, s_CleanStart = cleanStart, s_ExpiryInterval = expiryInterval, s_Subscriptions = [],
                s_DisconnectedAt = None, s_Epoch = 0, s_ConnectTimestamp = 0, s_NodeID = []\<rparr>
      in (AList.update c ses (fst s), session_persist c ses (snd s)))"

definition MarkDisconnected :: "int \<Rightarrow> string \<Rightarrow> SessionStore \<times> disk option \<Rightarrow> SessionStore \<times> disk option" where
  "MarkDisconnected now c s = (case map_of (fst s) c of
     None \<Rightarrow> s
   | Some ses \<Rightarrow> (let ses' = ses\<lparr>s_DisconnectedAt := Some now\<rparr> in (AList.update c ses' (fst s), session_persist c ses' (snd s))))"

definition ExpiredSessions :: "int \<Rightarrow> SessionStore \<Rightarrow> string list" where
  "ExpiredSessions now ss = map fst (filter (\<lambda>(i, s). case s_DisconnectedAt s of
     None \<Rightarrow> False
   | Some t \<Rightarrow> s_ExpiryInterval s \<noteq> 0xFFFFFFFF \<and> now > t + uint (s_ExpiryInterval s) * 1000000000) ss)"

definition session_Remove :: "string \<Rightarrow> SessionStore \<times> disk option \<Rightarrow> SessionStore \<times> disk option" where
  "session_Remove c s = (AList.delete c (fst s), map_option (store_Delete (''s/'' @ c)) (snd s))"

definition session_Save :: "string \<Rightarrow> SessionStore \<times> disk option \<Rightarrow> SessionStore \<times> disk option" where
  "session_Save c s = (case map_of (fst s) c of None \<Rightarrow> s | Some ses \<Rightarrow> (fst s, session_persist c ses (snd s)))"

subsection \<open>Wills\<close>

type_synonym WillStore = "(string \<times> WillMessage) list"

definition NewWillStore :: WillStore where
  "NewWillStore = []"

fun decode_will :: "string \<Rightarrow> stored \<Rightarrow> WillMessage option" where
  "decode_will c (StoredWill w) = (if str_prefix ''-published/'' c then None else Some (w\<lparr>w_ClientID := c\<rparr>))"
| "decode_will c _ = None"

definition will_Load :: "disk \<Rightarrow> WillStore \<Rightarrow> WillStore" where
  "will_Load d ws = fold (\<lambda>(key, val) ms. let c = trim_prefix key ''wm/'' in
     case decode_will c val of None \<Rightarrow> ms | Some w \<Rightarrow> AList.update c w ms) (store_Scan ''wm/'' d) ws"

definition will_Set :: "string \<Rightarrow> WillMessage \<Rightarrow> WillStore \<times> disk \<Rightarrow> WillStore \<times> disk" where
  "will_Set c will s = (let w = will\<lparr>w_ClientID := c\<rparr> in
     (AList.update c w (fst s), store_Delete (''wm-published/'' @ c) (store_Set (''wm/'' @ c) (StoredWill w) (snd s))))"

definition will_Get :: "string \<Rightarrow> WillStore \<Rightarrow> WillMessage option" where
  "will_Get c ws = map_of ws c"

definition will_Delete :: "string \<Rightarrow> WillStore \<times> disk \<Rightarrow> WillStore \<times> disk" where
  "will_Delete c s = (AList.delete c (fst s), store_Delete (''wm-published/'' @ c) (store_Delete (''wm/'' @ c) (snd s)))"

definition will_All :: "WillStore \<Rightarrow> (string \<times> WillMessage) list" where
  "will_All ws = ws"

definition MarkPublished :: "string \<Rightarrow> disk \<Rightarrow> disk" where
  "MarkPublished c d = store_Set (''wm-published/'' @ c) StoredMark d"

definition IsPublished :: "string \<Rightarrow> disk \<Rightarrow> bool" where
  "IsPublished c d \<longleftrightarrow> store_Get (''wm-published/'' @ c) d \<noteq> None"

subsection \<open>What survives a restart\<close>

text \<open>
  The three stores share one database.  A change of a session's subscriptions is saved at once, as the handlers of
  SUBSCRIBE and UNSUBSCRIBE do at their end.
\<close>

record stores =
  st_retained :: RetainStore
  st_sessions :: SessionStore
  st_wills :: WillStore
  st_disk :: disk

datatype store_op =
    OpRetain string "8 word list" "8 word"
  | OpCreateSession string bool "32 word"
  | OpSetSubscription string string "8 word"
  | OpRemoveSubscription string string
  | OpMarkDisconnected int string
  | OpRemoveSession string
  | OpSetWill string WillMessage
  | OpDeleteWill string
  | OpMarkPublished string

definition on_sessions :: "(SessionStore \<times> disk option \<Rightarrow> SessionStore \<times> disk option) \<Rightarrow> stores \<Rightarrow> stores" where
  "on_sessions f s = (case f (st_sessions s, Some (st_disk s)) of (ss, db) \<Rightarrow> s\<lparr>st_sessions := ss, st_disk := the db\<rparr>)"

definition edit_session :: "string \<Rightarrow> (Session \<Rightarrow> Session) \<Rightarrow> SessionStore \<Rightarrow> SessionStore" where
  "edit_session c f ss = (case map_of ss c of None \<Rightarrow> ss | Some s \<Rightarrow> AList.update c (f s) ss)"

fun store_step :: "store_op \<Rightarrow> stores \<Rightarrow> stores" where
  "store_step (OpRetain topic payload qos) s = (case retain_Set topic payload qos (st_retained s, Some (st_disk s)) of
     (rs, db) \<Rightarrow> s\<lparr>st_retained := rs, st_disk := the db\<rparr>)"
| "store_step (OpCreateSession c cs e) s = on_sessions (session_Create c cs e) s"
| "store_step (OpSetSubscription c f q) s =
     on_sessions (session_Save c) (s\<lparr>st_sessions := edit_session c (SetSubscription f q) (st_sessions s)\<rparr>)"
| "store_step (OpRemoveSubscription c f) s =
     on_sessions (session_Save c) (s\<lparr>st_sessions := edit_session c (RemoveSubscription f) (st_sessions s)\<rparr>)"
| "store_step (OpMarkDisconnected t c) s = on_sessions (MarkDisconnected t c) s"
| "store_step (OpRemoveSession c) s = on_sessions (session_Remove c) s"
| "store_step (OpSetWill c w) s = (case will_Set c w (st_wills s, st_disk s) of (ws, d) \<Rightarrow> s\<lparr>st_wills := ws, st_disk := d\<rparr>)"
| "store_step (OpDeleteWill c) s = (case will_Delete c (st_wills s, st_disk s) of (ws, d) \<Rightarrow> s\<lparr>st_wills := ws, st_disk := d\<rparr>)"
| "store_step (OpMarkPublished c) s = s\<lparr>st_disk := MarkPublished c (st_disk s)\<rparr>"

definition empty_stores :: stores where
  "empty_stores = \<lparr>st_retained = NewRetainStore, st_sessions = NewSessionStore, st_wills = NewWillStore, st_disk = []\<rparr>"

text \<open>\<open>loadFromStorage\<close> of the broker, for these stores.\<close>

definition restart :: "stores \<Rightarrow> stores" where
  "restart s = \<lparr>st_retained = retain_Load (Some (st_disk s)) NewRetainStore,
     st_sessions = session_Load (Some (st_disk s)) NewSessionStore, st_wills = will_Load (st_disk s) NewWillStore, st_disk = st_disk s\<rparr>"

abbreviation encode_retained :: "retainedMessage \<Rightarrow> stored" where
  "encode_retained m \<equiv> StoredRetained (rm_Payload m) (rm_QoS m)"

definition stores_ok :: "stores \<Rightarrow> bool" where
  "stores_ok s \<longleftrightarrow> db_wf (st_disk s) \<and>
     pebble.mirrors ''r/'' encode_retained (map_of (st_retained s)) (st_disk s) \<and>
     pebble.mirrors ''s/'' StoredSession (map_of (st_sessions s)) (st_disk s) \<and>
     pebble.mirrors ''wm/'' StoredWill (map_of (st_wills s)) (st_disk s) \<and>
     (\<forall>k m. map_of (st_retained s) k = Some m \<longrightarrow> rm_Topic m = k) \<and>
     (\<forall>k m. map_of (st_sessions s) k = Some m \<longrightarrow> s_ClientID m = k) \<and>
     (\<forall>k m. map_of (st_wills s) k = Some m \<longrightarrow> w_ClientID m = k)"

lemmas mirror_rules = pebble.mirrors_put_other pebble.mirrors_del_other
  pebble.mirrors_put [where p = "''r/''" and enc = encode_retained and a = "\<lparr>rm_Topic = t, rm_Payload = p, rm_QoS = q\<rparr>" for t p q, simplified]
  pebble.mirrors_put [where p = "''s/''" and enc = StoredSession, simplified]
  pebble.mirrors_put [where p = "''wm/''" and enc = StoredWill, simplified]
  pebble.mirrors_del [where p = "''r/''", simplified] pebble.mirrors_del [where p = "''s/''", simplified]
  pebble.mirrors_del [where p = "''wm/''", simplified]

lemma stores_ok_empty: "stores_ok empty_stores"
  by (simp add: stores_ok_def empty_stores_def NewRetainStore_def NewSessionStore_def NewWillStore_def db_wf_def
      pebble.mirrors_def store_Get_def)

lemma edit_session_map: "map_of (edit_session c f ss) = (case map_of ss c of None \<Rightarrow> map_of ss | Some s \<Rightarrow> (map_of ss)(c \<mapsto> f s))"
  by (simp add: edit_session_def update_conv' fun_eq_iff split: option.split)

lemma stores_ok_session_write:
  assumes "stores_ok s" and "s_ClientID ses = c"
  shows "stores_ok (s\<lparr>st_sessions := AList.update c ses (st_sessions s), st_disk := store_Set (CHR ''s'' # CHR ''/'' # c) (StoredSession ses) (st_disk s)\<rparr>)"
  using assms unfolding stores_ok_def by (simp add: pebble.wf_put mirror_rules update_conv')

lemma stores_ok_step: "stores_ok s \<Longrightarrow> stores_ok (store_step x s)"
proof (cases x)
  case (OpRetain topic payload qos)
  assume "stores_ok s"
  then show ?thesis unfolding OpRetain stores_ok_def
    by (simp add: retain_Set_def pebble.wf_put pebble.wf_del mirror_rules update_conv' delete_conv')
next
  case (OpCreateSession c cs e)
  assume "stores_ok s"
  then show ?thesis unfolding OpCreateSession
    by (simp add: on_sessions_def session_Create_def session_persist_def Let_def update_conv' stores_ok_session_write)
next
  case (OpSetSubscription c f q)
  assume ok: "stores_ok s"
  show ?thesis
  proof (cases "map_of (st_sessions s) c")
    case None
    then show ?thesis using ok by (simp add: OpSetSubscription on_sessions_def session_Save_def edit_session_def)
  next
    case (Some ses)
    then have "s_ClientID ses = c" using ok by (simp add: stores_ok_def)
    then show ?thesis using ok Some
      by (simp add: OpSetSubscription on_sessions_def session_Save_def session_persist_def edit_session_def update_conv'
          stores_ok_session_write SetSubscription_def)
  qed
next
  case (OpRemoveSubscription c f)
  assume ok: "stores_ok s"
  show ?thesis
  proof (cases "map_of (st_sessions s) c")
    case None
    then show ?thesis using ok by (simp add: OpRemoveSubscription on_sessions_def session_Save_def edit_session_def)
  next
    case (Some ses)
    then have "s_ClientID ses = c" using ok by (simp add: stores_ok_def)
    then show ?thesis using ok Some
      by (simp add: OpRemoveSubscription on_sessions_def session_Save_def session_persist_def edit_session_def update_conv'
          stores_ok_session_write RemoveSubscription_def)
  qed
next
  case (OpMarkDisconnected t c)
  assume ok: "stores_ok s"
  show ?thesis
  proof (cases "map_of (st_sessions s) c")
    case None
    then show ?thesis using ok by (simp add: OpMarkDisconnected on_sessions_def MarkDisconnected_def)
  next
    case (Some ses)
    then have "s_ClientID ses = c" using ok by (simp add: stores_ok_def)
    then show ?thesis using ok Some
      by (simp add: OpMarkDisconnected on_sessions_def MarkDisconnected_def session_persist_def Let_def update_conv' stores_ok_session_write)
  qed
next
  case (OpRemoveSession c)
  assume "stores_ok s"
  then show ?thesis unfolding OpRemoveSession stores_ok_def
    by (simp add: on_sessions_def session_Remove_def pebble.wf_del mirror_rules delete_conv')
next
  case (OpSetWill c w)
  assume "stores_ok s"
  then show ?thesis unfolding OpSetWill stores_ok_def
    by (simp add: will_Set_def Let_def pebble.wf_put pebble.wf_del mirror_rules update_conv')
next
  case (OpDeleteWill c)
  assume "stores_ok s"
  then show ?thesis unfolding OpDeleteWill stores_ok_def
    by (simp add: will_Delete_def pebble.wf_del mirror_rules delete_conv')
next
  case (OpMarkPublished c)
  assume "stores_ok s"
  then show ?thesis unfolding OpMarkPublished stores_ok_def
    by (simp add: MarkPublished_def pebble.wf_put mirror_rules)
qed

lemma stores_ok_run: "stores_ok s \<Longrightarrow> stores_ok (fold store_step xs s)"
  by (induction xs arbitrary: s) (simp_all add: stores_ok_step)

lemma Load_eq:
  "retain_Load (Some d) [] = pebble.load ''r/'' decode_retained d []"
  "session_Load (Some d) [] = pebble.load ''s/'' decode_session d []"
  "will_Load d [] = pebble.load ''wm/'' decode_will d []"
  by (simp_all only: retain_Load_def session_Load_def will_Load_def pebble.load_def pebble.load_entry_def [abs_def]
      case_prod_unfold Let_def option.case)

text \<open>What the broker acknowledges survives a restart: after any sequence of retained messages,
  changes of sessions, and wills set and deleted, loading the database gives the same retained messages, the same
  sessions with their subscriptions, and the same wills that were in memory. The wills of clients
  whose id starts with \<^verbatim>\<open>-published/\<close> are the exception.\<close>

theorem restart_restores:
  assumes "s = fold store_step xs empty_stores" and "\<not> str_prefix ''-published/'' c"
  shows "map_of (st_retained (restart s)) topic = map_of (st_retained s) topic \<and>
    map_of (st_sessions (restart s)) client = map_of (st_sessions s) client \<and>
    map_of (st_wills (restart s)) c = map_of (st_wills s) c"
proof -
  have ok: "stores_ok s" unfolding assms(1) by (rule stores_ok_run [OF stores_ok_empty])
  then have d: "db_wf (st_disk s)" by (simp add: stores_ok_def)
  have "map_of (st_retained (restart s)) topic = map_of (st_retained s) topic"
    unfolding restart_def NewRetainStore_def stores.simps Load_eq
    by (rule pebble.load_mirrors [OF d, where enc = encode_retained]) (use ok in \<open>auto simp: stores_ok_def\<close>)
  moreover have "map_of (st_sessions (restart s)) client = map_of (st_sessions s) client"
    unfolding restart_def NewSessionStore_def stores.simps Load_eq
    by (rule pebble.load_mirrors [OF d, where enc = StoredSession]) (use ok in \<open>auto simp: stores_ok_def\<close>)
  moreover have "map_of (st_wills (restart s)) c = map_of (st_wills s) c"
    unfolding restart_def NewWillStore_def stores.simps Load_eq
    by (rule pebble.load_mirrors [OF d, where enc = StoredWill]) (use ok assms(2) in \<open>auto simp: stores_ok_def\<close>)
  ultimately show ?thesis by blast
qed

theorem restart_restores_witness:
  "map_of (st_sessions (restart (fold store_step [OpCreateSession ''ann'' False 60, OpSetSubscription ''ann'' ''a/b'' 1,
      OpRetain ''a/b'' [1] 0] empty_stores))) ''ann'' \<noteq> None"
proof -
  let ?xs = "[OpCreateSession ''ann'' False 60, OpSetSubscription ''ann'' ''a/b'' 1, OpRetain ''a/b'' [1] 0]"
  have "map_of (st_sessions (restart (fold store_step ?xs empty_stores))) ''ann'' = map_of (st_sessions (fold store_step ?xs empty_stores)) ''ann''"
    using restart_restores [OF refl, of "''ann''" ?xs "[]" "''ann''"] by simp
  also have "\<dots> \<noteq> None"
    by (simp add: empty_stores_def NewSessionStore_def on_sessions_def session_Create_def session_Save_def edit_session_def
        session_persist_def retain_Set_def Let_def)
  finally show ?thesis .
qed

end
