(* ===== verification/Offline.thy ===== *)
theory Offline
  imports Stores "HOL-Library.Product_Lexorder"
begin

section \<open>Messages for clients that are offline\<close>

text \<open>
  Models \<^verbatim>\<open>internal/broker/offline.go\<close>.  The zero time is \<open>None\<close>.  The queues are an association list with
  distinct keys; a client without a queue has the empty one.  After every change the messages of the client are
  written to the database anew, numbered from zero with twenty digits.
\<close>

record TierConfig =
  HighMax :: int
  HighTTL :: int
  MidMax :: int
  MidTTL :: int
  LowMax :: int
  LowTTL :: int

record OfflineStore =
  os_queues :: "(string \<times> OfflineMessage list) list"
  os_maxPerClient :: int
  os_defaultTTL :: int
  os_tierConfig :: "TierConfig option"
  os_seqNums :: "(string \<times> nat) list"

definition NewOfflineStore :: "int \<Rightarrow> int \<Rightarrow> OfflineStore" where
  "NewOfflineStore maxPerClient defaultTTL = \<lparr>os_queues = [], os_maxPerClient = maxPerClient, os_defaultTTL = defaultTTL,
     os_tierConfig = None, os_seqNums = []\<rparr>"

definition SetTierConfig :: "TierConfig option \<Rightarrow> OfflineStore \<Rightarrow> OfflineStore" where
  "SetTierConfig cfg s = s\<lparr>os_tierConfig := cfg\<rparr>"

definition queue_of :: "string \<Rightarrow> OfflineStore \<Rightarrow> OfflineMessage list" where
  "queue_of c s = (case map_of (os_queues s) c of None \<Rightarrow> [] | Some q \<Rightarrow> q)"

text \<open>The key of a message: \<^verbatim>\<open>om/%s/%020d\<close>.\<close>

fun padded :: "nat \<Rightarrow> nat \<Rightarrow> string" where
  "padded 0 n = []"
| "padded (Suc k) n = padded k (n div 10) @ [digit_char (n mod 10)]"

definition om_key :: "string \<Rightarrow> nat \<Rightarrow> string" where
  "om_key c seq = ''om/'' @ c @ ''/'' @ padded 20 seq"

definition persistMessage :: "string \<Rightarrow> OfflineMessage \<Rightarrow> OfflineStore \<times> disk option \<Rightarrow> OfflineStore \<times> disk option" where
  "persistMessage c msg s = (case snd s of
     None \<Rightarrow> s
   | Some d \<Rightarrow>
       (let seq = (case map_of (os_seqNums (fst s)) c of None \<Rightarrow> 0 | Some n \<Rightarrow> n)
        in ((fst s)\<lparr>os_seqNums := AList.update c (seq + 1) (os_seqNums (fst s))\<rparr>,
            Some (store_Set (''om-seq/'' @ c) (StoredSeq (seq + 1)) (store_Set (om_key c seq) (StoredOffline msg) d)))))"

definition delete_prefix :: "string \<Rightarrow> disk \<Rightarrow> disk" where
  "delete_prefix p d = fold (\<lambda>kv. store_Delete (fst kv)) (store_Scan p d) d"

definition clearPebbleMessages :: "string \<Rightarrow> OfflineStore \<times> disk option \<Rightarrow> OfflineStore \<times> disk option" where
  "clearPebbleMessages c s = (case snd s of
     None \<Rightarrow> s
   | Some d \<Rightarrow>
       (let queue = queue_of c (fst s);
            s1 = ((fst s)\<lparr>os_seqNums := AList.update c 0 (os_seqNums (fst s))\<rparr>, Some (delete_prefix (''om/'' @ c @ ''/'') d));
            s2 = fold (persistMessage c) queue s1
        in if queue = []
           then ((fst s2)\<lparr>os_seqNums := AList.delete c (os_seqNums (fst s2))\<rparr>, map_option (store_Delete (''om-seq/'' @ c)) (snd s2))
           else s2))"

definition removeAllPebble :: "string \<Rightarrow> OfflineStore \<times> disk option \<Rightarrow> OfflineStore \<times> disk option" where
  "removeAllPebble c s = (case snd s of
     None \<Rightarrow> s
   | Some d \<Rightarrow> ((fst s)\<lparr>os_seqNums := AList.delete c (os_seqNums (fst s))\<rparr>,
       Some (store_Delete (''om-seq/'' @ c) (delete_prefix (''om/'' @ c @ ''/'') d))))"

definition unexpired :: "int \<Rightarrow> OfflineMessage \<Rightarrow> bool" where
  "unexpired now m = (case om_ExpiresAt m of None \<Rightarrow> True | Some e \<Rightarrow> \<not> now > e)"

text \<open>The creation and expiry times that \<open>Enqueue\<close> fills in.\<close>

definition tier_ttl :: "TierConfig \<Rightarrow> 8 word \<Rightarrow> int option" where
  "tier_ttl cfg p = (if p = 0 then Some (HighTTL cfg) else if p = 1 then Some (MidTTL cfg) else if p = 2 then Some (LowTTL cfg) else None)"

definition stamp :: "int \<Rightarrow> OfflineStore \<Rightarrow> OfflineMessage \<Rightarrow> OfflineMessage" where
  "stamp now s msg =
     (let created = (case om_CreatedAt msg of None \<Rightarrow> now | Some t \<Rightarrow> t);
          expires = (case om_ExpiresAt msg of
              Some e \<Rightarrow> Some e
            | None \<Rightarrow> (case os_tierConfig s of
                  Some cfg \<Rightarrow> map_option (\<lambda>ttl. created + ttl) (tier_ttl cfg (om_Priority msg))
                | None \<Rightarrow> if os_defaultTTL s > 0 then Some (created + os_defaultTTL s) else None))
      in msg\<lparr>om_CreatedAt := Some created, om_ExpiresAt := expires\<rparr>)"

text \<open>The two loops of the eviction: the first message of the lowest class at or below the new one's.\<close>

fun remove_first :: "nat \<Rightarrow> OfflineMessage list \<Rightarrow> OfflineMessage list option" where
  "remove_first p [] = None"
| "remove_first p (m # q) = (if unat (om_Priority m) = p then Some q else map_option ((#) m) (remove_first p q))"

fun evict :: "nat list \<Rightarrow> OfflineMessage list \<Rightarrow> OfflineMessage list option" where
  "evict [] q = None"
| "evict (p # ps) q = (case remove_first p q of Some q' \<Rightarrow> Some q' | None \<Rightarrow> evict ps q)"

definition set_queue :: "string \<Rightarrow> OfflineMessage list \<Rightarrow> OfflineStore \<Rightarrow> OfflineStore" where
  "set_queue c q s = s\<lparr>os_queues := AList.update c q (os_queues s)\<rparr>"

text \<open>The result is whether the message was taken; the code returns an error if it was not.\<close>

definition Enqueue :: "int \<Rightarrow> string \<Rightarrow> OfflineMessage \<Rightarrow> OfflineStore \<times> disk option \<Rightarrow> bool \<times> OfflineStore \<times> disk option" where
  "Enqueue now c msg s =
     (let queue = filter (unexpired now) (queue_of c (fst s));
          msg' = stamp now (fst s) msg;
          room = (if int (length queue) \<ge> os_maxPerClient (fst s)
                  then (case os_tierConfig (fst s) of
                          None \<Rightarrow> None
                        | Some _ \<Rightarrow> evict (rev [unat (om_Priority msg)..<3]) queue)
                  else Some queue)
      in case room of
           None \<Rightarrow> (False, set_queue c queue (fst s), snd s)
         | Some q \<Rightarrow> (True, clearPebbleMessages c (set_queue c (q @ [msg']) (fst s), snd s)))"

definition delivery_order :: "OfflineMessage \<Rightarrow> nat \<times> nat \<times> int" where
  "delivery_order m = (unat (om_Priority m), case om_CreatedAt m of None \<Rightarrow> (0, 0) | Some t \<Rightarrow> (1, t))"

definition Dequeue :: "int \<Rightarrow> string \<Rightarrow> nat \<Rightarrow> OfflineStore \<times> disk option \<Rightarrow> OfflineMessage list \<times> OfflineStore \<times> disk option" where
  "Dequeue now c maxCount s = (case map_of (os_queues (fst s)) c of
     None \<Rightarrow> ([], s)
   | Some queue \<Rightarrow>
       (let valid = sort_key delivery_order (filter (unexpired now) queue);
            result = take maxCount valid;
            remaining = drop maxCount valid;
            s1 = (if remaining = [] then (fst s)\<lparr>os_queues := AList.delete c (os_queues (fst s))\<rparr> else set_queue c remaining (fst s))
        in (result, clearPebbleMessages c (s1, snd s))))"

definition offline_RemoveAll :: "string \<Rightarrow> OfflineStore \<times> disk option \<Rightarrow> OfflineStore \<times> disk option" where
  "offline_RemoveAll c s = removeAllPebble c ((fst s)\<lparr>os_queues := AList.delete c (os_queues (fst s))\<rparr>, snd s)"

definition offline_Count :: "string \<Rightarrow> OfflineStore \<Rightarrow> nat" where
  "offline_Count c s = length (queue_of c s)"

text \<open>The two scans of \<open>LoadFromStore\<close>.\<close>

definition load_seq :: "string \<times> stored \<Rightarrow> OfflineStore \<Rightarrow> OfflineStore" where
  "load_seq kv s = (case snd kv of
     StoredSeq n \<Rightarrow> s\<lparr>os_seqNums := AList.update (trim_prefix (fst kv) ''om-seq/'') n (os_seqNums s)\<rparr> | _ \<Rightarrow> s)"

definition load_message :: "string \<times> stored \<Rightarrow> OfflineStore \<Rightarrow> OfflineStore" where
  "load_message kv s = (case str_split2 CHR ''/'' (trim_prefix (fst kv) ''om/'') of
     [c, _] \<Rightarrow> (case snd kv of StoredOffline msg \<Rightarrow> set_queue c (queue_of c s @ [msg]) s | _ \<Rightarrow> s)
   | _ \<Rightarrow> s)"

definition LoadFromStore :: "disk option \<Rightarrow> OfflineStore \<Rightarrow> OfflineStore" where
  "LoadFromStore db s = (case db of
     None \<Rightarrow> s
   | Some d \<Rightarrow> fold load_message (store_Scan ''om/'' d) (fold load_seq (store_Scan ''om-seq/'' d) s))"

subsection \<open>The queues do not depend on the database\<close>

lemma persistMessage_fields [simp]:
  "os_queues (fst (persistMessage c m s)) = os_queues (fst s)" "os_maxPerClient (fst (persistMessage c m s)) = os_maxPerClient (fst s)"
  "os_defaultTTL (fst (persistMessage c m s)) = os_defaultTTL (fst s)" "os_tierConfig (fst (persistMessage c m s)) = os_tierConfig (fst s)"
  by (simp_all add: persistMessage_def Let_def split: option.split)

lemma persist_all_fields [simp]:
  "os_queues (fst (fold (persistMessage c) q s)) = os_queues (fst s)" "os_maxPerClient (fst (fold (persistMessage c) q s)) = os_maxPerClient (fst s)"
  "os_defaultTTL (fst (fold (persistMessage c) q s)) = os_defaultTTL (fst s)" "os_tierConfig (fst (fold (persistMessage c) q s)) = os_tierConfig (fst s)"
  by (induction q arbitrary: s) simp_all

lemma clearPebble_fields [simp]:
  "os_queues (fst (clearPebbleMessages c s)) = os_queues (fst s)" "os_maxPerClient (fst (clearPebbleMessages c s)) = os_maxPerClient (fst s)"
  "os_defaultTTL (fst (clearPebbleMessages c s)) = os_defaultTTL (fst s)" "os_tierConfig (fst (clearPebbleMessages c s)) = os_tierConfig (fst s)"
  by (simp_all add: clearPebbleMessages_def Let_def split: option.split)

lemma queue_of_clearPebble [simp]: "queue_of d (fst (clearPebbleMessages c s)) = queue_of d (fst s)"
  by (simp add: queue_of_def)

lemma queue_of_set_queue [simp]: "queue_of d (set_queue c q s) = (if d = c then q else queue_of d s)"
  by (simp add: queue_of_def set_queue_def update_conv')

lemma set_queue_fields [simp]:
  "os_maxPerClient (set_queue c q s) = os_maxPerClient s" "os_defaultTTL (set_queue c q s) = os_defaultTTL s"
  "os_tierConfig (set_queue c q s) = os_tierConfig s" "os_seqNums (set_queue c q s) = os_seqNums s"
  by (simp_all add: set_queue_def)

lemma queue_of_delete [simp]: "queue_of d (s\<lparr>os_queues := AList.delete c (os_queues s)\<rparr>) = (if d = c then [] else queue_of d s)"
  by (simp add: queue_of_def delete_conv')

lemma Dequeue_facts:
  shows "fst (Dequeue now c n s) = take n (sort_key delivery_order (filter (unexpired now) (queue_of c (fst s))))"
    and "queue_of d (fst (snd (Dequeue now c n s))) =
      (if d = c then drop n (sort_key delivery_order (filter (unexpired now) (queue_of c (fst s)))) else queue_of d (fst s))"
    and "os_maxPerClient (fst (snd (Dequeue now c n s))) = os_maxPerClient (fst s)"
    and "os_defaultTTL (fst (snd (Dequeue now c n s))) = os_defaultTTL (fst s)"
    and "os_tierConfig (fst (snd (Dequeue now c n s))) = os_tierConfig (fst s)"
proof -
  let ?v = "sort_key delivery_order (filter (unexpired now) (queue_of c (fst s)))"
  have q: "queue_of c (fst s) = (case map_of (os_queues (fst s)) c of None \<Rightarrow> [] | Some q \<Rightarrow> q)" by (rule queue_of_def)
  show "fst (Dequeue now c n s) = take n ?v" by (simp add: Dequeue_def Let_def q split: option.split)
  show "queue_of d (fst (snd (Dequeue now c n s))) = (if d = c then drop n ?v else queue_of d (fst s))"
    using q by (cases "map_of (os_queues (fst s)) c") (simp_all add: Dequeue_def Let_def)
  show "os_maxPerClient (fst (snd (Dequeue now c n s))) = os_maxPerClient (fst s)"
    "os_defaultTTL (fst (snd (Dequeue now c n s))) = os_defaultTTL (fst s)"
    "os_tierConfig (fst (snd (Dequeue now c n s))) = os_tierConfig (fst s)"
    by (simp_all add: Dequeue_def Let_def split: option.split)
qed

lemma Enqueue_facts:
  assumes "os_tierConfig (fst s) = None"
  shows "fst (Enqueue now c msg s) \<longleftrightarrow> int (length (filter (unexpired now) (queue_of c (fst s)))) < os_maxPerClient (fst s)"
    and "queue_of d (fst (snd (Enqueue now c msg s))) =
      (if d = c then filter (unexpired now) (queue_of c (fst s)) @ (if fst (Enqueue now c msg s) then [stamp now (fst s) msg] else [])
       else queue_of d (fst s))"
    and "os_maxPerClient (fst (snd (Enqueue now c msg s))) = os_maxPerClient (fst s)"
    and "os_defaultTTL (fst (snd (Enqueue now c msg s))) = os_defaultTTL (fst s)"
    and "os_tierConfig (fst (snd (Enqueue now c msg s))) = None"
  using assms by (auto simp: Enqueue_def Let_def)

lemma RemoveAll_facts:
  shows "queue_of d (fst (offline_RemoveAll c s)) = (if d = c then [] else queue_of d (fst s))"
    and "os_maxPerClient (fst (offline_RemoveAll c s)) = os_maxPerClient (fst s)"
    and "os_defaultTTL (fst (offline_RemoveAll c s)) = os_defaultTTL (fst s)"
    and "os_tierConfig (fst (offline_RemoveAll c s)) = os_tierConfig (fst s)"
  by (auto simp: offline_RemoveAll_def removeAllPebble_def queue_of_def delete_conv' split: option.split)

subsection \<open>A bounded queue for each client\<close>

datatype offline_call = CallEnqueue string OfflineMessage | CallDequeue string nat | CallRemoveAll string

datatype offline_answer = Taken bool | Messages "OfflineMessage list" | Removed

fun offline_step :: "int \<times> offline_call \<Rightarrow> OfflineStore \<times> disk option \<Rightarrow> offline_answer \<times> OfflineStore \<times> disk option" where
  "offline_step (t, CallEnqueue c m) s = (case Enqueue t c m s of (ok, s') \<Rightarrow> (Taken ok, s'))"
| "offline_step (t, CallDequeue c n) s = (case Dequeue t c n s of (ms, s') \<Rightarrow> (Messages ms, s'))"
| "offline_step (t, CallRemoveAll c) s = (Removed, offline_RemoveAll c s)"

fun offline_run :: "(int \<times> offline_call) list \<Rightarrow> OfflineStore \<times> disk option \<Rightarrow> offline_answer list" where
  "offline_run [] s = []"
| "offline_run (x # xs) s = (case offline_step x s of (r, s') \<Rightarrow> r # offline_run xs s')"

text \<open>
  The specification: a queue for each client that forgets what has expired, takes a message at its end when
  it is not full, and gives messages from its front.  \<open>mx\<close> is the bound and \<open>stamped\<close> fills in the times.
\<close>

type_synonym queues = "string \<Rightarrow> OfflineMessage list"

fun fifo_step :: "int \<Rightarrow> (int \<Rightarrow> OfflineMessage \<Rightarrow> OfflineMessage) \<Rightarrow> int \<times> offline_call \<Rightarrow> queues \<Rightarrow> offline_answer \<times> queues" where
  "fifo_step mx stamped (t, CallEnqueue c m) q =
     (let v = filter (unexpired t) (q c) in
      if int (length v) < mx then (Taken True, q(c := v @ [stamped t m])) else (Taken False, q(c := v)))"
| "fifo_step mx stamped (t, CallDequeue c n) q =
     (let v = filter (unexpired t) (q c) in (Messages (take n v), q(c := drop n v)))"
| "fifo_step mx stamped (t, CallRemoveAll c) q = (Removed, q(c := []))"

fun fifo_run :: "int \<Rightarrow> (int \<Rightarrow> OfflineMessage \<Rightarrow> OfflineMessage) \<Rightarrow> (int \<times> offline_call) list \<Rightarrow> queues \<Rightarrow> offline_answer list" where
  "fifo_run mx stamped [] q = []"
| "fifo_run mx stamped (x # xs) q = (case fifo_step mx stamped x q of (r, q') \<Rightarrow> r # fifo_run mx stamped xs q')"

text \<open>New messages of one priority, without a creation time of their own.\<close>

fun plain_call :: "8 word \<Rightarrow> offline_call \<Rightarrow> bool" where
  "plain_call p (CallEnqueue c m) \<longleftrightarrow> om_Priority m = p \<and> om_CreatedAt m = None"
| "plain_call p _ \<longleftrightarrow> True"

definition in_order :: "8 word \<Rightarrow> int \<Rightarrow> OfflineMessage list \<Rightarrow> bool" where
  "in_order p t q \<longleftrightarrow> sorted (map delivery_order q) \<and> (\<forall>m \<in> set q. delivery_order m \<le> (unat p, 1, t))"

lemma in_order_filter: "in_order p t q \<Longrightarrow> in_order p t (filter P q)"
  by (auto simp: in_order_def sorted_filter)

lemma in_order_drop: "in_order p t q \<Longrightarrow> in_order p t (drop n q)"
  using set_drop_subset [of n q] by (auto simp: in_order_def sorted_wrt_drop simp flip: drop_map)

lemma in_order_later: "in_order p t q \<Longrightarrow> t \<le> u \<Longrightarrow> in_order p u q"
  by (auto simp: in_order_def less_eq_prod_def)

lemma sort_key_sorted: "sorted (map f xs) \<Longrightarrow> sort_key f xs = xs"
  by (induction xs) (simp_all add: insort_is_Cons)

lemma in_order_sort: "in_order p t q \<Longrightarrow> sort_key delivery_order q = q"
  by (simp add: in_order_def sort_key_sorted)

lemma delivery_order_stamp: "om_CreatedAt m = None \<Longrightarrow> delivery_order (stamp t s m) = (unat (om_Priority m), 1, t)"
  by (simp add: delivery_order_def stamp_def Let_def)

lemma in_order_snoc: "in_order p t q \<Longrightarrow> delivery_order m = (unat p, 1, t) \<Longrightarrow> in_order p t (q @ [m])"
  by (auto simp: in_order_def sorted_append)

definition fifo_sim :: "int \<Rightarrow> int \<Rightarrow> 8 word \<Rightarrow> int \<Rightarrow> OfflineStore \<Rightarrow> queues \<Rightarrow> bool" where
  "fifo_sim mx ttl p t s q \<longleftrightarrow> os_maxPerClient s = mx \<and> os_defaultTTL s = ttl \<and> os_tierConfig s = None \<and>
     (\<forall>c. queue_of c s = q c \<and> in_order p t (q c))"

lemma stamp_no_tier: "os_tierConfig s = None \<Longrightarrow> os_defaultTTL s = os_defaultTTL s' \<Longrightarrow> os_tierConfig s' = None \<Longrightarrow> stamp t s m = stamp t s' m"
  by (simp add: stamp_def Let_def split: option.split)

lemma fifo_sim_step:
  assumes sim: "fifo_sim mx ttl p t (fst s) q" and "t \<le> fst x" and "plain_call p (snd x)"
  defines "r \<equiv> offline_step x s" and "r' \<equiv> fifo_step mx (\<lambda>t. stamp t (NewOfflineStore mx ttl)) x q"
  shows "fst r = fst r' \<and> fifo_sim mx ttl p (fst x) (fst (snd r)) (snd r')"
proof -
  obtain u k where x: "x = (u, k)" by (cases x)
  have f: "os_maxPerClient (fst s) = mx" "os_defaultTTL (fst s) = ttl" "os_tierConfig (fst s) = None" "queue_of c (fst s) = q c" for c
    using sim by (simp_all add: fifo_sim_def)
  have o: "in_order p u (q c)" for c using sim in_order_later [of p t "q c" u] assms(2) x by (simp add: fifo_sim_def)
  have st: "stamp u (fst s) m = stamp u (NewOfflineStore mx ttl) m" for m
    by (rule stamp_no_tier) (simp_all add: f NewOfflineStore_def)
  show ?thesis
  proof (cases k)
    case (CallEnqueue c m)
    let ?v = "filter (unexpired u) (q c)"
    have m: "delivery_order (stamp u (NewOfflineStore mx ttl) m) = (unat p, 1, u)"
      using assms(3) by (simp add: x CallEnqueue delivery_order_stamp)
    have "in_order p u (?v @ [stamp u (NewOfflineStore mx ttl) m])" by (rule in_order_snoc [OF in_order_filter [OF o] m])
    then show ?thesis unfolding r_def r'_def x CallEnqueue
      using Enqueue_facts [OF f(3), where now = u and c = c and msg = m] o in_order_filter [OF o, of "unexpired u" c]
      by (cases "Enqueue u c m s") (simp add: fifo_sim_def f st Let_def)
  next
    case (CallDequeue c n)
    have v: "in_order p u (filter (unexpired u) (q c))" by (rule in_order_filter [OF o])
    then show ?thesis unfolding r_def r'_def x CallDequeue
      using Dequeue_facts [where now = u and c = c and n = n and s = s] o in_order_drop [OF v, of n]
      by (cases "Dequeue u c n s") (simp add: fifo_sim_def f in_order_sort Let_def)
  next
    case (CallRemoveAll c)
    then show ?thesis unfolding r_def r'_def x using RemoveAll_facts [where c = c and s = s] o by (simp add: fifo_sim_def f in_order_def)
  qed
qed

lemma fifo_sim_run:
  assumes "fifo_sim mx ttl p t (fst s) q" and "sorted (t # map fst xs)" and "list_all (plain_call p \<circ> snd) xs"
  shows "offline_run xs s = fifo_run mx (\<lambda>t. stamp t (NewOfflineStore mx ttl)) xs q"
  using assms
proof (induction xs arbitrary: t s q)
  case (Cons x xs)
  have le: "t \<le> fst x" and srt: "sorted (fst x # map fst xs)" and pl: "plain_call p (snd x)" "list_all (plain_call p \<circ> snd) xs"
    using Cons.prems by (simp_all add: comp_def)
  let ?r' = "fifo_step mx (\<lambda>t. stamp t (NewOfflineStore mx ttl)) x q"
  have f: "fst (offline_step x s) = fst ?r'" "fifo_sim mx ttl p (fst x) (fst (snd (offline_step x s))) (snd ?r')"
    using fifo_sim_step [OF Cons.prems(1) le pl(1)] by simp_all
  have "offline_run xs (snd (offline_step x s)) = fifo_run mx (\<lambda>t. stamp t (NewOfflineStore mx ttl)) xs (snd ?r')"
    by (rule Cons.IH [OF f(2) srt pl(2)])
  then show ?case using f(1) by (cases "offline_step x s"; cases ?r') simp
qed simp

text \<open>C28: The offline store is a bounded queue for each client: along any history in the order of time of messages
  queued, taken and removed, its answers are those of queues that forget expired messages, take a
  message at the end unless the limit is reached, and give messages back in the order in which they
  were queued, whatever the database holds. The messages are new, of one priority, and there are
  no tiers, as in the broker's own calls.\<close>

theorem offline_is_fifo:
  assumes "sorted (map fst xs)" and "list_all (plain_call p \<circ> snd) xs"
  shows "offline_run xs (NewOfflineStore mx ttl, db) = fifo_run mx (\<lambda>t. stamp t (NewOfflineStore mx ttl)) xs (\<lambda>c. [])"
proof (cases xs)
  case (Cons x ys)
  then have "sorted (fst x # map fst xs)" using assms(1) by simp
  moreover have "fifo_sim mx ttl p t (fst (NewOfflineStore mx ttl, db)) (\<lambda>c. [])" for t
    by (simp add: fifo_sim_def NewOfflineStore_def queue_of_def in_order_def)
  ultimately show ?thesis using assms(2) by (intro fifo_sim_run)
qed simp

definition sample_offline :: "string \<Rightarrow> OfflineMessage" where
  "sample_offline topic = \<lparr>om_Topic = topic, om_Payload = [], om_QoS = 1, om_Priority = 0, om_CreatedAt = None, om_ExpiresAt = None\<rparr>"

theorem offline_is_fifo_witness:
  "offline_run [(0, CallEnqueue ''c'' (sample_offline ''a'')), (0, CallEnqueue ''c'' (sample_offline ''b'')), (1, CallEnqueue ''c'' (sample_offline ''d'')),
      (2, CallDequeue ''c'' 1)] (NewOfflineStore 2 10, None) =
    [Taken True, Taken True, Taken False, Messages [(sample_offline ''a'')\<lparr>om_CreatedAt := Some 0, om_ExpiresAt := Some 10\<rparr>]]"
  using offline_is_fifo [of "[(0, CallEnqueue ''c'' (sample_offline ''a'')), (0, CallEnqueue ''c'' (sample_offline ''b'')),
      (1, CallEnqueue ''c'' (sample_offline ''d'')), (2, CallDequeue ''c'' 1)]" 0 2 10 None]
  by (simp add: sample_offline_def stamp_def NewOfflineStore_def unexpired_def Let_def)

subsection \<open>The database holds the queues\<close>

text \<open>Numbers with a fixed count of digits are ordered as texts the way they are ordered as numbers.\<close>

lemma length_padded [simp]: "length (padded k n) = k"
  by (induction k arbitrary: n) simp_all

lemma append_less_same: "length xs = length ys \<Longrightarrow> xs @ us < ys @ vs \<longleftrightarrow> xs < ys \<or> xs = ys \<and> us < (vs :: string)"
proof (induction xs ys rule: list_induct2)
  case (Cons x xs y ys)
  then show ?case by (cases "x = y") (simp_all add: less_le)
qed simp

lemma digit_char_less: "a < 10 \<Longrightarrow> b < 10 \<Longrightarrow> digit_char a < digit_char b \<longleftrightarrow> a < b"
  by (simp add: digit_char_def less_char_iff of_char_of)

lemma less_by_digit: "m < n \<longleftrightarrow> m div 10 < n div 10 \<or> m div 10 = n div 10 \<and> m mod 10 < n mod (10 :: nat)"
proof -
  have e: "m = m div 10 * 10 + m mod 10" "n = n div 10 * 10 + n mod 10" and l: "m mod 10 < 10" "n mod 10 < 10"
    by simp_all
  consider "m div 10 < n div 10" | "m div 10 = n div 10" | "n div 10 < m div 10" by linarith
  then show ?thesis
  proof cases
    case 1
    then have "m < n" using e l by linarith
    then show ?thesis using 1 by simp
  next
    case 2
    then have "m < n \<longleftrightarrow> m mod 10 < n mod 10" using e by linarith
    then show ?thesis using 2 by simp
  next
    case 3
    then have "\<not> m < n" using e l by linarith
    then show ?thesis using 3 by simp
  qed
qed

lemma padded_less: "m < 10 ^ k \<Longrightarrow> n < 10 ^ k \<Longrightarrow> padded k m < padded k n \<longleftrightarrow> m < n"
proof (induction k arbitrary: m n)
  case (Suc k)
  have d: "m div 10 < 10 ^ k" "n div 10 < 10 ^ k" using Suc.prems by (simp_all add: less_mult_imp_div_less mult.commute)
  have eq: "padded k (m div 10) = padded k (n div 10) \<longleftrightarrow> m div 10 = n div 10"
    using Suc.IH [OF d] Suc.IH [OF d(2,1)] by (cases "m div 10" "n div 10" rule: linorder_cases) auto
  show ?case using Suc.IH [OF d] eq by (simp add: append_less_same digit_char_less less_by_digit [of m n])
qed simp

lemma padded_inj: "m < 10 ^ k \<Longrightarrow> n < 10 ^ k \<Longrightarrow> padded k m = padded k n \<longleftrightarrow> m = n"
  using padded_less [of m k n] padded_less [of n k m] by (cases m n rule: linorder_cases) auto

definition numbered :: "OfflineMessage list \<Rightarrow> (string \<times> OfflineMessage) list" where
  "numbered q = zip (map (padded 20) [0..<length q]) q"

lemma numbered_snoc:
  assumes "length q < 10 ^ 20"
  shows "map_of (numbered (q @ [m])) = (map_of (numbered q))(padded 20 (length q) \<mapsto> m)"
proof -
  have n: "numbered (q @ [m]) = numbered q @ [(padded 20 (length q), m)]" by (simp add: numbered_def)
  have "padded 20 (length q) \<notin> fst ` set (numbered q)"
  proof
    assume "padded 20 (length q) \<in> fst ` set (numbered q)"
    then have "padded 20 (length q) \<in> set (map fst (numbered q))" by simp
    then obtain i where "i < length q" "padded 20 i = padded 20 (length q)" by (auto simp: numbered_def)
    then show False using padded_inj [of i 20 "length q"] assms by simp
  qed
  then have none: "map_of (numbered q) (padded 20 (length q)) = None" by (simp add: map_of_eq_None_iff)
  show ?thesis unfolding n map_of_append
  proof
    fix k show "(map_of [(padded 20 (length q), m)] ++ map_of (numbered q)) k = ((map_of (numbered q))(padded 20 (length q) \<mapsto> m)) k"
      using none by (cases "k = padded 20 (length q)") (simp_all add: map_add_def split: option.split)
  qed
qed

abbreviation om_prefix :: "string \<Rightarrow> string" where
  "om_prefix c \<equiv> ''om/'' @ c @ ''/''"

definition slash_free :: "string \<Rightarrow> bool" where
  "slash_free c \<longleftrightarrow> CHR ''/'' \<notin> set c"

lemma slash_prefix: "slash_free c \<Longrightarrow> slash_free c' \<Longrightarrow> str_prefix (c' @ ''/'') (c @ ''/'' @ r) \<longleftrightarrow> c = c'"
proof (induction c' arbitrary: c)
  case Nil
  then show ?case by (cases c) (auto simp: slash_free_def)
next
  case (Cons x c')
  then show ?case by (cases c) (auto simp: slash_free_def)
qed

lemma om_prefix_other: "slash_free c \<Longrightarrow> slash_free c' \<Longrightarrow> c \<noteq> c' \<Longrightarrow> \<not> str_prefix (om_prefix c') (om_key c n)"
  using slash_prefix [of c c' "padded 20 n"] by (simp add: om_key_def)

lemma om_prefix_seq: "\<not> str_prefix (om_prefix c) (''om-seq/'' @ c')"
  by simp

text \<open>\<open>holds d c q\<close>: the database has exactly the messages of \<open>q\<close> under the prefix of the client.\<close>

definition holds :: "disk \<Rightarrow> string \<Rightarrow> OfflineMessage list \<Rightarrow> bool" where
  "holds d c q \<longleftrightarrow> pebble.mirrors (om_prefix c) StoredOffline (map_of (numbered q)) d"

lemma holds_other:
  "holds d c' q \<Longrightarrow> slash_free c \<Longrightarrow> slash_free c' \<Longrightarrow> c \<noteq> c' \<Longrightarrow> holds (store_Set (om_key c n) v d) c' q"
  "holds d c' q \<Longrightarrow> holds (store_Set (''om-seq/'' @ c) v d) c' q"
  "holds d c' q \<Longrightarrow> holds (store_Delete (''om-seq/'' @ c) d) c' q"
  unfolding holds_def
  by (blast intro: pebble.mirrors_put_other pebble.mirrors_del_other dest: om_prefix_other om_prefix_seq [THEN notE])+

lemma delete_all_get:
  "store_Get k (fold (\<lambda>kv. store_Delete (fst kv)) xs d) = (if k \<in> fst ` set xs then None else store_Get k d)"
  by (induction xs arbitrary: d) (auto simp: pebble.get_del)

lemma delete_all_wf: "db_wf d \<Longrightarrow> db_wf (fold (\<lambda>kv. store_Delete (fst kv)) xs d)"
  by (induction xs arbitrary: d) (simp_all add: pebble.wf_del)

lemma delete_prefix_get:
  assumes "db_wf d"
  shows "store_Get k (delete_prefix p d) = (if str_prefix p k then None else store_Get k d)"
proof -
  have "k \<in> fst ` set (store_Scan p d) \<longleftrightarrow> str_prefix p k \<and> store_Get k d \<noteq> None"
    using pebble.scan_mem [OF assms, of k _ p] by (force simp: image_iff)
  then show ?thesis unfolding delete_prefix_def delete_all_get by auto
qed

lemma holds_delete_prefix:
  assumes "db_wf d"
  shows "holds (delete_prefix (om_prefix c) d) c []"
    and "holds d c' q \<Longrightarrow> slash_free c \<Longrightarrow> slash_free c' \<Longrightarrow> c \<noteq> c' \<Longrightarrow> holds (delete_prefix (om_prefix c) d) c' q"
proof -
  have p: "str_prefix (om_prefix c) (om_prefix c @ k)" for k by (simp only: str_prefix_iff) blast
  then show "holds (delete_prefix (om_prefix c) d) c []"
    unfolding holds_def pebble.mirrors_def delete_prefix_get [OF assms] by (simp add: numbered_def)
  assume h: "holds d c' q" "slash_free c" "slash_free c'" "c \<noteq> c'"
  have "\<not> str_prefix (om_prefix c) (om_prefix c' @ k)" for k using slash_prefix [OF h(3,2)] h(4) by simp
  then show "holds (delete_prefix (om_prefix c) d) c' q"
    using h(1) unfolding holds_def pebble.mirrors_def delete_prefix_get [OF assms] by simp
qed

lemma persist_all:
  assumes "db_wf d" and "holds d c []" and "length q \<le> 10 ^ 20" and "slash_free c"
  shows "\<exists>sn d'. fold (persistMessage c) q (s\<lparr>os_seqNums := AList.update c 0 xs\<rparr>, Some d) = (s\<lparr>os_seqNums := sn\<rparr>, Some d') \<and>
    map_of sn c = Some (length q) \<and> db_wf d' \<and> holds d' c q \<and>
    (\<forall>c' q'. slash_free c' \<longrightarrow> c' \<noteq> c \<longrightarrow> holds d c' q' \<longrightarrow> holds d' c' q')"
  using assms(3)
proof (induction q rule: rev_induct)
  case Nil
  then show ?case using assms by (auto simp: update_conv')
next
  case (snoc m q)
  then obtain sn d' where IH: "fold (persistMessage c) q (s\<lparr>os_seqNums := AList.update c 0 xs\<rparr>, Some d) = (s\<lparr>os_seqNums := sn\<rparr>, Some d')"
    "map_of sn c = Some (length q)" "db_wf d'" "holds d' c q"
    "\<And>c' q'. slash_free c' \<Longrightarrow> c' \<noteq> c \<Longrightarrow> holds d c' q' \<Longrightarrow> holds d' c' q'"
    by auto
  let ?d1 = "store_Set (om_key c (length q)) (StoredOffline m) d'"
  let ?d2 = "store_Set (''om-seq/'' @ c) (StoredSeq (length q + 1)) ?d1"
  have "persistMessage c m (s\<lparr>os_seqNums := sn\<rparr>, Some d') = (s\<lparr>os_seqNums := AList.update c (length q + 1) sn\<rparr>, Some ?d2)"
    by (simp add: persistMessage_def IH(2) Let_def)
  moreover have "holds ?d2 c (q @ [m])"
  proof -
    have "pebble.mirrors (om_prefix c) StoredOffline ((map_of (numbered q))(padded 20 (length q) \<mapsto> m))
        (store_Set (om_prefix c @ padded 20 (length q)) (StoredOffline m) d')"
      using IH(4) unfolding holds_def by (rule pebble.mirrors_put)
    then have "holds ?d1 c (q @ [m])" using snoc.prems unfolding holds_def om_key_def by (simp add: numbered_snoc)
    then show ?thesis by (rule holds_other(2))
  qed
  moreover have "holds ?d2 c' q'" if "slash_free c'" "c' \<noteq> c" "holds d c' q'" for c' q'
    using IH(5) [OF that] that assms(4) by (intro holds_other) auto
  ultimately show ?case using IH(1,3) by (auto simp: pebble.wf_put update_conv')
qed

lemma clearPebble_holds:
  assumes "db_wf d" and "length (queue_of c s) \<le> 10 ^ 20" and "slash_free c"
  shows "\<exists>d'. snd (clearPebbleMessages c (s, Some d)) = Some d' \<and> db_wf d' \<and> holds d' c (queue_of c s) \<and>
    (\<forall>c' q'. slash_free c' \<longrightarrow> c' \<noteq> c \<longrightarrow> holds d c' q' \<longrightarrow> holds d' c' q')"
proof -
  let ?d0 = "delete_prefix (om_prefix c) d"
  have w: "db_wf ?d0" unfolding delete_prefix_def by (rule delete_all_wf [OF assms(1)])
  obtain sn d' where p: "fold (persistMessage c) (queue_of c s) (s\<lparr>os_seqNums := AList.update c 0 (os_seqNums s)\<rparr>, Some ?d0) = (s\<lparr>os_seqNums := sn\<rparr>, Some d')"
    "db_wf d'" "holds d' c (queue_of c s)" "\<And>c' q'. slash_free c' \<Longrightarrow> c' \<noteq> c \<Longrightarrow> holds ?d0 c' q' \<Longrightarrow> holds d' c' q'"
    using persist_all [OF w holds_delete_prefix(1) [OF assms(1)] assms(2,3), where s = s and xs = "os_seqNums s"] by auto
  have other: "holds d' c' q'" if "slash_free c'" "c' \<noteq> c" "holds d c' q'" for c' q'
    using p(4) [OF that(1,2)] holds_delete_prefix(2) [OF assms(1) that(3) assms(3) that(1)] that(2) by blast
  show ?thesis
  proof (cases "queue_of c s = []")
    case True
    then have "snd (clearPebbleMessages c (s, Some d)) = Some (store_Delete (''om-seq/'' @ c) d')"
      using p(1) by (simp add: clearPebbleMessages_def Let_def)
    moreover have "db_wf (store_Delete (''om-seq/'' @ c) d')" by (rule pebble.wf_del [OF p(2)])
    ultimately show ?thesis using holds_other(3) p(3) other by blast
  next
    case False
    then have "snd (clearPebbleMessages c (s, Some d)) = Some d'"
      using p(1) by (simp add: clearPebbleMessages_def Let_def)
    then show ?thesis using p(2,3) other by auto
  qed
qed

text \<open>Loading reads the messages of a client in the order of their numbers.\<close>

definition message_of :: "string \<Rightarrow> string \<times> stored \<Rightarrow> OfflineMessage option" where
  "message_of c kv = (case str_split2 CHR ''/'' (trim_prefix (fst kv) ''om/'') of
     [c', _] \<Rightarrow> (case snd kv of StoredOffline m \<Rightarrow> if c' = c then Some m else None | _ \<Rightarrow> None)
   | _ \<Rightarrow> None)"

lemma queue_of_load_message: "queue_of c (load_message kv s) = queue_of c s @ (case message_of c kv of None \<Rightarrow> [] | Some m \<Rightarrow> [m])"
  by (simp add: load_message_def message_of_def split: list.split stored.split)

lemma queue_of_load: "queue_of c (fold load_message xs s) = queue_of c s @ List.map_filter (message_of c) xs"
  by (induction xs arbitrary: s) (simp_all add: queue_of_load_message List.map_filter_simps split: option.split)

lemma queue_of_load_seq: "queue_of c (fold load_seq xs s) = queue_of c s"
proof (induction xs arbitrary: s)
  case (Cons x xs)
  have "queue_of c (load_seq x s) = queue_of c s" by (simp add: load_seq_def queue_of_def split: stored.split)
  then show ?case using Cons by simp
qed simp

lemma message_of_key:
  assumes "slash_free c"
  shows "message_of c (''om/'' @ t, v) =
    (if str_prefix (c @ ''/'') t then (case v of StoredOffline m \<Rightarrow> Some m | _ \<Rightarrow> None) else None)"
proof (cases "CHR ''/'' \<in> set t")
  case True
  then obtain c' r where t: "t = c' @ CHR ''/'' # r" "CHR ''/'' \<notin> set c'" using split_list_first by metis
  have tp: "trim_prefix (''om/'' @ t) ''om/'' = t" by (rule trim_prefix_append)
  have "str_prefix (c @ ''/'') t \<longleftrightarrow> c' = c" using slash_prefix [of c' c r] assms t by (simp add: slash_free_def)
  then show ?thesis unfolding message_of_def fst_conv snd_conv tp using str_split2_append [OF t(2), of r] t(1)
    by (simp split: stored.split)
next
  case False
  have tp: "trim_prefix (''om/'' @ t) ''om/'' = t" by (rule trim_prefix_append)
  have "\<not> str_prefix (c @ ''/'') t" using False by (auto simp: str_prefix_iff)
  then show ?thesis unfolding message_of_def fst_conv snd_conv tp using str_split2_absent [OF False] by simp
qed

lemma filter_scan:
  assumes "\<And>k. str_prefix p k \<Longrightarrow> str_prefix p' k"
  shows "filter (\<lambda>kv. str_prefix p (fst kv)) (store_Scan p' d) = store_Scan p d"
  unfolding store_Scan_prefix filter_sort using assms by (simp add: filter_filter conj_commute cong: filter_cong) (metis assms)

lemma numbered_keys: "map fst (numbered q) = map (padded 20) [0..<length q]"
  by (simp add: numbered_def)

lemma alist_by_keys: "distinct (map fst xs) \<Longrightarrow> map (\<lambda>k. (k, the (map_of xs k))) (map fst xs) = xs"
  unfolding map_map by (rule map_idI) (auto simp: map_of_SomeI)

lemma scan_numbered:
  assumes "db_wf d" and "holds d c q" and "length q \<le> 10 ^ 20"
  shows "store_Scan (om_prefix c) d = map (\<lambda>(k, m). (om_prefix c @ k, StoredOffline m)) (numbered q)"
proof -
  let ?xs = "store_Scan (om_prefix c) d" and ?ys = "map (\<lambda>(k, m). (om_prefix c @ k, StoredOffline m)) (numbered q)"
  have ks: "map fst ?ys = map ((@) (om_prefix c)) (map (padded 20) [0..<length q])"
    unfolding numbered_keys [symmetric] by (simp add: case_prod_beta)
  have strict: "sorted_wrt (<) (map fst ?ys)"
  proof -
    have "padded 20 i < padded 20 j" if "i < j" "j < length q" for i j
      using padded_less [of i 20 j] that assms(3) by simp
    then have "om_prefix c @ padded 20 i < om_prefix c @ padded 20 j" if "i < j" "j < length q" for i j
      using that by (simp add: append_less_same)
    then show ?thesis unfolding ks by (simp add: sorted_wrt_map sorted_wrt_iff_nth_less)
  qed
  have dy: "distinct (map fst ?ys)" using strict by (simp add: strict_sorted_iff)
  have "(k, v) \<in> set ?xs \<longleftrightarrow> (k, v) \<in> set ?ys" for k v
  proof -
    have dn: "distinct (map fst (numbered q))" using dy unfolding ks numbered_keys distinct_map [of "(@) (om_prefix c)"] by blast
    have "(k, v) \<in> set ?xs \<longleftrightarrow> (\<exists>r. k = om_prefix c @ r \<and> map_option StoredOffline (map_of (numbered q) r) = Some v)"
      using assms(2) unfolding pebble.scan_mem [OF assms(1)] str_prefix_iff holds_def pebble.mirrors_def by auto
    also have "\<dots> \<longleftrightarrow> (\<exists>r m. k = om_prefix c @ r \<and> v = StoredOffline m \<and> (r, m) \<in> set (numbered q))"
      using dn by (auto simp: map_of_SomeI dest: map_of_SomeD)
    also have "\<dots> \<longleftrightarrow> (k, v) \<in> set ?ys" by auto
    finally show ?thesis .
  qed
  then have st: "set ?xs = set ?ys" by auto
  note sx = pebble.scan_sorted [OF assms(1), of "om_prefix c"]
  have "map fst ?xs = map fst ?ys"
  proof (rule sorted_distinct_set_unique)
    show "sorted (map fst ?xs)" "distinct (map fst ?xs)" using sx by blast+
    show "sorted (map fst ?ys)" using strict unfolding strict_sorted_iff by blast
    show "distinct (map fst ?ys)" by (rule dy)
    show "set (map fst ?xs) = set (map fst ?ys)" by (simp only: set_map st)
  qed
  moreover have "map_of ?xs = map_of ?ys"
    by (rule map_of_inject_set [THEN iffD2, OF conjunct2 [OF sx] dy st])
  ultimately show ?thesis
    using alist_by_keys [of ?xs] alist_by_keys [of ?ys] dy pebble.scan_sorted [OF assms(1), of "om_prefix c"] by metis
qed

lemma map_filter_messages:
  assumes "slash_free c" and "list_all (\<lambda>kv. str_prefix ''om/'' (fst kv)) xs"
  shows "List.map_filter (message_of c) xs =
    List.map_filter (\<lambda>kv. case snd kv of StoredOffline m \<Rightarrow> Some m | _ \<Rightarrow> None) (filter (\<lambda>kv. str_prefix (om_prefix c) (fst kv)) xs)"
  using assms(2)
proof (induction xs)
  case (Cons x xs)
  obtain t v where x: "x = (''om/'' @ t, v)" using Cons.prems by (cases x) (auto simp: str_prefix_iff)
  have "str_prefix (om_prefix c) (fst x) \<longleftrightarrow> str_prefix (c @ ''/'') t" by (simp add: x)
  then show ?case using Cons message_of_key [OF assms(1), of t v]
    by (simp add: List.map_filter_simps x split: stored.split)
qed (simp add: List.map_filter_simps)

lemma load_holds:
  assumes "db_wf d" and "holds d c q" and "length q \<le> 10 ^ 20" and "slash_free c" and "os_queues s = []"
  shows "queue_of c (LoadFromStore (Some d) s) = q"
proof -
  have "list_all (\<lambda>kv. str_prefix ''om/'' (fst kv)) (store_Scan ''om/'' d)"
    using pebble.scan_mem [OF assms(1)] by (auto simp: list_all_iff)
  then have "queue_of c (LoadFromStore (Some d) s) =
      List.map_filter (\<lambda>kv. case snd kv of StoredOffline m \<Rightarrow> Some m | _ \<Rightarrow> None)
        (filter (\<lambda>kv. str_prefix (om_prefix c) (fst kv)) (store_Scan ''om/'' d))"
    by (simp add: LoadFromStore_def queue_of_load queue_of_load_seq map_filter_messages [OF assms(4)])
      (simp add: queue_of_def assms(5))
  also have "filter (\<lambda>kv. str_prefix (om_prefix c) (fst kv)) (store_Scan ''om/'' d) = store_Scan (om_prefix c) d"
    by (rule filter_scan) (auto simp: str_prefix_iff)
  also have "\<dots> = map (\<lambda>(k, m). (om_prefix c @ k, StoredOffline m)) (numbered q)" by (rule scan_numbered [OF assms(1-3)])
  also have "List.map_filter (\<lambda>kv. case snd kv of StoredOffline m \<Rightarrow> Some m | _ \<Rightarrow> None) \<dots> = map snd (numbered q)"
    by (induction "numbered q" arbitrary: q rule: list.induct) (simp_all add: List.map_filter_def comp_def case_prod_beta)
  also have "\<dots> = q" by (simp add: numbered_def)
  finally show ?thesis .
qed

text \<open>Along a history, the database may only be ahead by messages that have expired.\<close>

fun call_client :: "offline_call \<Rightarrow> string" where
  "call_client (CallEnqueue c m) = c"
| "call_client (CallDequeue c n) = c"
| "call_client (CallRemoveAll c) = c"

definition same_unexpired :: "int \<Rightarrow> OfflineMessage list \<Rightarrow> OfflineMessage list \<Rightarrow> bool" where
  "same_unexpired t q q' \<longleftrightarrow> (\<forall>u \<ge> t. filter (unexpired u) q = filter (unexpired u) q')"

lemma unexpired_later: "unexpired u m \<Longrightarrow> t \<le> u \<Longrightarrow> unexpired t m"
  by (auto simp: unexpired_def split: option.splits)

lemma filter_unexpired: "t \<le> u \<Longrightarrow> filter (unexpired u) (filter (unexpired t) q) = filter (unexpired u) q"
  by (auto simp: filter_filter unexpired_later intro: filter_cong)

lemma same_unexpired_later: "same_unexpired t q q' \<Longrightarrow> t \<le> u \<Longrightarrow> same_unexpired u q q'"
  by (simp add: same_unexpired_def)

definition disk_sim :: "int \<Rightarrow> nat \<Rightarrow> OfflineStore \<times> disk option \<Rightarrow> bool" where
  "disk_sim t n s \<longleftrightarrow> (\<exists>d. snd s = Some d \<and> db_wf d \<and>
     (\<forall>c. slash_free c \<longrightarrow> length (queue_of c (fst s)) \<le> n \<and> (\<exists>q. holds d c q \<and> length q \<le> n \<and> same_unexpired t q (queue_of c (fst s)))))"

lemma disk_sim_write:
  assumes "disk_sim t n s" and "slash_free c" and "\<And>c'. c' \<noteq> c \<Longrightarrow> queue_of c' s1 = queue_of c' (fst s)"
    and "length (queue_of c s1) \<le> n'" and "n \<le> n'" and "n' \<le> 10 ^ 20" and "t \<le> u"
  shows "disk_sim u n' (clearPebbleMessages c (s1, snd s))"
proof -
  obtain d where d: "snd s = Some d" "db_wf d" using assms(1) by (auto simp: disk_sim_def)
  obtain d' where d': "snd (clearPebbleMessages c (s1, Some d)) = Some d'" "db_wf d'" "holds d' c (queue_of c s1)"
    "\<And>c' q'. slash_free c' \<Longrightarrow> c' \<noteq> c \<Longrightarrow> holds d c' q' \<Longrightarrow> holds d' c' q'"
    using clearPebble_holds [OF d(2) _ assms(2), of s1] assms(4,6) by auto
  have "length (queue_of c' s1) \<le> n' \<and> (\<exists>q. holds d' c' q \<and> length q \<le> n' \<and> same_unexpired u q (queue_of c' s1))" if c': "slash_free c'" for c'
  proof (cases "c' = c")
    case True
    then show ?thesis using d'(3) assms(4) by (auto simp: same_unexpired_def)
  next
    case False
    obtain q where "holds d c' q" "length q \<le> n" "same_unexpired t q (queue_of c' (fst s))" "length (queue_of c' (fst s)) \<le> n"
      using assms(1) d c' by (auto simp: disk_sim_def)
    then show ?thesis using d'(4) [OF c' False] assms(3) [OF False] assms(5,7) same_unexpired_later by (metis le_trans)
  qed
  then show ?thesis using d d' by (simp add: disk_sim_def)
qed

lemma evict_length: "evict ps q = Some q' \<Longrightarrow> length q' \<le> length q"
proof -
  have r: "remove_first p q = Some q' \<Longrightarrow> length q' \<le> length q" for p q q'
    by (induction q arbitrary: q') (auto split: if_splits)
  show "evict ps q = Some q' \<Longrightarrow> length q' \<le> length q" by (induction ps) (auto dest: r split: option.splits)
qed

lemma disk_sim_later:
  assumes "disk_sim t n s" and "t \<le> u" and "n \<le> n'"
    and "snd s' = snd s" and "\<And>c. queue_of c (fst s') = queue_of c (fst s) \<or> queue_of c (fst s') = filter (unexpired u) (queue_of c (fst s))"
  shows "disk_sim u n' s'"
proof -
  obtain d where d: "snd s = Some d" "db_wf d"
    "\<And>c. slash_free c \<Longrightarrow> length (queue_of c (fst s)) \<le> n \<and> (\<exists>q. holds d c q \<and> length q \<le> n \<and> same_unexpired t q (queue_of c (fst s)))"
    using assms(1) by (auto simp: disk_sim_def)
  have "length (queue_of c (fst s')) \<le> n' \<and> (\<exists>q. holds d c q \<and> length q \<le> n' \<and> same_unexpired u q (queue_of c (fst s')))" if c: "slash_free c" for c
  proof -
    obtain q where q: "holds d c q" "length q \<le> n" "same_unexpired t q (queue_of c (fst s))" "length (queue_of c (fst s)) \<le> n"
      using d(3) [OF c] by blast
    have "length (queue_of c (fst s')) \<le> length (queue_of c (fst s))"
      using assms(5) [of c] by auto
    moreover have "same_unexpired u q (queue_of c (fst s'))"
      using assms(5) [of c] q(3) assms(2) by (auto simp: same_unexpired_def filter_unexpired simp del: filter_filter)
    ultimately show ?thesis using q assms(3) le_trans by blast
  qed
  then show ?thesis using d(1,2) assms(4) by (simp add: disk_sim_def)
qed

lemma disk_sim_remove:
  assumes "disk_sim t n s" and "t \<le> u" and "n \<le> n'" and "slash_free c"
  shows "disk_sim u n' (offline_RemoveAll c s)"
proof -
  obtain d where d: "snd s = Some d" "db_wf d"
    "\<And>c. slash_free c \<Longrightarrow> length (queue_of c (fst s)) \<le> n \<and> (\<exists>q. holds d c q \<and> length q \<le> n \<and> same_unexpired t q (queue_of c (fst s)))"
    using assms(1) by (auto simp: disk_sim_def)
  let ?d' = "store_Delete (''om-seq/'' @ c) (delete_prefix (om_prefix c) d)"
  have snd: "snd (offline_RemoveAll c s) = Some ?d'" by (simp add: offline_RemoveAll_def removeAllPebble_def d(1))
  have wf: "db_wf ?d'" unfolding delete_prefix_def by (intro pebble.wf_del delete_all_wf d(2))
  have "length (queue_of c' (fst (offline_RemoveAll c s))) \<le> n' \<and>
      (\<exists>q. holds ?d' c' q \<and> length q \<le> n' \<and> same_unexpired u q (queue_of c' (fst (offline_RemoveAll c s))))" if c': "slash_free c'" for c'
  proof (cases "c' = c")
    case True
    have "holds ?d' c []" by (intro holds_other(3) holds_delete_prefix(1) d(2))
    then show ?thesis using True by (auto simp: RemoveAll_facts(1) same_unexpired_def)
  next
    case False
    obtain q where q: "holds d c' q" "length q \<le> n" "same_unexpired t q (queue_of c' (fst s))" "length (queue_of c' (fst s)) \<le> n"
      using d(3) [OF c'] by blast
    have "holds ?d' c' q" using False by (intro holds_other(3) holds_delete_prefix(2) d(2) q(1) assms(4) c') simp
    then show ?thesis using q False assms(2,3) same_unexpired_later le_trans unfolding RemoveAll_facts(1) if_not_P [OF False] by blast
  qed
  then show ?thesis using snd wf by (simp add: disk_sim_def)
qed

lemma disk_sim_step:
  assumes "disk_sim t n s" and "t \<le> u" and "slash_free (call_client k)" and "n < 10 ^ 20"
  shows "disk_sim u (Suc n) (snd (offline_step (u, k) s))"
proof -
  have len: "length (queue_of (call_client k) (fst s)) \<le> n" using assms(1,3) by (auto simp: disk_sim_def)
  have n: "n \<le> Suc n" "Suc n \<le> 10 ^ 20" using assms(4) by simp_all
  show ?thesis
  proof (cases k)
    case (CallEnqueue c m)
    define q where "q = filter (unexpired u) (queue_of c (fst s))"
    have lq: "length q \<le> n" using le_trans [OF length_filter_le len] by (simp add: q_def CallEnqueue)
    let ?refuse = "(set_queue c q (fst s), snd s)"
    define room where "room = (if int (length q) \<ge> os_maxPerClient (fst s)
      then (case os_tierConfig (fst s) of None \<Rightarrow> None | Some _ \<Rightarrow> evict (rev [unat (om_Priority m)..<3]) q) else Some q)"
    have room: "length q' \<le> length q" if "room = Some q'" for q'
      using that by (auto simp: room_def evict_length split: if_splits option.splits)
    have e: "snd (Enqueue u c m s) = (case room of None \<Rightarrow> ?refuse
        | Some q' \<Rightarrow> clearPebbleMessages c (set_queue c (q' @ [stamp u (fst s) m]) (fst s), snd s))"
      unfolding Enqueue_def Let_def q_def [symmetric] room_def [symmetric] by (cases room) simp_all
    consider "snd (Enqueue u c m s) = ?refuse"
      | q' where "length q' \<le> length q" "snd (Enqueue u c m s) = clearPebbleMessages c (set_queue c (q' @ [stamp u (fst s) m]) (fst s), snd s)"
      using e room by (cases room) simp_all
    then have "disk_sim u (Suc n) (snd (Enqueue u c m s))"
    proof cases
      case 1
      show ?thesis unfolding 1 by (rule disk_sim_later [OF assms(1,2) n(1)]) (simp_all add: q_def)
    next
      case 2
      show ?thesis unfolding 2(2) using assms(3) lq 2(1)
        by (intro disk_sim_write [OF assms(1) _ _ _ n assms(2)]) (simp_all add: CallEnqueue)
    qed
    then show ?thesis by (cases "Enqueue u c m s") (simp add: CallEnqueue)
  next
    case (CallDequeue c j)
    have "disk_sim u (Suc n) (snd (Dequeue u c j s))"
    proof (cases "map_of (os_queues (fst s)) c")
      case None
      then have e: "snd (Dequeue u c j s) = s" by (simp add: Dequeue_def)
      show ?thesis unfolding e by (rule disk_sim_later [OF assms(1,2) n(1)]) simp_all
    next
      case (Some q)
      define r where "r = drop j (sort_key delivery_order (filter (unexpired u) q))"
      have qo: "queue_of c (fst s) = q" by (simp add: queue_of_def Some)
      have lr: "length r \<le> n" using le_trans [OF length_filter_le len, of "unexpired u"] by (simp add: r_def CallDequeue qo)
      have e: "snd (Dequeue u c j s) =
        clearPebbleMessages c (if r = [] then (fst s)\<lparr>os_queues := AList.delete c (os_queues (fst s))\<rparr> else set_queue c r (fst s), snd s)"
        by (simp add: Dequeue_def Some Let_def r_def)
      show ?thesis unfolding e using assms(3) lr
        by (intro disk_sim_write [OF assms(1) _ _ _ n assms(2)]) (simp_all add: CallDequeue)
    qed
    then show ?thesis by (cases "Dequeue u c j s") (simp add: CallDequeue)
  next
    case (CallRemoveAll c)
    then show ?thesis using disk_sim_remove [OF assms(1,2) n(1)] assms(3) by simp
  qed
qed

fun offline_final :: "(int \<times> offline_call) list \<Rightarrow> OfflineStore \<times> disk option \<Rightarrow> OfflineStore \<times> disk option" where
  "offline_final [] s = s"
| "offline_final (x # xs) s = offline_final xs (snd (offline_step x s))"

lemma disk_sim_run:
  assumes "disk_sim t n s" and "sorted (t # map fst xs)" and "list_all (slash_free \<circ> call_client \<circ> snd) xs" and "n + length xs \<le> 10 ^ 20"
  shows "disk_sim (last (t # map fst xs)) (n + length xs) (offline_final xs s)"
  using assms
proof (induction xs arbitrary: t n s)
  case (Cons x xs)
  obtain u k where x: "x = (u, k)" by (cases x)
  have "disk_sim u (Suc n) (snd (offline_step (u, k) s))"
    using Cons.prems by (intro disk_sim_step [of t]) (simp_all add: x)
  from Cons.IH [OF this] show ?case using Cons.prems by (simp add: x)
qed simp

lemma disk_sim_start: "disk_sim t 0 (SetTierConfig cfg (NewOfflineStore mx ttl), Some [])"
proof -
  have "queue_of c (SetTierConfig cfg (NewOfflineStore mx ttl)) = []" for c
    by (simp add: queue_of_def SetTierConfig_def NewOfflineStore_def)
  moreover have "holds [] c []" for c by (simp add: holds_def pebble.mirrors_def numbered_def store_Get_def)
  ultimately show ?thesis by (simp add: disk_sim_def db_wf_def same_unexpired_def)
qed

text \<open>Two stores that differ only by expired messages give the same answers from then on.\<close>

definition alike :: "int \<Rightarrow> OfflineStore \<Rightarrow> OfflineStore \<Rightarrow> bool" where
  "alike t s s' \<longleftrightarrow> os_maxPerClient s = os_maxPerClient s' \<and> os_defaultTTL s = os_defaultTTL s' \<and> os_tierConfig s = os_tierConfig s' \<and>
     (\<forall>c. slash_free c \<longrightarrow> same_unexpired t (queue_of c s) (queue_of c s'))"

lemma alike_stamp: "alike t s s' \<Longrightarrow> stamp u s m = stamp u s' m"
  by (simp add: alike_def stamp_def Let_def split: option.split)

lemma alike_later: "alike t s s' \<Longrightarrow> t \<le> u \<Longrightarrow> alike u s s'"
  by (auto simp: alike_def intro: same_unexpired_later)

lemma alike_update:
  assumes "alike t s s'"
    and "os_maxPerClient s1 = os_maxPerClient s" "os_defaultTTL s1 = os_defaultTTL s" "os_tierConfig s1 = os_tierConfig s"
    and "os_maxPerClient s1' = os_maxPerClient s'" "os_defaultTTL s1' = os_defaultTTL s'" "os_tierConfig s1' = os_tierConfig s'"
    and "\<And>c'. queue_of c' s1 = (if c' = c then q else queue_of c' s)" "\<And>c'. queue_of c' s1' = (if c' = c then q else queue_of c' s')"
  shows "alike t s1 s1'"
  using assms(1-7) unfolding alike_def assms(8,9) by (auto simp: same_unexpired_def)

lemma alike_queue: "alike u s s' \<Longrightarrow> slash_free c \<Longrightarrow> filter (unexpired u) (queue_of c s) = filter (unexpired u) (queue_of c s')"
  by (simp add: alike_def same_unexpired_def)

lemma alike_step:
  assumes "alike t (fst s) (fst s')" and "t \<le> u" and "slash_free (call_client k)"
  shows "fst (offline_step (u, k) s) = fst (offline_step (u, k) s')"
    and "alike u (fst (snd (offline_step (u, k) s))) (fst (snd (offline_step (u, k) s')))"
proof -
  have a: "alike u (fst s) (fst s')" by (rule alike_later [OF assms(1,2)])
  have "fst (offline_step (u, k) s) = fst (offline_step (u, k) s') \<and>
    alike u (fst (snd (offline_step (u, k) s))) (fst (snd (offline_step (u, k) s')))"
  proof (cases k)
    case (CallEnqueue c m)
    define q where "q = filter (unexpired u) (queue_of c (fst s))"
    have q': "filter (unexpired u) (queue_of c (fst s')) = q" using alike_queue [OF a, of c] assms(3) by (simp add: q_def CallEnqueue)
    define room where "room = (if int (length q) \<ge> os_maxPerClient (fst s)
      then (case os_tierConfig (fst s) of None \<Rightarrow> None | Some _ \<Rightarrow> evict (rev [unat (om_Priority m)..<3]) q) else Some q)"
    have f: "os_maxPerClient (fst s') = os_maxPerClient (fst s)" "os_tierConfig (fst s') = os_tierConfig (fst s)"
      using a by (simp_all add: alike_def)
    have e: "Enqueue u c m s = (case room of None \<Rightarrow> (False, set_queue c q (fst s), snd s)
        | Some r \<Rightarrow> (True, clearPebbleMessages c (set_queue c (r @ [stamp u (fst s) m]) (fst s), snd s)))"
      unfolding Enqueue_def Let_def q_def [symmetric] room_def [symmetric] ..
    have e': "Enqueue u c m s' = (case room of None \<Rightarrow> (False, set_queue c q (fst s'), snd s')
        | Some r \<Rightarrow> (True, clearPebbleMessages c (set_queue c (r @ [stamp u (fst s) m]) (fst s'), snd s')))"
      unfolding Enqueue_def Let_def q' f room_def [symmetric] alike_stamp [OF a] ..
    show ?thesis
    proof (cases room)
      case None
      then show ?thesis by (simp add: CallEnqueue e e') (rule alike_update [OF a, where c = c and q = q]; simp)
    next
      case (Some r)
      have "alike u (fst (clearPebbleMessages c (set_queue c (r @ [stamp u (fst s) m]) (fst s), snd s)))
          (fst (clearPebbleMessages c (set_queue c (r @ [stamp u (fst s) m]) (fst s'), snd s')))"
        by (rule alike_update [OF a, where c = c and q = "r @ [stamp u (fst s) m]"]) simp_all
      then show ?thesis using Some
        by (cases "clearPebbleMessages c (set_queue c (r @ [stamp u (fst s) m]) (fst s), snd s)";
            cases "clearPebbleMessages c (set_queue c (r @ [stamp u (fst s) m]) (fst s'), snd s')") (simp add: CallEnqueue e e')
    qed
  next
    case (CallDequeue c n)
    have q: "filter (unexpired u) (queue_of c (fst s)) = filter (unexpired u) (queue_of c (fst s'))"
      using alike_queue [OF a, of c] assms(3) by (simp add: CallDequeue)
    have "alike u (fst (snd (Dequeue u c n s))) (fst (snd (Dequeue u c n s')))"
      by (rule alike_update [OF a, where c = c and q = "drop n (sort_key delivery_order (filter (unexpired u) (queue_of c (fst s))))"])
        (simp_all only: Dequeue_facts q)
    moreover have "fst (Dequeue u c n s) = fst (Dequeue u c n s')" by (simp only: Dequeue_facts q)
    ultimately show ?thesis by (cases "Dequeue u c n s"; cases "Dequeue u c n s'") (simp add: CallDequeue)
  next
    case (CallRemoveAll c)
    have "alike u (fst (offline_RemoveAll c s)) (fst (offline_RemoveAll c s'))"
      by (rule alike_update [OF a, where c = c and q = "[]"]) (simp_all only: RemoveAll_facts)
    then show ?thesis by (simp add: CallRemoveAll)
  qed
  then show "fst (offline_step (u, k) s) = fst (offline_step (u, k) s')"
    "alike u (fst (snd (offline_step (u, k) s))) (fst (snd (offline_step (u, k) s')))" by blast+
qed

lemma alike_run:
  assumes "alike t (fst s) (fst s')" and "sorted (t # map fst ys)" and "list_all (slash_free \<circ> call_client \<circ> snd) ys"
  shows "offline_run ys s = offline_run ys s'"
  using assms
proof (induction ys arbitrary: t s s')
  case (Cons x ys)
  obtain u k where x: "x = (u, k)" by (cases x)
  have st: "t \<le> u" "slash_free (call_client k)" using Cons.prems(2,3) by (simp_all add: x)
  note step = alike_step [OF Cons.prems(1) st]
  have "offline_run ys (snd (offline_step (u, k) s)) = offline_run ys (snd (offline_step (u, k) s'))"
    by (rule Cons.IH [OF step(2)]) (use Cons.prems(2,3) in \<open>simp_all add: x\<close>)
  then show ?case using step(1) by (simp add: x case_prod_beta)
qed simp

lemma load_message_fields: "os_maxPerClient (load_message kv s) = os_maxPerClient s \<and> os_defaultTTL (load_message kv s) = os_defaultTTL s \<and>
    os_tierConfig (load_message kv s) = os_tierConfig s"
  by (simp add: load_message_def split: list.split stored.split)

lemma load_seq_fields: "os_maxPerClient (load_seq kv s) = os_maxPerClient s \<and> os_defaultTTL (load_seq kv s) = os_defaultTTL s \<and>
    os_tierConfig (load_seq kv s) = os_tierConfig s"
  by (simp add: load_seq_def split: stored.split)

lemma LoadFromStore_fields: "os_maxPerClient (LoadFromStore db s) = os_maxPerClient s \<and> os_defaultTTL (LoadFromStore db s) = os_defaultTTL s \<and>
    os_tierConfig (LoadFromStore db s) = os_tierConfig s"
proof -
  have "os_maxPerClient (fold load_message xs s) = os_maxPerClient s \<and> os_defaultTTL (fold load_message xs s) = os_defaultTTL s \<and>
    os_tierConfig (fold load_message xs s) = os_tierConfig s" for xs s
    by (induction xs arbitrary: s) (simp_all add: load_message_fields)
  moreover have "os_maxPerClient (fold load_seq xs s) = os_maxPerClient s \<and> os_defaultTTL (fold load_seq xs s) = os_defaultTTL s \<and>
    os_tierConfig (fold load_seq xs s) = os_tierConfig s" for xs s
    by (induction xs arbitrary: s) (simp_all add: load_seq_fields)
  ultimately show ?thesis by (simp add: LoadFromStore_def split: option.split)
qed

lemma offline_step_fields: "os_maxPerClient (fst (snd (offline_step x s))) = os_maxPerClient (fst s) \<and>
    os_defaultTTL (fst (snd (offline_step x s))) = os_defaultTTL (fst s) \<and> os_tierConfig (fst (snd (offline_step x s))) = os_tierConfig (fst s)"
proof (cases x)
  case (Pair u k)
  show ?thesis
  proof (cases k)
    case (CallEnqueue c m)
    have "os_maxPerClient (fst (snd (Enqueue u c m s))) = os_maxPerClient (fst s) \<and> os_defaultTTL (fst (snd (Enqueue u c m s))) = os_defaultTTL (fst s) \<and>
        os_tierConfig (fst (snd (Enqueue u c m s))) = os_tierConfig (fst s)"
      unfolding Enqueue_def Let_def by (simp split: option.split)
    then show ?thesis by (simp add: Pair CallEnqueue case_prod_beta)
  qed (simp_all add: Pair case_prod_beta Dequeue_facts RemoveAll_facts)
qed

lemma offline_final_fields: "os_maxPerClient (fst (offline_final xs s)) = os_maxPerClient (fst s) \<and>
    os_defaultTTL (fst (offline_final xs s)) = os_defaultTTL (fst s) \<and> os_tierConfig (fst (offline_final xs s)) = os_tierConfig (fst s)"
  by (induction xs arbitrary: s) (simp_all add: offline_step_fields)

lemma restarted_alike:
  assumes "disk_sim t n s" and "n \<le> 10 ^ 20" and "os_queues s0 = []"
    and "os_maxPerClient s0 = os_maxPerClient (fst s)" "os_defaultTTL s0 = os_defaultTTL (fst s)" "os_tierConfig s0 = os_tierConfig (fst s)"
  shows "alike t (LoadFromStore (snd s) s0) (fst s)"
proof -
  obtain d where d: "snd s = Some d" "db_wf d"
    "\<And>c. slash_free c \<Longrightarrow> \<exists>q. holds d c q \<and> length q \<le> n \<and> same_unexpired t q (queue_of c (fst s))"
    using assms(1) by (auto simp: disk_sim_def)
  have "same_unexpired t (queue_of c (LoadFromStore (Some d) s0)) (queue_of c (fst s))" if c: "slash_free c" for c
  proof -
    obtain q where q: "holds d c q" "length q \<le> n" "same_unexpired t q (queue_of c (fst s))" using d(3) [OF c] by blast
    have "queue_of c (LoadFromStore (Some d) s0) = q" by (rule load_holds [OF d(2) q(1) le_trans [OF q(2) assms(2)] c assms(3)])
    then show ?thesis using q(3) by simp
  qed
  then show ?thesis using assms(4-6) LoadFromStore_fields [of "Some d" s0] by (simp add: alike_def d(1))
qed



end
