(* ===== verification/Delivery.thy ===== *)
theory Delivery
  imports Prelude "HOL-Library.Word"
begin

section \<open>Packet identifiers, messages in flight and duplicates\<close>

text \<open>
  Models \<^verbatim>\<open>internal/broker/packet_id.go\<close>, \<^verbatim>\<open>inflight.go\<close> and \<^verbatim>\<open>dedup.go\<close>.  Identifiers are 16-bit words.  Maps
  are association lists with distinct keys; each operation holds the lock of its store.  Times are
  integers, \<open>now\<close> is \<^verbatim>\<open>time.Now()\<close> of the call.  The goroutine of \<^verbatim>\<open>StartCleanup\<close> calls \<open>cleanup\<close> from time to
  time.
\<close>

subsection \<open>Packet identifiers\<close>

text \<open>\<open>Next\<close> on the counter of the allocator: the new counter, which is also the result.\<close>

definition Next :: "16 word \<Rightarrow> 16 word" where
  "Next counter = (let c = counter + 1 in if c = 0 then 1 else c)"

definition NewPacketIDAllocator :: "16 word" where
  "NewPacketIDAllocator = 0"

lemma unat_le_65535: "unat (c :: 16 word) \<le> 65535"
  using unsigned_less [of c, where ?'a = nat] by simp

lemma unat_Next: "unat (Next c) = (if unat c = 65535 then 1 else unat c + 1)"
proof -
  have u: "unat (c + 1) = (unat c + 1) mod 65536" by (simp add: unat_word_ariths)
  show ?thesis
  proof (cases "unat c = 65535")
    case True
    then have "c + 1 = 0" using u by (simp add: unat_eq_0 [symmetric])
    then show ?thesis using True by (simp add: Next_def)
  next
    case False
    then have "unat c + 1 < 65536" using unat_le_65535 [of c] by linarith
    then have v: "unat (c + 1) = unat c + 1" unfolding u by (rule mod_less)
    then have "c + 1 \<noteq> 0" by (metis Suc_eq_plus1 nat.distinct(1) unat_0)
    then show ?thesis using False v by (simp add: Next_def)
  qed
qed

text \<open>The identifiers run through the numbers from 1 to 65535 in a cycle.\<close>

lemma unat_Next_pow: "0 < n \<Longrightarrow> unat ((Next ^^ n) c) = (unat c + n - 1) mod 65535 + 1"
proof (induction n)
  case (Suc n)
  have c: "unat c \<le> 65535" by (rule unat_le_65535)
  show ?case
  proof (cases n)
    case 0
    then show ?thesis using c by (simp add: unat_Next)
  next
    case (Suc k)
    then have "unat ((Next ^^ n) c) = (unat c + k) mod 65535 + 1" using Suc.IH by simp
    then have "unat ((Next ^^ Suc n) c) = (if (unat c + k) mod 65535 = 65534 then 1 else (unat c + k) mod 65535 + 2)"
      by (simp add: unat_Next)
    also have "\<dots> = Suc (unat c + k) mod 65535 + 1" by (simp add: mod_Suc)
    finally show ?thesis using Suc by simp
  qed
qed simp

lemma Next_pow_neq:
  assumes "0 < i" and "i < j" and "j < i + 65535"
  shows "(Next ^^ i) c \<noteq> (Next ^^ j) c"
proof
  assume "(Next ^^ i) c = (Next ^^ j) c"
  then have "(unat c + i - 1) mod 65535 = (unat c + j - 1) mod 65535"
    using unat_Next_pow [of i c] unat_Next_pow [of j c] assms by simp
  moreover have "unat c + i - 1 \<le> unat c + j - 1" using assms by simp
  ultimately have "65535 dvd (unat c + j - 1) - (unat c + i - 1)" using mod_eq_dvd_iff_nat by metis
  moreover have "(unat c + j - 1) - (unat c + i - 1) = j - i" using assms by simp
  ultimately have "65535 \<le> j - i" using assms by (simp add: dvd_imp_le)
  then show False using assms by linarith
qed

text \<open>Packet identifiers are usable: the \<open>n\<close>-th identifier an allocator hands out is the \<open>n\<close>-th number
  of the cycle from 1 to 65535, so none of them is the forbidden zero, and two allocations that are
  less than 65535 apart never give the same identifier.\<close>

theorem packet_ids:
  assumes "0 < i" and "i < j" and "j < i + 65535"
  shows "unat ((Next ^^ i) NewPacketIDAllocator) = (i - 1) mod 65535 + 1 \<and> (Next ^^ i) NewPacketIDAllocator \<noteq> 0 \<and>
    (Next ^^ i) NewPacketIDAllocator \<noteq> (Next ^^ j) NewPacketIDAllocator"
proof (intro conjI)
  show u: "unat ((Next ^^ i) NewPacketIDAllocator) = (i - 1) mod 65535 + 1"
    using unat_Next_pow [OF assms(1), of NewPacketIDAllocator] by (simp add: NewPacketIDAllocator_def)
  show "(Next ^^ i) NewPacketIDAllocator \<noteq> 0" using u by (metis add_is_0 one_neq_zero unat_0)
  show "(Next ^^ i) NewPacketIDAllocator \<noteq> (Next ^^ j) NewPacketIDAllocator"
    by (rule Next_pow_neq [OF assms])
qed

theorem packet_ids_witness: "(Next ^^ 1) NewPacketIDAllocator \<noteq> (Next ^^ 65535) NewPacketIDAllocator"
  using packet_ids [of 1 65535] by simp

subsection \<open>Messages in flight\<close>

record InflightMessage =
  if_PacketID :: "16 word"
  if_Topic :: string
  if_Payload :: "8 word list"
  if_QoS :: "8 word"
  if_Timestamp :: int

record InflightStore =
  if_messages :: "(16 word \<times> InflightMessage) list"
  if_limit :: int

definition NewInflightStore :: "int \<Rightarrow> InflightStore" where
  "NewInflightStore limit = \<lparr>if_messages = [], if_limit = limit\<rparr>"

definition inflight_Add :: "InflightMessage \<Rightarrow> InflightStore \<Rightarrow> bool \<times> InflightStore" where
  "inflight_Add msg s =
     (if int (length (if_messages s)) \<ge> if_limit s then (False, s)
      else (True, s\<lparr>if_messages := AList.update (if_PacketID msg) msg (if_messages s)\<rparr>))"

definition inflight_Get :: "16 word \<Rightarrow> InflightStore \<Rightarrow> InflightMessage option" where
  "inflight_Get packetID s = map_of (if_messages s) packetID"

definition inflight_Remove :: "16 word \<Rightarrow> InflightStore \<Rightarrow> InflightStore" where
  "inflight_Remove packetID s = s\<lparr>if_messages := AList.delete packetID (if_messages s)\<rparr>"

definition inflight_Count :: "InflightStore \<Rightarrow> nat" where
  "inflight_Count s = length (if_messages s)"

definition inflight_wf :: "InflightStore \<Rightarrow> bool" where
  "inflight_wf s \<longleftrightarrow> distinct (map fst (if_messages s)) \<and> int (length (if_messages s)) \<le> max 0 (if_limit s)"

lemma inflight_wf_New: "inflight_wf (NewInflightStore limit)"
  by (simp add: inflight_wf_def NewInflightStore_def)

lemma length_update_le: "length (AList.update k v xs) \<le> Suc (length xs)"
  by (induction xs) auto

lemma inflight_wf_Add: "inflight_wf s \<Longrightarrow> inflight_wf (snd (inflight_Add msg s))"
  using length_update_le [of "if_PacketID msg" msg "if_messages s"]
  by (auto simp: inflight_wf_def inflight_Add_def distinct_update)

lemma inflight_wf_Remove: "inflight_wf s \<Longrightarrow> inflight_wf (inflight_Remove i s)"
  using length_delete_le [of i "if_messages s"] by (auto simp: inflight_wf_def inflight_Remove_def distinct_delete)

lemma inflight_Get_Add: "fst (inflight_Add msg s) \<Longrightarrow>
    inflight_Get i (snd (inflight_Add msg s)) = (if i = if_PacketID msg then Some msg else inflight_Get i s)"
  by (auto simp: inflight_Add_def inflight_Get_def update_conv' split: if_splits)

lemma inflight_Get_Remove: "inflight_Get i (inflight_Remove j s) = (if i = j then None else inflight_Get i s)"
  by (simp add: inflight_Get_def inflight_Remove_def delete_conv')

subsection \<open>Duplicates\<close>

record DedupStore =
  dd_entries :: "(string \<times> int) list"
  dd_ttl :: int

definition NewDedupStore :: "int \<Rightarrow> DedupStore" where
  "NewDedupStore ttl = \<lparr>dd_entries = [], dd_ttl = ttl\<rparr>"

definition dedupKey :: "string \<Rightarrow> 16 word \<Rightarrow> string" where
  "dedupKey clientID packetID = clientID @ '':'' @ show_nat (unat packetID)"

definition IsDuplicate :: "int \<Rightarrow> string \<Rightarrow> 16 word \<Rightarrow> DedupStore \<Rightarrow> bool \<times> DedupStore" where
  "IsDuplicate now c i d = (case map_of (dd_entries d) (dedupKey c i) of
     None \<Rightarrow> (False, d)
   | Some expiresAt \<Rightarrow>
       if now > expiresAt then (False, d\<lparr>dd_entries := AList.delete (dedupKey c i) (dd_entries d)\<rparr>) else (True, d))"

definition MarkReceived :: "int \<Rightarrow> string \<Rightarrow> 16 word \<Rightarrow> DedupStore \<Rightarrow> DedupStore" where
  "MarkReceived now c i d = d\<lparr>dd_entries := AList.update (dedupKey c i) (now + dd_ttl d) (dd_entries d)\<rparr>"

definition dedup_Remove :: "string \<Rightarrow> 16 word \<Rightarrow> DedupStore \<Rightarrow> DedupStore" where
  "dedup_Remove c i d = d\<lparr>dd_entries := AList.delete (dedupKey c i) (dd_entries d)\<rparr>"

definition cleanup :: "int \<Rightarrow> DedupStore \<Rightarrow> DedupStore" where
  "cleanup now d = d\<lparr>dd_entries := filter (\<lambda>e. \<not> now > snd e) (dd_entries d)\<rparr>"

lemma dedupKey_inj [simp]: "dedupKey c i = dedupKey c' i' \<longleftrightarrow> c = c' \<and> i = i'"
proof -
  have "CHR '':'' \<notin> set (show_nat n)" for n
    using show_nat_chars [of n] digit_char_in [of "CHR '':''"] by auto
  then have "c @ CHR '':'' # show_nat (unat i) = c' @ CHR '':'' # show_nat (unat i') \<longleftrightarrow> c = c' \<and> unat i = unat i'"
    by (simp add: append_sep_inj)
  then show ?thesis by (simp add: dedupKey_def word_unat_eq_iff)
qed

text \<open>
  What the handler of PUBLISH does with the store for quality of service 2: the first component says
  whether the message goes on to be routed.
\<close>

definition receive :: "int \<Rightarrow> string \<Rightarrow> 16 word \<Rightarrow> DedupStore \<Rightarrow> bool \<times> DedupStore" where
  "receive now c i d = (case IsDuplicate now c i d of
     (True, d') \<Rightarrow> (False, d') | (False, d') \<Rightarrow> (True, MarkReceived now c i d'))"

text \<open>The specification: until when a pair of a client and an identifier counts as received.\<close>

type_synonym pending = "string \<times> 16 word \<rightharpoonup> int"

datatype dedup_call = CallReceive string "16 word" | CallRelease string "16 word" | CallCleanup

fun pending_step :: "int \<Rightarrow> int \<times> dedup_call \<Rightarrow> pending \<Rightarrow> pending \<times> bool option" where
  "pending_step ttl (t, CallReceive c i) m =
     (let fresh = (case m (c, i) of None \<Rightarrow> True | Some e \<Rightarrow> e < t)
      in (if fresh then m((c, i) \<mapsto> t + ttl) else m, Some fresh))"
| "pending_step ttl (t, CallRelease c i) m = (m((c, i) := None), None)"
| "pending_step ttl (t, CallCleanup) m = (m, None)"

fun pending_run :: "int \<Rightarrow> (int \<times> dedup_call) list \<Rightarrow> pending \<Rightarrow> bool option list" where
  "pending_run ttl [] m = []"
| "pending_run ttl (x # xs) m = (case pending_step ttl x m of (m', r) \<Rightarrow> r # pending_run ttl xs m')"

text \<open>
  What the handlers rely on: the answers follow the pairs that are pending, and what a clean-up drops
  had expired.
\<close>

locale duplicate_filter =
  fixes receive :: "int \<Rightarrow> string \<Rightarrow> 16 word \<Rightarrow> 's \<Rightarrow> bool \<times> 's"
    and release :: "string \<Rightarrow> 16 word \<Rightarrow> 's \<Rightarrow> 's"
    and sweep :: "int \<Rightarrow> 's \<Rightarrow> 's"
    and pending :: "'s \<Rightarrow> pending"
    and ttl :: "'s \<Rightarrow> int"
    and wf :: "'s \<Rightarrow> bool"
  assumes receive_answer: "fst (receive t c i s) \<longleftrightarrow> (case pending s (c, i) of None \<Rightarrow> True | Some e \<Rightarrow> e < t)"
    and receive_pending: "pending (snd (receive t c i s)) = (if fst (receive t c i s) then (pending s)((c, i) \<mapsto> t + ttl s) else pending s)"
    and release_pending: "pending (release c i s) = (pending s)((c, i) := None)"
    and sweep_pending: "wf s \<Longrightarrow> pending (sweep t s) x = (case pending s x of None \<Rightarrow> None | Some e \<Rightarrow> if e < t then None else Some e)"
    and ttl_same: "ttl (snd (receive t c i s)) = ttl s" "ttl (release c i s) = ttl s" "ttl (sweep t s) = ttl s"
    and wf_steps: "wf s \<Longrightarrow> wf (snd (receive t c i s))" "wf s \<Longrightarrow> wf (release c i s)" "wf s \<Longrightarrow> wf (sweep t s)"
begin

definition step :: "int \<times> dedup_call \<Rightarrow> 's \<Rightarrow> 's \<times> bool option" where
  "step x s = (case x of
     (t, CallReceive c i) \<Rightarrow> (case receive t c i s of (ok, s') \<Rightarrow> (s', Some ok))
   | (t, CallRelease c i) \<Rightarrow> (release c i s, None)
   | (t, CallCleanup) \<Rightarrow> (sweep t s, None))"

fun run :: "(int \<times> dedup_call) list \<Rightarrow> 's \<Rightarrow> bool option list" where
  "run [] s = []"
| "run (x # xs) s = (case step x s of (s', r) \<Rightarrow> r # run xs s')"

text \<open>The store may have forgotten pairs that had expired by \<open>t\<close>.\<close>

definition forgets :: "int \<Rightarrow> 's \<Rightarrow> pending \<Rightarrow> bool" where
  "forgets t s m \<longleftrightarrow> (\<forall>x. pending s x = m x \<or> (pending s x = None \<and> (\<exists>e. m x = Some e \<and> e < t)))"

lemma step_forgets:
  assumes "forgets t s m" and "t \<le> fst x" and "wf s"
  shows "snd (step x s) = snd (pending_step (ttl s) x m) \<and> forgets (fst x) (fst (step x s)) (fst (pending_step (ttl s) x m)) \<and>
    ttl (fst (step x s)) = ttl s \<and> wf (fst (step x s))"
proof -
  obtain u k where x: "x = (u, k)" by (cases x)
  have f: "pending s y = m y \<or> (pending s y = None \<and> (\<exists>e. m y = Some e \<and> e < u))" for y
    using assms(1,2) x unfolding forgets_def by fastforce
  show ?thesis
  proof (cases k)
    case (CallReceive c i)
    have a: "fst (receive u c i s) \<longleftrightarrow> (case m (c, i) of None \<Rightarrow> True | Some e \<Rightarrow> e < u)"
      unfolding receive_answer using f [of "(c, i)"] by (auto split: option.splits)
    obtain ok s' where r: "receive u c i s = (ok, s')" by (cases "receive u c i s")
    have p: "pending s' = (if ok then (pending s)((c, i) \<mapsto> u + ttl s) else pending s)" and l: "ttl s' = ttl s"
      using receive_pending [of u c i s] ttl_same(1) [of u c i s] r by simp_all
    have w: "wf s'" using wf_steps(1) [OF assms(3), of u c i] r by simp
    show ?thesis using a r l w f unfolding x CallReceive forgets_def by (simp add: step_def p Let_def)
  next
    case (CallRelease c i)
    then show ?thesis using f unfolding x forgets_def by (simp add: step_def release_pending ttl_same wf_steps assms(3))
  next
    case CallCleanup
    have "pending (sweep u s) y = m y \<or> (pending (sweep u s) y = None \<and> (\<exists>e. m y = Some e \<and> e < u))" for y
      unfolding sweep_pending [OF assms(3)] using f [of y] by (auto split: option.splits)
    then show ?thesis unfolding x CallCleanup forgets_def by (simp add: step_def ttl_same wf_steps assms(3))
  qed
qed

lemma run_refines:
  assumes "forgets t s m" and "sorted (t # map fst xs)" and "wf s"
  shows "run xs s = pending_run (ttl s) xs m"
  using assms
proof (induction xs arbitrary: t s m)
  case (Cons x xs)
  have le: "t \<le> fst x" and srt: "sorted (fst x # map fst xs)" using Cons.prems(2) by simp_all
  note f = step_forgets [OF Cons.prems(1) le Cons.prems(3)]
  have "run xs (fst (step x s)) = pending_run (ttl (fst (step x s))) xs (fst (pending_step (ttl s) x m))"
    by (rule Cons.IH [OF _ srt]) (use f in blast)+
  then show ?case using f by (cases "step x s"; cases "pending_step (ttl s) x m") simp
qed simp

end

definition dedup_pending :: "DedupStore \<Rightarrow> pending" where
  "dedup_pending d = (\<lambda>(c, i). map_of (dd_entries d) (dedupKey c i))"

lemma map_of_filter_expired:
  assumes "distinct (map fst xs)"
  shows "map_of (filter (\<lambda>e. \<not> t > snd e) xs) k = (case map_of xs k of None \<Rightarrow> None | Some e \<Rightarrow> if e < (t :: int) then None else Some e)"
  using assms by (induction xs) (auto simp: map_of_eq_None_iff rev_image_eqI split: option.splits)

definition dedup_wf :: "DedupStore \<Rightarrow> bool" where
  "dedup_wf d \<longleftrightarrow> distinct (map fst (dd_entries d))"

interpretation dedup: duplicate_filter receive dedup_Remove cleanup dedup_pending dd_ttl dedup_wf
proof unfold_locales
  fix t c i d x
  show "fst (receive t c i d) \<longleftrightarrow> (case dedup_pending d (c, i) of None \<Rightarrow> True | Some e \<Rightarrow> e < t)"
    by (simp add: receive_def IsDuplicate_def dedup_pending_def split: option.splits)
  show "dedup_pending (snd (receive t c i d)) =
      (if fst (receive t c i d) then (dedup_pending d)((c, i) \<mapsto> t + dd_ttl d) else dedup_pending d)"
    by (auto simp: receive_def IsDuplicate_def MarkReceived_def dedup_pending_def update_conv' delete_conv' fun_eq_iff split: option.splits)
  show "dedup_pending (dedup_Remove c i d) = (dedup_pending d)((c, i) := None)"
    by (auto simp: dedup_Remove_def dedup_pending_def delete_conv' fun_eq_iff)
  show "dd_ttl (snd (receive t c i d)) = dd_ttl d" "dd_ttl (dedup_Remove c i d) = dd_ttl d" "dd_ttl (cleanup t d) = dd_ttl d"
    by (simp_all add: receive_def IsDuplicate_def MarkReceived_def dedup_Remove_def cleanup_def split: option.splits)
  assume w: "dedup_wf d"
  show "dedup_pending (cleanup t d) x = (case dedup_pending d x of None \<Rightarrow> None | Some e \<Rightarrow> if e < t then None else Some e)"
    using w map_of_filter_expired [of "dd_entries d" t] by (cases x) (simp add: dedup_pending_def cleanup_def dedup_wf_def)
  show "dedup_wf (snd (receive t c i d))" "dedup_wf (dedup_Remove c i d)" "dedup_wf (cleanup t d)"
    using w by (simp_all add: dedup_wf_def receive_def IsDuplicate_def MarkReceived_def dedup_Remove_def cleanup_def
        distinct_update distinct_delete distinct_map_filter split: option.splits)
qed

text \<open>The answers of the store along a history of publications, releases and clean-ups.\<close>

fun dedup_step :: "int \<times> dedup_call \<Rightarrow> DedupStore \<Rightarrow> DedupStore \<times> bool option" where
  "dedup_step (t, CallReceive c i) d = (case receive t c i d of (ok, d') \<Rightarrow> (d', Some ok))"
| "dedup_step (t, CallRelease c i) d = (dedup_Remove c i d, None)"
| "dedup_step (t, CallCleanup) d = (cleanup t d, None)"

fun dedup_run :: "(int \<times> dedup_call) list \<Rightarrow> DedupStore \<Rightarrow> bool option list" where
  "dedup_run [] d = []"
| "dedup_run (x # xs) d = (case dedup_step x d of (d', r) \<Rightarrow> r # dedup_run xs d')"

lemma dedup_run_eq: "dedup_run xs d = dedup.run xs d"
proof (induction xs arbitrary: d)
  case (Cons x xs)
  have "dedup_step x d = dedup.step x d" by (cases "(x, d)" rule: dedup_step.cases) (simp_all add: dedup.step_def)
  then show ?case using Cons by (simp split: prod.splits)
qed simp

text \<open>C23: A message of quality of service 2 goes on to be routed once: along any history in the order of
  time of publications, releases and clean-ups, a publication is passed on exactly when no publication with the
  same client and packet identifier was passed on before it that is neither released nor older than
  the time to live. What clean-ups remove makes no difference.\<close>

theorem exactly_once:
  assumes "sorted (map fst xs)"
  shows "dedup_run xs (NewDedupStore ttl) = pending_run ttl xs Map.empty"
proof -
  have w: "dedup_wf (NewDedupStore ttl)" by (simp add: dedup_wf_def NewDedupStore_def)
  have f: "dedup.forgets t (NewDedupStore ttl) Map.empty" for t
    by (auto simp: dedup.forgets_def dedup_pending_def NewDedupStore_def)
  have t: "dd_ttl (NewDedupStore ttl) = ttl" by (simp add: NewDedupStore_def)
  show ?thesis
  proof (cases xs)
    case (Cons x ys)
    then have "sorted (fst x # map fst xs)" using assms by simp
    from dedup.run_refines [OF f this w] show ?thesis unfolding dedup_run_eq t .
  qed simp
qed

theorem exactly_once_witness:
  "dedup_run [(0, CallReceive ''c'' 7), (5, CallReceive ''c'' 7), (6, CallRelease ''c'' 7), (7, CallReceive ''c'' 7)] (NewDedupStore 180) =
    [Some True, Some False, None, Some True]"
  using exactly_once [of "[(0, CallReceive ''c'' 7), (5, CallReceive ''c'' 7), (6, CallRelease ''c'' 7), (7, CallReceive ''c'' 7)]" 180]
  by (simp add: Let_def)

end
