(* ===== verification/ClusterIndex.thy ===== *)
theory ClusterIndex
  imports Subscriptions
begin

section \<open>What a node knows of the other nodes\<close>

text \<open>
  Models \<^verbatim>\<open>internal/cluster/remote_subs.go\<close>, \<^verbatim>\<open>connections.go\<close>, \<^verbatim>\<open>conflict.go\<close> and the handlers of
  \<^verbatim>\<open>gossip_broadcast.go\<close>.  Go maps are association lists with distinct keys and a Go set is a list
  without repetitions; a range over either visits it in the order of the list.  The index of remote
  subscriptions is the subscription index of the broker with nodes for clients and with an insertion that
  never lowers the quality of service: \<open>as_index\<close> is the simulation, so that the lemmas of that index carry over.
\<close>

subsection \<open>Remote subscriptions\<close>

record RemoteSubIndex =
  rs_subs :: "(string \<times> (string \<times> byte) list) list"
  rs_nodes :: "(string \<times> string list) list"

definition NewRemoteSubIndex :: RemoteSubIndex where
  "NewRemoteSubIndex = \<lparr>rs_subs = [], rs_nodes = []\<rparr>"

definition node_map :: "string \<Rightarrow> RemoteSubIndex \<Rightarrow> (string \<times> byte) list" where
  "node_map f r = (case map_of (rs_subs r) f of None \<Rightarrow> [] | Some m \<Rightarrow> m)"

definition remote_Add :: "string \<Rightarrow> string \<Rightarrow> byte \<Rightarrow> RemoteSubIndex \<Rightarrow> RemoteSubIndex" where
  "remote_Add n f q r =
     (let m = node_map f r;
          m' = (case map_of m n of None \<Rightarrow> AList.update n q m | Some existing \<Rightarrow> if existing < q then AList.update n q m else m);
          fs = (case map_of (rs_nodes r) n of None \<Rightarrow> [] | Some fs \<Rightarrow> fs)
      in \<lparr>rs_subs = AList.update f m' (rs_subs r), rs_nodes = AList.update n (List.insert f fs) (rs_nodes r)\<rparr>)"

text \<open>Removing the node under a filter, and the filter with its last node.\<close>

definition drop_node :: "string \<Rightarrow> string \<Rightarrow> RemoteSubIndex \<Rightarrow> RemoteSubIndex" where
  "drop_node n f r = (case map_of (rs_subs r) f of
     None \<Rightarrow> r
   | Some m \<Rightarrow> (let m' = AList.delete n m in
       r\<lparr>rs_subs := (if m' = [] then AList.delete f (rs_subs r) else AList.update f m' (rs_subs r))\<rparr>))"

definition remote_Remove :: "string \<Rightarrow> string \<Rightarrow> RemoteSubIndex \<Rightarrow> RemoteSubIndex" where
  "remote_Remove n f r =
     (let r1 = drop_node n f r in
      case map_of (rs_nodes r1) n of
        None \<Rightarrow> r1
      | Some fs \<Rightarrow> (let fs' = remove1 f fs in
          r1\<lparr>rs_nodes := (if fs' = [] then AList.delete n (rs_nodes r1) else AList.update n fs' (rs_nodes r1))\<rparr>))"

definition RemoveNode :: "string \<Rightarrow> RemoteSubIndex \<Rightarrow> RemoteSubIndex" where
  "RemoveNode n r = (case map_of (rs_nodes r) n of
     None \<Rightarrow> r
   | Some fs \<Rightarrow> (fold (drop_node n) fs r)\<lparr>rs_nodes := AList.delete n (rs_nodes r)\<rparr>)"

text \<open>The loop of \<^verbatim>\<open>topicMatch\<close>, over the index of the level, and what follows it.\<close>

fun topicMatch_from :: "string list \<Rightarrow> string list \<Rightarrow> nat \<Rightarrow> bool option" where
  "topicMatch_from [] topicParts i = None"
| "topicMatch_from (p # ps) topicParts i =
     (if p = ''#'' then Some True
      else if length topicParts \<le> i then Some False
      else if p = ''+'' then topicMatch_from ps topicParts (i + 1)
      else if p \<noteq> topicParts ! i then Some False
      else topicMatch_from ps topicParts (i + 1))"

definition topicMatch :: "string \<Rightarrow> string \<Rightarrow> bool" where
  "topicMatch filt topic =
     (if topic \<noteq> [] \<and> hd topic = CHR ''$'' \<and> filt \<noteq> [] \<and> (hd filt = CHR ''+'' \<or> hd filt = CHR ''#'') then False
      else let filterParts = str_split CHR ''/'' filt; topicParts = str_split CHR ''/'' topic
           in case topicMatch_from filterParts topicParts 0 of
                Some answer \<Rightarrow> answer
              | None \<Rightarrow> length filterParts = length topicParts)"

definition best_node :: "string \<times> byte \<Rightarrow> (string \<times> byte) list \<Rightarrow> (string \<times> byte) list" where
  "best_node x best = (case map_of best (fst x) of
     None \<Rightarrow> AList.update (fst x) (snd x) best
   | Some existing \<Rightarrow> if existing < snd x then AList.update (fst x) (snd x) best else best)"

definition remote_Match :: "string \<Rightarrow> RemoteSubIndex \<Rightarrow> (string \<times> byte) list" where
  "remote_Match topic r = fold (\<lambda>(f, m) best. if topicMatch f topic then fold best_node m best else best) (rs_subs r) []"

subsection \<open>Broadcasts about subscriptions\<close>

record SubBroadcast =
  sb_Type :: string
  sb_NodeID :: string
  sb_Filter :: string
  sb_Qos :: byte

definition HandleSubBroadcast :: "RemoteSubIndex \<Rightarrow> SubBroadcast \<Rightarrow> RemoteSubIndex" where
  "HandleSubBroadcast idx msg =
     (if sb_Type msg = ''sub'' then remote_Add (sb_NodeID msg) (sb_Filter msg) (sb_Qos msg) idx
      else if sb_Type msg = ''unsub'' then remote_Remove (sb_NodeID msg) (sb_Filter msg) idx
      else idx)"

definition sub_Invalidates :: "SubBroadcast \<Rightarrow> SubBroadcast \<Rightarrow> bool" where
  "sub_Invalidates b other \<longleftrightarrow> sb_NodeID b = sb_NodeID other \<and> sb_Filter b = sb_Filter other"

subsection \<open>The simulation\<close>

definition entry :: "string \<times> byte \<Rightarrow> subscriptionEntry" where
  "entry x = \<lparr>se_ClientID = fst x, se_QoS = snd x\<rparr>"

definition as_index :: "RemoteSubIndex \<Rightarrow> SubscriptionIndex" where
  "as_index r = \<lparr>si_filters = map (\<lambda>(f, m). (f, map entry m)) (rs_subs r), si_clients = rs_nodes r\<rparr>"

lemma entry_simps [simp]: "se_ClientID (entry x) = fst x" "se_QoS (entry x) = snd x"
  by (simp_all add: entry_def)

lemma se_ClientID_entry [simp]: "se_ClientID \<circ> entry = fst"
  by (simp add: fun_eq_iff)

lemma map_of_entries: "map_of (map (\<lambda>(f, m). (f, map entry m)) t) f = map_option (map entry) (map_of t f)"
  by (induction t) auto

lemma entries_of_as_index: "entries_of f (as_index r) = map entry (node_map f r)"
  by (simp add: entries_of_def as_index_def map_of_entries node_map_def split: option.splits)

lemma find_qos_entries: "find_qos n (map entry m) = map_of m n"
  by (induction m) (auto simp: find_qos_simps)

lemma subs_of_as_index: "subs_of (as_index r) (n, f) = map_of (node_map f r) n"
  by (simp add: subs_of_def entries_of_as_index find_qos_entries)

lemma map_entries_update: "map (\<lambda>(f, m). (f, map entry m)) (AList.update f m t) = AList.update f (map entry m) (map (\<lambda>(f, m). (f, map entry m)) t)"
  by (induction t) auto

lemma map_entries_delete: "map (\<lambda>(f, m). (f, map entry m)) (AList.delete f t) = AList.delete f (map (\<lambda>(f, m). (f, map entry m)) t)"
  by (induction t) (auto simp: AList.delete_eq)

lemma set_qos_entries: "set_qos n q (map entry m) = (if map_of m n = None then None else Some (map entry (AList.update n q m)))"
proof (induction m)
  case (Cons x m)
  then show ?case by (cases x) (auto simp: entry_def)
qed simp

lemma update_absent: "map_of m n = None \<Longrightarrow> AList.update n q m = m @ [(n, q)]"
  by (induction m) (auto split: if_splits)

lemma update_same: "map_of t k = Some v \<Longrightarrow> AList.update k v t = t"
  by (induction t) (auto split: if_splits)

lemma delete_entries: "distinct (map fst m) \<Longrightarrow> map entry (AList.delete n m) = remove_entry n (map entry m)"
proof (induction m)
  case (Cons x m)
  then show ?case
  proof (cases "fst x = n")
    case True
    then have "AList.delete n m = m" using Cons.prems by (auto simp: AList.delete_eq filter_id_conv image_iff)
    then show ?thesis using True by (cases x) simp
  next
    case False
    then show ?thesis using Cons by (cases x) simp
  qed
qed simp

lemma topicMatch_from:
  "i \<le> length ts \<Longrightarrow> match_levels ps (drop i ts) =
     (case topicMatch_from ps ts i of Some b \<Rightarrow> b | None \<Rightarrow> length ts = i + length ps)"
proof (induction ps arbitrary: i)
  case Nil
  then show ?case by auto
next
  case (Cons p ps)
  show ?case
  proof (cases "i < length ts")
    case True
    then have "drop i ts = ts ! i # drop (i + 1) ts" by (simp add: Cons_nth_drop_Suc)
    then show ?thesis using True Cons.IH [of "i + 1"] by (auto split: option.splits)
  next
    case False
    then have "drop i ts = []" by simp
    then show ?thesis using False by simp
  qed
qed

text \<open>The copy of the matcher in the cluster package decides as the matcher of the broker.\<close>

lemma topicMatch_eq: "topicMatch filt topic = TopicMatch filt topic"
proof -
  have "starts_with_any ''$'' topic \<and> starts_with_any ''+#'' filt \<longleftrightarrow>
      topic \<noteq> [] \<and> hd topic = CHR ''$'' \<and> filt \<noteq> [] \<and> (hd filt = CHR ''+'' \<or> hd filt = CHR ''#'')"
    by (cases topic; cases filt) (auto simp: starts_with_any_def)
  then show ?thesis
    using topicMatch_from [of 0 "str_split CHR ''/'' topic" "str_split CHR ''/'' filt"]
    by (auto simp: topicMatch_def TopicMatch_def Let_def split: option.splits)
qed

lemma node_keys:
  assumes "si_wf (as_index r)"
  shows "distinct (map fst (node_map f r))"
  using entries_distinct [OF assms, of f] by (simp add: entries_of_as_index)

lemma as_index_nodes [simp]: "si_clients (as_index r) = rs_nodes r"
  by (simp add: as_index_def)

lemma as_index_Add:
  assumes "si_wf (as_index r)"
  shows "as_index (remote_Add n f q r) = (case subs_of (as_index r) (n, f) of
      None \<Rightarrow> Subscriptions.Add n f q (as_index r)
    | Some existing \<Rightarrow> if existing < q then Subscriptions.Add n f q (as_index r) else as_index r)"
proof (cases "map_of (node_map f r) n")
  case None
  then show ?thesis
    by (simp add: subs_of_as_index remote_Add_def Let_def Add_def entries_of_as_index set_qos_entries update_absent)
      (simp add: as_index_def map_entries_update filters_of_def entry_def)
next
  case (Some existing)
  then obtain fs where fs: "map_of (rs_nodes r) n = Some fs" "f \<in> set fs"
    using si_wfD(3) [OF assms, of f n] Some by (cases "map_of (rs_nodes r) n") (auto simp: subs_of_as_index filters_of_def)
  have m: "map_of (rs_subs r) f = Some (node_map f r)" using Some by (auto simp: node_map_def split: option.splits)
  show ?thesis using Some fs
    by (simp add: subs_of_as_index remote_Add_def Let_def Add_def entries_of_as_index set_qos_entries)
      (simp add: as_index_def map_entries_update update_same m List.insert_def)
qed

lemma as_index_drop:
  assumes "filters_ok (as_index r)"
  shows "as_index (drop_node n f r) = drop_entry n f (as_index r)"
proof (cases "map_of (rs_subs r) f")
  case None
  then have "map_of (map (\<lambda>(f, m). (f, map entry m)) (rs_subs r)) f = None" by (simp add: map_of_entries)
  then have "AList.delete f (map (\<lambda>(f, m). (f, map entry m)) (rs_subs r)) = map (\<lambda>(f, m). (f, map entry m)) (rs_subs r)"
    by (auto simp: AList.delete_eq filter_id_conv map_of_eq_None_iff image_iff)
  then show ?thesis using None
    by (simp add: drop_node_def drop_entry_def entries_of_as_index node_map_def Let_def) (simp add: as_index_def)
next
  case (Some m)
  then have "distinct (map fst m)" using filters_ok_entries [OF assms, of f] by (simp add: entries_of_as_index node_map_def)
  then have d: "remove_entry n (map entry m) = map entry (AList.delete n m)" by (simp add: delete_entries)
  show ?thesis using Some
    by (simp add: drop_node_def drop_entry_def entries_of_as_index node_map_def Let_def d)
      (simp add: as_index_def map_entries_update map_entries_delete)
qed

lemma as_index_set_nodes: "as_index (r\<lparr>rs_nodes := ns\<rparr>) = (as_index r)\<lparr>si_clients := ns\<rparr>"
  by (simp add: as_index_def)

lemma rs_nodes_drop [simp]: "rs_nodes (drop_node n f r) = rs_nodes r"
  by (simp add: drop_node_def Let_def split: option.splits)

lemma as_index_Remove:
  assumes "si_wf (as_index r)"
  shows "as_index (remote_Remove n f r) = Subscriptions.Remove n f (as_index r)"
  unfolding remote_Remove_def Subscriptions.Remove_def Let_def as_index_drop [OF si_wfD(1) [OF assms], symmetric]
  by (simp add: as_index_set_nodes split: option.splits)

lemma as_index_drops:
  "filters_ok (as_index r) \<Longrightarrow> as_index (fold (drop_node n) fs r) = fold (drop_entry n) fs (as_index r)"
  by (induction fs arbitrary: r) (simp_all add: as_index_drop filters_ok_drop)

lemma as_index_RemoveNode:
  assumes "si_wf (as_index r)"
  shows "as_index (RemoveNode n r) = RemoveAll n (as_index r)"
  by (simp add: RemoveNode_def RemoveAll_def as_index_set_nodes as_index_drops [OF si_wfD(1) [OF assms]] split: option.splits)

lemma remote_Match_eq: "remote_Match topic r = Match topic (as_index r)"
proof -
  have b: "best_step (entry x) = best_node x" for x by (rule ext) (simp only: best_step_def best_node_def entry_simps)
  have e: "fold best_step (map entry m) best = fold best_node m best" for m best by (simp add: fold_map comp_def b)
  have "fold (\<lambda>(f, es) best. if TopicMatch f topic then fold best_step es best else best) (map (\<lambda>(f, m). (f, map entry m)) t) best =
      fold (\<lambda>(f, m) best. if topicMatch f topic then fold best_node m best else best) t best" for t best
    by (induction t arbitrary: best) (auto simp: e topicMatch_eq)
  then show ?thesis by (simp add: remote_Match_def Match_def as_index_def)
qed

subsection \<open>What the broadcasts leave in the index\<close>

text \<open>What reaches the index: a broadcast of another node, or the news that a node has left.\<close>

datatype gossip_call = Receive SubBroadcast | Left string

fun remote_step :: "gossip_call \<Rightarrow> RemoteSubIndex \<Rightarrow> RemoteSubIndex" where
  "remote_step (Receive msg) r = HandleSubBroadcast r msg"
| "remote_step (Left n) r = RemoveNode n r"

fun remote_spec :: "gossip_call \<Rightarrow> subs \<Rightarrow> subs" where
  "remote_spec (Receive msg) s =
     (let k = (sb_NodeID msg, sb_Filter msg) in
      if sb_Type msg = ''sub'' then s(k \<mapsto> (case s k of None \<Rightarrow> sb_Qos msg | Some x \<Rightarrow> max x (sb_Qos msg)))
      else if sb_Type msg = ''unsub'' then s(k := None) else s)"
| "remote_spec (Left n) s = (\<lambda>(m, f). if m = n then None else s (m, f))"

lemma remote_step_refines:
  assumes "si_wf (as_index r)"
  shows "si_wf (as_index (remote_step c r)) \<and> subs_of (as_index (remote_step c r)) = remote_spec c (subs_of (as_index r))"
proof (cases c)
  case (Receive msg)
  consider "sb_Type msg = ''sub''" | "sb_Type msg = ''unsub''" | "sb_Type msg \<noteq> ''sub''" "sb_Type msg \<noteq> ''unsub''" by blast
  then show ?thesis
  proof cases
    case 1
    then show ?thesis using assms Receive
      by (auto simp: HandleSubBroadcast_def as_index_Add si_wf_Add subs_of_Add max_def not_less Let_def fun_eq_iff split: option.splits)
  next
    case 2
    then show ?thesis using assms Receive
      by (simp add: HandleSubBroadcast_def as_index_Remove si_wf_Remove subs_of_Remove Let_def)
  next
    case 3
    then show ?thesis using assms Receive by (simp add: HandleSubBroadcast_def Let_def)
  qed
next
  case (Left n)
  then show ?thesis using assms by (simp add: as_index_RemoveNode si_wf_RemoveAll subs_of_RemoveAll)
qed

lemma remote_run_refines:
  "si_wf (as_index r) \<Longrightarrow> si_wf (as_index (fold remote_step cs r)) \<and>
     subs_of (as_index (fold remote_step cs r)) = fold remote_spec cs (subs_of (as_index r))"
  by (induction cs arbitrary: r) (simp_all add: remote_step_refines)

lemma as_index_New: "as_index NewRemoteSubIndex = NewSubscriptionIndex"
  by (simp add: as_index_def NewRemoteSubIndex_def NewSubscriptionIndex_def)

lemma remote_after:
  "si_wf (as_index (fold remote_step cs NewRemoteSubIndex))"
  "subs_of (as_index (fold remote_step cs NewRemoteSubIndex)) = fold remote_spec cs Map.empty"
  using remote_run_refines [of NewRemoteSubIndex cs] by (simp_all add: as_index_New si_wf_New subs_of_New)

text \<open>C17: After any sequence of broadcasts and departures, the nodes to which a message is forwarded are exactly those
  that have announced, and neither withdrawn nor lost by leaving, a filter that matches the topic; each is
  listed once, with the highest quality of service of its matching filters.  The matcher used is the
  cluster's own copy and agrees with the one of the broker on every filter and topic.\<close>

theorem remote_routing_exact:
  "distinct (map fst (remote_Match topic (fold remote_step cs NewRemoteSubIndex))) \<and>
   map_of (remote_Match topic (fold remote_step cs NewRemoteSubIndex)) n =
     max_opt {q. \<exists>f. TopicMatch f topic \<and> fold remote_spec cs Map.empty (n, f) = Some q} \<and>
   topicMatch g topic = TopicMatch g topic"
  by (simp add: remote_Match_eq Match_map [OF remote_after(1)] remote_after(2) Match_distinct topicMatch_eq)

subsection \<open>Which node a device is connected to\<close>

record ConnectionIndex =
  ci_devices :: "(string \<times> string) list"
  ci_byNode :: "(string \<times> string list) list"
  ci_migrating :: "(string \<times> bool) list"

definition NewConnectionIndex :: ConnectionIndex where
  "NewConnectionIndex = \<lparr>ci_devices = [], ci_byNode = [], ci_migrating = []\<rparr>"

text \<open>Taking a device out of the set of a node, and the set away with its last device.\<close>

definition drop_device :: "string \<Rightarrow> string \<Rightarrow> ConnectionIndex \<Rightarrow> ConnectionIndex" where
  "drop_device d n idx = (case map_of (ci_byNode idx) n of
     None \<Rightarrow> idx
   | Some devs \<Rightarrow> (let devs' = remove1 d devs in
       idx\<lparr>ci_byNode := (if devs' = [] then AList.delete n (ci_byNode idx) else AList.update n devs' (ci_byNode idx))\<rparr>))"

definition conn_Add :: "string \<Rightarrow> string \<Rightarrow> ConnectionIndex \<Rightarrow> ConnectionIndex" where
  "conn_Add d n idx =
     (let idx1 = (case map_of (ci_devices idx) d of None \<Rightarrow> idx | Some prev \<Rightarrow> if prev \<noteq> n then drop_device d prev idx else idx);
          devs = (case map_of (ci_byNode idx1) n of None \<Rightarrow> [] | Some devs \<Rightarrow> devs)
      in idx1\<lparr>ci_devices := AList.update d n (ci_devices idx1), ci_byNode := AList.update n (List.insert d devs) (ci_byNode idx1)\<rparr>)"

definition conn_Remove :: "string \<Rightarrow> ConnectionIndex \<Rightarrow> ConnectionIndex" where
  "conn_Remove d idx = (case map_of (ci_devices idx) d of
     None \<Rightarrow> idx
   | Some n \<Rightarrow> drop_device d n (idx\<lparr>ci_devices := AList.delete d (ci_devices idx)\<rparr>))"

definition conn_RemoveNode :: "string \<Rightarrow> ConnectionIndex \<Rightarrow> ConnectionIndex" where
  "conn_RemoveNode n idx = (case map_of (ci_byNode idx) n of
     None \<Rightarrow> idx
   | Some devs \<Rightarrow> idx\<lparr>ci_devices := fold AList.delete devs (ci_devices idx), ci_byNode := AList.delete n (ci_byNode idx)\<rparr>)"

definition Lookup :: "string \<Rightarrow> ConnectionIndex \<Rightarrow> string option" where
  "Lookup d idx = map_of (ci_devices idx) d"

definition NodeDevices :: "string \<Rightarrow> ConnectionIndex \<Rightarrow> string list" where
  "NodeDevices n idx = (case map_of (ci_byNode idx) n of None \<Rightarrow> [] | Some devs \<Rightarrow> devs)"

definition conn_Count :: "ConnectionIndex \<Rightarrow> nat" where
  "conn_Count idx = length (ci_devices idx)"

definition conn_SetMigrating :: "string \<Rightarrow> bool \<Rightarrow> ConnectionIndex \<Rightarrow> ConnectionIndex" where
  "conn_SetMigrating d migrating idx =
     (if migrating then idx\<lparr>ci_migrating := AList.update d True (ci_migrating idx)\<rparr>
      else idx\<lparr>ci_migrating := AList.delete d (ci_migrating idx)\<rparr>)"

definition IsMigrating :: "string \<Rightarrow> ConnectionIndex \<Rightarrow> bool" where
  "IsMigrating d idx = (case map_of (ci_migrating idx) d of None \<Rightarrow> False | Some b \<Rightarrow> b)"

definition MigratingDevices :: "ConnectionIndex \<Rightarrow> string list" where
  "MigratingDevices idx = map fst (ci_migrating idx)"

definition ClearAllMigrating :: "ConnectionIndex \<Rightarrow> ConnectionIndex" where
  "ClearAllMigrating idx = idx\<lparr>ci_migrating := []\<rparr>"

record ConnBroadcast =
  cb_Type :: string
  cb_NodeID :: string
  cb_DeviceID :: string

definition HandleConnBroadcast :: "ConnectionIndex \<Rightarrow> ConnBroadcast \<Rightarrow> ConnectionIndex" where
  "HandleConnBroadcast idx msg =
     (if cb_Type msg = ''conn'' then conn_Add (cb_DeviceID msg) (cb_NodeID msg) idx
      else if cb_Type msg = ''disconn'' then conn_Remove (cb_DeviceID msg) idx
      else idx)"

definition conn_Invalidates :: "ConnBroadcast \<Rightarrow> ConnBroadcast \<Rightarrow> bool" where
  "conn_Invalidates b other \<longleftrightarrow> cb_DeviceID b = cb_DeviceID other"

subsection \<open>Conflicts between sessions\<close>

record SessionMeta =
  sm_ClientID :: string
  sm_Epoch :: "64 word"
  sm_ConnectTimestamp :: int
  sm_NodeID :: string

definition Resolve :: "SessionMeta \<Rightarrow> SessionMeta \<Rightarrow> bool" where
  "Resolve local remote =
     (if sm_Epoch local < sm_Epoch remote then True
      else if sm_Epoch remote < sm_Epoch local then False
      else if sm_ConnectTimestamp local < sm_ConnectTimestamp remote then True
      else if sm_ConnectTimestamp remote < sm_ConnectTimestamp local then False
      else False)"

subsection \<open>The index of connections is a map with its inverse\<close>

definition ci_wf :: "ConnectionIndex \<Rightarrow> bool" where
  "ci_wf idx \<longleftrightarrow> distinct (map fst (ci_devices idx)) \<and> table_ok distinct (ci_byNode idx) \<and>
     (\<forall>d n. d \<in> set (NodeDevices n idx) \<longleftrightarrow> Lookup d idx = Some n)"

lemma NodeDevices_distinct:
  assumes "table_ok distinct (ci_byNode idx)"
  shows "distinct (NodeDevices n idx)"
proof (cases "map_of (ci_byNode idx) n")
  case (Some devs)
  then show ?thesis using table_ok_lookup [OF assms Some] by (simp add: NodeDevices_def)
qed (simp add: NodeDevices_def)

lemma ci_wfD:
  assumes "ci_wf idx"
  shows "distinct (map fst (ci_devices idx))" and "table_ok distinct (ci_byNode idx)"
    and "d \<in> set (NodeDevices n idx) \<longleftrightarrow> Lookup d idx = Some n" and "distinct (NodeDevices n idx)"
proof -
  show "distinct (map fst (ci_devices idx))" "table_ok distinct (ci_byNode idx)"
    "d \<in> set (NodeDevices n idx) \<longleftrightarrow> Lookup d idx = Some n" using assms by (simp_all add: ci_wf_def)
  then show "distinct (NodeDevices n idx)" by (intro NodeDevices_distinct)
qed

lemma drop_device_facts:
  assumes "table_ok distinct (ci_byNode idx)"
  shows "table_ok distinct (ci_byNode (drop_device d n idx))" and "ci_devices (drop_device d n idx) = ci_devices idx"
    and "NodeDevices m (drop_device d n idx) = (if m = n then remove1 d (NodeDevices n idx) else NodeDevices m idx)"
proof -
  have "table_ok distinct (ci_byNode (drop_device d n idx)) \<and> ci_devices (drop_device d n idx) = ci_devices idx \<and>
      NodeDevices m (drop_device d n idx) = (if m = n then remove1 d (NodeDevices n idx) else NodeDevices m idx)"
  proof (cases "map_of (ci_byNode idx) n")
    case None
    then show ?thesis using assms by (simp add: drop_device_def NodeDevices_def)
  next
    case (Some devs)
    then have "distinct devs" using table_ok_lookup [OF assms] by blast
    then show ?thesis using Some assms
      by (simp add: drop_device_def Let_def NodeDevices_def table_ok_update table_ok_delete distinct_remove1 update_conv' delete_conv')
  qed
  then show "table_ok distinct (ci_byNode (drop_device d n idx))" "ci_devices (drop_device d n idx) = ci_devices idx"
    "NodeDevices m (drop_device d n idx) = (if m = n then remove1 d (NodeDevices n idx) else NodeDevices m idx)" by simp_all
qed

lemma NodeDevices_devices [simp]: "NodeDevices m (idx\<lparr>ci_devices := ds\<rparr>) = NodeDevices m idx"
  by (simp add: NodeDevices_def)

lemma ci_wf_New: "ci_wf NewConnectionIndex"
  by (simp add: ci_wf_def NewConnectionIndex_def NodeDevices_def Lookup_def table_ok_Nil)

lemma conn_Add_facts:
  assumes "ci_wf idx"
  shows "ci_wf (conn_Add d n idx) \<and> (\<lambda>e. Lookup e (conn_Add d n idx)) = (\<lambda>e. Lookup e idx)(d \<mapsto> n)"
proof -
  define idx1 where "idx1 = (case map_of (ci_devices idx) d of None \<Rightarrow> idx | Some prev \<Rightarrow> if prev \<noteq> n then drop_device d prev idx else idx)"
  note w = ci_wfD [OF assms]
  have t: "table_ok distinct (ci_byNode idx1)" and s: "ci_devices idx1 = ci_devices idx"
    using w(2) by (simp_all add: idx1_def drop_device_facts [OF w(2)] split: option.split)
  have nd: "distinct (NodeDevices m idx1)"
      "e \<in> set (NodeDevices m idx1) \<longleftrightarrow> Lookup e idx = Some m \<and> \<not> (e = d \<and> m \<noteq> n)" for e m
  proof -
    show "distinct (NodeDevices m idx1)" using t by (rule NodeDevices_distinct)
    show "e \<in> set (NodeDevices m idx1) \<longleftrightarrow> Lookup e idx = Some m \<and> \<not> (e = d \<and> m \<noteq> n)"
      using w(3,4) by (cases "map_of (ci_devices idx) d") (auto simp: idx1_def drop_device_facts [OF w(2)] Lookup_def)
  qed
  have e: "conn_Add d n idx = idx1\<lparr>ci_devices := AList.update d n (ci_devices idx), ci_byNode := AList.update n (List.insert d (NodeDevices n idx1)) (ci_byNode idx1)\<rparr>"
    by (simp add: conn_Add_def Let_def idx1_def [symmetric] NodeDevices_def s)
  have l: "Lookup e (conn_Add d n idx) = (if e = d then Some n else Lookup e idx)" for e
    by (simp add: e Lookup_def update_conv')
  have a: "NodeDevices m (conn_Add d n idx) = (if m = n then List.insert d (NodeDevices n idx1) else NodeDevices m idx1)" for m
    by (simp add: e NodeDevices_def update_conv')
  have "List.insert d (NodeDevices n idx1) \<noteq> []" by (auto simp: List.insert_def)
  then have "ci_wf (conn_Add d n idx)"
    using nd w(1) t unfolding ci_wf_def l a by (auto simp: e distinct_update intro!: table_ok_update)
  then show ?thesis using l by (simp add: fun_eq_iff)
qed

lemma conn_Remove_facts:
  assumes "ci_wf idx"
  shows "ci_wf (conn_Remove d idx) \<and> (\<lambda>e. Lookup e (conn_Remove d idx)) = (\<lambda>e. Lookup e idx)(d := None)"
proof (cases "map_of (ci_devices idx) d")
  case None
  then show ?thesis using assms by (simp add: conn_Remove_def fun_eq_iff Lookup_def)
next
  case (Some n)
  let ?idx = "idx\<lparr>ci_devices := AList.delete d (ci_devices idx)\<rparr>"
  note w = ci_wfD [OF assms]
  have "table_ok distinct (ci_byNode ?idx)" using w(2) by simp
  note f = drop_device_facts [OF this]
  have l: "Lookup e (conn_Remove d idx) = (if e = d then None else Lookup e idx)" for e
    using Some by (simp add: conn_Remove_def Lookup_def f delete_conv')
  have a: "NodeDevices m (conn_Remove d idx) = (if m = n then remove1 d (NodeDevices n idx) else NodeDevices m idx)" for m
    using Some by (simp add: conn_Remove_def f)
  have "Lookup d idx = Some n" using Some by (simp add: Lookup_def)
  then have "ci_wf (conn_Remove d idx)"
    using w(1,3,4) f(1) Some unfolding ci_wf_def l a by (auto simp: conn_Remove_def f(2) distinct_delete)
  then show ?thesis using l by (simp add: fun_eq_iff)
qed

lemma map_of_deletes: "map_of (fold AList.delete ds t) e = (if e \<in> set ds then None else map_of t e)"
  by (induction ds arbitrary: t) (simp_all add: delete_conv')

lemma distinct_deletes: "distinct (map fst t) \<Longrightarrow> distinct (map fst (fold AList.delete ds t))"
  by (induction ds arbitrary: t) (simp_all add: distinct_delete)

lemma conn_RemoveNode_facts:
  assumes "ci_wf idx"
  shows "ci_wf (conn_RemoveNode n idx) \<and>
    (\<lambda>e. Lookup e (conn_RemoveNode n idx)) = (\<lambda>e. if Lookup e idx = Some n then None else Lookup e idx)"
proof (cases "map_of (ci_byNode idx) n")
  case None
  then have "NodeDevices n idx = []" by (simp add: NodeDevices_def)
  then have "Lookup e idx \<noteq> Some n" for e using ci_wfD(3) [OF assms, of e n] by simp
  then show ?thesis using None assms by (simp add: conn_RemoveNode_def fun_eq_iff)
next
  case (Some devs)
  note w = ci_wfD [OF assms]
  have n: "NodeDevices n idx = devs" using Some by (simp add: NodeDevices_def)
  have l: "Lookup e (conn_RemoveNode n idx) = (if Lookup e idx = Some n then None else Lookup e idx)" for e
    using Some w(3) [of e n] unfolding n by (simp add: conn_RemoveNode_def Lookup_def map_of_deletes)
  have a: "NodeDevices m (conn_RemoveNode n idx) = (if m = n then [] else NodeDevices m idx)" for m
    using Some by (simp add: conn_RemoveNode_def NodeDevices_def delete_conv')
  have "ci_wf (conn_RemoveNode n idx)"
    using w(1,2,3) Some unfolding ci_wf_def l a by (auto simp: conn_RemoveNode_def distinct_deletes table_ok_delete)
  then show ?thesis using l by (simp add: fun_eq_iff)
qed

lemma conn_Count_card:
  assumes "ci_wf idx"
  shows "conn_Count idx = card (dom (\<lambda>d. Lookup d idx))"
proof -
  have "card (set (map fst (ci_devices idx))) = length (ci_devices idx)"
    using distinct_card [OF ci_wfD(1) [OF assms]] by (simp only: length_map)
  then show ?thesis by (simp add: conn_Count_def Lookup_def dom_map_of_conv_image_fst)
qed

text \<open>What the cluster relies on when it publishes the wills of a node that has died.\<close>

locale device_locations =
  fixes new :: 's
    and add :: "string \<Rightarrow> string \<Rightarrow> 's \<Rightarrow> 's"
    and remove :: "string \<Rightarrow> 's \<Rightarrow> 's"
    and remove_node :: "string \<Rightarrow> 's \<Rightarrow> 's"
    and lookup :: "string \<Rightarrow> 's \<Rightarrow> string option"
    and node_devices :: "string \<Rightarrow> 's \<Rightarrow> string list"
    and wf :: "'s \<Rightarrow> bool"
  assumes new_ok: "wf new \<and> (\<lambda>d. lookup d new) = Map.empty"
    and add_ok: "wf s \<Longrightarrow> wf (add d n s) \<and> (\<lambda>e. lookup e (add d n s)) = (\<lambda>e. lookup e s)(d \<mapsto> n)"
    and remove_ok: "wf s \<Longrightarrow> wf (remove d s) \<and> (\<lambda>e. lookup e (remove d s)) = (\<lambda>e. lookup e s)(d := None)"
    and remove_node_ok: "wf s \<Longrightarrow> wf (remove_node n s) \<and>
      (\<lambda>e. lookup e (remove_node n s)) = (\<lambda>e. if lookup e s = Some n then None else lookup e s)"
    and node_devices_ok: "wf s \<Longrightarrow> distinct (node_devices n s) \<and> set (node_devices n s) = {d. lookup d s = Some n}"
begin

lemma devices_gone: "wf s \<Longrightarrow> node_devices n (remove_node n s) = []"
  using remove_node_ok [of s n] node_devices_ok [of "remove_node n s" n] by (auto simp: fun_eq_iff split: if_splits)

lemma devices_partition: "wf s \<Longrightarrow> m \<noteq> n \<Longrightarrow> set (node_devices m s) \<inter> set (node_devices n s) = {}"
  using node_devices_ok [of s] by auto

end

interpretation conns: device_locations NewConnectionIndex conn_Add conn_Remove conn_RemoveNode Lookup NodeDevices ci_wf
proof
  show "ci_wf NewConnectionIndex \<and> (\<lambda>d. Lookup d NewConnectionIndex) = Map.empty"
    using ci_wf_New by (simp add: Lookup_def NewConnectionIndex_def)
  show "distinct (NodeDevices n s) \<and> set (NodeDevices n s) = {d. Lookup d s = Some n}" if "ci_wf s" for s n
    using ci_wfD(3,4) [OF that] by blast
qed (fact conn_Add_facts conn_Remove_facts conn_RemoveNode_facts)+

end
