(* ===== verification/BrokerCore.thy ===== *)
theory BrokerCore
  imports Packets Offline Delivery Plugins ClusterIndex "HOL-Library.Monad_Syntax"
begin

section \<open>The broker and its connections\<close>

text \<open>
  Models \<^verbatim>\<open>internal/broker/broker.go\<close>, \<^verbatim>\<open>client.go\<close> and \<^verbatim>\<open>session_reaper.go\<close>.  A connection (\<^verbatim>\<open>*Client\<close>) is a number, and
  the broker has the map from the numbers to the objects, so that two entries may share one object and the
  comparison of pointers is the comparison of numbers.

  A handler is one step: the handlers of different connections run in different goroutines, and what happens
  between their locked sections is not interleaved here, with one exception.  \<^verbatim>\<open>close\<close> waits for the writer after
  it has closed the channel, so it is two steps, \<open>close_begin\<close> and \<open>close_finish\<close>, between which anything may
  happen.  A send on a closed channel panics and no goroutine recovers from it: \<open>None\<close> is the end of the process.

  \<open>now\<close> is the time of a step.  What the broker asks of its authenticator, authorizer and rate limiter is a
  parameter, as are the plugins (theory \<open>Plugins\<close>).  Log lines and metrics are left out.
\<close>

subsection \<open>State\<close>

datatype conn_phase = Accepted | Serving | Leaving | Closing | Finished

record Client =
  cl_connPtr :: string
  cl_remoteAddr :: string
  cl_clientID :: string
  cl_username :: string
  cl_will :: "WillMessage option"
  cl_packetIDs :: "16 word"
  cl_inflight :: InflightStore
  cl_keepAlive :: int
  cl_protocolVersion :: octet
  cl_connectedAt :: int
  cl_sendCh :: "octet list list"
  cl_phase :: conn_phase
  cl_connClosed :: bool
  cl_written :: "octet list list"

text \<open>What the broker hands to the cluster.\<close>

datatype outgoing =
    OutSub SubBroadcast
  | OutConn ConnBroadcast
  | OutForward string string "octet list" octet bool

record broker_cluster =
  cv_self :: string
  cv_remoteSubs :: RemoteSubIndex

record 's Broker =
  br_subscriptions :: SubscriptionIndex
  br_sessions :: SessionStore
  br_retain :: RetainStore
  br_dedup :: DedupStore
  br_offline :: OfflineStore
  br_wills :: "WillStore option"
  br_disk :: "disk option"
  br_cluster :: "broker_cluster option"
  br_chain :: "'s InterceptorChain option"
  br_plugins :: 's
  br_inflightLimit :: int
  br_maxConnections :: int
  br_clients :: "(string \<times> nat) list"
  br_conns :: "nat \<rightharpoonup> Client"
  br_done :: bool
  br_out :: "outgoing list"

record broker_env =
  e_Authenticate :: "string \<Rightarrow> octet list \<Rightarrow> bool"
  e_Authorize :: "string \<Rightarrow> string \<Rightarrow> string \<Rightarrow> bool"
  e_AllowConnect :: bool
  e_AllowPublish :: "string \<Rightarrow> string \<Rightarrow> nat \<Rightarrow> bool"
  e_AllowSubscribe :: "nat \<Rightarrow> string \<Rightarrow> string \<Rightarrow> bool"

definition hours :: "int \<Rightarrow> int" where
  "hours n = n * 3600 * 1000000000"

text \<open>\<^verbatim>\<open>New\<close>, with the chain and the cluster that the start-up code sets before it serves.\<close>

definition NewBroker :: "disk option \<Rightarrow> broker_cluster option \<Rightarrow> 's InterceptorChain option \<Rightarrow> 's \<Rightarrow> 's Broker" where
  "NewBroker store cluster chain s = \<lparr>br_subscriptions = NewSubscriptionIndex, br_sessions = NewSessionStore, br_retain = NewRetainStore,
     br_dedup = NewDedupStore (180 * 1000000000), br_offline = NewOfflineStore 1000 (hours 24),
     br_wills = (case store of None \<Rightarrow> None | Some _ \<Rightarrow> Some NewWillStore), br_disk = store, br_cluster = cluster, br_chain = chain,
     br_plugins = s, br_inflightLimit = 20, br_maxConnections = 0, br_clients = [], br_conns = Map.empty, br_done = False, br_out = []\<rparr>"

subsection \<open>Operations of the stores on the state of the broker\<close>

definition on_retain :: "(RetainStore \<times> disk option \<Rightarrow> RetainStore \<times> disk option) \<Rightarrow> 's Broker \<Rightarrow> 's Broker" where
  "on_retain f b = (case f (br_retain b, br_disk b) of (rs, d) \<Rightarrow> b\<lparr>br_retain := rs, br_disk := d\<rparr>)"

definition on_session :: "(SessionStore \<times> disk option \<Rightarrow> SessionStore \<times> disk option) \<Rightarrow> 's Broker \<Rightarrow> 's Broker" where
  "on_session f b = (case f (br_sessions b, br_disk b) of (ss, d) \<Rightarrow> b\<lparr>br_sessions := ss, br_disk := d\<rparr>)"

definition on_offline :: "(OfflineStore \<times> disk option \<Rightarrow> OfflineStore \<times> disk option) \<Rightarrow> 's Broker \<Rightarrow> 's Broker" where
  "on_offline f b = (case f (br_offline b, br_disk b) of (os, d) \<Rightarrow> b\<lparr>br_offline := os, br_disk := d\<rparr>)"

definition on_wills :: "(WillStore \<times> disk \<Rightarrow> WillStore \<times> disk) \<Rightarrow> 's Broker \<Rightarrow> 's Broker" where
  "on_wills f b = (case (br_wills b, br_disk b) of
     (Some ws, Some d) \<Rightarrow> (case f (ws, d) of (ws', d') \<Rightarrow> b\<lparr>br_wills := Some ws', br_disk := Some d'\<rparr>)
   | _ \<Rightarrow> b)"

definition emit :: "outgoing list \<Rightarrow> 's Broker \<Rightarrow> 's Broker" where
  "emit os b = b\<lparr>br_out := br_out b @ os\<rparr>"

definition BroadcastSubscribe :: "string \<Rightarrow> octet \<Rightarrow> 's Broker \<Rightarrow> 's Broker" where
  "BroadcastSubscribe f q b = (case br_cluster b of None \<Rightarrow> b
   | Some cv \<Rightarrow> emit [OutSub \<lparr>sb_Type = ''sub'', sb_NodeID = cv_self cv, sb_Filter = f, sb_Qos = q\<rparr>] b)"

definition BroadcastUnsubscribe :: "string \<Rightarrow> 's Broker \<Rightarrow> 's Broker" where
  "BroadcastUnsubscribe f b = (case br_cluster b of None \<Rightarrow> b
   | Some cv \<Rightarrow> emit [OutSub \<lparr>sb_Type = ''unsub'', sb_NodeID = cv_self cv, sb_Filter = f, sb_Qos = 0\<rparr>] b)"

definition BroadcastConnect :: "string \<Rightarrow> 's Broker \<Rightarrow> 's Broker" where
  "BroadcastConnect d b = (case br_cluster b of None \<Rightarrow> b
   | Some cv \<Rightarrow> emit [OutConn \<lparr>cb_Type = ''conn'', cb_NodeID = cv_self cv, cb_DeviceID = d\<rparr>] b)"

definition BroadcastDisconnect :: "string \<Rightarrow> 's Broker \<Rightarrow> 's Broker" where
  "BroadcastDisconnect d b = (case br_cluster b of None \<Rightarrow> b
   | Some cv \<Rightarrow> emit [OutConn \<lparr>cb_Type = ''disconn'', cb_NodeID = cv_self cv, cb_DeviceID = d\<rparr>] b)"

text \<open>A loop over a list whose body may panic.\<close>

fun each :: "('a \<Rightarrow> 'b \<Rightarrow> 'b option) \<Rightarrow> 'a list \<Rightarrow> 'b \<Rightarrow> 'b option" where
  "each f [] b = Some b"
| "each f (x # xs) b = f x b \<bind> each f xs"

subsection \<open>Sending\<close>

definition set_conn :: "nat \<Rightarrow> Client \<Rightarrow> 's Broker \<Rightarrow> 's Broker" where
  "set_conn h c b = b\<lparr>br_conns := (br_conns b)(h \<mapsto> c)\<rparr>"

definition ch_closed :: "Client \<Rightarrow> bool" where
  "ch_closed c \<longleftrightarrow> cl_phase c = Closing \<or> cl_phase c = Finished"

text \<open>The buffer of the channel has 256 places; when it is full, the packet is dropped.\<close>

definition send :: "nat \<Rightarrow> octet list \<Rightarrow> 's Broker \<Rightarrow> 's Broker option" where
  "send h data b = (case br_conns b h of
     None \<Rightarrow> None
   | Some c \<Rightarrow>
       if ch_closed c then None
       else if length (cl_sendCh c) < 256 then Some (set_conn h (c\<lparr>cl_sendCh := cl_sendCh c @ [data]\<rparr>) b)
       else Some b)"

definition close_conn :: "nat \<Rightarrow> 's Broker \<Rightarrow> 's Broker" where
  "close_conn h b = (case br_conns b h of None \<Rightarrow> b | Some c \<Rightarrow> set_conn h (c\<lparr>cl_connClosed := True\<rparr>) b)"

definition sendDisconnectAndClose :: "nat \<Rightarrow> octet \<Rightarrow> 's Broker \<Rightarrow> 's Broker option" where
  "sendDisconnectAndClose h reasonCode b = (case br_conns b h of
     None \<Rightarrow> None
   | Some c \<Rightarrow>
       (if cl_protocolVersion c = 5
        then send h (disconnect_Encode \<lparr>dp_ReasonCode = reasonCode, dp_Properties = None, dp_ProtocolVersion = 5\<rparr>) b
        else Some b) \<bind> (\<lambda>b. Some (close_conn h b)))"

definition publish_packet :: "string \<Rightarrow> octet list \<Rightarrow> octet \<Rightarrow> bool \<Rightarrow> 16 word \<Rightarrow> PublishPacket" where
  "publish_packet topic payload qos retain pid = \<lparr>pp_Topic = topic, pp_PacketID = pid, pp_QoS = qos, pp_Dup = False, pp_Retain = retain,
     pp_Payload = payload, pp_Properties = None, pp_ProtocolVersion = 0\<rparr>"

definition deliverMessage :: "int \<Rightarrow> nat \<Rightarrow> string \<Rightarrow> octet list \<Rightarrow> octet \<Rightarrow> 's Broker \<Rightarrow> 's Broker option" where
  "deliverMessage now h topic payload qos b = (case br_conns b h of
     None \<Rightarrow> None
   | Some c \<Rightarrow>
       if qos > 0
       then let pid = Next (cl_packetIDs c);
                msg = \<lparr>if_PacketID = pid, if_Topic = topic, if_Payload = payload, if_QoS = qos, if_Timestamp = now\<rparr>
            in (case inflight_Add msg (cl_inflight c) of (ok, inflight) \<Rightarrow>
                  let b' = set_conn h (c\<lparr>cl_packetIDs := pid, cl_inflight := inflight\<rparr>) b
                  in if ok then send h (publish_Encode (publish_packet topic payload qos False pid)) b' else Some b')
       else send h (publish_Encode (publish_packet topic payload qos False 0)) b)"

subsection \<open>Clients of the broker and routing\<close>

definition registerClient :: "nat \<Rightarrow> string \<Rightarrow> 's Broker \<Rightarrow> 's Broker" where
  "registerClient h c b = b\<lparr>br_clients := AList.update c h (br_clients b)\<rparr>"

definition unregisterClient :: "nat \<Rightarrow> string \<Rightarrow> 's Broker \<Rightarrow> 's Broker" where
  "unregisterClient h c b =
     (if map_of (br_clients b) c = Some h then b\<lparr>br_clients := AList.delete c (br_clients b)\<rparr> else b)"

definition disconnectExisting :: "string \<Rightarrow> 's Broker \<Rightarrow> 's Broker option" where
  "disconnectExisting c b = (case map_of (br_clients b) c of
     None \<Rightarrow> Some b
   | Some h \<Rightarrow> sendDisconnectAndClose h 0x8E (b\<lparr>br_clients := AList.delete c (br_clients b)\<rparr>))"

text \<open>The two lists that \<^verbatim>\<open>routeMessage\<close> takes down under the lock.\<close>

definition effective :: "octet \<Rightarrow> octet \<Rightarrow> octet" where
  "effective qos granted = (if granted < qos then granted else qos)"

definition deliveries :: "octet \<Rightarrow> 's Broker \<Rightarrow> (string \<times> octet) list \<Rightarrow> (nat \<times> string \<times> octet) list" where
  "deliveries qos b ms =
     List.map_filter (\<lambda>(c, q). map_option (\<lambda>h. (h, c, effective qos q)) (map_of (br_clients b) c)) ms"

definition persistent :: "string \<Rightarrow> 's Broker \<Rightarrow> bool" where
  "persistent c b = (case session_Get c (br_sessions b) of None \<Rightarrow> False | Some s \<Rightarrow> s_ExpiryInterval s \<noteq> 0)"

definition offlineDeliveries :: "octet \<Rightarrow> 's Broker \<Rightarrow> (string \<times> octet) list \<Rightarrow> (string \<times> octet) list" where
  "offlineDeliveries qos b ms =
     map (\<lambda>(c, q). (c, effective qos q)) (filter (\<lambda>(c, q). map_of (br_clients b) c = None \<and> persistent c b) ms)"

definition deliver_one :: "int \<Rightarrow> string \<Rightarrow> octet list \<Rightarrow> nat \<times> string \<times> octet \<Rightarrow> 's Broker \<Rightarrow> 's Broker option" where
  "deliver_one now topic payload d b = (case d of (h, c, q) \<Rightarrow>
     case br_chain b of
       None \<Rightarrow> deliverMessage now h topic payload q b
     | Some chain \<Rightarrow>
         (case OnDelivery now chain (br_plugins b) \<lparr>de_ClientID = c, de_Topic = topic, de_Payload = payload, de_QoS = q\<rparr> of
            (err, chain', s, evt, _) \<Rightarrow>
              let b' = b\<lparr>br_chain := Some chain', br_plugins := s\<rparr>
              in if err = None then deliverMessage now h (de_Topic evt) (de_Payload evt) (de_QoS evt) b' else Some b'))"

definition offline_message :: "string \<Rightarrow> octet list \<Rightarrow> octet \<Rightarrow> OfflineMessage" where
  "offline_message topic payload qos = \<lparr>om_Topic = topic, om_Payload = payload, om_QoS = qos, om_Priority = 0, om_CreatedAt = None, om_ExpiresAt = None\<rparr>"

definition enqueue_one :: "int \<Rightarrow> string \<Rightarrow> octet list \<Rightarrow> string \<times> octet \<Rightarrow> 's Broker \<Rightarrow> 's Broker" where
  "enqueue_one now topic payload d b = on_offline (\<lambda>s. snd (Enqueue now (fst d) (offline_message topic payload (snd d)) s)) b"

definition forwards :: "string \<Rightarrow> octet list \<Rightarrow> octet \<Rightarrow> bool \<Rightarrow> bool \<Rightarrow> 's Broker \<Rightarrow> outgoing list" where
  "forwards topic payload qos retain forwarded b = (case br_cluster b of
     None \<Rightarrow> []
   | Some cv \<Rightarrow> if forwarded then []
       else map (\<lambda>(n, q). OutForward n topic payload (effective qos q) retain) (remote_Match topic (cv_remoteSubs cv)))"

definition routeMessage :: "int \<Rightarrow> string \<Rightarrow> octet list \<Rightarrow> octet \<Rightarrow> bool \<Rightarrow> bool \<Rightarrow> 's Broker \<Rightarrow> 's Broker option" where
  "routeMessage now topic payload qos retain forwarded b =
     (let ms = Match topic (br_subscriptions b);
          online = deliveries qos b ms;
          offline = offlineDeliveries qos b ms
      in do {
        b \<leftarrow> each (deliver_one now topic payload) online b;
        let b = fold (enqueue_one now topic payload) offline b;
        Some (emit (forwards topic payload qos retain forwarded b) b)
      })"

subsection \<open>CONNECT\<close>

definition refusal :: "octet \<Rightarrow> octet list" where
  "refusal code = connack_Encode \<lparr>SessionPresent = False, ReturnCode = code, ReasonCode = 0, ck_Properties = None, ck_ProtocolVersion = 0\<rparr>"

definition expiry_of :: "ConnectPacket \<Rightarrow> 32 word" where
  "expiry_of pkt =
     (if ProtocolLevel pkt = 4 then (if \<not> CleanSession pkt then 0xFFFFFFFF else 0)
      else (case cp_Properties pkt of
          None \<Rightarrow> 0
        | Some p \<Rightarrow> (case SessionExpiryInterval p of None \<Rightarrow> 0 | Some e \<Rightarrow> e)))"

text \<open>\<^verbatim>\<open>time.Duration(float64(pkt.KeepAlive)*1.5) * time.Second\<close>: the product is exact and is truncated to seconds.\<close>

definition keepAlive_of :: "ConnectPacket \<Rightarrow> int" where
  "keepAlive_of pkt = (if KeepAlive pkt > 0 then (uint (KeepAlive pkt) * 3 div 2) * 1000000000 else 0)"

definition will_of :: "ConnectPacket \<Rightarrow> WillMessage option" where
  "will_of pkt = (if WillFlag pkt
     then Some \<lparr>w_Topic = WillTopic pkt, w_Payload = WillPayload pkt, w_QoS = WillQoS pkt, w_Retain = WillRetain pkt, w_ClientID = [], w_PersistedAt = 0\<rparr>
     else None)"

text \<open>A new session, or the subscriptions of the one that is resumed; the answer is whether there was one.\<close>

definition open_session :: "string \<Rightarrow> bool \<Rightarrow> 32 word \<Rightarrow> 's Broker \<Rightarrow> bool \<times> 's Broker" where
  "open_session c cleanStart expiry b = (case session_Get c (br_sessions b) of
     None \<Rightarrow> (False, on_session (session_Create c cleanStart expiry) b)
   | Some existing \<Rightarrow>
       if cleanStart then (False, on_session (session_Create c cleanStart expiry) b)
       else (True, b\<lparr>br_subscriptions := fold (\<lambda>(f, q). Add c f q) (s_Subscriptions existing) (br_subscriptions b)\<rparr>))"

definition resume_backlog :: "int \<Rightarrow> nat \<Rightarrow> string \<Rightarrow> 's Broker \<Rightarrow> 's Broker option" where
  "resume_backlog now h c b = (case Dequeue now c 100 (br_offline b, br_disk b) of
     (msgs, os, d) \<Rightarrow> each (\<lambda>m. deliverMessage now h (om_Topic m) (om_Payload m) (om_QoS m)) msgs (b\<lparr>br_offline := os, br_disk := d\<rparr>))"

text \<open>
  \<^verbatim>\<open>handleConnect\<close> from the point at which the packet has been read; the answer is whether it returned no error.
  After an error \<^verbatim>\<open>serve\<close> returns and its deferred \<^verbatim>\<open>close\<close> runs.
\<close>

definition set_will :: "nat \<Rightarrow> string \<Rightarrow> ConnectPacket \<Rightarrow> 's Broker \<Rightarrow> 's Broker" where
  "set_will h c pkt b = (case will_of pkt of
     None \<Rightarrow> b
   | Some w \<Rightarrow> on_wills (will_Set c w) (b\<lparr>br_conns := (br_conns b)(h := map_option (cl_will_update (\<lambda>_. Some w)) (br_conns b h))\<rparr>))"

definition connect_hook :: "int \<Rightarrow> string \<Rightarrow> ConnectPacket \<Rightarrow> string \<Rightarrow> 's Broker \<Rightarrow> plugin_error option \<times> 's Broker" where
  "connect_hook now c pkt addr b = (case br_chain b of
     None \<Rightarrow> (None, b)
   | Some chain \<Rightarrow>
       (case OnConnect now chain (br_plugins b)
            \<lparr>ce_ClientID = c, ce_Username = cp_Username pkt, ce_CleanSession = CleanSession pkt, ce_RemoteAddr = addr\<rparr> of
          (err, chain', s, _, _) \<Rightarrow> (err, b\<lparr>br_chain := Some chain', br_plugins := s\<rparr>)))"

definition accept_client :: "int \<Rightarrow> nat \<Rightarrow> ConnectPacket \<Rightarrow> string \<Rightarrow> Client \<Rightarrow> 's Broker \<Rightarrow> (bool \<times> 's Broker) option" where
  "accept_client now h pkt cid cl b = do {
     b \<leftarrow> disconnectExisting cid (set_conn h (cl\<lparr>cl_username := cp_Username pkt, cl_clientID := cid,
            cl_protocolVersion := ProtocolLevel pkt, cl_connectedAt := now, cl_keepAlive := keepAlive_of pkt\<rparr>) b);
     let (sessionPresent, b) = open_session cid (CleanSession pkt) (expiry_of pkt) b;
     let (err, b) = connect_hook now cid pkt (cl_remoteAddr cl) (BroadcastConnect cid (registerClient h cid (set_will h cid pkt b)));
     if err \<noteq> None then send h (refusal ConnackNotAuthorized) b \<bind> (\<lambda>b. Some (False, b))
     else do {
       b \<leftarrow> send h (connack_Encode \<lparr>SessionPresent = sessionPresent, ReturnCode = ConnackAccepted, ReasonCode = 0,
              ck_Properties = None, ck_ProtocolVersion = ProtocolLevel pkt\<rparr>) b;
       b \<leftarrow> (if sessionPresent then resume_backlog now h cid b else Some b);
       Some (True, b)
     }
   }"

definition handleConnect :: "broker_env \<Rightarrow> int \<Rightarrow> nat \<Rightarrow> FixedHeader \<Rightarrow> octet list \<Rightarrow> 's Broker \<Rightarrow> (bool \<times> 's Broker) option" where
  "handleConnect e now h fh data b = (case br_conns b h of
     None \<Rightarrow> None
   | Some cl \<Rightarrow>
       if PacketType fh \<noteq> CONNECT then Some (False, b)
       else (case DecodeConnectPacket data of
           Inl _ \<Rightarrow> Some (False, b)
         | Inr pkt \<Rightarrow>
             if ProtocolName pkt \<noteq> ''MQTT'' \<or> (ProtocolLevel pkt \<noteq> 4 \<and> ProtocolLevel pkt \<noteq> 5)
             then send h (refusal ConnackUnacceptableProtocol) b \<bind> (\<lambda>b. Some (False, b))
             else if cp_ClientID pkt = [] \<and> \<not> CleanSession pkt
             then send h (refusal ConnackIdentifierRejected) b \<bind> (\<lambda>b. Some (False, b))
             else let cid = (if cp_ClientID pkt = [] then ''auto-'' @ cl_connPtr cl else cp_ClientID pkt) in
               if \<not> e_Authenticate e (cp_Username pkt) (cp_Password pkt)
               then send h (refusal ConnackBadUsernameOrPassword) b \<bind> (\<lambda>b. Some (False, b))
               else accept_client now h pkt cid cl b))"

subsection \<open>PUBLISH and its acknowledgements\<close>

definition ack_packet :: "16 word \<Rightarrow> AckPacket" where
  "ack_packet pid = \<lparr>ap_PacketID = pid, ap_ReasonCode = 0, ap_Properties = None, ap_ProtocolVersion = 0\<rparr>"

text \<open>The switch on the quality of service; the answer is whether the handler goes on.\<close>

definition acknowledge :: "int \<Rightarrow> nat \<Rightarrow> string \<Rightarrow> octet \<Rightarrow> 16 word \<Rightarrow> 's Broker \<Rightarrow> (bool \<times> 's Broker) option" where
  "acknowledge now h c qos pid b =
     (if qos = 1 then send h (puback_Encode (ack_packet pid)) b \<bind> (\<lambda>b. Some (True, b))
      else if qos = 2
      then (case IsDuplicate now c pid (br_dedup b) of
          (True, d) \<Rightarrow> send h (pubrec_Encode (ack_packet pid)) (b\<lparr>br_dedup := d\<rparr>) \<bind> (\<lambda>b. Some (False, b))
        | (False, d) \<Rightarrow> send h (pubrec_Encode (ack_packet pid)) (b\<lparr>br_dedup := MarkReceived now c pid d\<rparr>) \<bind> (\<lambda>b. Some (True, b)))
      else Some (True, b))"

definition handlePublish :: "broker_env \<Rightarrow> int \<Rightarrow> nat \<Rightarrow> FixedHeader \<Rightarrow> octet list \<Rightarrow> 's Broker \<Rightarrow> 's Broker option" where
  "handlePublish e now h fh data b = (case br_conns b h of
     None \<Rightarrow> None
   | Some cl \<Rightarrow>
       (case DecodePublishPacket data (QoS fh) 4 of
          Inl _ \<Rightarrow> Some b
        | Inr pkt \<Rightarrow> do {
            (go, b) \<leftarrow> acknowledge now h (cl_clientID cl) (QoS fh) (pp_PacketID pkt) b;
            if \<not> go \<or> \<not> e_Authorize e (cl_username cl) (pp_Topic pkt) ''publish'' \<or>
               \<not> e_AllowPublish e (cl_clientID cl) (pp_Topic pkt) (length (pp_Payload pkt)) then Some b
            else do {
              let b = (if Retain fh then on_retain (retain_Set (pp_Topic pkt) (pp_Payload pkt) (QoS fh)) b else b);
              case br_chain b of
                None \<Rightarrow> routeMessage now (pp_Topic pkt) (pp_Payload pkt) (QoS fh) (Retain fh) False b
              | Some chain \<Rightarrow>
                  (case OnPublish now chain (br_plugins b) \<lparr>pe_ClientID = cl_clientID cl, pe_Topic = pp_Topic pkt,
                       pe_Payload = pp_Payload pkt, pe_QoS = QoS fh, pe_Retain = Retain fh\<rparr> of
                     (err, chain', s, evt, _) \<Rightarrow>
                       let b = b\<lparr>br_chain := Some chain', br_plugins := s\<rparr>
                       in if err \<noteq> None then Some b else routeMessage now (pe_Topic evt) (pe_Payload evt) (pe_QoS evt) (pe_Retain evt) False b)
            }
          }))"

definition handlePuback :: "nat \<Rightarrow> octet list \<Rightarrow> 's Broker \<Rightarrow> 's Broker option" where
  "handlePuback h data b = (case br_conns b h of
     None \<Rightarrow> None
   | Some cl \<Rightarrow> (case DecodePubackPacket data 4 of
       Inl _ \<Rightarrow> Some b
     | Inr pkt \<Rightarrow> Some (set_conn h (cl\<lparr>cl_inflight := inflight_Remove (ap_PacketID pkt) (cl_inflight cl)\<rparr>) b)))"

definition handlePubrec :: "nat \<Rightarrow> octet list \<Rightarrow> 's Broker \<Rightarrow> 's Broker option" where
  "handlePubrec h data b = (case br_conns b h of
     None \<Rightarrow> None
   | Some cl \<Rightarrow> (case DecodePubrecPacket data 4 of
       Inl _ \<Rightarrow> Some b
     | Inr pkt \<Rightarrow> send h (pubrel_Encode (ack_packet (ap_PacketID pkt)))
         (set_conn h (cl\<lparr>cl_inflight := inflight_Remove (ap_PacketID pkt) (cl_inflight cl)\<rparr>) b)))"

definition handlePubrel :: "nat \<Rightarrow> octet list \<Rightarrow> 's Broker \<Rightarrow> 's Broker option" where
  "handlePubrel h data b = (case br_conns b h of
     None \<Rightarrow> None
   | Some cl \<Rightarrow> (case DecodePubrelPacket data 4 of
       Inl _ \<Rightarrow> Some b
     | Inr pkt \<Rightarrow> send h (pubcomp_Encode (ack_packet (ap_PacketID pkt)))
         (b\<lparr>br_dedup := dedup_Remove (cl_clientID cl) (ap_PacketID pkt) (br_dedup b)\<rparr>)))"

definition handlePubcomp :: "octet list \<Rightarrow> 's Broker \<Rightarrow> 's Broker option" where
  "handlePubcomp data b = Some b"

subsection \<open>SUBSCRIBE and UNSUBSCRIBE\<close>

text \<open>One pass of the loop over the filters, for the filter at index \<open>i\<close>: its return code and the broker.\<close>

definition subscribe_one :: "broker_env \<Rightarrow> int \<Rightarrow> Client \<Rightarrow> nat \<Rightarrow> Subscription \<Rightarrow> 's Broker \<Rightarrow> octet \<times> 's Broker" where
  "subscribe_one e now cl i sub b =
     (let f = sb_TopicFilter sub; c = cl_clientID cl in
      if \<not> TopicFilterValid f \<or> \<not> e_Authorize e (cl_username cl) f ''subscribe'' \<or> \<not> e_AllowSubscribe e i c f then (0x80, b)
      else let q = (if sb_QoS sub > 2 then 2 else sb_QoS sub);
               (err, f, q, b) = (case br_chain b of
                   None \<Rightarrow> (None, f, q, b)
                 | Some chain \<Rightarrow>
                     (case OnSubscribe now chain (br_plugins b) \<lparr>se_Client = c, se_TopicFilter = f, se_SubQoS = q\<rparr> of
                        (err, chain', s, evt, _) \<Rightarrow> (err, se_TopicFilter evt, se_SubQoS evt, b\<lparr>br_chain := Some chain', br_plugins := s\<rparr>)))
           in if err \<noteq> None then (0x80, b)
              else (q, BroadcastSubscribe f q (b\<lparr>br_subscriptions := Add c f q (br_subscriptions b),
                br_sessions := edit_session c (SetSubscription f q) (br_sessions b)\<rparr>)))"

fun subscribe_all :: "broker_env \<Rightarrow> int \<Rightarrow> Client \<Rightarrow> nat \<Rightarrow> Subscription list \<Rightarrow> 's Broker \<Rightarrow> octet list \<times> 's Broker" where
  "subscribe_all e now cl i [] b = ([], b)"
| "subscribe_all e now cl i (sub # subs) b = (case subscribe_one e now cl i sub b of
     (code, b1) \<Rightarrow> (case subscribe_all e now cl (i + 1) subs b1 of (codes, b2) \<Rightarrow> (code # codes, b2)))"

definition send_retained :: "nat \<Rightarrow> string \<Rightarrow> 's Broker \<Rightarrow> 's Broker option" where
  "send_retained h f b = each (\<lambda>msg. send h (publish_Encode (publish_packet (rm_Topic msg) (rm_Payload msg) 0 True 0))) (retain_Match f (br_retain b)) b"

definition handleSubscribe :: "broker_env \<Rightarrow> int \<Rightarrow> nat \<Rightarrow> octet list \<Rightarrow> 's Broker \<Rightarrow> 's Broker option" where
  "handleSubscribe e now h data b = (case br_conns b h of
     None \<Rightarrow> None
   | Some cl \<Rightarrow>
       (case DecodeSubscribePacket data (cl_protocolVersion cl) of
          Inl _ \<Rightarrow> Some b
        | Inr pkt \<Rightarrow> do {
            let (returnCodes, b) = subscribe_all e now cl 0 (sp_Subscriptions pkt) b;
            let b = on_session (session_Save (cl_clientID cl)) b;
            b \<leftarrow> send h (suback_Encode \<lparr>sa_PacketID = sp_PacketID pkt, ReturnCodes = returnCodes, sa_Properties = None, sa_ProtocolVersion = 0\<rparr>) b;
            each (\<lambda>sub. send_retained h (sb_TopicFilter sub)) (sp_Subscriptions pkt) b
          }))"

definition unsubscribe_one :: "int \<Rightarrow> Client \<Rightarrow> string \<Rightarrow> 's Broker \<Rightarrow> 's Broker" where
  "unsubscribe_one now cl f b =
     (let c = cl_clientID cl;
          (err, f, b) = (case br_chain b of
              None \<Rightarrow> (None, f, b)
            | Some chain \<Rightarrow>
                (case OnUnsubscribe now chain (br_plugins b) \<lparr>ue_ClientID = c, ue_TopicFilter = f\<rparr> of
                   (err, chain', s, evt, _) \<Rightarrow> (err, ue_TopicFilter evt, b\<lparr>br_chain := Some chain', br_plugins := s\<rparr>)))
      in if err \<noteq> None then b
         else let b = BroadcastUnsubscribe f (b\<lparr>br_subscriptions := Remove c f (br_subscriptions b)\<rparr>)
              in b\<lparr>br_sessions := edit_session c (RemoveSubscription f) (br_sessions b)\<rparr>)"

definition handleUnsubscribe :: "int \<Rightarrow> nat \<Rightarrow> octet list \<Rightarrow> 's Broker \<Rightarrow> 's Broker option" where
  "handleUnsubscribe now h data b = (case br_conns b h of
     None \<Rightarrow> None
   | Some cl \<Rightarrow>
       (case DecodeUnsubscribePacket data (cl_protocolVersion cl) of
          Inl _ \<Rightarrow> Some b
        | Inr pkt \<Rightarrow>
            let b = on_session (session_Save (cl_clientID cl)) (fold (unsubscribe_one now cl) (TopicFilters pkt) b)
            in send h (unsuback_Encode \<lparr>ua_PacketID = up_PacketID pkt, ReasonCodes = [], ua_Properties = None, ua_ProtocolVersion = 0\<rparr>) b))"

subsection \<open>The read loop\<close>

text \<open>
  DISCONNECT: the will goes away, unless a client of version 5 asks for it with reason code 4; \<^verbatim>\<open>serve\<close> returns.  A
  packet that does not decode leaves \<^verbatim>\<open>dpkt\<close> nil.
\<close>

definition handleDisconnect :: "nat \<Rightarrow> octet list \<Rightarrow> 's Broker \<Rightarrow> 's Broker" where
  "handleDisconnect h data b = (case br_conns b h of
     None \<Rightarrow> b
   | Some cl \<Rightarrow>
       let keep = cl_protocolVersion cl = 5 \<and> data \<noteq> [] \<and>
             (case DecodeDisconnectPacket data of Inl _ \<Rightarrow> False | Inr dpkt \<Rightarrow> dp_ReasonCode dpkt = 0x04)
       in if keep then set_conn h (cl\<lparr>cl_phase := Leaving\<rparr>) b
          else on_wills (will_Delete (cl_clientID cl)) (set_conn h (cl\<lparr>cl_will := None, cl_phase := Leaving\<rparr>) b))"

text \<open>The switch of \<^verbatim>\<open>serve\<close> for one packet that has been read.\<close>

definition serve_packet :: "broker_env \<Rightarrow> int \<Rightarrow> nat \<Rightarrow> FixedHeader \<Rightarrow> octet list \<Rightarrow> 's Broker \<Rightarrow> 's Broker option" where
  "serve_packet e now h fh data b =
     (let t = PacketType fh in
      if t = PUBLISH then handlePublish e now h fh data b
      else if t = PUBACK then handlePuback h data b
      else if t = PUBREC then handlePubrec h data b
      else if t = PUBREL then handlePubrel h data b
      else if t = PUBCOMP then handlePubcomp data b
      else if t = SUBSCRIBE then handleSubscribe e now h data b
      else if t = UNSUBSCRIBE then handleUnsubscribe now h data b
      else if t = PINGREQ then send h EncodePingresp b
      else if t = DISCONNECT then Some (handleDisconnect h data b)
      else Some b)"

text \<open>The first packet of a connection; after an error the connection is on its way to \<^verbatim>\<open>close\<close>.\<close>

definition serve_connect :: "broker_env \<Rightarrow> int \<Rightarrow> nat \<Rightarrow> FixedHeader \<Rightarrow> octet list \<Rightarrow> 's Broker \<Rightarrow> 's Broker option" where
  "serve_connect e now h fh data b = do {
     (ok, b) \<leftarrow> handleConnect e now h fh data b;
     Some (b\<lparr>br_conns := (br_conns b)(h := map_option (cl_phase_update (\<lambda>_. if ok then Serving else Leaving)) (br_conns b h))\<rparr>)
   }"

subsection \<open>Closing a connection\<close>

definition close_begin :: "nat \<Rightarrow> 's Broker \<Rightarrow> 's Broker" where
  "close_begin h b = (case br_conns b h of
     None \<Rightarrow> b
   | Some cl \<Rightarrow> if ch_closed cl then b else set_conn h (cl\<lparr>cl_phase := Closing\<rparr>) b)"

text \<open>The message of a will goes through the router.\<close>

definition publish_will :: "int \<Rightarrow> WillMessage \<Rightarrow> 's Broker \<Rightarrow> 's Broker option" where
  "publish_will now w b =
     routeMessage now (w_Topic w) (w_Payload w) (w_QoS w) False False
       (if w_Retain w then on_retain (retain_Set (w_Topic w) (w_Payload w) (w_QoS w)) b else b)"

text \<open>The end of the session of a client, or the time from which on it expires.\<close>

definition end_session :: "int \<Rightarrow> string \<Rightarrow> 's Broker \<Rightarrow> 's Broker" where
  "end_session now c b = (case session_Get c (br_sessions b) of
     None \<Rightarrow> b
   | Some s \<Rightarrow>
       if s_ExpiryInterval s = 0
       then let b = fold BroadcastUnsubscribe (ClientFilters c (br_subscriptions b)) b;
                b = on_session (session_Remove c) (b\<lparr>br_subscriptions := RemoveAll c (br_subscriptions b)\<rparr>)
            in if br_done b then b else on_offline (offline_RemoveAll c) b
       else if br_done b then b else on_session (MarkDisconnected now c) b)"

definition disconnect_hook :: "Client \<Rightarrow> 's Broker \<Rightarrow> 's Broker" where
  "disconnect_hook cl b = (case br_chain b of
     None \<Rightarrow> b
   | Some chain \<Rightarrow> b\<lparr>br_plugins := OnDisconnect chain \<lparr>xe_ClientID = cl_clientID cl,
       xe_Reason = (if cl_will cl = None then ''clean'' else ''error''), xe_RemoteAddr = cl_remoteAddr cl\<rparr> (br_plugins b)\<rparr>)"

definition last_will :: "int \<Rightarrow> Client \<Rightarrow> 's Broker \<Rightarrow> 's Broker option" where
  "last_will now cl b = (case cl_will cl of
     None \<Rightarrow> Some b
   | Some w \<Rightarrow> publish_will now w b \<bind> (\<lambda>b. Some (on_wills (will_Delete (cl_clientID cl)) b)))"

definition close_finish :: "int \<Rightarrow> nat \<Rightarrow> 's Broker \<Rightarrow> 's Broker option" where
  "close_finish now h b = (case br_conns b h of
     None \<Rightarrow> None
   | Some cl \<Rightarrow>
       let b = set_conn h (cl\<lparr>cl_phase := Finished, cl_connClosed := True\<rparr>) b; c = cl_clientID cl in
       if c = [] then Some b
       else do {
         b \<leftarrow> last_will now cl (disconnect_hook cl (BroadcastDisconnect c (unregisterClient h c b)));
         Some (end_session now c b)
       })"

text \<open>The writer: one packet goes out, or writing fails and the connection is closed.\<close>

definition write_one :: "nat \<Rightarrow> 's Broker \<Rightarrow> 's Broker" where
  "write_one h b = (case br_conns b h of
     None \<Rightarrow> b
   | Some cl \<Rightarrow> (case cl_sendCh cl of
       [] \<Rightarrow> b
     | data # ch \<Rightarrow> set_conn h (cl\<lparr>cl_sendCh := ch, cl_written := cl_written cl @ [data]\<rparr>) b))"

subsection \<open>Accepting connections, and start-up\<close>

definition newClient :: "string \<Rightarrow> string \<Rightarrow> 's Broker \<Rightarrow> Client" where
  "newClient ptr addr b = \<lparr>cl_connPtr = ptr, cl_remoteAddr = addr, cl_clientID = [], cl_username = [], cl_will = None,
     cl_packetIDs = NewPacketIDAllocator, cl_inflight = NewInflightStore (br_inflightLimit b), cl_keepAlive = 0, cl_protocolVersion = 0,
     cl_connectedAt = 0, cl_sendCh = [], cl_phase = Accepted, cl_connClosed = False, cl_written = []\<rparr>"

definition ClientCount :: "'s Broker \<Rightarrow> nat" where
  "ClientCount b = length (br_clients b)"

definition accept_one :: "broker_env \<Rightarrow> nat \<Rightarrow> string \<Rightarrow> string \<Rightarrow> 's Broker \<Rightarrow> 's Broker" where
  "accept_one e h ptr addr b =
     (if \<not> e_AllowConnect e then b
      else if br_maxConnections b > 0 \<and> int (ClientCount b) \<ge> br_maxConnections b then b
      else set_conn h (newClient ptr addr b) b)"

definition restore_subscriptions :: "SessionStore \<Rightarrow> SubscriptionIndex \<Rightarrow> SubscriptionIndex" where
  "restore_subscriptions ss idx =
     fold (\<lambda>(c, s) idx. if s_ExpiryInterval s \<noteq> 0 then fold (\<lambda>(f, q). Add c f q) (s_Subscriptions s) idx else idx) ss idx"

definition loadFromStorage :: "'s Broker \<Rightarrow> 's Broker" where
  "loadFromStorage b =
     (let ss = session_Load (br_disk b) (br_sessions b) in
      b\<lparr>br_sessions := ss, br_retain := retain_Load (br_disk b) (br_retain b),
        br_wills := (case (br_wills b, br_disk b) of (Some ws, Some d) \<Rightarrow> Some (will_Load d ws) | (ws, _) \<Rightarrow> ws),
        br_offline := LoadFromStore (br_disk b) (br_offline b),
        br_subscriptions := restore_subscriptions ss (br_subscriptions b)\<rparr>)"

subsection \<open>The reaper of sessions\<close>

definition reap_one :: "string \<Rightarrow> 's Broker \<Rightarrow> 's Broker" where
  "reap_one c b =
     (let b = b\<lparr>br_subscriptions := fold (Remove c) (ClientFilters c (br_subscriptions b)) (br_subscriptions b)\<rparr>
      in on_session (session_Remove c) (on_offline (offline_RemoveAll c) b))"

definition sweep :: "int \<Rightarrow> 's Broker \<Rightarrow> 's Broker" where
  "sweep now b = fold reap_one (ExpiredSessions now (br_sessions b)) b"

subsection \<open>Runs\<close>

text \<open>
  What can happen, and when: a connection delivers a packet while it is open and its read loop runs; \<^verbatim>\<open>close\<close> runs when
  the read loop has ended for whatever reason, and goes on when the writer has drained the channel or failed.  A
  message from another node, the news that a client has connected there, and the tickers may come at any time.
\<close>

datatype event =
    EvAccept nat string string
  | EvConnect nat FixedHeader "octet list"
  | EvPacket nat FixedHeader "octet list"
  | EvWrite nat
  | EvWriteFail nat
  | EvCloseBegin nat
  | EvCloseFinish nat
  | EvForwarded string "octet list" octet bool
  | EvRemoteConnect string
  | EvSubBroadcast SubBroadcast
  | EvSweep
  | EvCleanup

definition conn_is :: "(Client \<Rightarrow> bool) \<Rightarrow> nat \<Rightarrow> 's Broker \<Rightarrow> bool" where
  "conn_is P h b = (case br_conns b h of None \<Rightarrow> False | Some cl \<Rightarrow> P cl)"

fun enabled :: "event \<Rightarrow> 's Broker \<Rightarrow> bool" where
  "enabled (EvAccept h ptr addr) b = (br_conns b h = None)"
| "enabled (EvConnect h fh data) b = conn_is (\<lambda>cl. cl_phase cl = Accepted \<and> \<not> cl_connClosed cl) h b"
| "enabled (EvPacket h fh data) b = conn_is (\<lambda>cl. cl_phase cl = Serving \<and> \<not> cl_connClosed cl) h b"
| "enabled (EvWrite h) b = conn_is (\<lambda>cl. \<not> cl_connClosed cl) h b"
| "enabled (EvWriteFail h) b = conn_is (\<lambda>cl. True) h b"
| "enabled (EvCloseBegin h) b = conn_is (\<lambda>cl. \<not> ch_closed cl) h b"
| "enabled (EvCloseFinish h) b = conn_is (\<lambda>cl. cl_phase cl = Closing \<and> (cl_sendCh cl = [] \<or> cl_connClosed cl)) h b"
| "enabled _ b = True"

fun broker_step :: "broker_env \<Rightarrow> int \<Rightarrow> event \<Rightarrow> 's Broker \<Rightarrow> 's Broker option" where
  "broker_step e now (EvAccept h ptr addr) b = Some (accept_one e h ptr addr b)"
| "broker_step e now (EvConnect h fh data) b = serve_connect e now h fh data b"
| "broker_step e now (EvPacket h fh data) b = serve_packet e now h fh data b"
| "broker_step e now (EvWrite h) b = Some (write_one h b)"
| "broker_step e now (EvWriteFail h) b = Some (close_conn h b)"
| "broker_step e now (EvCloseBegin h) b = Some (close_begin h b)"
| "broker_step e now (EvCloseFinish h) b = close_finish now h b"
| "broker_step e now (EvForwarded topic payload qos retain) b = routeMessage now topic payload qos retain True b"
| "broker_step e now (EvRemoteConnect c) b = disconnectExisting c b"
| "broker_step e now (EvSubBroadcast msg) b =
     Some (b\<lparr>br_cluster := map_option (\<lambda>cv. cv\<lparr>cv_remoteSubs := HandleSubBroadcast (cv_remoteSubs cv) msg\<rparr>) (br_cluster b)\<rparr>)"
| "broker_step e now EvSweep b = Some (sweep now b)"
| "broker_step e now EvCleanup b = Some (b\<lparr>br_dedup := cleanup now (br_dedup b)\<rparr>)"

inductive reach :: "'s Broker \<Rightarrow> 's Broker \<Rightarrow> bool" for b0 where
  reach_start: "reach b0 b0"
| reach_step: "reach b0 b \<Longrightarrow> enabled ev b \<Longrightarrow> broker_step e now ev b = Some b' \<Longrightarrow> reach b0 b'"

subsection \<open>What delivery leaves alone\<close>

text \<open>The bounds that every connection keeps.\<close>

definition conn_ok :: "int \<Rightarrow> Client \<Rightarrow> bool" where
  "conn_ok limit cl \<longleftrightarrow> length (cl_sendCh cl) \<le> 256 \<and> inflight_wf (cl_inflight cl) \<and> if_limit (cl_inflight cl) = limit"

definition stable :: "int \<Rightarrow> Client \<Rightarrow> Client \<Rightarrow> bool" where
  "stable limit cl cl' \<longleftrightarrow> cl_clientID cl' = cl_clientID cl \<and> cl_phase cl' = cl_phase cl \<and> cl_will cl' = cl_will cl \<and>
     cl_username cl' = cl_username cl \<and> cl_protocolVersion cl' = cl_protocolVersion cl \<and> (conn_ok limit cl \<longrightarrow> conn_ok limit cl')"

lemma stable_refl [simp]: "stable l cl cl"
  by (simp add: stable_def)

lemma stable_trans: "stable l a b \<Longrightarrow> stable l b c \<Longrightarrow> stable l a c"
  by (simp add: stable_def)

definition quiet :: "'s Broker \<Rightarrow> 's Broker \<Rightarrow> bool" where
  "quiet b b' \<longleftrightarrow> br_subscriptions b' = br_subscriptions b \<and> br_sessions b' = br_sessions b \<and> br_retain b' = br_retain b \<and>
     br_dedup b' = br_dedup b \<and> br_wills b' = br_wills b \<and> (br_disk b' = None \<longleftrightarrow> br_disk b = None) \<and> br_cluster b' = br_cluster b \<and>
     br_inflightLimit b' = br_inflightLimit b \<and> br_clients b' = br_clients b \<and> br_done b' = br_done b \<and>
     (br_chain b' = None \<longleftrightarrow> br_chain b = None) \<and>
     (\<forall>h. rel_option (stable (br_inflightLimit b)) (br_conns b h) (br_conns b' h))"

lemma quiet_refl: "quiet b b"
  by (simp add: quiet_def option.rel_refl)

lemma quiet_trans:
  assumes "quiet a b" and "quiet b c"
  shows "quiet a c"
proof -
  have "rel_option (stable (br_inflightLimit a)) (br_conns a h) (br_conns c h)" for h
  proof -
    have x: "rel_option (stable (br_inflightLimit a)) (br_conns a h) (br_conns b h)"
      "rel_option (stable (br_inflightLimit a)) (br_conns b h) (br_conns c h)" using assms by (simp_all add: quiet_def)
    then show ?thesis by (cases "br_conns a h"; cases "br_conns b h"; cases "br_conns c h") (auto intro: stable_trans)
  qed
  then show ?thesis using assms by (simp add: quiet_def)
qed

lemma quiet_conn:
  assumes "br_conns b h = Some cl" and "stable (br_inflightLimit b) cl cl'"
  shows "quiet b (set_conn h cl' b)"
  using assms by (simp add: quiet_def set_conn_def option.rel_refl)

lemma quiet_send: "send h data b = Some b' \<Longrightarrow> quiet b b'"
  by (auto simp: send_def stable_def conn_ok_def split: option.splits if_splits intro!: quiet_conn quiet_refl)

lemma quiet_close_conn: "quiet b (close_conn h b)"
  by (auto simp: close_conn_def stable_def conn_ok_def split: option.splits intro!: quiet_conn quiet_refl)

lemma quiet_sendDisconnect: "sendDisconnectAndClose h r b = Some b' \<Longrightarrow> quiet b b'"
  by (auto simp: sendDisconnectAndClose_def bind_eq_Some_conv split: option.splits if_splits
      intro: quiet_trans [OF quiet_send] quiet_close_conn)

lemma quiet_deliverMessage:
  assumes "deliverMessage now h topic payload qos b = Some b'"
  shows "quiet b b'"
proof -
  obtain cl where cl: "br_conns b h = Some cl" using assms by (auto simp: deliverMessage_def split: option.splits)
  let ?pid = "Next (cl_packetIDs cl)"
  let ?msg = "\<lparr>if_PacketID = ?pid, if_Topic = topic, if_Payload = payload, if_QoS = qos, if_Timestamp = now\<rparr>"
  let ?cl = "cl\<lparr>cl_packetIDs := ?pid, cl_inflight := snd (inflight_Add ?msg (cl_inflight cl))\<rparr>"
  have "if_limit (snd (inflight_Add ?msg (cl_inflight cl))) = if_limit (cl_inflight cl)" by (simp add: inflight_Add_def)
  then have q: "quiet b (set_conn h ?cl b)"
    by (intro quiet_conn [OF cl]) (simp add: stable_def conn_ok_def inflight_wf_Add)
  show ?thesis
  proof (cases "qos > 0")
    case True
    then have "quiet (set_conn h ?cl b) b'"
      using assms cl by (auto simp: deliverMessage_def Let_def split: prod.splits if_splits intro: quiet_send quiet_refl)
    with q show ?thesis by (rule quiet_trans)
  next
    case False
    then show ?thesis using assms cl by (auto simp: deliverMessage_def intro: quiet_send)
  qed
qed

lemma quiet_each:
  assumes "\<And>x b b'. f x b = Some b' \<Longrightarrow> quiet b b'" and "each f xs b = Some b'"
  shows "quiet b b'"
  using assms(2)
proof (induction xs arbitrary: b)
  case Nil
  then show ?case by (simp add: quiet_refl)
next
  case (Cons x xs)
  then obtain b1 where "f x b = Some b1" "each f xs b1 = Some b'" by (auto simp: bind_eq_Some_conv)
  then show ?case using quiet_trans [OF assms(1) Cons.IH] by blast
qed

lemma quiet_chain: "quiet b (b\<lparr>br_chain := Some ch, br_plugins := s\<rparr>)" if "br_chain b \<noteq> None"
  using that by (simp add: quiet_def option.rel_refl)

lemma quiet_deliver_one: "deliver_one now topic payload d b = Some b' \<Longrightarrow> quiet b b'"
  by (auto simp: deliver_one_def Let_def split: prod.splits option.splits if_splits
      intro: quiet_deliverMessage quiet_trans [OF quiet_chain] quiet_chain)

lemma on_offline_frame: "quiet b (on_offline f b)" if "\<And>s. snd (f s) = None \<longleftrightarrow> snd s = None"
  using that [of "(br_offline b, br_disk b)"] by (auto simp: on_offline_def quiet_def option.rel_refl split: prod.splits)

lemma quiet_emit: "quiet b (emit os b)"
  by (simp add: emit_def quiet_def option.rel_refl)

lemma disk_persist [simp]: "snd (persistMessage c m s) = None \<longleftrightarrow> snd s = None"
  by (simp add: persistMessage_def Let_def split: option.split)

lemma disk_persists [simp]: "snd (fold (persistMessage c) q s) = None \<longleftrightarrow> snd s = None"
  by (induction q arbitrary: s) simp_all

lemma disk_clear [simp]: "snd (clearPebbleMessages c s) = None \<longleftrightarrow> snd s = None"
proof (cases "snd s")
  case None
  then show ?thesis by (simp add: clearPebbleMessages_def)
next
  case (Some d)
  have "\<exists>y. snd (fold (persistMessage c) q (x, Some d')) = Some y" for q x d'
    using disk_persists [of c q "(x, Some d')"] by (cases "snd (fold (persistMessage c) q (x, Some d'))") auto
  then show ?thesis using Some by (simp add: clearPebbleMessages_def Let_def)
qed

lemma disk_Enqueue: "snd (snd (Enqueue now c m s)) = None \<longleftrightarrow> snd s = None"
  by (simp add: Enqueue_def Let_def split: option.split)

lemma disk_Dequeue: "snd (snd (Dequeue now c n s)) = None \<longleftrightarrow> snd s = None"
  by (simp add: Dequeue_def Let_def split: option.split)

lemma disk_offline_RemoveAll: "snd (offline_RemoveAll c s) = None \<longleftrightarrow> snd s = None"
  by (simp add: offline_RemoveAll_def removeAllPebble_def split: option.split)

lemma quiet_enqueue_one: "quiet b (enqueue_one now topic payload d b)"
  unfolding enqueue_one_def by (rule on_offline_frame) (rule disk_Enqueue)

lemma quiet_fold: "(\<And>x b. quiet b (f x b)) \<Longrightarrow> quiet b (fold f xs b)"
  by (induction xs arbitrary: b) (auto intro: quiet_refl quiet_trans)

lemma quiet_routeMessage:
  assumes "routeMessage now topic payload qos retain forwarded b = Some b'"
  shows "quiet b b'"
proof -
  let ?ms = "Match topic (br_subscriptions b)"
  let ?off = "\<lambda>x. fold (enqueue_one now topic payload) (offlineDeliveries qos b ?ms) x"
  obtain b1 where b1: "each (deliver_one now topic payload) (deliveries qos b ?ms) b = Some b1"
      and b': "b' = emit (forwards topic payload qos retain forwarded (?off b1)) (?off b1)"
    using assms unfolding routeMessage_def Let_def by (auto simp: bind_eq_Some_conv)
  have "quiet b b1" using quiet_deliver_one b1 by (rule quiet_each)
  moreover have "quiet b1 (?off b1)" using quiet_enqueue_one by (rule quiet_fold)
  ultimately show ?thesis unfolding b' using quiet_emit quiet_trans by blast
qed

lemma quiet_resume: "resume_backlog now h c b = Some b' \<Longrightarrow> quiet b b'"
proof -
  assume r: "resume_backlog now h c b = Some b'"
  obtain ms os d where x: "Dequeue now c 100 (br_offline b, br_disk b) = (ms, os, d)" by (cases "Dequeue now c 100 (br_offline b, br_disk b)") auto
  have "quiet b (b\<lparr>br_offline := os, br_disk := d\<rparr>)"
    using disk_Dequeue [of now c 100 "(br_offline b, br_disk b)"] x by (simp add: quiet_def option.rel_refl)
  moreover have "quiet (b\<lparr>br_offline := os, br_disk := d\<rparr>) b'"
    using r x unfolding resume_backlog_def by (auto intro: quiet_each [OF quiet_deliverMessage])
  ultimately show ?thesis by (rule quiet_trans)
qed

subsection \<open>Sessions and the index\<close>

text \<open>The subscriptions of every session that outlives its connection are in the index.\<close>

definition sess_ok :: "SessionStore \<Rightarrow> SubscriptionIndex \<Rightarrow> bool" where
  "sess_ok ss idx \<longleftrightarrow> distinct (map fst ss) \<and>
     (\<forall>c s. map_of ss c = Some s \<longrightarrow> distinct (map fst (s_Subscriptions s)) \<and>
       (s_ExpiryInterval s \<noteq> 0 \<longrightarrow> (\<forall>f q. map_of (s_Subscriptions s) f = Some q \<longrightarrow> subs_of idx (c, f) = Some q)))"

lemma sess_okD:
  assumes "sess_ok ss idx"
  shows "distinct (map fst ss)" and "map_of ss c = Some s \<Longrightarrow> distinct (map fst (s_Subscriptions s))"
    and "map_of ss c = Some s \<Longrightarrow> s_ExpiryInterval s \<noteq> 0 \<Longrightarrow> map_of (s_Subscriptions s) f = Some q \<Longrightarrow> subs_of idx (c, f) = Some q"
  using assms unfolding sess_ok_def by blast+

lemma sess_ok_New: "sess_ok NewSessionStore idx"
  by (simp add: sess_ok_def NewSessionStore_def)

lemma sess_ok_set: "sess_ok ss idx \<Longrightarrow> sess_ok (edit_session c (SetSubscription f q) ss) (Add c f q idx)"
  unfolding sess_ok_def edit_session_map subs_of_Add
  by (auto simp: edit_session_def SetSubscription_def distinct_update update_conv' split: option.splits if_splits)

lemma sess_ok_unset: "sess_ok ss idx \<Longrightarrow> si_wf idx \<Longrightarrow> sess_ok (edit_session c (RemoveSubscription f) ss) (Remove c f idx)"
  unfolding sess_ok_def edit_session_map
  by (auto simp: edit_session_def RemoveSubscription_def distinct_update distinct_delete delete_conv' subs_of_Remove split: option.splits if_splits)

lemma sess_ok_put: "sess_ok ss idx \<Longrightarrow> s_Subscriptions s = [] \<Longrightarrow> sess_ok (AList.update c s ss) idx"
  unfolding sess_ok_def by (auto simp: distinct_update update_conv')

lemma sess_ok_touch:
  "sess_ok ss idx \<Longrightarrow> map_of ss c = Some s \<Longrightarrow> s_Subscriptions s' = s_Subscriptions s \<Longrightarrow> s_ExpiryInterval s' = s_ExpiryInterval s \<Longrightarrow>
   sess_ok (AList.update c s' ss) idx"
  unfolding sess_ok_def by (auto simp: distinct_update update_conv')

lemma subs_of_adds:
  "distinct (map fst xs) \<Longrightarrow> subs_of (fold (\<lambda>(f, q). Add c f q) xs idx) (d, g) =
     (if d = c then (case map_of xs g of None \<Rightarrow> subs_of idx (c, g) | Some q \<Rightarrow> Some q) else subs_of idx (d, g))"
proof (induction xs arbitrary: idx)
  case (Cons x xs)
  then have "map_of xs (fst x) = None" by (simp add: map_of_eq_None_iff)
  then show ?case using Cons by (cases x) (auto simp: subs_of_Add split: option.splits)
qed simp

lemma si_wf_adds: "si_wf idx \<Longrightarrow> si_wf (fold (\<lambda>(f, q). Add c f q) xs idx)"
  by (induction xs arbitrary: idx) (auto simp: si_wf_Add)

lemma sess_ok_adds:
  assumes "sess_ok ss idx" and "map_of ss c = Some s"
  shows "sess_ok ss (fold (\<lambda>(f, q). Add c f q) (s_Subscriptions s) idx)"
proof -
  have "subs_of (fold (\<lambda>(f, q). Add c f q) (s_Subscriptions s) idx) (d, f) = Some q"
    if "map_of ss d = Some t" "s_ExpiryInterval t \<noteq> 0" "map_of (s_Subscriptions t) f = Some q" for d t f q
    using sess_okD(3) [OF assms(1) that] that assms(2) unfolding subs_of_adds [OF sess_okD(2) [OF assms]] by (cases "d = c") simp_all
  then show ?thesis using sess_okD(1,2) [OF assms(1)] unfolding sess_ok_def by blast
qed

lemma sess_ok_drop:
  assumes "sess_ok ss idx" and "\<And>d f. d \<noteq> c \<Longrightarrow> subs_of idx' (d, f) = subs_of idx (d, f)"
  shows "sess_ok (AList.delete c ss) idx'"
  using assms unfolding sess_ok_def by (auto simp: distinct_delete delete_conv')

lemma Removes:
  "si_wf idx \<Longrightarrow> si_wf (fold (Remove c) fs idx) \<and>
     subs_of (fold (Remove c) fs idx) = (\<lambda>(d, g). if d = c \<and> g \<in> set fs then None else subs_of idx (d, g))"
proof (induction fs arbitrary: idx)
  case (Cons f fs)
  then show ?case by (auto simp: si_wf_Remove subs_of_Remove fun_eq_iff)
qed auto

end
