(* ===== verification/BrokerInvariant.thy ===== *)
theory BrokerInvariant
  imports BrokerCore
begin

section \<open>What holds in every state of the broker\<close>

text \<open>
  The invariant of the broker of theory \<open>BrokerCore\<close> and that every step keeps it: the index is well-formed and has the
  subscriptions of every persistent session, a registered client is a connection with that identifier that
  has not been closed completely, and channels and in-flight messages stay within their bounds.
\<close>

definition clients_ok :: "'s Broker \<Rightarrow> bool" where
  "clients_ok b \<longleftrightarrow> distinct (map fst (br_clients b)) \<and>
     (\<forall>c h. map_of (br_clients b) c = Some h \<longrightarrow> c \<noteq> [] \<and> conn_is (\<lambda>cl. cl_clientID cl = c \<and> cl_phase cl \<noteq> Finished) h b)"

definition conns_ok :: "'s Broker \<Rightarrow> bool" where
  "conns_ok b \<longleftrightarrow> (\<forall>h cl. br_conns b h = Some cl \<longrightarrow> conn_ok (br_inflightLimit b) cl)"

definition stores_wf :: "'s Broker \<Rightarrow> bool" where
  "stores_wf b \<longleftrightarrow> si_wf (br_subscriptions b) \<and> sess_ok (br_sessions b) (br_subscriptions b) \<and> distinct (map fst (br_retain b)) \<and>
     dedup_wf (br_dedup b) \<and> (br_wills b = None \<longleftrightarrow> br_disk b = None) \<and> br_inflightLimit b = 20"

definition broker_core :: "'s Broker \<Rightarrow> bool" where
  "broker_core b \<longleftrightarrow> stores_wf b \<and> clients_ok b \<and> conns_ok b"

text \<open>A connection that has not sent its CONNECT has no identifier yet.\<close>

definition nameless :: "'s Broker \<Rightarrow> bool" where
  "nameless b \<longleftrightarrow> (\<forall>h cl. br_conns b h = Some cl \<longrightarrow> cl_phase cl = Accepted \<longrightarrow> cl_clientID cl = [])"

definition broker_wf :: "'s Broker \<Rightarrow> bool" where
  "broker_wf b \<longleftrightarrow> broker_core b \<and> nameless b"

lemma clients_okD:
  assumes "clients_ok b" and "map_of (br_clients b) c = Some h"
  shows "c \<noteq> []" and "\<exists>cl. br_conns b h = Some cl \<and> cl_clientID cl = c \<and> cl_phase cl \<noteq> Finished"
proof -
  have "c \<noteq> [] \<and> conn_is (\<lambda>cl. cl_clientID cl = c \<and> cl_phase cl \<noteq> Finished) h b" using assms unfolding clients_ok_def by blast
  then show "c \<noteq> []" and "\<exists>cl. br_conns b h = Some cl \<and> cl_clientID cl = c \<and> cl_phase cl \<noteq> Finished"
    by (auto simp: conn_is_def split: option.splits)
qed

subsection \<open>Changes of connections only\<close>

lemma rel_conn: "quiet b b' \<Longrightarrow> br_conns b' h = Some cl' \<Longrightarrow> \<exists>cl. br_conns b h = Some cl \<and> stable (br_inflightLimit b) cl cl'"
  unfolding quiet_def by (cases "br_conns b h") (auto dest!: spec [of _ h])

lemma conn_is_quiet: "quiet b b' \<Longrightarrow> conn_is (\<lambda>cl. cl_clientID cl = c \<and> cl_phase cl \<noteq> Finished) h b' \<longleftrightarrow>
    conn_is (\<lambda>cl. cl_clientID cl = c \<and> cl_phase cl \<noteq> Finished) h b"
  unfolding quiet_def conn_is_def by (cases "br_conns b h"; cases "br_conns b' h") (auto simp: stable_def dest!: spec [of _ h])

lemma core_quiet:
  assumes "broker_core b" and q: "quiet b b'"
  shows "broker_core b'"
proof -
  have "clients_ok b'" using assms(1) conn_is_quiet [OF q] q by (simp add: broker_core_def clients_ok_def quiet_def)
  moreover have "conns_ok b'"
  proof (unfold conns_ok_def, intro allI impI)
    fix h cl' assume "br_conns b' h = Some cl'"
    then obtain cl where "br_conns b h = Some cl" "stable (br_inflightLimit b) cl cl'" using rel_conn [OF q] by blast
    moreover have "br_inflightLimit b' = br_inflightLimit b" using q by (simp add: quiet_def)
    ultimately show "conn_ok (br_inflightLimit b') cl'" using assms(1) by (simp add: broker_core_def conns_ok_def stable_def)
  qed
  ultimately show ?thesis using assms by (simp add: broker_core_def stores_wf_def quiet_def)
qed

lemma nameless_quiet:
  assumes "nameless b" and q: "quiet b b'"
  shows "nameless b'"
proof (unfold nameless_def, intro allI impI)
  fix h cl' assume "br_conns b' h = Some cl'" "cl_phase cl' = Accepted"
  then show "cl_clientID cl' = []" using rel_conn [OF q] assms(1) unfolding nameless_def stable_def by force
qed

lemma wf_quiet: "broker_wf b \<Longrightarrow> quiet b b' \<Longrightarrow> broker_wf b'"
  using core_quiet nameless_quiet unfolding broker_wf_def by blast

subsection \<open>Changes of the stores only\<close>

definition same_conns :: "'s Broker \<Rightarrow> 's Broker \<Rightarrow> bool" where
  "same_conns b b' \<longleftrightarrow> br_clients b' = br_clients b \<and> br_conns b' = br_conns b \<and> br_inflightLimit b' = br_inflightLimit b"

lemma same_conns_refl [simp]: "same_conns b b"
  by (simp add: same_conns_def)

lemma same_conns_trans: "same_conns a b \<Longrightarrow> same_conns b c \<Longrightarrow> same_conns a c"
  by (simp add: same_conns_def)

lemma core_stores: "broker_core b \<Longrightarrow> same_conns b b' \<Longrightarrow> stores_wf b' \<Longrightarrow> broker_core b'"
  by (simp add: broker_core_def same_conns_def clients_ok_def conns_ok_def conn_is_def)

lemma wf_stores: "broker_wf b \<Longrightarrow> same_conns b b' \<Longrightarrow> stores_wf b' \<Longrightarrow> broker_wf b'"
  using core_stores [of b b'] unfolding broker_wf_def nameless_def by (auto simp: same_conns_def)

text \<open>The fields that the small operations keep.\<close>

lemma emit_fields [simp]:
  "same_conns b (emit os b)" "stores_wf (emit os b) = stores_wf b" "br_subscriptions (emit os b) = br_subscriptions b" "br_sessions (emit os b) = br_sessions b"
  by (simp_all add: emit_def same_conns_def stores_wf_def)

lemma broadcast_fields [simp]:
  "same_conns b (BroadcastSubscribe f q b)" "stores_wf (BroadcastSubscribe f q b) = stores_wf b"
  "same_conns b (BroadcastUnsubscribe f b)" "stores_wf (BroadcastUnsubscribe f b) = stores_wf b"
  "same_conns b (BroadcastConnect c b)" "stores_wf (BroadcastConnect c b) = stores_wf b"
  "same_conns b (BroadcastDisconnect c b)" "stores_wf (BroadcastDisconnect c b) = stores_wf b"
  "br_subscriptions (BroadcastUnsubscribe f b) = br_subscriptions b" "br_sessions (BroadcastUnsubscribe f b) = br_sessions b"
  by (simp_all add: BroadcastSubscribe_def BroadcastUnsubscribe_def BroadcastConnect_def BroadcastDisconnect_def split: option.split)

lemma same_conns_updates [simp]:
  "same_conns b (b\<lparr>br_subscriptions := x\<rparr>)" "same_conns b (b\<lparr>br_sessions := y\<rparr>)" "same_conns b (b\<lparr>br_subscriptions := x, br_sessions := y\<rparr>)"
  "same_conns b (b\<lparr>br_chain := ch, br_plugins := s\<rparr>)" "same_conns b (b\<lparr>br_plugins := s\<rparr>)" "same_conns b (b\<lparr>br_dedup := dd\<rparr>)"
  "same_conns b (b\<lparr>br_cluster := cv\<rparr>)"
  "same_conns b (on_session f b)" "same_conns b (on_retain g b)" "same_conns b (on_offline k b)" "same_conns b (on_wills w b)"
  by (simp_all add: same_conns_def on_session_def on_retain_def on_offline_def on_wills_def split: prod.split option.split)

lemma stores_updates [simp]:
  "stores_wf (b\<lparr>br_chain := ch\<rparr>) = stores_wf b" "stores_wf (b\<lparr>br_chain := ch, br_plugins := s\<rparr>) = stores_wf b" "stores_wf (b\<lparr>br_plugins := s\<rparr>) = stores_wf b"
  "stores_wf (b\<lparr>br_cluster := cv\<rparr>) = stores_wf b" "stores_wf (b\<lparr>br_clients := cs\<rparr>) = stores_wf b" "stores_wf (b\<lparr>br_conns := ms\<rparr>) = stores_wf b"
  by (simp_all add: stores_wf_def)

lemma stores_wf_wills: "stores_wf b \<Longrightarrow> stores_wf (on_wills f b)"
  by (auto simp: stores_wf_def on_wills_def split: prod.splits option.splits)

lemma stores_wf_retain: "stores_wf b \<Longrightarrow> stores_wf (on_retain (retain_Set topic payload qos) b)"
  by (auto simp: stores_wf_def on_retain_def retain_Set_def distinct_update distinct_delete split: prod.splits if_splits)

lemma stores_wf_offline:
  assumes "stores_wf b" and "\<And>s. snd (f s) = None \<longleftrightarrow> snd s = None"
  shows "stores_wf (on_offline f b)"
  using assms(1) assms(2) [of "(br_offline b, br_disk b)"] by (cases "f (br_offline b, br_disk b)") (simp add: stores_wf_def on_offline_def)

lemma session_disk:
  "snd (session_Create c cs e s) = None \<longleftrightarrow> snd s = None" "snd (session_Save c s) = None \<longleftrightarrow> snd s = None"
  "snd (MarkDisconnected now c s) = None \<longleftrightarrow> snd s = None" "snd (session_Remove c s) = None \<longleftrightarrow> snd s = None"
  by (simp_all add: session_Create_def session_Save_def MarkDisconnected_def session_Remove_def session_persist_def Let_def split: option.split)

lemma stores_wf_session:
  assumes "stores_wf b" and "snd (f (br_sessions b, br_disk b)) = None \<longleftrightarrow> br_disk b = None"
    and "sess_ok (fst (f (br_sessions b, br_disk b))) (br_subscriptions b)"
  shows "stores_wf (on_session f b)"
  using assms by (cases "f (br_sessions b, br_disk b)") (simp add: stores_wf_def on_session_def)

lemma stores_wf_Save: "stores_wf b \<Longrightarrow> stores_wf (on_session (session_Save c) b)"
  by (rule stores_wf_session) (auto simp: session_disk session_Save_def session_persist_def stores_wf_def split: option.split)

lemma stores_wf_Create: "stores_wf b \<Longrightarrow> stores_wf (on_session (session_Create c cs e) b)"
  by (rule stores_wf_session) (auto simp: session_disk session_Create_def session_persist_def stores_wf_def Let_def intro: sess_ok_put)

lemma stores_wf_Mark: "stores_wf b \<Longrightarrow> stores_wf (on_session (MarkDisconnected now c) b)"
  by (rule stores_wf_session) (auto simp: session_disk MarkDisconnected_def session_persist_def stores_wf_def Let_def intro: sess_ok_touch split: option.split)

text \<open>A session goes together with all its subscriptions.\<close>

lemma stores_wf_end:
  assumes "stores_wf b" and "si_wf idx" and "\<And>d f. d \<noteq> c \<Longrightarrow> subs_of idx (d, f) = subs_of (br_subscriptions b) (d, f)"
  shows "stores_wf (on_session (session_Remove c) (b\<lparr>br_subscriptions := idx\<rparr>))"
proof -
  have "sess_ok (AList.delete c (br_sessions b)) idx"
    by (rule sess_ok_drop [where idx = "br_subscriptions b"]) (use assms in \<open>simp_all add: stores_wf_def\<close>)
  then show ?thesis using assms(1,2) by (simp add: on_session_def session_Remove_def stores_wf_def)
qed

lemma same_open_session: "same_conns b (snd (open_session c cs e b))"
  by (simp add: open_session_def split: option.split)

lemma stores_wf_open_session:
  assumes "stores_wf b"
  shows "stores_wf (snd (open_session c cs e b))"
proof -
  have "sess_ok (br_sessions b) (fold (\<lambda>(f, q). Add c f q) (s_Subscriptions s) (br_subscriptions b))"
    if "session_Get c (br_sessions b) = Some s" for s
    using that assms by (intro sess_ok_adds) (simp_all add: session_Get_def stores_wf_def)
  then show ?thesis using assms stores_wf_Create [OF assms, of c cs e]
    by (auto simp: open_session_def stores_wf_def si_wf_adds split: option.splits)
qed

lemma subscribe_ok_one:
  assumes "stores_wf b"
  shows "same_conns b (BroadcastSubscribe f q (b\<lparr>br_subscriptions := Add c f q (br_subscriptions b), br_sessions := edit_session c (SetSubscription f q) (br_sessions b)\<rparr>)) \<and>
    stores_wf (BroadcastSubscribe f q (b\<lparr>br_subscriptions := Add c f q (br_subscriptions b), br_sessions := edit_session c (SetSubscription f q) (br_sessions b)\<rparr>))"
proof -
  let ?b = "b\<lparr>br_subscriptions := Add c f q (br_subscriptions b), br_sessions := edit_session c (SetSubscription f q) (br_sessions b)\<rparr>"
  have "stores_wf ?b" using assms unfolding stores_wf_def by (simp add: si_wf_Add sess_ok_set)
  then show ?thesis using same_conns_trans [OF same_conns_updates(3) broadcast_fields(1)] by simp
qed

lemma subscribe_one_ok:
  assumes w: "stores_wf b"
  shows "same_conns b (snd (subscribe_one e now cl i sub b)) \<and> stores_wf (snd (subscribe_one e now cl i sub b))"
proof (cases "br_chain b")
  case None
  then show ?thesis using w subscribe_ok_one [OF w] by (simp add: subscribe_one_def Let_def)
next
  case (Some chain)
  obtain err chain' s evt t where r: "OnSubscribe now chain (br_plugins b) \<lparr>se_Client = cl_clientID cl, se_TopicFilter = sb_TopicFilter sub,
      se_SubQoS = (if sb_QoS sub > 2 then 2 else sb_QoS sub)\<rparr> = (err, chain', s, evt, t)" by (rule prod_cases5)
  let ?b = "b\<lparr>br_chain := Some chain', br_plugins := s\<rparr>"
  have w': "stores_wf ?b" using w by simp
  have "same_conns b ?b" by simp
  then have "same_conns ?b x \<Longrightarrow> same_conns b x" for x by (rule same_conns_trans)
  then show ?thesis using w w' Some subscribe_ok_one [OF w'] \<open>same_conns b ?b\<close> by (simp add: subscribe_one_def Let_def r)
qed

lemma subscribe_all_ok:
  "stores_wf b \<Longrightarrow> same_conns b (snd (subscribe_all e now cl i subs b)) \<and> stores_wf (snd (subscribe_all e now cl i subs b))"
proof (induction subs arbitrary: i b)
  case (Cons sub subs)
  define r where "r = subscribe_one e now cl i sub b"
  have r: "same_conns b (snd r)" "stores_wf (snd r)" using subscribe_one_ok [OF Cons.prems] by (simp_all add: r_def)
  have "same_conns (snd r) (snd (subscribe_all e now cl (i + 1) subs (snd r))) \<and> stores_wf (snd (subscribe_all e now cl (i + 1) subs (snd r)))"
    by (rule Cons.IH [OF r(2)])
  moreover have "snd (subscribe_all e now cl i (sub # subs) b) = snd (subscribe_all e now cl (i + 1) subs (snd r))"
    by (simp add: r_def split: prod.split)
  ultimately show ?case using r(1) same_conns_trans by metis
qed simp

lemma unsubscribe_ok_one:
  assumes "stores_wf b" and b1_def: "b1 = BroadcastUnsubscribe f (b\<lparr>br_subscriptions := Remove c f (br_subscriptions b)\<rparr>)"
  shows "same_conns b (b1\<lparr>br_sessions := edit_session c (RemoveSubscription f) (br_sessions b1)\<rparr>) \<and>
    stores_wf (b1\<lparr>br_sessions := edit_session c (RemoveSubscription f) (br_sessions b1)\<rparr>)"
proof -
  have "same_conns b b1" unfolding b1_def by (rule same_conns_trans [OF same_conns_updates(1) broadcast_fields(3)])
  moreover have "stores_wf (b1\<lparr>br_sessions := edit_session c (RemoveSubscription f) (br_sessions b1)\<rparr>)"
    using assms(1) unfolding b1_def by (cases "br_cluster b") (simp_all add: stores_wf_def BroadcastUnsubscribe_def emit_def si_wf_Remove sess_ok_unset)
  ultimately show ?thesis using same_conns_trans [OF _ same_conns_updates(2)] by blast
qed

lemma unsubscribe_one_ok:
  assumes w: "stores_wf b"
  shows "same_conns b (unsubscribe_one now cl f b) \<and> stores_wf (unsubscribe_one now cl f b)"
proof (cases "br_chain b")
  case None
  then show ?thesis using unsubscribe_ok_one [OF w refl] by (simp add: unsubscribe_one_def Let_def)
next
  case (Some chain)
  obtain err chain' s evt t where r: "OnUnsubscribe now chain (br_plugins b) \<lparr>ue_ClientID = cl_clientID cl, ue_TopicFilter = f\<rparr> = (err, chain', s, evt, t)"
    by (rule prod_cases5)
  let ?b = "b\<lparr>br_chain := Some chain', br_plugins := s\<rparr>"
  have w': "stores_wf ?b" using w by simp
  have "same_conns b ?b" by simp
  then have "same_conns ?b x \<Longrightarrow> same_conns b x" for x by (rule same_conns_trans)
  then show ?thesis using w' Some unsubscribe_ok_one [OF w' refl, of "cl_clientID cl" "ue_TopicFilter evt"] \<open>same_conns b ?b\<close>
    by (simp add: unsubscribe_one_def Let_def r)
qed

lemma unsubscribe_all_ok:
  "stores_wf b \<Longrightarrow> same_conns b (fold (unsubscribe_one now cl) fs b) \<and> stores_wf (fold (unsubscribe_one now cl) fs b)"
proof (induction fs arbitrary: b)
  case (Cons f fs)
  note u = unsubscribe_one_ok [OF Cons.prems, of now cl f]
  have "same_conns (unsubscribe_one now cl f b) (fold (unsubscribe_one now cl) fs (unsubscribe_one now cl f b)) \<and>
      stores_wf (fold (unsubscribe_one now cl) fs (unsubscribe_one now cl f b))" using u by (intro Cons.IH) blast
  then show ?case using u same_conns_trans [of b "unsubscribe_one now cl f b"] by simp
qed simp

subsection \<open>Changes of one connection\<close>

lemma conn_is_update: "conn_is P k (b\<lparr>br_conns := (br_conns b)(h := map_option g (br_conns b h))\<rparr>) =
    (if k = h then conn_is (\<lambda>cl. P (g cl)) h b else conn_is P k b)"
  by (simp add: conn_is_def split: option.split)

lemma conn_is_mono: "conn_is P h b \<Longrightarrow> (\<And>cl. P cl \<Longrightarrow> Q cl) \<Longrightarrow> conn_is Q h b"
  by (auto simp: conn_is_def split: option.splits)

lemma core_conn:
  assumes "broker_core b" and "\<And>cl. cl_clientID (g cl) = cl_clientID cl" and "\<And>cl. cl_phase cl \<noteq> Finished \<Longrightarrow> cl_phase (g cl) \<noteq> Finished"
    and "\<And>l cl. conn_ok l cl \<Longrightarrow> conn_ok l (g cl)"
  shows "broker_core (b\<lparr>br_conns := (br_conns b)(h := map_option g (br_conns b h))\<rparr>)"
proof -
  have "conn_is (\<lambda>cl. cl_clientID cl = c \<and> cl_phase cl \<noteq> Finished) k (b\<lparr>br_conns := (br_conns b)(h := map_option g (br_conns b h))\<rparr>)"
    if "conn_is (\<lambda>cl. cl_clientID cl = c \<and> cl_phase cl \<noteq> Finished) k b" for c k
    using that assms(2,3) by (auto simp: conn_is_update elim: conn_is_mono)
  then have "clients_ok (b\<lparr>br_conns := (br_conns b)(h := map_option g (br_conns b h))\<rparr>)"
    using assms(1) unfolding broker_core_def clients_ok_def by simp
  moreover have "conns_ok (b\<lparr>br_conns := (br_conns b)(h := map_option g (br_conns b h))\<rparr>)"
    using assms(1,4) unfolding broker_core_def conns_ok_def by auto
  ultimately show ?thesis using assms(1) by (simp add: broker_core_def)
qed

lemma set_conn_map: "br_conns b h = Some cl \<Longrightarrow> set_conn h (g cl) b = b\<lparr>br_conns := (br_conns b)(h := map_option g (br_conns b h))\<rparr>"
  by (simp add: set_conn_def)

lemma core_unregister: "broker_core b \<Longrightarrow> broker_core (b\<lparr>br_clients := AList.delete c (br_clients b)\<rparr>)"
  by (auto simp: broker_core_def clients_ok_def conns_ok_def conn_is_def distinct_delete delete_conv')

lemma core_register:
  assumes "broker_core b" and "conn_is (\<lambda>cl. cl_clientID cl = c \<and> cl_phase cl \<noteq> Finished) h b" and "c \<noteq> []"
  shows "broker_core (registerClient h c b)"
  using assms unfolding broker_core_def clients_ok_def conns_ok_def registerClient_def conn_is_def
  by (simp add: distinct_update update_conv' del: map_of_eq_Some_iff)

text \<open>In the middle of \<^verbatim>\<open>handleConnect\<close>: the connection already has its identifier.\<close>

definition connecting :: "nat \<Rightarrow> string \<Rightarrow> 's Broker \<Rightarrow> bool" where
  "connecting h c b \<longleftrightarrow> broker_core b \<and> conn_is (\<lambda>cl. cl_clientID cl = c \<and> cl_phase cl = Accepted) h b \<and>
     (\<forall>k cl. k \<noteq> h \<longrightarrow> br_conns b k = Some cl \<longrightarrow> cl_phase cl = Accepted \<longrightarrow> cl_clientID cl = [])"

lemma connecting_start:
  assumes w: "broker_wf b" and cl: "br_conns b h = Some cl" "cl_phase cl = Accepted"
    and new: "cl_clientID cl' = c" "cl_phase cl' = Accepted" "conn_ok (br_inflightLimit b) cl'"
  shows "connecting h c (set_conn h cl' b)"
proof -
  have core: "stores_wf b" "clients_ok b" "conns_ok b" and n: "nameless b" using w by (simp_all add: broker_wf_def broker_core_def)
  have "k \<noteq> h" if "map_of (br_clients b) d = Some k" for d k
    using clients_okD [OF core(2) that] n cl unfolding nameless_def by auto
  then have "clients_ok (set_conn h cl' b)"
    using core(2) unfolding clients_ok_def set_conn_def conn_is_def by (simp del: map_of_eq_Some_iff)
  moreover have "conns_ok (set_conn h cl' b)" using core(3) new(3) by (simp add: conns_ok_def set_conn_def)
  ultimately show ?thesis using core n new unfolding connecting_def broker_core_def nameless_def by (simp add: set_conn_def conn_is_def)
qed

lemma connecting_quiet:
  assumes "connecting h c b" and q: "quiet b b'"
  shows "connecting h c b'"
proof -
  have "conn_is (\<lambda>cl. cl_clientID cl = c \<and> cl_phase cl = Accepted) h b'"
    using assms unfolding connecting_def quiet_def conn_is_def
    by (cases "br_conns b h"; cases "br_conns b' h") (auto simp: stable_def dest!: spec [of _ h])
  moreover have "cl_clientID cl' = []" if x: "k \<noteq> h" "br_conns b' k = Some cl'" "cl_phase cl' = Accepted" for k cl'
  proof -
    obtain cl where "br_conns b k = Some cl" "stable (br_inflightLimit b) cl cl'" using rel_conn [OF q x(2)] by blast
    then show ?thesis using x assms(1) unfolding connecting_def stable_def by auto
  qed
  ultimately show ?thesis using assms core_quiet [OF _ q] unfolding connecting_def by blast
qed

lemma connecting_stores: "connecting h c b \<Longrightarrow> same_conns b b' \<Longrightarrow> stores_wf b' \<Longrightarrow> connecting h c b'"
  using core_stores [of b b'] unfolding connecting_def by (auto simp: same_conns_def conn_is_def)

lemma connecting_clients: "connecting h c b \<Longrightarrow> broker_core (b\<lparr>br_clients := cs\<rparr>) \<Longrightarrow> connecting h c (b\<lparr>br_clients := cs\<rparr>)"
  unfolding connecting_def conn_is_def by simp

lemma connecting_disconnectExisting:
  assumes "connecting h c b" and "disconnectExisting d b = Some b'"
  shows "connecting h c b'"
proof (cases "map_of (br_clients b) d")
  case None
  then show ?thesis using assms by (simp add: disconnectExisting_def)
next
  case (Some k)
  have "broker_core b" using assms(1) by (simp add: connecting_def)
  then have "connecting h c (b\<lparr>br_clients := AList.delete d (br_clients b)\<rparr>)"
    by (intro connecting_clients [OF assms(1)] core_unregister)
  then show ?thesis by (rule connecting_quiet) (use assms(2) Some in \<open>auto simp: disconnectExisting_def dest: quiet_sendDisconnect\<close>)
qed

lemma core_disconnectExisting:
  assumes "broker_core b" and "disconnectExisting d b = Some b'"
  shows "broker_core b'"
  using assms core_quiet [OF core_unregister quiet_sendDisconnect] unfolding disconnectExisting_def
  by (cases "map_of (br_clients b) d") auto

lemma connecting_will:
  assumes "connecting h c b"
  shows "connecting h c (b\<lparr>br_conns := (br_conns b)(h := map_option (cl_will_update f) (br_conns b h))\<rparr>)"
proof -
  have "broker_core (b\<lparr>br_conns := (br_conns b)(h := map_option (cl_will_update f) (br_conns b h))\<rparr>)"
    by (rule core_conn) (use assms in \<open>simp_all add: connecting_def conn_ok_def\<close>)
  then show ?thesis using assms unfolding connecting_def conn_is_update by simp
qed

lemma connecting_register:
  assumes "connecting h c b" and "c \<noteq> []"
  shows "connecting h c (registerClient h c b)"
  unfolding registerClient_def
proof (rule connecting_clients [OF assms(1)])
  have "conn_is (\<lambda>cl. cl_clientID cl = c \<and> cl_phase cl \<noteq> Finished) h b"
    using assms(1) unfolding connecting_def by (auto elim: conn_is_mono)
  then show "broker_core (b\<lparr>br_clients := AList.update c h (br_clients b)\<rparr>)"
    using core_register [of b c h] assms unfolding connecting_def registerClient_def by blast
qed

subsection \<open>The handlers\<close>

lemma stores_of_connecting: "connecting h c b \<Longrightarrow> stores_wf b"
  by (simp add: connecting_def broker_core_def)

lemma connecting_set_will:
  assumes "connecting h c b"
  shows "connecting h c (set_will h c pkt b)"
proof (cases "will_of pkt")
  case None
  then show ?thesis using assms by (simp add: set_will_def)
next
  case (Some w)
  note cw = connecting_will [OF assms, of "\<lambda>_. Some w"]
  show ?thesis using connecting_stores [OF cw same_conns_updates(11) stores_wf_wills [OF stores_of_connecting [OF cw]]] Some
    by (simp add: set_will_def)
qed

lemma connecting_hook:
  assumes "connecting h c b"
  shows "connecting h c (snd (connect_hook now c pkt addr b))"
proof (cases "br_chain b")
  case None
  then show ?thesis using assms by (simp add: connect_hook_def)
next
  case (Some chain)
  have "connecting h c (b\<lparr>br_chain := Some ch, br_plugins := x\<rparr>)" for ch x
    by (rule connecting_stores [OF assms]) (use stores_of_connecting [OF assms] in simp_all)
  then show ?thesis using Some by (simp add: connect_hook_def split: prod.split)
qed

lemma accept_client_connecting:
  assumes w: "broker_wf b" and cl: "br_conns b h = Some cl" "cl_phase cl = Accepted" and cid: "cid \<noteq> []"
    and r: "accept_client now h pkt cid cl b = Some (ok, b')"
  shows "connecting h cid b'"
proof -
  define cl' where "cl' = cl\<lparr>cl_username := cp_Username pkt, cl_clientID := cid, cl_protocolVersion := ProtocolLevel pkt,
    cl_connectedAt := now, cl_keepAlive := keepAlive_of pkt\<rparr>"
  obtain b1 where b1: "disconnectExisting cid (set_conn h cl' b) = Some b1"
    using r unfolding accept_client_def cl'_def by (auto simp: bind_eq_Some_conv)
  obtain present b2 where b2: "open_session cid (CleanSession pkt) (expiry_of pkt) b1 = (present, b2)" by (rule prod.exhaust)
  obtain err b5 where b5: "connect_hook now cid pkt (cl_remoteAddr cl) (BroadcastConnect cid (registerClient h cid (set_will h cid pkt b2))) = (err, b5)"
    by (rule prod.exhaust)
  have ok: "conn_ok (br_inflightLimit b) cl'"
    using w cl unfolding broker_wf_def broker_core_def conns_ok_def conn_ok_def by (simp add: cl'_def)
  have c0: "connecting h cid (set_conn h cl' b)" by (rule connecting_start [OF w cl _ _ ok]) (simp_all add: cl'_def cl)
  have c1: "connecting h cid b1" using c0 b1 by (rule connecting_disconnectExisting)
  have c2: "connecting h cid b2"
    using connecting_stores [OF c1 same_open_session stores_wf_open_session [OF stores_of_connecting [OF c1]]] b2 by (metis snd_conv)
  note c3 = connecting_register [OF connecting_set_will [OF c2, of pkt] cid]
  have c4: "connecting h cid (BroadcastConnect cid (registerClient h cid (set_will h cid pkt b2)))"
    by (rule connecting_stores [OF c3 broadcast_fields(5)]) (use stores_of_connecting [OF c3] in simp)
  have c5: "connecting h cid b5" using connecting_hook [OF c4, of now pkt "cl_remoteAddr cl"] by (simp add: b5)
  have "quiet b5 b'"
    using r b1 unfolding accept_client_def cl'_def [symmetric]
    by (auto simp: b2 b5 bind_eq_Some_conv split: if_splits intro: quiet_send quiet_trans [OF quiet_send quiet_resume])
  with c5 show ?thesis by (rule connecting_quiet)
qed

lemma connecting_done:
  assumes "connecting h cid b" and "phase \<noteq> Accepted" and "phase \<noteq> Finished"
  shows "broker_wf (b\<lparr>br_conns := (br_conns b)(h := map_option (cl_phase_update (\<lambda>_. phase)) (br_conns b h))\<rparr>)"
proof -
  have "broker_core (b\<lparr>br_conns := (br_conns b)(h := map_option (cl_phase_update (\<lambda>_. phase)) (br_conns b h))\<rparr>)"
    by (rule core_conn) (use assms in \<open>simp_all add: connecting_def conn_ok_def\<close>)
  moreover have "nameless (b\<lparr>br_conns := (br_conns b)(h := map_option (cl_phase_update (\<lambda>_. phase)) (br_conns b h))\<rparr>)"
    using assms unfolding connecting_def nameless_def by auto
  ultimately show ?thesis by (simp add: broker_wf_def)
qed

lemma wf_phase:
  assumes "broker_wf b" and "phase \<noteq> Accepted" and "phase \<noteq> Finished"
  shows "broker_wf (b\<lparr>br_conns := (br_conns b)(h := map_option (cl_phase_update (\<lambda>_. phase)) (br_conns b h))\<rparr>)"
proof -
  have "broker_core (b\<lparr>br_conns := (br_conns b)(h := map_option (cl_phase_update (\<lambda>_. phase)) (br_conns b h))\<rparr>)"
    by (rule core_conn) (use assms in \<open>simp_all add: broker_wf_def conn_ok_def\<close>)
  then show ?thesis using assms unfolding broker_wf_def nameless_def by auto
qed

lemma wf_serve_connect:
  assumes w: "broker_wf b" and en: "enabled (EvConnect h fh data) b" and r: "serve_connect e now h fh data b = Some b'"
  shows "broker_wf b'"
proof -
  obtain cl where cl: "br_conns b h = Some cl" "cl_phase cl = Accepted" using en by (auto simp: conn_is_def split: option.splits)
  obtain ok b1 where b1: "handleConnect e now h fh data b = Some (ok, b1)"
      and b': "b' = b1\<lparr>br_conns := (br_conns b1)(h := map_option (cl_phase_update (\<lambda>_. if ok then Serving else Leaving)) (br_conns b1 h))\<rparr>"
    using r unfolding serve_connect_def by (auto simp: bind_eq_Some_conv)
  have q: "quiet b b1 \<or> (\<exists>cid. connecting h cid b1)"
  proof (cases "PacketType fh = CONNECT")
    case True
    show ?thesis
    proof (cases "DecodeConnectPacket data")
      case (Inl err)
      then show ?thesis using b1 cl True by (simp add: handleConnect_def quiet_refl)
    next
      case (Inr pkt)
      show ?thesis using b1 cl True Inr accept_client_connecting [OF w cl, of "''auto-'' @ cl_connPtr cl" now pkt ok b1]
          accept_client_connecting [OF w cl, of "cp_ClientID pkt" now pkt ok b1]
        by (auto simp: handleConnect_def Let_def bind_eq_Some_conv split: if_splits dest: quiet_send)
    qed
  next
    case False
    then show ?thesis using b1 cl by (simp add: handleConnect_def quiet_refl)
  qed
  then show ?thesis
  proof
    assume "quiet b b1"
    then have "broker_wf b1" by (rule wf_quiet [OF w])
    then show ?thesis unfolding b' by (rule wf_phase) simp_all
  next
    assume "\<exists>cid. connecting h cid b1"
    then obtain cid where "connecting h cid b1" ..
    then show ?thesis unfolding b' by (rule connecting_done) simp_all
  qed
qed

lemma stores_of_wf: "broker_wf b \<Longrightarrow> stores_wf b"
  by (simp add: broker_wf_def broker_core_def)

lemma dedup_wf_steps:
  "dedup_wf d \<Longrightarrow> dedup_wf (snd (IsDuplicate now c i d))" "dedup_wf d \<Longrightarrow> dedup_wf (MarkReceived now c i d)"
  "dedup_wf d \<Longrightarrow> dedup_wf (dedup_Remove c i d)" "dedup_wf d \<Longrightarrow> dedup_wf (cleanup now d)"
  by (simp_all add: dedup_wf_def IsDuplicate_def MarkReceived_def dedup_Remove_def cleanup_def distinct_update distinct_delete distinct_map_filter
      split: option.split)

lemma wf_dedup: "broker_wf b \<Longrightarrow> dedup_wf d \<Longrightarrow> broker_wf (b\<lparr>br_dedup := d\<rparr>)"
  by (rule wf_stores [OF _ same_conns_updates(6)]) (auto simp: stores_wf_def dest: stores_of_wf)

lemma wf_acknowledge:
  assumes w: "broker_wf b" and r: "acknowledge now h c qos pid b = Some (go, b')"
  shows "broker_wf b'"
proof -
  obtain dup d where d: "IsDuplicate now c pid (br_dedup b) = (dup, d)" by (rule prod.exhaust)
  have "dedup_wf (br_dedup b)" using stores_of_wf [OF w] by (simp add: stores_wf_def)
  then have "dedup_wf d" using dedup_wf_steps(1) [of "br_dedup b" now c pid] d by simp
  then have "broker_wf (b\<lparr>br_dedup := d\<rparr>)" "broker_wf (b\<lparr>br_dedup := MarkReceived now c pid d\<rparr>)"
    using wf_dedup [OF w] dedup_wf_steps(2) by blast+
  then show ?thesis using r w d
    by (auto simp: acknowledge_def bind_eq_Some_conv split: if_splits bool.splits dest!: quiet_send intro: wf_quiet)
qed

lemma wf_retain: "broker_wf b \<Longrightarrow> broker_wf (on_retain (retain_Set topic payload qos) b)"
  by (rule wf_stores [OF _ same_conns_updates(9)]) (auto intro: stores_wf_retain stores_of_wf)

lemma wf_plugins: "broker_wf b \<Longrightarrow> broker_wf (b\<lparr>br_chain := ch, br_plugins := s\<rparr>)" "broker_wf b \<Longrightarrow> broker_wf (b\<lparr>br_plugins := s\<rparr>)"
proof -
  show "broker_wf b \<Longrightarrow> broker_wf (b\<lparr>br_chain := ch, br_plugins := s\<rparr>)"
    by (rule wf_stores [OF _ same_conns_updates(4)]) (auto dest: stores_of_wf)
  show "broker_wf b \<Longrightarrow> broker_wf (b\<lparr>br_plugins := s\<rparr>)"
    by (rule wf_stores [OF _ same_conns_updates(5)]) (auto dest: stores_of_wf)
qed

lemma wf_route: "broker_wf b \<Longrightarrow> routeMessage now topic payload qos retain fwd b = Some b' \<Longrightarrow> broker_wf b'"
  using wf_quiet quiet_routeMessage by blast

lemma wf_handlePublish:
  assumes w: "broker_wf b" and r: "handlePublish e now h fh data b = Some b'"
  shows "broker_wf b'"
proof -
  obtain cl where cl: "br_conns b h = Some cl" using r by (auto simp: handlePublish_def split: option.splits)
  show ?thesis
  proof (cases "DecodePublishPacket data (QoS fh) 4")
    case (Inl err)
    then show ?thesis using r cl w by (simp add: handlePublish_def)
  next
    case (Inr pkt)
    obtain go b1 where b1: "acknowledge now h (cl_clientID cl) (QoS fh) (pp_PacketID pkt) b = Some (go, b1)"
      using r cl Inr by (auto simp: handlePublish_def bind_eq_Some_conv)
    have w1: "broker_wf b1" using w b1 by (rule wf_acknowledge)
    define b2 where "b2 = (if Retain fh then on_retain (retain_Set (pp_Topic pkt) (pp_Payload pkt) (QoS fh)) b1 else b1)"
    have w2: "broker_wf b2" using w1 by (simp add: b2_def wf_retain)
    show ?thesis
    proof (cases "br_chain b2")
      case None
      then show ?thesis using r cl Inr b1 w1 wf_route [OF w2]
        by (auto simp: handlePublish_def Let_def b2_def [symmetric] split: if_splits)
    next
      case (Some chain)
      obtain err ch s evt t where x: "OnPublish now chain (br_plugins b2) \<lparr>pe_ClientID = cl_clientID cl, pe_Topic = pp_Topic pkt,
          pe_Payload = pp_Payload pkt, pe_QoS = QoS fh, pe_Retain = Retain fh\<rparr> = (err, ch, s, evt, t)" by (rule prod_cases5)
      note w3 = wf_plugins(1) [OF w2, where ch = "Some ch" and s = s]
      show ?thesis using r cl Inr b1 w1 w3 wf_route [OF w3] Some x
        by (auto simp: handlePublish_def Let_def b2_def [symmetric] split: if_splits)
    qed
  qed
qed

lemma wf_inflight:
  assumes "broker_wf b" and "br_conns b h = Some cl"
  shows "broker_wf (set_conn h (cl\<lparr>cl_inflight := inflight_Remove i (cl_inflight cl)\<rparr>) b)"
proof -
  have "stable (br_inflightLimit b) cl (cl\<lparr>cl_inflight := inflight_Remove i (cl_inflight cl)\<rparr>)"
    by (simp add: stable_def conn_ok_def inflight_wf_Remove) (simp add: inflight_Remove_def)
  then show ?thesis using wf_quiet [OF assms(1)] quiet_conn [OF assms(2)] by blast
qed

lemma wf_acks:
  assumes w: "broker_wf b"
  shows "handlePuback h data b = Some b' \<Longrightarrow> broker_wf b'" "handlePubrec h data b = Some b' \<Longrightarrow> broker_wf b'"
    "handlePubrel h data b = Some b' \<Longrightarrow> broker_wf b'"
proof -
  show "handlePuback h data b = Some b' \<Longrightarrow> broker_wf b'"
    using w by (auto simp: handlePuback_def intro: wf_inflight split: option.splits sum.splits)
  show "handlePubrec h data b = Some b' \<Longrightarrow> broker_wf b'"
    using w by (auto simp: handlePubrec_def split: option.splits sum.splits dest!: quiet_send intro: wf_quiet wf_inflight)
  have "broker_wf (b\<lparr>br_dedup := dedup_Remove c i (br_dedup b)\<rparr>)" for c i
    using wf_dedup [OF w] dedup_wf_steps(3) [of "br_dedup b"] stores_of_wf [OF w] by (simp add: stores_wf_def)
  then show "handlePubrel h data b = Some b' \<Longrightarrow> broker_wf b'"
    using w by (auto simp: handlePubrel_def split: option.splits sum.splits dest!: quiet_send intro: wf_quiet)
qed

lemma wf_Save: "broker_wf b \<Longrightarrow> broker_wf (on_session (session_Save c) b)"
  by (rule wf_stores [OF _ same_conns_updates(8)]) (auto intro: stores_wf_Save stores_of_wf)

lemma quiet_send_retained: "send_retained h f b = Some b' \<Longrightarrow> quiet b b'"
  unfolding send_retained_def by (rule quiet_each [OF quiet_send])

lemma wf_handleSubscribe:
  assumes w: "broker_wf b" and r: "handleSubscribe e now h data b = Some b'"
  shows "broker_wf b'"
proof -
  obtain cl where cl: "br_conns b h = Some cl" using r by (auto simp: handleSubscribe_def split: option.splits)
  show ?thesis
  proof (cases "DecodeSubscribePacket data (cl_protocolVersion cl)")
    case (Inl err)
    then show ?thesis using r cl w by (simp add: handleSubscribe_def)
  next
    case (Inr pkt)
    obtain codes b1 where b1: "subscribe_all e now cl 0 (sp_Subscriptions pkt) b = (codes, b1)" by (rule prod.exhaust)
    have "broker_wf b1" using wf_stores [OF w] subscribe_all_ok [OF stores_of_wf [OF w], of e now cl 0 "sp_Subscriptions pkt"] b1 by simp
    then have w1: "broker_wf (on_session (session_Save (cl_clientID cl)) b1)" by (rule wf_Save)
    obtain b2 where b2: "quiet (on_session (session_Save (cl_clientID cl)) b1) b2"
        "each (\<lambda>sub. send_retained h (sb_TopicFilter sub)) (sp_Subscriptions pkt) b2 = Some b'"
      using r cl Inr b1 by (auto simp: handleSubscribe_def Let_def bind_eq_Some_conv dest!: quiet_send)
    have "quiet b2 b'" using quiet_send_retained b2(2) by (rule quiet_each)
    with b2(1) have "quiet (on_session (session_Save (cl_clientID cl)) b1) b'" by (rule quiet_trans)
    with w1 show ?thesis by (rule wf_quiet)
  qed
qed

lemma wf_handleUnsubscribe:
  assumes w: "broker_wf b" and r: "handleUnsubscribe now h data b = Some b'"
  shows "broker_wf b'"
proof -
  have "broker_wf (fold (unsubscribe_one now cl) fs b)" for cl fs
    using wf_stores [OF w] unsubscribe_all_ok [OF stores_of_wf [OF w]] by blast
  then have u: "broker_wf (on_session (session_Save c) (fold (unsubscribe_one now cl) fs b))" for c cl fs by (rule wf_Save)
  then show ?thesis using r w
    by (auto simp: handleUnsubscribe_def Let_def split: option.splits sum.splits dest!: quiet_send intro: wf_quiet [OF u])
qed

lemma wf_handleDisconnect:
  assumes w: "broker_wf b"
  shows "broker_wf (handleDisconnect h data b)"
proof (cases "br_conns b h")
  case None
  then show ?thesis using w by (simp add: handleDisconnect_def)
next
  case (Some cl)
  have p: "broker_wf (set_conn h (g cl) b)"
    if g: "\<And>cl. cl_clientID (g cl) = cl_clientID cl" "\<And>cl. cl_phase (g cl) = Leaving" "\<And>l cl. conn_ok l cl \<Longrightarrow> conn_ok l (g cl)" for g
  proof -
    have "broker_core (set_conn h (g cl) b)" unfolding set_conn_map [OF Some] by (rule core_conn) (use w g in \<open>simp_all add: broker_wf_def\<close>)
    then show ?thesis using w g(2) unfolding broker_wf_def nameless_def by (simp add: set_conn_def)
  qed
  have 1: "broker_wf (set_conn h (cl\<lparr>cl_phase := Leaving\<rparr>) b)" by (rule p [of "cl_phase_update (\<lambda>_. Leaving)"]) (simp_all add: conn_ok_def)
  have 2: "broker_wf (set_conn h (cl\<lparr>cl_will := None, cl_phase := Leaving\<rparr>) b)"
    by (rule p [of "\<lambda>cl. cl\<lparr>cl_will := None, cl_phase := Leaving\<rparr>"]) (simp_all add: conn_ok_def)
  have "broker_wf (on_wills f (set_conn h (cl\<lparr>cl_will := None, cl_phase := Leaving\<rparr>) b))" for f
    by (rule wf_stores [OF 2 same_conns_updates(11)]) (rule stores_wf_wills [OF stores_of_wf [OF 2]])
  then show ?thesis using 1 Some by (simp add: handleDisconnect_def Let_def)
qed

lemma wf_serve_packet:
  assumes w: "broker_wf b" and r: "serve_packet e now h fh data b = Some b'"
  shows "broker_wf b'"
  using r w wf_handlePublish [OF w] wf_acks [OF w] wf_handleSubscribe [OF w] wf_handleUnsubscribe [OF w] wf_handleDisconnect [OF w, of h data]
    wf_quiet [OF w quiet_send]
  unfolding serve_packet_def Let_def handlePubcomp_def by (auto split: if_splits)

lemma wf_close_begin:
  assumes w: "broker_wf b"
  shows "broker_wf (close_begin h b)"
proof (cases "br_conns b h")
  case (Some cl)
  have "broker_wf (set_conn h (cl\<lparr>cl_phase := Closing\<rparr>) b)"
    unfolding set_conn_map [OF Some, of "cl_phase_update (\<lambda>_. Closing)"] by (rule wf_phase [OF w]) simp_all
  then show ?thesis using w Some by (simp add: close_begin_def)
qed (use w in \<open>simp add: close_begin_def\<close>)

lemma wf_finish:
  assumes w: "broker_wf b" and cl: "br_conns b h = Some cl" and cl': "conn_ok (br_inflightLimit b) cl'" "cl_phase cl' = Finished"
  shows "broker_wf (unregisterClient h (cl_clientID cl) (set_conn h cl' b))"
proof -
  let ?b = "unregisterClient h (cl_clientID cl) (set_conn h cl' b)"
  have core: "stores_wf b" "clients_ok b" "conns_ok b" "nameless b" using w by (simp_all add: broker_wf_def broker_core_def)
  have u: "map_of (br_clients ?b) c = Some k \<Longrightarrow> map_of (br_clients b) c = Some k \<and> k \<noteq> h" for c k
    using clients_okD(2) [OF core(2), of c k] cl by (auto simp: unregisterClient_def set_conn_def delete_conv' split: if_splits)
  have "br_conns ?b = (br_conns b)(h \<mapsto> cl')" by (simp add: unregisterClient_def set_conn_def)
  then have "conn_is P k ?b = conn_is P k b" if "k \<noteq> h" for P k using that by (simp add: conn_is_def)
  moreover have "distinct (map fst (br_clients ?b))" using core(2) by (simp add: clients_ok_def unregisterClient_def set_conn_def distinct_delete)
  ultimately have "clients_ok ?b" using core(2) u unfolding clients_ok_def by (metis (no_types, lifting))
  moreover have "conns_ok ?b" "nameless ?b" "stores_wf ?b"
    using core cl' by (simp_all add: conns_ok_def nameless_def stores_wf_def unregisterClient_def set_conn_def)
  ultimately show ?thesis by (simp add: broker_wf_def broker_core_def)
qed

lemma broadcasts_fields:
  "same_conns b (fold BroadcastUnsubscribe fs b)" "stores_wf (fold BroadcastUnsubscribe fs b) = stores_wf b"
  "br_subscriptions (fold BroadcastUnsubscribe fs b) = br_subscriptions b"
proof -
  have "same_conns b (fold BroadcastUnsubscribe fs b) \<and> stores_wf (fold BroadcastUnsubscribe fs b) = stores_wf b \<and>
      br_subscriptions (fold BroadcastUnsubscribe fs b) = br_subscriptions b"
    by (induction fs arbitrary: b) (auto intro: same_conns_trans [OF broadcast_fields(3)])
  then show "same_conns b (fold BroadcastUnsubscribe fs b)" "stores_wf (fold BroadcastUnsubscribe fs b) = stores_wf b"
    "br_subscriptions (fold BroadcastUnsubscribe fs b) = br_subscriptions b" by simp_all
qed

lemma wf_drop_client:
  assumes w: "broker_wf b"
  shows "broker_wf (on_session (session_Remove c) (b\<lparr>br_subscriptions := RemoveAll c (br_subscriptions b)\<rparr>))"
proof -
  have "si_wf (br_subscriptions b)" using stores_of_wf [OF w] by (simp add: stores_wf_def)
  then have "stores_wf (on_session (session_Remove c) (b\<lparr>br_subscriptions := RemoveAll c (br_subscriptions b)\<rparr>))"
    by (intro stores_wf_end stores_of_wf [OF w]) (simp_all add: si_wf_RemoveAll subs_of_RemoveAll)
  then show ?thesis using wf_stores [OF w same_conns_trans [OF same_conns_updates(1) same_conns_updates(8)]] by blast
qed

lemma wf_offline: "broker_wf b \<Longrightarrow> broker_wf (on_offline (offline_RemoveAll c) b)"
  by (rule wf_quiet [OF _ on_offline_frame [OF disk_offline_RemoveAll]])

lemma wf_end_session:
  assumes w: "broker_wf b"
  shows "broker_wf (end_session now c b)"
proof -
  have "broker_wf (on_session (MarkDisconnected now c) b)"
    using wf_stores [OF w same_conns_updates(8) stores_wf_Mark [OF stores_of_wf [OF w]]] .
  moreover have w1: "broker_wf (fold BroadcastUnsubscribe fs b)" for fs
    using wf_stores [OF w broadcasts_fields(1)] stores_of_wf [OF w] by (simp add: broadcasts_fields(2))
  note wf_drop_client [OF w1] wf_offline [OF wf_drop_client [OF w1]]
  ultimately show ?thesis using w by (simp add: end_session_def Let_def split: option.split)
qed

lemma wf_publish_will: "broker_wf b \<Longrightarrow> publish_will now wm b = Some b' \<Longrightarrow> broker_wf b'"
  unfolding publish_will_def by (auto intro: wf_route [OF wf_retain] wf_route split: if_splits)

lemma wf_wills: "broker_wf b \<Longrightarrow> broker_wf (on_wills f b)"
  by (rule wf_stores [OF _ same_conns_updates(11)]) (auto intro: stores_wf_wills stores_of_wf)

lemma wf_last_will: "broker_wf b \<Longrightarrow> last_will now cl b = Some b' \<Longrightarrow> broker_wf b'"
  by (auto simp: last_will_def bind_eq_Some_conv intro!: wf_wills elim: wf_publish_will split: option.splits)

lemma wf_close_finish:
  assumes w: "broker_wf b" and r: "close_finish now h b = Some b'"
  shows "broker_wf b'"
proof -
  obtain cl where cl: "br_conns b h = Some cl" using r by (auto simp: close_finish_def split: option.splits)
  let ?cl = "cl\<lparr>cl_phase := Finished, cl_connClosed := True\<rparr>" and ?c = "cl_clientID cl"
  have "conn_ok (br_inflightLimit b) ?cl" using w cl by (simp add: broker_wf_def broker_core_def conns_ok_def conn_ok_def)
  note f = wf_finish [OF w cl this, simplified]
  have "clients_ok b" using w by (simp add: broker_wf_def broker_core_def)
  show ?thesis
  proof (cases "?c = []")
    case True
    then have "map_of (br_clients b) ?c \<noteq> Some h" using clients_okD(1) [OF \<open>clients_ok b\<close>] by blast
    then have "unregisterClient h ?c (set_conn h ?cl b) = set_conn h ?cl b" by (simp add: unregisterClient_def set_conn_def)
    then show ?thesis using r cl f True by (simp add: close_finish_def Let_def)
  next
    case False
    let ?b1 = "BroadcastDisconnect ?c (unregisterClient h ?c (set_conn h ?cl b))"
    have "broker_wf ?b1" by (rule wf_stores [OF f broadcast_fields(7)]) (use stores_of_wf [OF f] in simp)
    then have w2: "broker_wf (disconnect_hook cl ?b1)" by (auto simp: disconnect_hook_def intro: wf_plugins split: option.split)
    obtain b3 where b3: "b' = end_session now ?c b3" "last_will now cl (disconnect_hook cl ?b1) = Some b3"
      using r cl False by (auto simp: close_finish_def Let_def bind_eq_Some_conv)
    have "broker_wf b3" using w2 b3(2) by (rule wf_last_will)
    then show ?thesis unfolding b3(1) by (rule wf_end_session)
  qed
qed

lemma wf_reap_one:
  assumes w: "broker_wf b"
  shows "broker_wf (reap_one c b)"
proof -
  let ?fs = "ClientFilters c (br_subscriptions b)" and ?o = "on_offline (offline_RemoveAll c) b"
  have s: "si_wf (br_subscriptions b)" using stores_of_wf [OF w] by (simp add: stores_wf_def)
  note r = Removes [OF s, of c ?fs]
  have o: "broker_wf ?o" using w by (rule wf_offline)
  have e: "br_subscriptions ?o = br_subscriptions b" by (simp add: on_offline_def split: prod.split)
  have "stores_wf (on_session (session_Remove c) (?o\<lparr>br_subscriptions := fold (Remove c) ?fs (br_subscriptions b)\<rparr>))"
    by (rule stores_wf_end [OF stores_of_wf [OF o]]) (use r in \<open>simp_all add: e\<close>)
  then have "broker_wf (on_session (session_Remove c) (?o\<lparr>br_subscriptions := fold (Remove c) ?fs (br_subscriptions b)\<rparr>))"
    using wf_stores [OF o same_conns_trans [OF same_conns_updates(1) same_conns_updates(8)]] by blast
  moreover have "on_offline (offline_RemoveAll c) (b\<lparr>br_subscriptions := fold (Remove c) ?fs (br_subscriptions b)\<rparr>) =
      ?o\<lparr>br_subscriptions := fold (Remove c) ?fs (br_subscriptions b)\<rparr>"
    by (simp add: on_offline_def split: prod.split)
  ultimately show ?thesis by (simp add: reap_one_def Let_def)
qed

lemma wf_sweep: "broker_wf b \<Longrightarrow> broker_wf (sweep now b)"
proof -
  have "broker_wf b \<Longrightarrow> broker_wf (fold reap_one cs b)" for cs by (induction cs arbitrary: b) (simp_all add: wf_reap_one)
  then show "broker_wf b \<Longrightarrow> broker_wf (sweep now b)" by (simp add: sweep_def)
qed

lemma wf_accept:
  assumes w: "broker_wf b" and "br_conns b h = None"
  shows "broker_wf (accept_one e h ptr addr b)"
proof -
  have core: "stores_wf b" "clients_ok b" "conns_ok b" "nameless b" using w by (simp_all add: broker_wf_def broker_core_def)
  have "k \<noteq> h" if "map_of (br_clients b) c = Some k" for c k using clients_okD(2) [OF core(2) that] assms(2) by auto
  then have "clients_ok (set_conn h (newClient ptr addr b) b)"
    using core(2) unfolding clients_ok_def set_conn_def conn_is_def by (simp del: map_of_eq_Some_iff)
  moreover have "conn_ok (br_inflightLimit b) (newClient ptr addr b)"
    by (simp add: conn_ok_def newClient_def inflight_wf_New) (simp add: NewInflightStore_def)
  ultimately show ?thesis using w core
    unfolding accept_one_def broker_wf_def broker_core_def conns_ok_def nameless_def by (simp add: set_conn_def newClient_def)
qed

lemma wf_write_one:
  assumes w: "broker_wf b"
  shows "broker_wf (write_one h b)"
proof (cases "br_conns b h")
  case (Some cl)
  then show ?thesis using w
    by (auto simp: write_one_def stable_def conn_ok_def split: list.splits intro!: wf_quiet [OF w] quiet_conn)
qed (use w in \<open>simp add: write_one_def\<close>)

lemma wf_disconnectExisting:
  assumes w: "broker_wf b" and r: "disconnectExisting c b = Some b'"
  shows "broker_wf b'"
proof (cases "map_of (br_clients b) c")
  case None
  then show ?thesis using w r by (simp add: disconnectExisting_def)
next
  case (Some h)
  have "broker_wf (b\<lparr>br_clients := AList.delete c (br_clients b)\<rparr>)"
    using w core_unregister [of b c] by (simp add: broker_wf_def nameless_def)
  then show ?thesis using r Some by (auto simp: disconnectExisting_def dest!: quiet_sendDisconnect intro: wf_quiet)
qed

lemma wf_step:
  assumes w: "broker_wf b" and en: "enabled ev b" and r: "broker_step e now ev b = Some b'"
  shows "broker_wf b'"
proof (cases ev)
  case (EvSubBroadcast msg)
  have "broker_wf (b\<lparr>br_cluster := cv\<rparr>)" for cv by (rule wf_stores [OF w same_conns_updates(7)]) (use stores_of_wf [OF w] in simp)
  then show ?thesis using EvSubBroadcast r by auto
next
  case EvCleanup
  then show ?thesis using r wf_dedup [OF w] dedup_wf_steps(4) [of "br_dedup b" now] stores_of_wf [OF w] by (auto simp: stores_wf_def)
qed (use w en r wf_accept wf_serve_connect wf_serve_packet wf_write_one wf_quiet [OF w quiet_close_conn] wf_close_begin wf_close_finish
  wf_route wf_disconnectExisting wf_sweep in auto)

lemma wf_reach: "reach b0 b \<Longrightarrow> broker_wf b0 \<Longrightarrow> broker_wf b"
  by (induction rule: reach.induct) (auto intro: wf_step)

subsection \<open>Start-up\<close>

text \<open>A stored session comes from the encoding of a Go map, so a filter occurs once.\<close>

fun stored_ok :: "stored \<Rightarrow> bool" where
  "stored_ok (StoredSession s) = distinct (map fst (s_Subscriptions s))"
| "stored_ok (StoredOldSession cs s) = distinct (map fst (s_Subscriptions s))"
| "stored_ok _ = True"

definition disk_ok :: "disk option \<Rightarrow> bool" where
  "disk_ok store = (case store of None \<Rightarrow> True | Some d \<Rightarrow> list_all (\<lambda>x. stored_ok (snd x)) d)"

definition boot :: "disk option \<Rightarrow> broker_cluster option \<Rightarrow> 's InterceptorChain option \<Rightarrow> 's \<Rightarrow> 's Broker" where
  "boot store cluster chain s = loadFromStorage (NewBroker store cluster chain s)"

lemma decode_session_ok: "stored_ok v \<Longrightarrow> decode_session c v = Some s \<Longrightarrow> distinct (map fst (s_Subscriptions s))"
  by (cases v) auto

lemma set_Scan: "set (store_Scan p d) \<subseteq> set d"
  by (auto simp: store_Scan_def)

lemma session_Load_ok:
  assumes "disk_ok store"
  shows "distinct (map fst (session_Load store [])) \<and> (\<forall>x\<in>set (session_Load store []). distinct (map fst (s_Subscriptions (snd x))))"
proof (cases store)
  case (Some d)
  let ?f = "\<lambda>(key, val) ms. let c = trim_prefix key ''s/'' in case decode_session c val of None \<Rightarrow> ms | Some s \<Rightarrow> AList.update c s ms"
  have k: "distinct (map fst (fold ?f xs ss)) \<and> (\<forall>x\<in>set (fold ?f xs ss). distinct (map fst (s_Subscriptions (snd x))))"
    if "\<forall>x\<in>set xs. stored_ok (snd x)" "distinct (map fst ss) \<and> (\<forall>x\<in>set ss. distinct (map fst (s_Subscriptions (snd x))))" for xs ss
    using that
  proof (induction xs arbitrary: ss)
    case (Cons x xs)
    have "distinct (map fst (?f x ss)) \<and> (\<forall>y\<in>set (?f x ss). distinct (map fst (s_Subscriptions (snd y))))"
      using Cons.prems by (cases x) (auto simp: Let_def distinct_update decode_session_ok split: option.split dest!: subsetD [OF set_AList_update])
    then show ?case using Cons by simp
  qed simp
  have "\<forall>x\<in>set (store_Scan ''s/'' d). stored_ok (snd x)" using assms Some set_Scan [of "''s/''" d] by (auto simp: disk_ok_def list_all_iff)
  from k [OF this, of "[]"] show ?thesis using Some by (simp add: session_Load_def)
qed (simp add: session_Load_def)

lemma restore_ok:
  assumes "distinct (map fst ss)" and "\<forall>x\<in>set ss. distinct (map fst (s_Subscriptions (snd x)))" and "si_wf idx"
  shows "si_wf (restore_subscriptions ss idx) \<and>
    subs_of (restore_subscriptions ss idx) (c, f) = (case map_of ss c of
       Some s \<Rightarrow> if s_ExpiryInterval s \<noteq> 0 \<and> map_of (s_Subscriptions s) f \<noteq> None then map_of (s_Subscriptions s) f else subs_of idx (c, f)
     | None \<Rightarrow> subs_of idx (c, f))"
  using assms
proof (induction ss arbitrary: idx)
  case (Cons x ss)
  obtain d s where x: "x = (d, s)" by (cases x)
  define idx1 where "idx1 = (if s_ExpiryInterval s \<noteq> 0 then fold (\<lambda>(f, q). Add d f q) (s_Subscriptions s) idx else idx)"
  have w: "si_wf idx1" using Cons.prems(3) by (simp add: idx1_def si_wf_adds)
  have n: "map_of ss d = None" using Cons.prems(1) x by (simp add: map_of_eq_None_iff)
  have e: "restore_subscriptions ((d, s) # ss) idx = restore_subscriptions ss idx1" by (simp add: restore_subscriptions_def idx1_def)
  have "distinct (map fst ss)" "\<forall>x\<in>set ss. distinct (map fst (s_Subscriptions (snd x)))" using Cons.prems by simp_all
  note i = Cons.IH [OF this w]
  have "subs_of idx1 (c, f) = (if c = d \<and> s_ExpiryInterval s \<noteq> 0 \<and> map_of (s_Subscriptions s) f \<noteq> None
      then map_of (s_Subscriptions s) f else subs_of idx (c, f))"
    using Cons.prems(2) x by (auto simp: idx1_def subs_of_adds split: option.split)
  then show ?case using i n unfolding x e by (cases "c = d"; cases "map_of ss c") simp_all
qed (simp add: restore_subscriptions_def)

lemma retain_Load_distinct: "distinct (map fst (retain_Load store []))"
proof -
  let ?f = "\<lambda>(key, val) ms. let topic = trim_prefix key ''r/'' in case decode_retained topic val of None \<Rightarrow> ms | Some m \<Rightarrow> AList.update topic m ms"
  have "distinct (map fst ms) \<Longrightarrow> distinct (map fst (fold ?f xs ms))" for xs ms
    by (induction xs arbitrary: ms) (auto simp: Let_def distinct_update split: option.split)
  then show ?thesis by (simp add: retain_Load_def split: option.split)
qed

lemma wf_boot_load:
  assumes "distinct (map fst (session_Load store [])) \<and> (\<forall>x\<in>set (session_Load store []). distinct (map fst (s_Subscriptions (snd x))))"
  shows "broker_wf (boot store cluster chain s)"
proof -
  let ?ss = "session_Load store []"
  note l = assms
  note r = restore_ok [OF conjunct1 [OF l] conjunct2 [OF l] si_wf_New]
  have d: "map_of ?ss c = Some x \<Longrightarrow> distinct (map fst (s_Subscriptions x))" for c x using l by (fastforce dest!: map_of_SomeD)
  have "subs_of (restore_subscriptions ?ss NewSubscriptionIndex) (c, f) = Some q"
    if "map_of ?ss c = Some x" "s_ExpiryInterval x \<noteq> 0" "map_of (s_Subscriptions x) f = Some q" for c x f q
    using conjunct2 [OF r, of c f] that by (simp del: map_of_eq_Some_iff)
  then have "sess_ok ?ss (restore_subscriptions ?ss NewSubscriptionIndex)" using conjunct1 [OF l] d unfolding sess_ok_def by blast
  moreover have "(case (case store of None \<Rightarrow> None | Some _ \<Rightarrow> Some NewWillStore, store) of (Some ws, Some d) \<Rightarrow> Some (will_Load d ws) | (ws, _) \<Rightarrow> ws) = None
      \<longleftrightarrow> store = None" by (cases store) simp_all
  ultimately have "stores_wf (boot store cluster chain s)"
    using conjunct1 [OF r] retain_Load_distinct [of store]
    by (simp add: boot_def loadFromStorage_def NewBroker_def stores_wf_def Let_def NewSessionStore_def NewRetainStore_def dedup_wf_def NewDedupStore_def)
  then show ?thesis
    by (simp add: broker_wf_def broker_core_def clients_ok_def conns_ok_def nameless_def)
      (simp add: boot_def loadFromStorage_def NewBroker_def Let_def)
qed

lemma wf_boot: "disk_ok store \<Longrightarrow> broker_wf (boot store cluster chain s)"
  by (rule wf_boot_load) (rule session_Load_ok)

subsection \<open>Concrete runs\<close>

fun run_events :: "broker_env \<Rightarrow> (int \<times> event) list \<Rightarrow> 's Broker \<Rightarrow> 's Broker option" where
  "run_events e [] b = Some b"
| "run_events e ((now, ev) # evs) b = (if enabled ev b then broker_step e now ev b \<bind> run_events e evs else None)"

lemma run_reach: "reach b0 b \<Longrightarrow> run_events e evs b = Some b' \<Longrightarrow> reach b0 b'"
proof (induction evs arbitrary: b)
  case (Cons x evs)
  obtain now ev where x: "x = (now, ev)" by (cases x)
  then obtain b1 where b1: "enabled ev b" "broker_step e now ev b = Some b1" "run_events e evs b1 = Some b'"
    using Cons.prems(2) by (auto simp: bind_eq_Some_conv split: if_splits)
  show ?case by (rule Cons.IH [OF reach_step [OF Cons.prems(1) b1(1,2)] b1(3)])
qed simp

lemma run_reaches: "run_events e evs b \<noteq> None \<Longrightarrow> reach b (the (run_events e evs b))"
  using run_reach [OF reach_start] by fastforce

definition open_env :: broker_env where
  "open_env = \<lparr>e_Authenticate = (\<lambda>_ _. True), e_Authorize = (\<lambda>_ _ _. True), e_AllowConnect = True, e_AllowPublish = (\<lambda>_ _ _. True),
     e_AllowSubscribe = (\<lambda>_ _ _. True)\<rparr>"

definition header :: "octet \<Rightarrow> octet \<Rightarrow> FixedHeader" where
  "header t q = \<lparr>PacketType = t, Dup = False, QoS = q, Retain = False, RemainingLength = 0\<rparr>"

text \<open>A client with the one-letter identifier \<open>c\<close> connects as connection \<open>h\<close>, and may subscribe to one filter.\<close>

definition ev_connect :: "nat \<Rightarrow> octet \<Rightarrow> octet \<Rightarrow> (int \<times> event) list" where
  "ev_connect h flags c = [(0, EvAccept h ''p'' ''addr''),
     (0, EvConnect h (header CONNECT 0) [0, 4, 77, 81, 84, 84, 4, flags, 0, 0, 0, 1, c])]"

definition ev_subscribe :: "nat \<Rightarrow> octet \<Rightarrow> octet \<Rightarrow> (int \<times> event) list" where
  "ev_subscribe h f q = [(0, EvPacket h (header SUBSCRIBE 1) [0, 1, 0, 1, f, q])]"

definition ev_publish :: "nat \<Rightarrow> octet \<Rightarrow> octet \<Rightarrow> (int \<times> event) list" where
  "ev_publish h t x = [(0, EvPacket h (header PUBLISH 1) [0, 1, t, 0, 7, x])]"

text \<open>Client \<open>A\<close> subscribes to \<open>t\<close> and stays, client \<open>B\<close> does so with a session that outlives its connection and
  leaves, and client \<open>C\<close> is there to publish.\<close>

definition demo_run :: "(int \<times> event) list" where
  "demo_run = ev_connect 0 2 65 @ ev_subscribe 0 116 1 @ ev_connect 1 0 66 @ ev_subscribe 1 116 2 @ ev_connect 2 2 67 @
     [(0, EvWriteFail 1), (0, EvCloseBegin 1), (0, EvCloseFinish 1)]"

definition demo :: "unit Broker" where
  "demo = the (run_events open_env demo_run (boot None None None ()))"

lemma demo_reached: "reach (boot None None None ()) demo"
proof -
  have "run_events open_env demo_run (boot None None None () :: unit Broker) \<noteq> None" by code_simp
  then show ?thesis unfolding demo_def by (rule run_reaches)
qed

definition facts_of :: "'s Broker \<Rightarrow> bool \<times> bool \<times> (string \<times> nat) list \<times> bool \<times> (string \<times> octet) list" where
  "facts_of b = (Option.is_none (br_chain b), Option.is_none (os_tierConfig (br_offline b)), br_clients b, persistent ''B'' b,
     Match ''t'' (br_subscriptions b))"

lemma demo_facts: "facts_of demo = (True, True, [(''A'', 0), (''C'', 2)], True, [(''A'', 1), (''B'', 2)])"
  by code_simp

lemmas demo_simps = demo_facts [unfolded facts_of_def prod.inject]

text \<open>C2: In every state that the broker can reach from a start with any stored sessions, through any interleaving of
  connections, packets, write errors, closings, takeovers, messages and broadcasts of other nodes, reaper sweeps and
  clean-ups, with any plugins and any answers of the authorizer and the rate limiter: the subscription index has every
  subscription of every session that outlives its connection, with the granted quality of service, so no message for such a
  client is missed; a registered client is a connection under its own identifier that is not completely closed;
  and no channel holds more than 256 packets and no client has more than 20 messages in flight.\<close>

theorem broker_invariant:
  assumes "disk_ok store" and "reach (boot store cluster chain s) b"
  shows "(\<forall>c ses f q. map_of (br_sessions b) c = Some ses \<longrightarrow> s_ExpiryInterval ses \<noteq> 0 \<longrightarrow> map_of (s_Subscriptions ses) f = Some q \<longrightarrow>
       subs_of (br_subscriptions b) (c, f) = Some q) \<and>
    (\<forall>c h. map_of (br_clients b) c = Some h \<longrightarrow> (\<exists>cl. br_conns b h = Some cl \<and> cl_clientID cl = c \<and> cl_phase cl \<noteq> Finished)) \<and>
    (\<forall>h cl. br_conns b h = Some cl \<longrightarrow> length (cl_sendCh cl) \<le> 256 \<and> inflight_Count (cl_inflight cl) \<le> 20) \<and>
    broker_wf b"
proof -
  have w: "broker_wf b" using wf_reach [OF assms(2) wf_boot [OF assms(1)]] .
  then have core: "stores_wf b" "clients_ok b" "conns_ok b" by (simp_all add: broker_wf_def broker_core_def)
  show ?thesis
  proof (intro conjI allI impI)
    fix c ses f q
    assume "map_of (br_sessions b) c = Some ses" "s_ExpiryInterval ses \<noteq> 0" "map_of (s_Subscriptions ses) f = Some q"
    then show "subs_of (br_subscriptions b) (c, f) = Some q" using core(1) sess_okD(3) unfolding stores_wf_def by blast
  next
    fix c h assume "map_of (br_clients b) c = Some h"
    then show "\<exists>cl. br_conns b h = Some cl \<and> cl_clientID cl = c \<and> cl_phase cl \<noteq> Finished" by (rule clients_okD(2) [OF core(2)])
  next
    fix h cl assume "br_conns b h = Some cl"
    then have "conn_ok 20 cl" using core(1,3) by (simp add: conns_ok_def stores_wf_def)
    then show "length (cl_sendCh cl) \<le> 256" "inflight_Count (cl_inflight cl) \<le> 20"
      by (auto simp: conn_ok_def inflight_wf_def inflight_Count_def)
  qed (rule w)
qed

theorem broker_invariant_witness:
  "disk_ok None \<and> reach (boot None None None ()) demo \<and> map_of (br_clients demo) ''A'' = Some 0 \<and> broker_wf demo \<and>
    (\<exists>cl. br_conns demo 0 = Some cl \<and> cl_clientID cl = ''A'' \<and> inflight_Count (cl_inflight cl) \<le> 20)"
proof -
  have ok: "disk_ok None" by (simp add: disk_ok_def)
  have a: "map_of (br_clients demo) ''A'' = Some 0" using demo_simps by simp
  note i = broker_invariant [OF ok demo_reached]
  obtain cl where cl: "br_conns demo 0 = Some cl" "cl_clientID cl = ''A''" using i a by blast
  then have "inflight_Count (cl_inflight cl) \<le> 20" using i by blast
  then show ?thesis using ok a i cl demo_reached by blast
qed

end
