(* ===== verification/Routing.thy ===== *)
theory Routing
  imports BrokerInvariant
begin

section \<open>Who gets a message\<close>

text \<open>
  What \<^verbatim>\<open>routeMessage\<close> of the broker does in every state that can be reached: the exact set of connections, queues and
  nodes that get a message, and when the broker does not survive it.
\<close>

subsection \<open>Delivery to one connection\<close>

definition granted :: "string \<Rightarrow> string \<Rightarrow> 's Broker \<Rightarrow> octet option" where
  "granted topic c b = max_opt {q. \<exists>f. TopicMatch f topic \<and> subs_of (br_subscriptions b) (c, f) = Some q}"

text \<open>A connection that can take a message: its channel is open and not full, and a message may be put in flight.\<close>

definition ready :: "Client \<Rightarrow> bool" where
  "ready cl \<longleftrightarrow> \<not> ch_closed cl \<and> length (cl_sendCh cl) < 256 \<and> int (inflight_Count (cl_inflight cl)) < if_limit (cl_inflight cl)"

definition publish_bytes :: "string \<Rightarrow> octet list \<Rightarrow> octet \<Rightarrow> Client \<Rightarrow> octet list" where
  "publish_bytes topic payload q cl = publish_Encode (publish_packet topic payload q False (if q > 0 then Next (cl_packetIDs cl) else 0))"

definition delivered :: "int \<Rightarrow> string \<Rightarrow> octet list \<Rightarrow> octet \<Rightarrow> Client \<Rightarrow> Client" where
  "delivered now topic payload q cl =
     (let cl1 = (if q > 0
        then cl\<lparr>cl_packetIDs := Next (cl_packetIDs cl), cl_inflight := snd (inflight_Add
            \<lparr>if_PacketID = Next (cl_packetIDs cl), if_Topic = topic, if_Payload = payload, if_QoS = q, if_Timestamp = now\<rparr> (cl_inflight cl))\<rparr>
        else cl)
      in cl1\<lparr>cl_sendCh := cl_sendCh cl @ [publish_bytes topic payload q cl]\<rparr>)"

lemma deliverMessage_ready:
  assumes "br_conns b h = Some cl" and "ready cl"
  shows "deliverMessage now h topic payload q b = Some (set_conn h (delivered now topic payload q cl) b)"
  using assms by (auto simp: deliverMessage_def ready_def inflight_Add_def inflight_Count_def Let_def send_def set_conn_def ch_closed_def
      delivered_def publish_bytes_def word_gt_0)

lemma deliverMessage_closed:
  assumes "br_conns b h = Some cl" and "ch_closed cl" and "q = 0 \<or> int (inflight_Count (cl_inflight cl)) < if_limit (cl_inflight cl)"
  shows "deliverMessage now h topic payload q b = None"
  using assms by (auto simp: deliverMessage_def inflight_Add_def inflight_Count_def Let_def send_def set_conn_def ch_closed_def)

subsection \<open>Delivery to the clients that are connected\<close>

text \<open>The server always sets a chain of interceptors, which has no members if none are configured.\<close>

definition no_plugins :: "'s Broker \<Rightarrow> bool" where
  "no_plugins b \<longleftrightarrow> (case br_chain b of None \<Rightarrow> True | Some ch \<Rightarrow> ch = [])"

lemma no_plugins_cong: "br_chain b' = br_chain b \<Longrightarrow> no_plugins b' = no_plugins b"
  by (simp add: no_plugins_def)

lemma deliver_one_plain: "no_plugins b \<Longrightarrow> deliver_one now topic payload (h, c, q) b = deliverMessage now h topic payload q b"
proof (cases "br_chain b")
  case (Some ch)
  assume "no_plugins b"
  then have c: "br_chain b = Some []" using Some by (simp add: no_plugins_def)
  have e: "b\<lparr>br_chain := Some []\<rparr> = b" using c by (cases b) simp
  show ?thesis by (simp add: deliver_one_def OnDelivery_def c e)
qed (simp add: deliver_one_def)

lemma disconnect_hook_plain: "no_plugins b \<Longrightarrow> disconnect_hook cl b = b"
  by (auto simp: no_plugins_def disconnect_hook_def OnDisconnect_def split: option.splits)

lemma deliver_all:
  assumes "no_plugins b" and "distinct (map fst ds)" and "\<And>h c q. (h, c, q) \<in> set ds \<Longrightarrow> conn_is ready h b"
  shows "each (deliver_one now topic payload) ds b = Some (b\<lparr>br_conns := (\<lambda>h. case map_of ds h of
      None \<Rightarrow> br_conns b h | Some (c, q) \<Rightarrow> map_option (delivered now topic payload q) (br_conns b h))\<rparr>)"
  using assms
proof (induction ds arbitrary: b)
  case Nil
  then show ?case by simp
next
  case (Cons d ds)
  obtain h c q where d: "d = (h, c, q)" by (cases d)
  have "conn_is ready h b" using Cons.prems(3) [of h c q] d by simp
  then obtain cl where cl: "br_conns b h = Some cl" "ready cl" by (auto simp: conn_is_def split: option.splits)
  let ?b = "set_conn h (delivered now topic payload q cl) b"
  have n: "h \<notin> fst ` set ds" using Cons.prems(2) d by simp
  have o: "deliver_one now topic payload d b = Some ?b"
    using deliver_one_plain [OF Cons.prems(1)] deliverMessage_ready [OF cl] by (simp add: d)
  have r: "conn_is ready h' ?b" if "(h', c', q') \<in> set ds" for h' c' q'
  proof -
    have "h' \<noteq> h" using that n by force
    moreover have "conn_is ready h' b" using Cons.prems(3) [of h' c' q'] that by simp
    ultimately show ?thesis by (simp add: conn_is_def set_conn_def)
  qed
  have "each (deliver_one now topic payload) ds ?b = Some (?b\<lparr>br_conns := (\<lambda>h. case map_of ds h of
      None \<Rightarrow> br_conns ?b h | Some (c, q) \<Rightarrow> map_option (delivered now topic payload q) (br_conns ?b h))\<rparr>)"
    by (rule Cons.IH) (use Cons.prems r in \<open>simp_all add: set_conn_def no_plugins_def\<close>)
  moreover have "?b\<lparr>br_conns := (\<lambda>h. case map_of ds h of
      None \<Rightarrow> br_conns ?b h | Some (c, q) \<Rightarrow> map_option (delivered now topic payload q) (br_conns ?b h))\<rparr> =
    b\<lparr>br_conns := (\<lambda>h. case map_of (d # ds) h of
      None \<Rightarrow> br_conns b h | Some (c, q) \<Rightarrow> map_option (delivered now topic payload q) (br_conns b h))\<rparr>"
  proof -
    have "map_of ds h = None" using n by (simp add: map_of_eq_None_iff)
    then show ?thesis using cl by (auto simp: d set_conn_def fun_eq_iff split: option.split)
  qed
  ultimately show ?case using o by simp
qed

lemma deliver_closed:
  assumes "no_plugins b" and "(h, c, q) \<in> set ds" and "br_conns b h = Some cl" and "ch_closed cl"
    and "distinct (map fst ds)" and "q = 0 \<or> int (inflight_Count (cl_inflight cl)) < if_limit (cl_inflight cl)"
  shows "each (deliver_one now topic payload) ds b = None"
  using assms
proof (induction ds arbitrary: b)
  case (Cons d ds)
  show ?case
  proof (cases "d = (h, c, q)")
    case True
    then show ?thesis using deliver_one_plain [OF Cons.prems(1)] deliverMessage_closed [OF Cons.prems(3,4,6)] by simp
  next
    case False
    then have d: "(h, c, q) \<in> set ds" using Cons.prems(2) by simp
    obtain h' c' q' where x: "d = (h', c', q')" by (cases d)
    have ne: "h' \<noteq> h" using Cons.prems(5) d x by force
    show ?thesis
    proof (cases "deliver_one now topic payload d b")
      case (Some b1)
      then have m: "deliverMessage now h' topic payload q' b = Some b1" using deliver_one_plain [OF Cons.prems(1)] x by simp
      have "br_conns b1 h = br_conns b h \<and> br_chain b1 = br_chain b" using m ne
        by (auto simp: deliverMessage_def send_def set_conn_def Let_def split: option.splits if_splits prod.splits)
      then have "each (deliver_one now topic payload) ds b1 = None" using Cons.IH [of b1] Cons.prems d no_plugins_cong [of b1 b] by simp
      then show ?thesis using Some by simp
    qed simp
  qed
qed simp

subsection \<open>The lists that the router makes\<close>

lemma Match_granted: "stores_wf b \<Longrightarrow> map_of (Match topic (br_subscriptions b)) c = granted topic c b"
  by (simp add: granted_def Match_map stores_wf_def)

lemma deliveries_mem: "(h, c, q) \<in> set (deliveries qos b ms) \<longleftrightarrow> (\<exists>g. (c, g) \<in> set ms \<and> map_of (br_clients b) c = Some h \<and> q = effective qos g)"
  by (force simp: deliveries_def List.map_filter_def split: prod.splits)

lemma handles_inj: "clients_ok b \<Longrightarrow> map_of (br_clients b) c = Some h \<Longrightarrow> map_of (br_clients b) d = Some h \<Longrightarrow> c = d"
proof -
  assume a: "clients_ok b" "map_of (br_clients b) c = Some h" "map_of (br_clients b) d = Some h"
  obtain cl where "br_conns b h = Some cl" "cl_clientID cl = c" using clients_okD(2) [OF a(1,2)] by blast
  moreover obtain cl' where "br_conns b h = Some cl'" "cl_clientID cl' = d" using clients_okD(2) [OF a(1,3)] by blast
  ultimately show ?thesis by simp
qed

lemma deliveries_distinct:
  assumes "clients_ok b" and "distinct (map fst ms)"
  shows "distinct (map fst (deliveries qos b ms))"
  using assms(2)
proof (induction ms)
  case Nil
  then show ?case by (simp add: deliveries_def)
next
  case (Cons m ms)
  obtain c g where m: "m = (c, g)" by (cases m)
  have "h \<notin> fst ` set (deliveries qos b ms)" if h: "map_of (br_clients b) c = Some h" for h
  proof
    assume "h \<in> fst ` set (deliveries qos b ms)"
    then obtain d q where "(h, d, q) \<in> set (deliveries qos b ms)" by force
    then obtain g' where "(d, g') \<in> set ms" "map_of (br_clients b) d = Some h" by (auto simp: deliveries_mem)
    then show False using handles_inj [OF assms(1) h, of d] Cons.prems m by (simp add: image_iff) force
  qed
  then show ?case using Cons m by (simp add: deliveries_def List.map_filter_simps split: option.split)
qed

lemma map_of_deliveries:
  assumes "clients_ok b" and "distinct (map fst ms)" and "map_of (br_clients b) c = Some h"
  shows "map_of (deliveries qos b ms) h = map_option (\<lambda>g. (c, effective qos g)) (map_of ms c)"
proof (cases "map_of ms c")
  case None
  have "map_of (deliveries qos b ms) h = None"
  proof (rule ccontr)
    assume "map_of (deliveries qos b ms) h \<noteq> None"
    then obtain d q where "(h, d, q) \<in> set (deliveries qos b ms)" using map_of_SomeD by fast
    then obtain g where "(d, g) \<in> set ms" "map_of (br_clients b) d = Some h" unfolding deliveries_mem by blast
    then show False using handles_inj [OF assms(1,3), of d] None by (force simp: map_of_eq_None_iff)
  qed
  then show ?thesis using None by simp
next
  case (Some g)
  then have "(h, c, effective qos g) \<in> set (deliveries qos b ms)" unfolding deliveries_mem using assms(3) map_of_SomeD by fast
  then have "map_of (deliveries qos b ms) h = Some (c, effective qos g)"
    by (intro map_of_is_SomeI deliveries_distinct assms(1,2))
  then show ?thesis using Some by simp
qed

lemma map_of_deliveries_other:
  assumes "\<And>c. map_of (br_clients b) c \<noteq> Some h"
  shows "map_of (deliveries qos b ms) h = None"
proof (rule ccontr)
  assume "map_of (deliveries qos b ms) h \<noteq> None"
  then obtain d q where "(h, d, q) \<in> set (deliveries qos b ms)" using map_of_SomeD by fast
  then show False using assms unfolding deliveries_mem by blast
qed

subsection \<open>Queues of the clients that are not connected\<close>

text \<open>The queue of a client after one more message, with the bound of the store.\<close>

definition queued :: "int \<Rightarrow> OfflineStore \<Rightarrow> string \<Rightarrow> OfflineMessage \<Rightarrow> OfflineMessage list" where
  "queued now os c m = (let q = filter (unexpired now) (queue_of c os)
     in if int (length q) < os_maxPerClient os then q @ [stamp now os m] else q)"

lemma enqueue_one_queues:
  assumes "os_tierConfig (br_offline b) = None"
  shows "queue_of c (br_offline (enqueue_one now topic payload (d, q) b)) =
      (if c = d then queued now (br_offline b) d (offline_message topic payload q) else queue_of c (br_offline b))"
    and "os_tierConfig (br_offline (enqueue_one now topic payload (d, q) b)) = None"
    and "os_maxPerClient (br_offline (enqueue_one now topic payload (d, q) b)) = os_maxPerClient (br_offline b)"
    and "os_defaultTTL (br_offline (enqueue_one now topic payload (d, q) b)) = os_defaultTTL (br_offline b)"
proof -
  let ?r = "Enqueue now d (offline_message topic payload q) (br_offline b, br_disk b)"
  have e: "br_offline (enqueue_one now topic payload (d, q) b) = fst (snd ?r)"
    by (simp add: enqueue_one_def on_offline_def split: prod.split)
  note f = Enqueue_facts [where s = "(br_offline b, br_disk b)" and now = now and c = d and msg = "offline_message topic payload q", simplified, OF assms]
  show "queue_of c (br_offline (enqueue_one now topic payload (d, q) b)) =
      (if c = d then queued now (br_offline b) d (offline_message topic payload q) else queue_of c (br_offline b))"
    unfolding e f(2) by (simp add: f(1) queued_def Let_def)
  show "os_tierConfig (br_offline (enqueue_one now topic payload (d, q) b)) = None"
    "os_maxPerClient (br_offline (enqueue_one now topic payload (d, q) b)) = os_maxPerClient (br_offline b)"
    "os_defaultTTL (br_offline (enqueue_one now topic payload (d, q) b)) = os_defaultTTL (br_offline b)"
    unfolding e by (rule f)+
qed

lemma enqueue_all:
  assumes "os_tierConfig (br_offline b) = None" and "distinct (map fst ds)"
  shows "queue_of c (br_offline (fold (enqueue_one now topic payload) ds b)) =
    (case map_of ds c of None \<Rightarrow> queue_of c (br_offline b) | Some q \<Rightarrow> queued now (br_offline b) c (offline_message topic payload q))"
  using assms
proof (induction ds arbitrary: b)
  case (Cons d ds)
  obtain e q where d: "d = (e, q)" by (cases d)
  let ?b = "enqueue_one now topic payload d b"
  note n = enqueue_one_queues [OF Cons.prems(1), where now = now and topic = topic and payload = payload and d = e and q = q]
  have m: "map_of ds e = None" using Cons.prems(2) d by (simp add: map_of_eq_None_iff)
  have "stamp now (br_offline ?b) m = stamp now (br_offline b) m" for m
    using n(2,4) Cons.prems(1) unfolding d by (intro stamp_no_tier) simp_all
  then have q: "queued now (br_offline ?b) c m = queued now (br_offline b) c m" if "c \<noteq> e" for m
    using that n(1) [of c] n(3) unfolding d by (simp add: queued_def Let_def)
  have "queue_of c (br_offline (fold (enqueue_one now topic payload) ds ?b)) =
      (case map_of ds c of None \<Rightarrow> queue_of c (br_offline ?b) | Some q \<Rightarrow> queued now (br_offline ?b) c (offline_message topic payload q))"
    by (rule Cons.IH) (use Cons.prems n(2) d in simp_all)
  then show ?case using m n(1) [of c] q unfolding d by (cases "c = e") (auto split: option.splits)
qed simp

lemma enqueue_all_frame:
  "br_conns (fold (enqueue_one now topic payload) ds b) = br_conns b" "br_out (fold (enqueue_one now topic payload) ds b) = br_out b"
  "br_cluster (fold (enqueue_one now topic payload) ds b) = br_cluster b"
proof -
  have "br_conns (enqueue_one now topic payload d b) = br_conns b \<and> br_out (enqueue_one now topic payload d b) = br_out b \<and>
      br_cluster (enqueue_one now topic payload d b) = br_cluster b" for d and b :: "'a Broker"
    by (simp add: enqueue_one_def on_offline_def split: prod.split)
  then show "br_conns (fold (enqueue_one now topic payload) ds b) = br_conns b" "br_out (fold (enqueue_one now topic payload) ds b) = br_out b"
    "br_cluster (fold (enqueue_one now topic payload) ds b) = br_cluster b" by (induction ds arbitrary: b) simp_all
qed

lemma map_of_offlineDeliveries:
  assumes "distinct (map fst ms)"
  shows "map_of (offlineDeliveries qos b ms) c =
    (if map_of (br_clients b) c = None \<and> persistent c b then map_option (effective qos) (map_of ms c) else None)"
  using assms
proof (induction ms)
  case (Cons m ms)
  then show ?case by (cases m) (auto simp: offlineDeliveries_def)
qed (simp add: offlineDeliveries_def)

lemma offlineDeliveries_distinct: "distinct (map fst ms) \<Longrightarrow> distinct (map fst (offlineDeliveries qos b ms))"
  by (induction ms) (auto simp: offlineDeliveries_def rev_image_eqI)

subsection \<open>Routing\<close>

lemma routeMessage_result:
  assumes w: "broker_wf b" and ch: "no_plugins b"
    and rd: "\<And>c h. map_of (br_clients b) c = Some h \<Longrightarrow> granted topic c b \<noteq> None \<Longrightarrow> conn_is ready h b"
    and ms_def: "ms = Match topic (br_subscriptions b)"
    and b1_def: "b1 = b\<lparr>br_conns := (\<lambda>h. case map_of (deliveries qos b ms) h of
      None \<Rightarrow> br_conns b h | Some (c, q) \<Rightarrow> map_option (delivered now topic payload q) (br_conns b h))\<rparr>"
  shows "routeMessage now topic payload qos retain fwd b =
    Some (emit (forwards topic payload qos retain fwd b) (fold (enqueue_one now topic payload) (offlineDeliveries qos b ms) b1))"
proof -
  have core: "stores_wf b" "clients_ok b" using w by (simp_all add: broker_wf_def broker_core_def)
  have d: "distinct (map fst ms)" by (simp add: ms_def Match_distinct)
  have r: "conn_is ready h b" if x: "(h, c, q) \<in> set (deliveries qos b ms)" for h c q
  proof -
    obtain g where g: "(c, g) \<in> set ms" "map_of (br_clients b) c = Some h" using x unfolding deliveries_mem by blast
    then have "map_of ms c = Some g" using d by simp
    then show ?thesis using rd [OF g(2)] Match_granted [OF core(1), of topic c] by (simp add: ms_def)
  qed
  have "each (deliver_one now topic payload) (deliveries qos b ms) b = Some b1"
    unfolding b1_def by (rule deliver_all [OF ch deliveries_distinct [OF core(2) d] r])
  moreover have "forwards topic payload qos retain fwd (fold (enqueue_one now topic payload) ds b1) = forwards topic payload qos retain fwd b" for ds
    unfolding forwards_def enqueue_all_frame by (simp add: b1_def)
  ultimately show ?thesis by (simp add: routeMessage_def Let_def ms_def [symmetric])
qed

lemma delivered_channel:
  assumes "clients_ok b" and "distinct (map fst ms)" and "map_of (br_clients b) c = Some h" and "br_conns b h = Some cl"
  shows "map_option cl_sendCh (case map_of (deliveries qos b ms) h of
      None \<Rightarrow> br_conns b h | Some (c, q) \<Rightarrow> map_option (delivered now topic payload q) (br_conns b h)) =
    Some (cl_sendCh cl @ (case map_of ms c of None \<Rightarrow> [] | Some q \<Rightarrow> [publish_bytes topic payload (effective qos q) cl]))"
  using assms(4) map_of_deliveries [OF assms(1-3), of qos] by (cases "map_of ms c") (simp_all add: delivered_def Let_def)

subsection \<open>The state of the concrete run\<close>

lemma demo_wf: "broker_wf demo"
  by (rule wf_reach [OF demo_reached wf_boot]) (simp add: disk_ok_def)

lemma demo_ready: "conn_is ready 0 demo \<and> conn_is ready 2 demo"
  by code_simp

lemma demo_granted: "granted ''t'' c demo = map_of [(''A'', 1), (''B'', 2)] c"
  using Match_granted [of demo "''t''" c] demo_wf demo_simps by (simp add: broker_wf_def broker_core_def)

lemma demo_none: "no_plugins demo" "os_tierConfig (br_offline demo) = None"
  using demo_simps by (simp_all add: Option.is_none_def no_plugins_def)





end
