(* ===== verification/BrokerRecovery.thy ===== *)
theory BrokerRecovery
  imports BrokerInvariant
begin

section \<open>What survives a restart of the broker\<close>

text \<open>
  The theories \<open>Stores\<close> and \<open>Offline\<close> show that the database mirrors each store after any calls of its
  operations.  Here the calls are those that the handlers of the broker make, on one database that all stores share.
\<close>

subsection \<open>The queues have keys of their own\<close>

definition om_only :: "disk option \<Rightarrow> disk option \<Rightarrow> bool" where
  "om_only a b = (case (a, b) of
     (None, None) \<Rightarrow> True
   | (Some x, Some y) \<Rightarrow> db_wf x \<longrightarrow> db_wf y \<and> (\<forall>k. \<not> str_prefix ''o'' k \<longrightarrow> store_Get k y = store_Get k x)
   | _ \<Rightarrow> False)"

lemma om_only_refl [simp]: "om_only a a"
  by (simp add: om_only_def split: option.split)

lemma om_only_trans: "om_only a b \<Longrightarrow> om_only b c \<Longrightarrow> om_only a c"
  by (auto simp: om_only_def split: option.splits)

lemma om_only_set: "str_prefix ''o'' k \<Longrightarrow> om_only (Some d) (Some (store_Set k v d))"
  by (auto simp: om_only_def pebble.wf_put pebble.get_put)

lemma om_only_del: "str_prefix ''o'' k \<Longrightarrow> om_only (Some d) (Some (store_Delete k d))"
  by (auto simp: om_only_def pebble.wf_del pebble.get_del)

lemma om_keys: "str_prefix ''o'' (''om-seq/'' @ c)" "str_prefix ''o'' (om_key c n)"
  by (simp_all add: om_key_def)

lemma om_only_delete_prefix: "om_only (Some d) (Some (delete_prefix (''om/'' @ c) d))"
proof -
  have "\<not> str_prefix ''o'' k \<Longrightarrow> \<not> str_prefix (''om/'' @ c) k" for k by (cases k) simp_all
  then show ?thesis by (simp add: om_only_def delete_prefix_get delete_all_wf) (simp add: delete_prefix_def delete_all_wf)
qed

lemma om_only_persist: "om_only (snd s) (snd (persistMessage c m s))"
proof (cases "snd s")
  case (Some d)
  have "om_only (Some d) (Some (store_Set (''om-seq/'' @ c) w (store_Set (om_key c n) v d)))" for n v w
    by (rule om_only_trans [OF om_only_set om_only_set]) (rule om_keys)+
  then show ?thesis using Some by (simp add: persistMessage_def Let_def)
qed (simp add: persistMessage_def)

lemma om_only_persist_all: "om_only (snd s) (snd (fold (persistMessage c) q s))"
proof (induction q arbitrary: s)
  case (Cons m q)
  show ?case using om_only_trans [OF om_only_persist [of s c m] Cons.IH [of "persistMessage c m s"]] by simp
qed simp

lemma om_only_clear: "om_only (snd s) (snd (clearPebbleMessages c s))"
proof (cases "snd s")
  case (Some d)
  let ?s1 = "((fst s)\<lparr>os_seqNums := AList.update c 0 (os_seqNums (fst s))\<rparr>, Some (delete_prefix (''om/'' @ c @ ''/'') d))"
  have a: "om_only (Some d) (snd (fold (persistMessage c) (queue_of c (fst s)) ?s1))"
    using om_only_trans [OF om_only_delete_prefix [of d "c @ ''/''"] om_only_persist_all [of ?s1 c, unfolded snd_conv]] by simp
  have "om_only (Some d) (Some (store_Delete (''om-seq/'' @ c) (delete_prefix (''om/'' @ c @ ''/'') d)))"
    by (rule om_only_trans [OF om_only_delete_prefix om_only_del]) (rule om_keys)
  then show ?thesis using Some a by (simp add: clearPebbleMessages_def Let_def)
qed (simp add: clearPebbleMessages_def)

lemma om_only_Enqueue: "om_only (snd s) (snd (snd (Enqueue now c m s)))"
  using om_only_clear [of "(x, snd s)" c for x] by (simp add: Enqueue_def Let_def split: option.split)

lemma om_only_Dequeue: "om_only (snd s) (snd (snd (Dequeue now c n s)))"
  using om_only_clear [of "(x, snd s)" c for x] by (simp add: Dequeue_def Let_def split: option.split)

lemma om_only_RemoveAll: "om_only (snd s) (snd (offline_RemoveAll c s))"
proof (cases "snd s")
  case (Some d)
  then show ?thesis
    using om_only_trans [OF om_only_delete_prefix [of d "c @ ''/''"] om_only_del [OF om_keys(1)]]
    by (simp add: offline_RemoveAll_def removeAllPebble_def)
qed (simp add: offline_RemoveAll_def removeAllPebble_def)

subsection \<open>The database mirrors the stores of the broker\<close>

definition image_of :: "'s Broker \<Rightarrow> WillStore \<Rightarrow> disk \<Rightarrow> stores" where
  "image_of b ws d = \<lparr>st_retained = br_retain b, st_sessions = br_sessions b, st_wills = ws, st_disk = d\<rparr>"

definition mirrored :: "'s Broker \<Rightarrow> bool" where
  "mirrored b \<longleftrightarrow> br_disk b \<noteq> None \<and> br_wills b \<noteq> None \<and>
     (\<forall>d ws. br_disk b = Some d \<longrightarrow> br_wills b = Some ws \<longrightarrow> stores_ok (image_of b ws d))"

text \<open>The handlers of SUBSCRIBE and UNSUBSCRIBE change a session filter by filter and save it at the end.\<close>

definition mirrored_but :: "string \<Rightarrow> 's Broker \<Rightarrow> bool" where
  "mirrored_but c b \<longleftrightarrow> (\<exists>ss. mirrored (b\<lparr>br_sessions := ss\<rparr>) \<and> (\<forall>k. k \<noteq> c \<longrightarrow> map_of ss k = map_of (br_sessions b) k) \<and>
     (map_of ss c = None \<longleftrightarrow> map_of (br_sessions b) c = None) \<and> (\<forall>s. br_disk b \<noteq> None \<longrightarrow> map_of (br_sessions b) c = Some s \<longrightarrow> s_ClientID s = c))"

definition same_store :: "'s Broker \<Rightarrow> 's Broker \<Rightarrow> bool" where
  "same_store b b' \<longleftrightarrow> br_retain b' = br_retain b \<and> br_sessions b' = br_sessions b \<and> br_wills b' = br_wills b \<and> br_disk b' = br_disk b"

lemma same_store_refl: "same_store b b"
  by (simp add: same_store_def)

lemma same_store_trans: "same_store a b \<Longrightarrow> same_store b c \<Longrightarrow> same_store a c"
  by (simp add: same_store_def)

lemma mirrored_same: "mirrored b \<Longrightarrow> same_store b b' \<Longrightarrow> mirrored b'"
  by (simp add: mirrored_def same_store_def image_of_def)

lemma same_store_simps [simp]:
  "same_store b (set_conn h cl b)" "same_store b (b\<lparr>br_clients := x\<rparr>)" "same_store b (b\<lparr>br_conns := y\<rparr>)" "same_store b (emit os b)"
  "same_store b (b\<lparr>br_subscriptions := idx\<rparr>)" "same_store b (b\<lparr>br_dedup := dd\<rparr>)" "same_store b (close_conn h b)"
  "same_store b (BroadcastConnect c b)" "same_store b (BroadcastDisconnect c b)" "same_store b (BroadcastUnsubscribe f b)"
  "same_store b (BroadcastSubscribe f q b)" "same_store b (registerClient h c b)" "same_store b (unregisterClient h c b)"
  "same_store b (disconnect_hook cl b)" "same_store b (b\<lparr>br_chain := ch, br_plugins := s\<rparr>)" "same_store b (b\<lparr>br_cluster := cv\<rparr>)"
  "same_store b (write_one h b)" "same_store b (close_begin h b)" "same_store b (accept_one e h ptr addr b)"
  by (simp_all add: same_store_def set_conn_def emit_def close_conn_def BroadcastConnect_def BroadcastDisconnect_def BroadcastUnsubscribe_def
      BroadcastSubscribe_def registerClient_def unregisterClient_def disconnect_hook_def write_one_def close_begin_def accept_one_def
      split: option.split list.split)

lemma same_store_send: "send h data b = Some b' \<Longrightarrow> same_store b b'"
  by (auto simp: send_def set_conn_def same_store_def split: option.splits if_splits)

lemma same_store_deliver: "deliverMessage now h topic payload q b = Some b' \<Longrightarrow> same_store b b'"
  by (auto simp: deliverMessage_def send_def set_conn_def same_store_def Let_def split: option.splits if_splits prod.splits)

lemma same_store_each: "(\<And>x b b'. f x b = Some b' \<Longrightarrow> same_store b b') \<Longrightarrow> each f xs b = Some b' \<Longrightarrow> same_store b b'"
proof (induction xs arbitrary: b)
  case (Cons x xs)
  obtain b1 where b1: "f x b = Some b1" "each f xs b1 = Some b'" using Cons.prems(2) by (auto simp: bind_eq_Some_conv)
  show ?case by (rule same_store_trans [OF Cons.prems(1) [OF b1(1)] Cons.IH [OF Cons.prems(1) b1(2)]])
qed (simp add: same_store_refl)

lemma same_store_deliver_one: "deliver_one now topic payload x b = Some b' \<Longrightarrow> same_store b b'"
  by (cases x) (auto simp: deliver_one_def Let_def same_store_def split: option.splits prod.splits if_splits dest!: same_store_deliver)

lemma same_store_sendDisconnect: "sendDisconnectAndClose h r b = Some b' \<Longrightarrow> same_store b b'"
  by (auto simp: sendDisconnectAndClose_def bind_eq_Some_conv same_store_refl split: option.splits if_splits
      intro: same_store_trans [OF same_store_send])

lemma same_store_disconnectExisting: "disconnectExisting c b = Some b' \<Longrightarrow> same_store b b'"
  by (auto simp: disconnectExisting_def same_store_refl split: option.splits
      dest!: same_store_sendDisconnect intro: same_store_trans [OF same_store_simps(2)])

lemma same_store_connect_hook: "connect_hook now c pkt addr b = (err, b') \<Longrightarrow> same_store b b'"
  by (auto simp: connect_hook_def same_store_def split: option.splits prod.splits)

subsection \<open>The operations of the stores\<close>

lemma mirrored_retain:
  assumes "mirrored b"
  shows "mirrored (on_retain (retain_Set t p q) b)"
proof (cases "br_disk b")
  case (Some d)
  then obtain ws where ws: "br_wills b = Some ws" "stores_ok (image_of b ws d)" using assms by (auto simp: mirrored_def)
  show ?thesis using Some ws(1) stores_ok_step [OF ws(2), of "OpRetain t p q"]
    by (auto simp: mirrored_def on_retain_def image_of_def retain_Set_def)
qed (use assms in \<open>auto simp: mirrored_def on_retain_def retain_Set_def\<close>)

lemma mirrored_session:
  assumes "mirrored b" and "\<And>s. stores_ok s \<Longrightarrow> stores_ok (on_sessions f s)" and "\<And>ss d. snd (f (ss, d)) = None \<longleftrightarrow> d = None"
  shows "mirrored (on_session f b)"
proof (cases "br_disk b")
  case (Some d)
  then obtain ws where ws: "br_wills b = Some ws" "stores_ok (image_of b ws d)" using assms(1) by (auto simp: mirrored_def)
  obtain ss d' where f: "f (br_sessions b, Some d) = (ss, Some d')" using assms(3) [of "br_sessions b" "Some d"]
    by (cases "f (br_sessions b, Some d)") auto
  show ?thesis using Some ws(1) assms(2) [OF ws(2)] f by (simp add: mirrored_def on_session_def image_of_def on_sessions_def)
next
  case None
  then show ?thesis using assms(1) assms(3) [of "br_sessions b" None]
    by (cases "f (br_sessions b, None)") (auto simp: mirrored_def on_session_def)
qed

lemma mirrored_create: "mirrored b \<Longrightarrow> mirrored (on_session (session_Create c cs e) b)"
  by (rule mirrored_session) (use stores_ok_step [of _ "OpCreateSession c cs e"] in \<open>simp_all add: session_Create_def session_persist_def Let_def\<close>)

lemma mirrored_mark: "mirrored b \<Longrightarrow> mirrored (on_session (MarkDisconnected t c) b)"
  by (rule mirrored_session) (use stores_ok_step [of _ "OpMarkDisconnected t c"] in
      \<open>simp_all add: MarkDisconnected_def session_persist_def Let_def split: option.split\<close>)

lemma mirrored_remove: "mirrored b \<Longrightarrow> mirrored (on_session (session_Remove c) b)"
  by (rule mirrored_session) (use stores_ok_step [of _ "OpRemoveSession c"] in \<open>simp_all add: session_Remove_def\<close>)

lemma mirrored_wills:
  assumes "mirrored b" and "\<And>s. stores_ok s \<Longrightarrow> stores_ok (case f (st_wills s, st_disk s) of (ws, d) \<Rightarrow> s\<lparr>st_wills := ws, st_disk := d\<rparr>)"
  shows "mirrored (on_wills f b)"
proof (cases "br_disk b")
  case (Some d)
  then obtain ws where ws: "br_wills b = Some ws" "stores_ok (image_of b ws d)" using assms(1) by (auto simp: mirrored_def)
  obtain ws' d' where f: "f (ws, d) = (ws', d')" by (cases "f (ws, d)")
  show ?thesis using Some ws(1) assms(2) [OF ws(2)] f by (simp add: mirrored_def on_wills_def image_of_def)
next
  case None
  then show ?thesis using assms(1) by (simp add: mirrored_def on_wills_def split: option.split)
qed

lemma mirrored_will_Delete: "mirrored b \<Longrightarrow> mirrored (on_wills (will_Delete c) b)"
  by (rule mirrored_wills) (use stores_ok_step [of _ "OpDeleteWill c"] in simp_all)

lemma mirrored_will_Set: "mirrored b \<Longrightarrow> mirrored (on_wills (will_Set c w) b)"
  by (rule mirrored_wills) (use stores_ok_step [of _ "OpSetWill c w"] in simp_all)

lemma stores_ok_om_only: "stores_ok (image_of b ws d) \<Longrightarrow> om_only (Some d) (Some d') \<Longrightarrow> stores_ok (image_of b ws d')"
  by (simp add: stores_ok_def image_of_def om_only_def pebble.mirrors_def)

lemma mirrored_om_only:
  assumes "mirrored b" and "om_only (br_disk b) d'"
  shows "mirrored (b\<lparr>br_offline := os, br_disk := d'\<rparr>)"
proof (cases "br_disk b")
  case (Some d)
  then obtain ws where ws: "br_wills b = Some ws" "stores_ok (image_of b ws d)" using assms(1) by (auto simp: mirrored_def)
  obtain e where e: "d' = Some e" using assms(2) Some by (auto simp: om_only_def split: option.splits)
  show ?thesis using stores_ok_om_only [OF ws(2), of e] assms(2) Some e ws(1) by (simp add: mirrored_def image_of_def)
next
  case None
  then have "d' = None" using assms(2) by (auto simp: om_only_def split: option.splits)
  then show ?thesis using assms(1) None by (simp add: mirrored_def)
qed

lemma mirrored_offline:
  assumes "mirrored b" and "\<And>s. om_only (snd s) (snd (f s))"
  shows "mirrored (on_offline f b)"
  using mirrored_om_only [OF assms(1), of "snd (f (br_offline b, br_disk b))"] assms(2) [of "(br_offline b, br_disk b)"]
  by (simp add: on_offline_def case_prod_unfold)

lemma mirrored_enqueue_all: "mirrored b \<Longrightarrow> mirrored (fold (enqueue_one now topic payload) ds b)"
proof (induction ds arbitrary: b)
  case (Cons x ds)
  have "mirrored (enqueue_one now topic payload x b)" unfolding enqueue_one_def
    by (rule mirrored_offline [OF Cons.prems]) (simp add: om_only_Enqueue)
  then show ?case using Cons.IH by simp
qed simp

subsection \<open>The subscriptions of a session\<close>

lemma mirrored_but_start:
  assumes "mirrored b"
  shows "mirrored_but c b"
proof -
  have "s_ClientID s = c" if "br_disk b \<noteq> None" "map_of (br_sessions b) c = Some s" for s
    using assms that by (auto simp: mirrored_def stores_ok_def image_of_def)
  then show ?thesis unfolding mirrored_but_def using assms by (intro exI [of _ "br_sessions b"]) simp
qed

lemma mirrored_but_same: "mirrored_but c b \<Longrightarrow> same_store b b' \<Longrightarrow> mirrored_but c b'"
  by (auto simp: mirrored_but_def mirrored_def same_store_def image_of_def)

lemma mirrored_but_edit:
  assumes "mirrored_but c b" and "\<And>s. s_ClientID (f s) = s_ClientID s"
  shows "mirrored_but c (b\<lparr>br_sessions := edit_session c f (br_sessions b)\<rparr>)"
proof -
  obtain ss where ss: "mirrored (b\<lparr>br_sessions := ss\<rparr>)" "\<forall>k. k \<noteq> c \<longrightarrow> map_of ss k = map_of (br_sessions b) k"
      "map_of ss c = None \<longleftrightarrow> map_of (br_sessions b) c = None" "\<forall>s. br_disk b \<noteq> None \<longrightarrow> map_of (br_sessions b) c = Some s \<longrightarrow> s_ClientID s = c"
    using assms(1) unfolding mirrored_but_def by (elim exE conjE) (rule that)
  show ?thesis
  proof (cases "map_of (br_sessions b) c")
    case None
    then have "edit_session c f (br_sessions b) = br_sessions b" by (simp add: edit_session_def)
    then show ?thesis using assms(1) by simp
  next
    case (Some s)
    then have "map_of (edit_session c f (br_sessions b)) = (map_of (br_sessions b))(c \<mapsto> f s)" by (simp add: edit_session_map)
    then show ?thesis unfolding mirrored_but_def using ss Some by (intro exI [of _ ss]) (simp add: assms(2) del: map_of_eq_Some_iff)
  qed
qed

lemma stores_ok_sessions_cong: "stores_ok (image_of b ws d) \<Longrightarrow> map_of ss = map_of (br_sessions b) \<Longrightarrow> stores_ok (image_of (b\<lparr>br_sessions := ss\<rparr>) ws d)"
  by (simp add: stores_ok_def image_of_def)

lemma mirrored_save:
  assumes "mirrored_but c b"
  shows "mirrored (on_session (session_Save c) b)"
proof -
  obtain ss where ss: "mirrored (b\<lparr>br_sessions := ss\<rparr>)" "\<forall>k. k \<noteq> c \<longrightarrow> map_of ss k = map_of (br_sessions b) k"
      "map_of ss c = None \<longleftrightarrow> map_of (br_sessions b) c = None" "\<forall>s. br_disk b \<noteq> None \<longrightarrow> map_of (br_sessions b) c = Some s \<longrightarrow> s_ClientID s = c"
    using assms unfolding mirrored_but_def by (elim exE conjE) (rule that)
  show ?thesis
  proof (cases "br_disk b")
    case None
    then show ?thesis using ss(1)
      by (auto simp: mirrored_def on_session_def session_Save_def session_persist_def split: option.splits)
  next
    case (Some d)
    then obtain ws where ws: "br_wills b = Some ws" "stores_ok (image_of (b\<lparr>br_sessions := ss\<rparr>) ws d)" using ss(1) by (auto simp: mirrored_def)
    show ?thesis
    proof (cases "map_of (br_sessions b) c")
      case None
      then have "map_of (br_sessions b) k = map_of ss k" for k using ss(2,3) by (cases "k = c") simp_all
      then have "map_of (br_sessions b) = map_of ss" by (rule ext)
      then have "stores_ok (image_of b ws d)" using stores_ok_sessions_cong [OF ws(2), of "br_sessions b"] by (simp add: image_of_def)
      then show ?thesis using None Some ws(1) by (simp add: mirrored_def on_session_def session_Save_def image_of_def)
    next
      case (Some s)
      then have "map_of (br_sessions b) = map_of (AList.update c s ss)" using ss(2) by (auto simp: update_conv')
      moreover have "stores_ok (image_of (b\<lparr>br_sessions := AList.update c s ss\<rparr>) ws (store_Set (''s/'' @ c) (StoredSession s) d))"
        using stores_ok_session_write [OF ws(2), of s c] ss(4) Some \<open>br_disk b = Some d\<close> by (simp add: image_of_def)
      ultimately have "stores_ok (image_of b ws (store_Set (''s/'' @ c) (StoredSession s) d))"
        using stores_ok_sessions_cong [where b = "b\<lparr>br_sessions := AList.update c s ss\<rparr>" and ss = "br_sessions b"] by (simp add: image_of_def)
      then show ?thesis using Some \<open>br_disk b = Some d\<close> ws(1)
        by (simp add: mirrored_def on_session_def session_Save_def session_persist_def image_of_def)
    qed
  qed
qed

lemma mirrored_subscribe_one:
  assumes "mirrored_but (cl_clientID cl) b" and "subscribe_one e now cl i sub b = (code, b')"
  shows "mirrored_but (cl_clientID cl) b'"
proof -
  let ?c = "cl_clientID cl"
  have put: "mirrored_but ?c (BroadcastSubscribe f q (b1\<lparr>br_subscriptions := idx, br_sessions := edit_session ?c (SetSubscription f q) (br_sessions b1)\<rparr>))"
    if m: "mirrored_but ?c b1" for f q idx and b1 :: "'a Broker"
  proof -
    have "mirrored_but ?c (b1\<lparr>br_subscriptions := idx\<rparr>)" by (rule mirrored_but_same [OF m]) simp
    then have "mirrored_but ?c (b1\<lparr>br_subscriptions := idx, br_sessions := edit_session ?c (SetSubscription f q) (br_sessions b1)\<rparr>)"
      using mirrored_but_edit [of ?c "b1\<lparr>br_subscriptions := idx\<rparr>" "SetSubscription f q"] by (simp add: SetSubscription_def)
    then show ?thesis by (rule mirrored_but_same) simp
  qed
  have hook: "mirrored_but ?c (b\<lparr>br_chain := ch, br_plugins := s\<rparr>)" for ch s by (rule mirrored_but_same [OF assms(1)]) simp
  show ?thesis
  proof (cases "br_chain b")
    case None
    then show ?thesis using assms put [OF assms(1)] by (auto simp: subscribe_one_def Let_def split: if_splits)
  next
    case (Some ch)
    let ?q = "if sb_QoS sub > 2 then 2 else sb_QoS sub"
    obtain err ch' s evt r where o: "OnSubscribe now ch (br_plugins b)
        \<lparr>se_Client = ?c, se_TopicFilter = sb_TopicFilter sub, se_SubQoS = ?q\<rparr> = (err, ch', s, evt, r)" by (rule prod_cases5)
    then show ?thesis using assms Some hook [where ch = "Some ch'" and s = s]
        put [OF hook [where ch = "Some ch'" and s = s], of "se_TopicFilter evt" "se_SubQoS evt" "Add ?c (se_TopicFilter evt) (se_SubQoS evt) (br_subscriptions b)"]
      by (simp add: subscribe_one_def Let_def split: if_splits) (elim conjE, simp)+
  qed
qed

lemma mirrored_subscribe_all:
  "mirrored_but (cl_clientID cl) b \<Longrightarrow> subscribe_all e now cl i subs b = (codes, b') \<Longrightarrow> mirrored_but (cl_clientID cl) b'"
proof (induction subs arbitrary: i b codes)
  case (Cons sub subs)
  obtain code b1 where b1: "subscribe_one e now cl i sub b = (code, b1)" by fastforce
  obtain codes' where "subscribe_all e now cl (i + 1) subs b1 = (codes', b')" using Cons.prems(2) b1 by (auto split: prod.splits)
  then show ?case by (rule Cons.IH [OF mirrored_subscribe_one [OF Cons.prems(1) b1]])
qed simp

lemma mirrored_unsubscribe_one:
  assumes "mirrored_but (cl_clientID cl) b"
  shows "mirrored_but (cl_clientID cl) (unsubscribe_one now cl f b)"
proof -
  let ?c = "cl_clientID cl"
  have put: "mirrored_but ?c (let b2 = BroadcastUnsubscribe f (b1\<lparr>br_subscriptions := idx\<rparr>) in
      b2\<lparr>br_sessions := edit_session ?c (RemoveSubscription f) (br_sessions b2)\<rparr>)"
    if m: "mirrored_but ?c b1" for f idx and b1 :: "'a Broker"
  proof -
    have "mirrored_but ?c (BroadcastUnsubscribe f (b1\<lparr>br_subscriptions := idx\<rparr>))"
      by (rule mirrored_but_same [OF m]) (simp add: same_store_def BroadcastUnsubscribe_def emit_def split: option.split)
    then show ?thesis unfolding Let_def by (rule mirrored_but_edit) (simp add: RemoveSubscription_def)
  qed
  have hook: "mirrored_but ?c (b\<lparr>br_chain := ch, br_plugins := s\<rparr>)" for ch s by (rule mirrored_but_same [OF assms(1)]) simp
  show ?thesis
  proof (cases "br_chain b")
    case None
    then show ?thesis using put [OF assms] by (simp add: unsubscribe_one_def Let_def)
  next
    case (Some ch)
    obtain err ch' s evt r where "OnUnsubscribe now ch (br_plugins b) \<lparr>ue_ClientID = ?c, ue_TopicFilter = f\<rparr> = (err, ch', s, evt, r)"
      by (rule prod_cases5)
    then show ?thesis using Some hook [where ch = "Some ch'" and s = s]
        put [OF hook [where ch = "Some ch'" and s = s], of "ue_TopicFilter evt" "Remove ?c (ue_TopicFilter evt) (br_subscriptions b)"]
      by (simp add: unsubscribe_one_def Let_def)
  qed
qed

subsection \<open>The handlers\<close>

lemma mirrored_route:
  assumes "mirrored b" and "routeMessage now topic payload qos retain fwd b = Some b'"
  shows "mirrored b'"
proof -
  let ?ms = "Match topic (br_subscriptions b)"
  obtain b1 where b1: "each (deliver_one now topic payload) (deliveries qos b ?ms) b = Some b1"
    and b': "b' = emit (forwards topic payload qos retain fwd (fold (enqueue_one now topic payload) (offlineDeliveries qos b ?ms) b1))
      (fold (enqueue_one now topic payload) (offlineDeliveries qos b ?ms) b1)"
    using assms(2) by (auto simp: routeMessage_def Let_def bind_eq_Some_conv)
  have "mirrored b1" by (rule mirrored_same [OF assms(1) same_store_each [OF same_store_deliver_one b1]])
  then have "mirrored (fold (enqueue_one now topic payload) (offlineDeliveries qos b ?ms) b1)" by (rule mirrored_enqueue_all)
  then show ?thesis unfolding b' by (rule mirrored_same) simp
qed

lemma mirrored_send: "mirrored b \<Longrightarrow> send h data b = Some b' \<Longrightarrow> mirrored b'"
  by (rule mirrored_same [OF _ same_store_send])

lemma mirrored_acknowledge:
  assumes "mirrored b" and "acknowledge now h c qos pid b = Some (go, b')"
  shows "mirrored b'"
proof -
  have "same_store b b'" using assms(2)
    by (auto simp: acknowledge_def bind_eq_Some_conv same_store_refl split: if_splits prod.splits bool.splits
        dest!: same_store_send intro: same_store_trans [OF same_store_simps(6)])
  then show ?thesis by (rule mirrored_same [OF assms(1)])
qed

lemma mirrored_publish:
  assumes "mirrored b" and "handlePublish e now h fh data b = Some b'"
  shows "mirrored b'"
proof (cases "br_conns b h")
  case (Some cl)
  show ?thesis
  proof (cases "DecodePublishPacket data (QoS fh) 4")
    case (Inl x)
    then show ?thesis using assms Some by (simp add: handlePublish_def)
  next
    case (Inr pkt)
    obtain go b1 where a: "acknowledge now h (cl_clientID cl) (QoS fh) (pp_PacketID pkt) b = Some (go, b1)"
      using assms(2) Some Inr by (auto simp: handlePublish_def bind_eq_Some_conv)
    note m1 = mirrored_acknowledge [OF assms(1) a]
    define b2 where "b2 = (if Retain fh then on_retain (retain_Set (pp_Topic pkt) (pp_Payload pkt) (QoS fh)) b1 else b1)"
    have m2: "mirrored b2" using m1 by (simp add: b2_def mirrored_retain)
    have hook: "mirrored (b2\<lparr>br_chain := ch, br_plugins := s\<rparr>)" for ch s by (rule mirrored_same [OF m2]) simp
    show ?thesis using assms(2) Some Inr a m1 mirrored_route [OF m2] mirrored_route [OF hook] hook
      by (auto simp: handlePublish_def Let_def b2_def [symmetric] split: if_splits option.splits prod.splits)
  qed
qed (use assms(2) in \<open>simp add: handlePublish_def\<close>)

lemma mirrored_subscribe:
  assumes "mirrored b" and "handleSubscribe e now h data b = Some b'"
  shows "mirrored b'"
proof (cases "br_conns b h")
  case (Some cl)
  show ?thesis
  proof (cases "DecodeSubscribePacket data (cl_protocolVersion cl)")
    case (Inl x)
    then show ?thesis using assms Some by (simp add: handleSubscribe_def)
  next
    case (Inr pkt)
    obtain codes b1 where a: "subscribe_all e now cl 0 (sp_Subscriptions pkt) b = (codes, b1)" by fastforce
    let ?b2 = "on_session (session_Save (cl_clientID cl)) b1"
    obtain p b3 where b3: "send h p ?b2 = Some b3" "each (\<lambda>sub. send_retained h (sb_TopicFilter sub)) (sp_Subscriptions pkt) b3 = Some b'"
      using assms(2) Some Inr a by (auto simp: handleSubscribe_def Let_def bind_eq_Some_conv)
    have "mirrored ?b2" by (rule mirrored_save [OF mirrored_subscribe_all [OF mirrored_but_start [OF assms(1)] a]])
    then have "mirrored b3" by (rule mirrored_send) (rule b3(1))
    moreover have "same_store b3 b'"
      by (rule same_store_each [OF _ b3(2)]) (unfold send_retained_def, rule same_store_each [OF same_store_send])
    ultimately show ?thesis by (rule mirrored_same)
  qed
qed (use assms(2) in \<open>simp add: handleSubscribe_def\<close>)

lemma mirrored_unsubscribe:
  assumes "mirrored b" and "handleUnsubscribe now h data b = Some b'"
  shows "mirrored b'"
proof (cases "br_conns b h")
  case (Some cl)
  have u: "mirrored_but (cl_clientID cl) (fold (unsubscribe_one now cl) fs b1)" if "mirrored_but (cl_clientID cl) b1" for fs and b1 :: "'a Broker"
    using that by (induction fs arbitrary: b1) (simp_all add: mirrored_unsubscribe_one)
  show ?thesis
  proof (cases "DecodeUnsubscribePacket data (cl_protocolVersion cl)")
    case (Inr pkt)
    show ?thesis
      by (rule mirrored_send [OF mirrored_save [OF u [OF mirrored_but_start [OF assms(1)]]]])
        (use assms(2) Some Inr in \<open>simp add: handleUnsubscribe_def Let_def\<close>)
  qed (use assms Some in \<open>simp add: handleUnsubscribe_def\<close>)
qed (use assms(2) in \<open>simp add: handleUnsubscribe_def\<close>)

lemma mirrored_packet:
  assumes "mirrored b" and "serve_packet e now h fh data b = Some b'"
  shows "mirrored b'"
proof -
  have ack: "mirrored b'" if "handlePuback h data b = Some b' \<or> handlePubrec h data b = Some b' \<or> handlePubrel h data b = Some b'"
  proof (rule mirrored_same [OF assms(1)])
    show "same_store b b'" using that
      by (auto simp: handlePuback_def handlePubrec_def handlePubrel_def same_store_refl split: option.splits sum.splits dest!: same_store_send
          intro: same_store_trans [OF same_store_simps(1)] same_store_trans [OF same_store_simps(6)])
  qed
  have dis: "mirrored (handleDisconnect h data b)"
  proof (cases "br_conns b h")
    case (Some cl)
    have "mirrored (set_conn h cl' b)" for cl' by (rule mirrored_same [OF assms(1)]) simp
    then show ?thesis using Some by (simp add: handleDisconnect_def Let_def mirrored_will_Delete)
  qed (simp add: handleDisconnect_def assms(1))
  show ?thesis using assms(2) ack dis mirrored_publish [OF assms(1)] mirrored_subscribe [OF assms(1)] mirrored_unsubscribe [OF assms(1)]
      mirrored_send [OF assms(1)] assms(1)
    unfolding serve_packet_def Let_def handlePubcomp_def by (auto split: if_splits)
qed

lemma mirrored_connect:
  assumes "mirrored b" and "handleConnect e now h fh data b = Some (ok, b')"
  shows "mirrored b'"
proof -
  have acc: "mirrored b'" if a: "accept_client now h pkt cid cl b = Some (ok, b')" for pkt cid cl
  proof -
    let ?b0 = "set_conn h (cl\<lparr>cl_username := cp_Username pkt, cl_clientID := cid,
            cl_protocolVersion := ProtocolLevel pkt, cl_connectedAt := now, cl_keepAlive := keepAlive_of pkt\<rparr>) b"
    obtain b1 where b1: "disconnectExisting cid ?b0 = Some b1" using a by (auto simp: accept_client_def bind_eq_Some_conv)
    have m1: "mirrored b1"
      by (rule mirrored_same [OF assms(1) same_store_trans [OF same_store_simps(1) same_store_disconnectExisting [OF b1]]])
    obtain sp b2 where b2: "open_session cid (CleanSession pkt) (expiry_of pkt) b1 = (sp, b2)" by fastforce
    have "mirrored (b1\<lparr>br_subscriptions := idx\<rparr>)" for idx by (rule mirrored_same [OF m1]) simp
    then have m2: "mirrored b2" using b2 mirrored_create [OF m1] by (auto simp: open_session_def split: option.splits if_splits)
    have "mirrored (b2\<lparr>br_conns := cs\<rparr>)" for cs by (rule mirrored_same [OF m2]) simp
    then have m3: "mirrored (set_will h cid pkt b2)" using m2 by (simp add: set_will_def mirrored_will_Set split: option.split)
    let ?b4 = "BroadcastConnect cid (registerClient h cid (set_will h cid pkt b2))"
    have m4: "mirrored ?b4" by (rule mirrored_same [OF m3 same_store_trans [OF same_store_simps(12) same_store_simps(8)]])
    obtain err b5 where b5: "connect_hook now cid pkt (cl_remoteAddr cl) ?b4 = (err, b5)" by fastforce
    have m5: "mirrored b5" by (rule mirrored_same [OF m4 same_store_connect_hook [OF b5]])
    show ?thesis
    proof (cases "err = None")
      case False
      then show ?thesis using a b1 b2 b5 mirrored_send [OF m5] by (auto simp: accept_client_def bind_eq_Some_conv)
    next
      case True
      then obtain p b6 where b6: "send h p b5 = Some b6" "(if sp then resume_backlog now h cid b6 else Some b6) = Some b'"
        using a b1 b2 b5 by (auto simp: accept_client_def bind_eq_Some_conv)
      have m6: "mirrored b6" by (rule mirrored_send [OF m5 b6(1)])
      obtain msgs os d where d: "Dequeue now cid 100 (br_offline b6, br_disk b6) = (msgs, os, d)" by (rule prod_cases3)
      have "mirrored (b6\<lparr>br_offline := os, br_disk := d\<rparr>)"
        using mirrored_om_only [OF m6] om_only_Dequeue [of "(br_offline b6, br_disk b6)" now cid 100] d by simp
      then have "mirrored b'" if "resume_backlog now h cid b6 = Some b'"
        using that d by (auto simp: resume_backlog_def elim!: mirrored_same intro: same_store_each [OF same_store_deliver])
      then show ?thesis using b6(2) m6 by (auto split: if_splits)
    qed
  qed
  show ?thesis using assms(2) acc assms(1) mirrored_send [OF assms(1)]
    by (auto simp: handleConnect_def Let_def bind_eq_Some_conv split: option.splits sum.splits if_splits)
qed

lemma mirrored_end_session:
  assumes "mirrored b"
  shows "mirrored (end_session now c b)"
proof (cases "map_of (br_sessions b) c")
  case (Some s)
  have "same_store b (fold BroadcastUnsubscribe fs b)" for fs and b :: "'a Broker"
  proof (induction fs arbitrary: b)
    case (Cons f fs)
    show ?case using same_store_trans [OF same_store_simps(10) Cons.IH] by simp
  qed (simp add: same_store_refl)
  then have "mirrored (fold BroadcastUnsubscribe fs b)" for fs by (rule mirrored_same [OF assms])
  then have "mirrored ((fold BroadcastUnsubscribe fs b)\<lparr>br_subscriptions := idx\<rparr>)" for fs idx by (rule mirrored_same [OF _ same_store_simps(5)])
  then have r: "mirrored (on_session (session_Remove c) ((fold BroadcastUnsubscribe fs b)\<lparr>br_subscriptions := idx\<rparr>))" for fs idx
    by (rule mirrored_remove)
  then have "mirrored (on_offline (offline_RemoveAll c) (on_session (session_Remove c) ((fold BroadcastUnsubscribe fs b)\<lparr>br_subscriptions := idx\<rparr>)))" for fs idx
    by (rule mirrored_offline) (rule om_only_RemoveAll)
  then show ?thesis using Some r assms mirrored_mark [OF assms] by (simp add: end_session_def session_Get_def Let_def)
qed (simp add: end_session_def session_Get_def assms)

lemma mirrored_close:
  assumes "mirrored b" and "close_finish now h b = Some b'"
  shows "mirrored b'"
proof (cases "br_conns b h")
  case (Some cl)
  let ?b1 = "set_conn h (cl\<lparr>cl_phase := Finished, cl_connClosed := True\<rparr>) b"
  let ?b2 = "disconnect_hook cl (BroadcastDisconnect (cl_clientID cl) (unregisterClient h (cl_clientID cl) ?b1))"
  have m1: "mirrored ?b1" by (rule mirrored_same [OF assms(1)]) simp
  have m2: "mirrored ?b2"
    by (rule mirrored_same [OF m1 same_store_trans [OF same_store_trans [OF same_store_simps(13,9)] same_store_simps(14)]])
  have w: "mirrored b3" if lw: "last_will now cl ?b2 = Some b3" for b3
  proof (cases "cl_will cl")
    case None
    then show ?thesis using lw m2 by (simp add: last_will_def)
  next
    case (Some w)
    then obtain b4 where b4: "publish_will now w ?b2 = Some b4" "b3 = on_wills (will_Delete (cl_clientID cl)) b4"
      using lw by (auto simp: last_will_def bind_eq_Some_conv)
    have "mirrored b4" using b4(1) mirrored_route [OF m2] mirrored_route [OF mirrored_retain [OF m2]]
      by (simp add: publish_will_def split: if_splits)
    then show ?thesis unfolding b4(2) by (rule mirrored_will_Delete)
  qed
  show ?thesis using assms(2) Some m1 w
    by (auto simp: close_finish_def Let_def bind_eq_Some_conv mirrored_end_session split: if_splits)
qed (use assms(2) in \<open>simp add: close_finish_def\<close>)

lemma mirrored_sweep: "mirrored b \<Longrightarrow> mirrored (sweep now b)"
proof -
  have "mirrored (fold reap_one cs b)" if "mirrored b" for cs and b :: "'a Broker"
    using that
  proof (induction cs arbitrary: b)
    case (Cons c cs)
    have x: "mirrored (b\<lparr>br_subscriptions := idx\<rparr>)" for idx by (rule mirrored_same [OF Cons.prems]) simp
    have "mirrored (reap_one c b)" unfolding reap_one_def Let_def
      by (intro mirrored_remove mirrored_offline x om_only_RemoveAll)
    then show ?case using Cons.IH by simp
  qed simp
  then show "mirrored b \<Longrightarrow> mirrored (sweep now b)" by (simp add: sweep_def)
qed

lemma mirrored_step:
  assumes "mirrored b" and "broker_step e now ev b = Some b'"
  shows "mirrored b'"
proof (cases ev)
  case (EvConnect h fh data)
  then obtain ok b1 where b1: "handleConnect e now h fh data b = Some (ok, b1)"
      "b' = b1\<lparr>br_conns := (br_conns b1)(h := map_option (cl_phase_update (\<lambda>_. if ok then Serving else Leaving)) (br_conns b1 h))\<rparr>"
    using assms(2) by (auto simp: serve_connect_def bind_eq_Some_conv)
  show ?thesis unfolding b1(2) by (rule mirrored_same [OF mirrored_connect [OF assms(1) b1(1)]]) simp
next
  case (EvRemoteConnect c)
  then show ?thesis using assms same_store_disconnectExisting [of c b b'] by (auto intro: mirrored_same)
qed (use assms in \<open>auto intro: mirrored_packet mirrored_close mirrored_route mirrored_sweep mirrored_same\<close>)

subsection \<open>Lives with restarts\<close>

text \<open>
  A broker that starts with an empty database, and is started again on what it left there, any number of times and at
  any point between two events.  The will of a client whose identifier starts with \<^verbatim>\<open>-published/\<close> is not loaded; such
  clients are left out.
\<close>

definition wills_load :: "'s Broker \<Rightarrow> bool" where
  "wills_load b \<longleftrightarrow> (\<forall>ws c w. br_wills b = Some ws \<longrightarrow> map_of ws c = Some w \<longrightarrow> \<not> str_prefix ''-published/'' c)"

inductive life :: "'s Broker \<Rightarrow> bool" where
  life_start: "life (boot (Some []) cluster chain s)"
| life_step: "life b \<Longrightarrow> enabled ev b \<Longrightarrow> broker_step e now ev b = Some b' \<Longrightarrow> life b'"
| life_restart: "life b \<Longrightarrow> wills_load b \<Longrightarrow> life (boot (br_disk b) cluster chain s)"

lemma boot_stores:
  "br_sessions (boot (Some d) cluster chain s) = session_Load (Some d) []" "br_retain (boot (Some d) cluster chain s) = retain_Load (Some d) []"
  "br_wills (boot (Some d) cluster chain s) = Some (will_Load d [])" "br_disk (boot (Some d) cluster chain s) = Some d"
  "br_subscriptions (boot (Some d) cluster chain s) = restore_subscriptions (session_Load (Some d) []) NewSubscriptionIndex"
  by (simp_all add: boot_def loadFromStorage_def NewBroker_def Let_def NewSessionStore_def NewRetainStore_def NewWillStore_def)

lemma loaded:
  assumes "mirrored b" and "br_disk b = Some d"
  shows "map_of (session_Load (Some d) []) c = map_of (br_sessions b) c"
    and "map_of (retain_Load (Some d) []) t = map_of (br_retain b) t"
    and "br_wills b = Some ws \<Longrightarrow> \<not> str_prefix ''-published/'' c \<Longrightarrow> map_of (will_Load d []) c = map_of ws c"
proof -
  obtain ws' where ws': "br_wills b = Some ws'" "stores_ok (image_of b ws' d)" using assms by (auto simp: mirrored_def)
  then have d: "db_wf d" by (simp add: stores_ok_def image_of_def)
  show "map_of (session_Load (Some d) []) c = map_of (br_sessions b) c" unfolding Load_eq
    by (rule pebble.load_mirrors [OF d, where enc = StoredSession]) (use ws' in \<open>auto simp: stores_ok_def image_of_def\<close>)
  show "map_of (retain_Load (Some d) []) t = map_of (br_retain b) t" unfolding Load_eq
    by (rule pebble.load_mirrors [OF d, where enc = encode_retained]) (use ws' in \<open>auto simp: stores_ok_def image_of_def\<close>)
  show "map_of (will_Load d []) c = map_of ws c" if "br_wills b = Some ws" "\<not> str_prefix ''-published/'' c" unfolding Load_eq
    by (rule pebble.load_mirrors [OF d, where enc = StoredWill]) (use ws' that in \<open>auto simp: stores_ok_def image_of_def\<close>)
qed

lemma loaded_wills:
  assumes "mirrored b" and "br_disk b = Some d" and "br_wills b = Some ws" and "wills_load b"
  shows "map_of (will_Load d []) = map_of ws"
proof
  fix c
  show "map_of (will_Load d []) c = map_of ws c"
  proof (cases "str_prefix ''-published/'' c")
    case True
    then have n: "map_of ws c = None" using assms(3,4) by (cases "map_of ws c") (auto simp: wills_load_def simp del: map_of_eq_Some_iff)
    have ok: "stores_ok (image_of b ws d)" using assms(1-3) by (simp add: mirrored_def)
    then have "store_Get (''wm/'' @ c) d = None" "db_wf d" using n by (simp_all add: stores_ok_def image_of_def pebble.mirrors_def)
    then show ?thesis using n pebble.load_get [of d "''wm/''" decode_will c] by (simp add: Load_eq)
  qed (rule loaded(3) [OF assms(1-3)])
qed

lemma mirrored_restart:
  assumes "mirrored b" and "br_disk b = Some d" and "wills_load b"
  shows "mirrored (boot (Some d) cluster chain s)"
proof -
  obtain ws where ws: "br_wills b = Some ws" "stores_ok (image_of b ws d)" using assms(1,2) by (auto simp: mirrored_def)
  have "map_of (session_Load (Some d) []) = map_of (br_sessions b)" "map_of (retain_Load (Some d) []) = map_of (br_retain b)"
    using loaded(1,2) [OF assms(1,2)] by blast+
  then show ?thesis using ws(2) loaded_wills [OF assms(1,2) ws(1) assms(3)]
    by (simp add: mirrored_def boot_stores image_of_def stores_ok_def)
qed

lemma session_Load_distinct: "distinct (map fst (session_Load store []))"
proof -
  have "distinct (map fst ms) \<Longrightarrow> distinct (map fst (fold (pebble.load_entry p dec) xs ms))" for p dec xs and ms :: "(string \<times> Session) list"
    by (induction xs arbitrary: ms) (simp_all add: pebble.load_entry_def distinct_update split: option.split)
  from this [of "[]"] show ?thesis by (cases store) (simp_all add: session_Load_def Load_eq [unfolded session_Load_def option.case] pebble.load_def)
qed

lemma loaded_sessions:
  assumes "mirrored b" and "broker_wf b" and "br_disk b = Some d"
  shows "distinct (map fst (session_Load (Some d) [])) \<and> (\<forall>x\<in>set (session_Load (Some d) []). distinct (map fst (s_Subscriptions (snd x))))"
proof (intro conjI ballI)
  show k: "distinct (map fst (session_Load (Some d) []))" by (rule session_Load_distinct)
  fix x assume "x \<in> set (session_Load (Some d) [])"
  then have "map_of (session_Load (Some d) []) (fst x) = Some (snd x)" using k by simp
  then have "map_of (br_sessions b) (fst x) = Some (snd x)" using loaded(1) [OF assms(1,3)] by simp
  moreover have "sess_ok (br_sessions b) (br_subscriptions b)" using assms(2) by (simp add: broker_wf_def broker_core_def stores_wf_def)
  ultimately show "distinct (map fst (s_Subscriptions (snd x)))" using sess_okD(2) by blast
qed

lemmas wf_restart = wf_boot_load [OF loaded_sessions]

lemma life_inv:
  assumes "life b"
  shows "mirrored b \<and> broker_wf b"
  using assms
proof induction
  case (life_start cluster chain s)
  have "session_Load (Some []) [] = []" "retain_Load (Some []) [] = []" "will_Load [] [] = []"
    by (simp_all add: session_Load_def retain_Load_def will_Load_def store_Scan_def)
  then have "mirrored (boot (Some []) cluster chain s)" using stores_ok_empty
    by (simp add: mirrored_def boot_stores image_of_def empty_stores_def NewRetainStore_def NewSessionStore_def NewWillStore_def)
  moreover have "broker_wf (boot (Some []) cluster chain s)" by (rule wf_boot) (simp add: disk_ok_def)
  ultimately show ?case ..
next
  case (life_step b ev e now b')
  have "mirrored b'" using mirrored_step life_step by blast
  moreover have "broker_wf b'" using wf_step life_step by blast
  ultimately show ?case ..
next
  case (life_restart b cluster chain s)
  then obtain d where "br_disk b = Some d" by (auto simp: mirrored_def)
  then show ?case using life_restart mirrored_restart [of b d cluster chain s] wf_restart [of b d cluster chain s] by simp
qed


lemma run_life: "life b \<Longrightarrow> run_events e evs b = Some b' \<Longrightarrow> life b'"
proof (induction evs arbitrary: b)
  case (Cons x evs)
  obtain now ev where x: "x = (now, ev)" by (cases x)
  then obtain b1 where b1: "enabled ev b" "broker_step e now ev b = Some b1" "run_events e evs b1 = Some b'"
    using Cons.prems(2) by (auto simp: bind_eq_Some_conv split: if_splits)
  show ?case by (rule Cons.IH [OF life_step [OF Cons.prems(1) b1(1,2)] b1(3)])
qed simp

definition stored_demo :: "unit Broker" where
  "stored_demo = the (run_events open_env demo_run (boot (Some []) None None ()))"

lemma stored_demo_life: "life stored_demo"
proof -
  have "run_events open_env demo_run (boot (Some []) None None () :: unit Broker) \<noteq> None" by code_simp
  then show ?thesis unfolding stored_demo_def using run_life [OF life_start] by fastforce
qed

lemma stored_demo_facts: "(br_wills stored_demo, map_option (\<lambda>s. (s_ExpiryInterval s, s_Subscriptions s)) (map_of (br_sessions stored_demo) ''B'')) =
    (Some [], Some (0xFFFFFFFF, [(''t'', 2)]))"
  by code_simp


end
