(* ===== verification/BrokerSessions.thy ===== *)
theory BrokerSessions
  imports Routing BrokerRecovery
begin

section \<open>Sessions, takeovers and wills\<close>

text \<open>
  What happens to a client's session, subscriptions, queue and will when it goes away, comes back or is taken over by
  another connection with its identifier.
\<close>

subsection \<open>What routing leaves alone\<close>

lemma deliverMessage_other: "deliverMessage now h topic payload q b = Some b' \<Longrightarrow> k \<noteq> h \<Longrightarrow> br_conns b' k = br_conns b k"
  by (auto simp: deliverMessage_def send_def set_conn_def Let_def split: option.splits if_splits prod.splits)

lemma deliver_one_other: "deliver_one now topic payload (h, c, q) b = Some b' \<Longrightarrow> k \<noteq> h \<Longrightarrow> br_conns b' k = br_conns b k"
  by (auto simp: deliver_one_def Let_def split: option.splits if_splits prod.splits dest!: deliverMessage_other)

lemma each_deliver_other:
  "each (deliver_one now topic payload) ds b = Some b' \<Longrightarrow> k \<notin> fst ` set ds \<Longrightarrow> br_conns b' k = br_conns b k"
proof (induction ds arbitrary: b)
  case (Cons d ds)
  obtain h c q where d: "d = (h, c, q)" by (cases d)
  obtain b1 where b1: "deliver_one now topic payload (h, c, q) b = Some b1" "each (deliver_one now topic payload) ds b1 = Some b'"
    using Cons.prems(1) d by (auto simp: bind_eq_Some_conv)
  then show ?case using Cons.IH [OF b1(2)] deliver_one_other [OF b1(1), of k] Cons.prems(2) d by simp
qed simp

lemma routeMessage_other:
  assumes "broker_wf b" and "routeMessage now topic payload qos retain fwd b = Some b'" and "map_of (br_clients b) c = Some h"
    and "\<And>f. subs_of (br_subscriptions b) (c, f) = None"
  shows "br_conns b' h = br_conns b h"
proof -
  have core: "stores_wf b" "clients_ok b" using assms(1) by (simp_all add: broker_wf_def broker_core_def)
  let ?ms = "Match topic (br_subscriptions b)"
  have "granted topic c b = None" using assms(4) by (simp add: granted_def max_opt_def)
  then have n: "map_of ?ms c = None" using Match_granted [OF core(1)] by simp
  have "h \<notin> fst ` set (deliveries qos b ?ms)"
  proof
    assume "h \<in> fst ` set (deliveries qos b ?ms)"
    then obtain d g where "(d, g) \<in> set ?ms" "map_of (br_clients b) d = Some h" by (force simp: deliveries_mem)
    then show False using handles_inj [OF core(2) assms(3), of d] n by (auto simp: map_of_eq_None_iff image_iff)
  qed
  moreover obtain b1 where b1: "each (deliver_one now topic payload) (deliveries qos b ?ms) b = Some b1"
    "b' = emit (forwards topic payload qos retain fwd (fold (enqueue_one now topic payload) (offlineDeliveries qos b ?ms) b1))
      (fold (enqueue_one now topic payload) (offlineDeliveries qos b ?ms) b1)"
    using assms(2) by (auto simp: routeMessage_def Let_def bind_eq_Some_conv)
  ultimately show ?thesis using each_deliver_other [OF b1(1), of h] by (simp add: b1(2) emit_def enqueue_all_frame)
qed

subsection \<open>The close of a connection that was taken over\<close>

lemma fold_broadcast_fields:
  "br_clients (fold BroadcastUnsubscribe fs b) = br_clients b" "br_conns (fold BroadcastUnsubscribe fs b) = br_conns b"
  "br_sessions (fold BroadcastUnsubscribe fs b) = br_sessions b" "br_subscriptions (fold BroadcastUnsubscribe fs b) = br_subscriptions b"
  "br_offline (fold BroadcastUnsubscribe fs b) = br_offline b" "br_done (fold BroadcastUnsubscribe fs b) = br_done b"
  by (induction fs arbitrary: b) (simp_all add: BroadcastUnsubscribe_def emit_def split: option.splits)

lemma end_session_now:
  assumes "map_of (br_sessions b) c = Some s" and "s_ExpiryInterval s = 0" and "si_wf (br_subscriptions b)"
  shows "br_clients (end_session now c b) = br_clients b" "br_conns (end_session now c b) = br_conns b"
    "map_of (br_sessions (end_session now c b)) c = None" "subs_of (br_subscriptions (end_session now c b)) (c, f) = None"
  using assms by (simp_all add: end_session_def session_Get_def Let_def on_offline_def on_session_def session_Remove_def case_prod_unfold
      fold_broadcast_fields delete_conv' subs_of_RemoveAll)


definition taken_over :: "unit Broker" where
  "taken_over = the (run_events open_env (ev_connect 0 2 65 @ ev_connect 1 2 65 @ ev_subscribe 1 116 1 @ [(0, EvCloseBegin 0)])
     (boot None None None ()))"

lemma taken_over_reached: "reach (boot None None None ()) taken_over"
proof -
  have "run_events open_env (ev_connect 0 2 65 @ ev_connect 1 2 65 @ ev_subscribe 1 116 1 @ [(0, EvCloseBegin 0)])
      (boot None None None () :: unit Broker) \<noteq> None" by code_simp
  then show ?thesis unfolding taken_over_def by (rule run_reaches)
qed

lemma taken_over_facts:
  "(Option.is_none (br_chain taken_over), map_option (\<lambda>cl. (cl_clientID cl, cl_will cl)) (br_conns taken_over 0), br_clients taken_over,
    map_option s_ExpiryInterval (map_of (br_sessions taken_over) ''A''), enabled (EvCloseFinish 0) taken_over,
    Match ''t'' (br_subscriptions taken_over)) =
   (True, Some (''A'', None), [(''A'', 1)], Some 0, True, [(''A'', 1)])"
  by code_simp


subsection \<open>A session that is resumed\<close>

lemma ExpiredSessions_mem: "distinct (map fst ss) \<Longrightarrow> map_of ss c = Some s \<Longrightarrow> s_DisconnectedAt s = Some t \<Longrightarrow>
    s_ExpiryInterval s \<noteq> 0xFFFFFFFF \<Longrightarrow> now > t + uint (s_ExpiryInterval s) * 1000000000 \<Longrightarrow> c \<in> set (ExpiredSessions now ss)"
  by (force simp: ExpiredSessions_def image_iff)

lemma reap_one_fields: "br_clients (reap_one c b) = br_clients b" "br_conns (reap_one c b) = br_conns b"
  "map_of (br_sessions (reap_one c b)) = (map_of (br_sessions b))(c := None)"
  by (simp_all add: reap_one_def on_session_def on_offline_def session_Remove_def case_prod_unfold delete_conv')

lemma reap_one_subs:
  assumes "si_wf (br_subscriptions b)"
  shows "si_wf (br_subscriptions (reap_one c b))"
    and "subs_of (br_subscriptions (reap_one c b)) (d, f) = (if d = c then None else subs_of (br_subscriptions b) (d, f))"
proof -
  have e: "br_subscriptions (reap_one c b) = fold (Remove c) (ClientFilters c (br_subscriptions b)) (br_subscriptions b)"
    by (simp add: reap_one_def on_session_def on_offline_def session_Remove_def case_prod_unfold)
  note r = Removes [OF assms, of c "ClientFilters c (br_subscriptions b)"]
  show "si_wf (br_subscriptions (reap_one c b))" using r by (simp add: e)
  have "f \<in> set (ClientFilters c (br_subscriptions b)) \<longleftrightarrow> subs_of (br_subscriptions b) (c, f) \<noteq> None"
    using si_wfD(3) [OF assms] by (simp add: ClientFilters_def)
  then show "subs_of (br_subscriptions (reap_one c b)) (d, f) = (if d = c then None else subs_of (br_subscriptions b) (d, f))"
    using r by (auto simp: e)
qed

lemma reap_gone: "si_wf (br_subscriptions b) \<Longrightarrow> map_of (br_sessions b) c = None \<Longrightarrow> subs_of (br_subscriptions b) (c, f) = None \<Longrightarrow>
    map_of (br_sessions (fold reap_one cs b)) c = None \<and> subs_of (br_subscriptions (fold reap_one cs b)) (c, f) = None"
  by (induction cs arbitrary: b) (simp_all add: reap_one_fields reap_one_subs)

lemma reap_all:
  assumes "si_wf (br_subscriptions b)" and "c \<in> set cs"
  shows "map_of (br_sessions (fold reap_one cs b)) c = None \<and> subs_of (br_subscriptions (fold reap_one cs b)) (c, f) = None"
  using assms
proof (induction cs arbitrary: b)
  case (Cons d cs)
  show ?case
  proof (cases "d = c")
    case True
    then show ?thesis using reap_gone [of "reap_one c b" c f cs] Cons.prems(1) by (simp add: reap_one_fields reap_one_subs)
  next
    case False
    then show ?thesis using Cons by (simp add: reap_one_subs(1))
  qed
qed simp

lemma reap_clients: "br_clients (fold reap_one cs b) = br_clients b"
  by (induction cs arbitrary: b) (simp_all add: reap_one_fields)

lemma accept_resumes:
  assumes "accept_client now h pkt c cl b = Some (True, b')" and "map_of (br_sessions b) c = Some ses" and "\<not> CleanSession pkt"
  shows "br_sessions b' = br_sessions b" and "map_of (br_clients b') c = Some h"
    and "br_subscriptions b' = fold (\<lambda>(f, q). Add c f q) (s_Subscriptions ses) (br_subscriptions b)"
proof -
  let ?b0 = "set_conn h (cl\<lparr>cl_username := cp_Username pkt, cl_clientID := c,
          cl_protocolVersion := ProtocolLevel pkt, cl_connectedAt := now, cl_keepAlive := keepAlive_of pkt\<rparr>) b"
  obtain b1 where b1: "disconnectExisting c ?b0 = Some b1" using assms(1) by (auto simp: accept_client_def bind_eq_Some_conv)
  have i1: "br_sessions b1 = br_sessions b" "br_subscriptions b1 = br_subscriptions b" using b1
    by (auto simp: disconnectExisting_def set_conn_def quiet_def split: option.splits dest!: quiet_sendDisconnect)
  let ?b2 = "b1\<lparr>br_subscriptions := fold (\<lambda>(f, q). Add c f q) (s_Subscriptions ses) (br_subscriptions b)\<rparr>"
  have b2: "open_session c (CleanSession pkt) (expiry_of pkt) b1 = (True, ?b2)" using assms(2,3) i1 by (simp add: open_session_def session_Get_def)
  let ?b4 = "BroadcastConnect c (registerClient h c (set_will h c pkt ?b2))"
  have i4: "br_sessions ?b4 = br_sessions b" "map_of (br_clients ?b4) c = Some h" "br_subscriptions ?b4 = br_subscriptions ?b2"
    using i1 by (simp_all add: BroadcastConnect_def registerClient_def set_will_def on_wills_def emit_def update_conv' split: option.split prod.split)
  obtain err b5 where b5: "connect_hook now c pkt (cl_remoteAddr cl) ?b4 = (err, b5)" by fastforce
  have i5: "br_sessions b5 = br_sessions b" "map_of (br_clients b5) c = Some h" "br_subscriptions b5 = br_subscriptions ?b2"
    using b5 i4 by (auto simp: connect_hook_def split: option.splits prod.splits)
  have "err = None" using assms(1) b1 b2 b5 by (auto simp: accept_client_def bind_eq_Some_conv split: if_splits)
  then obtain p b6 where b6: "send h p b5 = Some b6" "resume_backlog now h c b6 = Some b'"
    using assms(1) b1 b2 b5 by (auto simp: accept_client_def bind_eq_Some_conv)
  note q = quiet_trans [OF quiet_send [OF b6(1)] quiet_resume [OF b6(2)]]
  show "br_sessions b' = br_sessions b" "map_of (br_clients b') c = Some h"
    "br_subscriptions b' = fold (\<lambda>(f, q). Add c f q) (s_Subscriptions ses) (br_subscriptions b)"
    using q i5 by (simp_all add: quiet_def)
qed

text \<open>C22: A session that was resumed is still taken for an abandoned one: a client that comes back to its session and stays
  connected loses the session and all its subscriptions at the first sweep of the reaper after the expiry interval,
  counted from the disconnection before it came back.\<close>

theorem resumed_session_is_reaped:
  assumes "broker_wf b" and "enabled (EvConnect h fh data) b" and "handleConnect e now h fh data b = Some (True, b')"
    and "DecodeConnectPacket data = Inr pkt" and "cp_ClientID pkt = c" and "c \<noteq> []" and "\<not> CleanSession pkt"
    and "map_of (br_sessions b) c = Some ses" and "s_DisconnectedAt ses = Some t" and "s_ExpiryInterval ses \<noteq> 0xFFFFFFFF"
    and "later > t + uint (s_ExpiryInterval ses) * 1000000000"
  shows "map_of (br_clients (sweep later b')) c = Some h \<and> map_of (br_sessions (sweep later b')) c = None \<and>
    (\<forall>f. subs_of (br_subscriptions (sweep later b')) (c, f) = None)"
proof -
  obtain cl where a: "accept_client now h pkt c cl b = Some (True, b')"
    using assms(3-7) by (auto simp: handleConnect_def bind_eq_Some_conv Let_def split: option.splits if_splits)
  note r = accept_resumes [OF a assms(8,7)]
  have "serve_connect e now h fh data b = Some (b'\<lparr>br_conns := (br_conns b')(h := map_option (cl_phase_update (\<lambda>_. Serving)) (br_conns b' h))\<rparr>)"
    using assms(3) by (simp add: serve_connect_def)
  then have "broker_wf (b'\<lparr>br_conns := (br_conns b')(h := map_option (cl_phase_update (\<lambda>_. Serving)) (br_conns b' h))\<rparr>)"
    using wf_step [OF assms(1,2), of e now] by simp
  then have "si_wf (br_subscriptions b')" "distinct (map fst (br_sessions b'))"
    by (simp_all add: broker_wf_def broker_core_def stores_wf_def sess_ok_def)
  then show ?thesis using reap_all [of b' c "ExpiredSessions later (br_sessions b')"] ExpiredSessions_mem [of "br_sessions b'" c ses t later] r assms(8-11)
    by (simp add: sweep_def reap_clients)
qed

text \<open>A client of version 5 with an expiry interval of a minute subscribes, goes away and is about to come back.\<close>

definition connect5 :: "octet list" where
  "connect5 = [0, 4, 77, 81, 84, 84, 5, 0, 0, 0, 5, 17, 0, 0, 0, 60, 0, 1, 65]"

definition coming_back :: "unit Broker" where
  "coming_back = the (run_events open_env [(0, EvAccept 0 ''p'' ''addr''), (0, EvConnect 0 (header CONNECT 0) connect5),
     (1, EvPacket 0 (header SUBSCRIBE 1) [0, 1, 0, 0, 1, 116, 1]), (2, EvWriteFail 0), (2, EvCloseBegin 0), (2, EvCloseFinish 0),
     (3, EvAccept 1 ''p'' ''addr'')] (boot None None None ()))"

lemma coming_back_reached: "reach (boot None None None ()) coming_back"
proof -
  have "run_events open_env [(0, EvAccept 0 ''p'' ''addr''), (0, EvConnect 0 (header CONNECT 0) connect5),
     (1, EvPacket 0 (header SUBSCRIBE 1) [0, 1, 0, 0, 1, 116, 1]), (2, EvWriteFail 0), (2, EvCloseBegin 0), (2, EvCloseFinish 0),
     (3, EvAccept 1 ''p'' ''addr'')] (boot None None None () :: unit Broker) \<noteq> None" by code_simp
  then show ?thesis unfolding coming_back_def by (rule run_reaches)
qed

lemma coming_back_facts:
  "(enabled (EvConnect 1 (header CONNECT 0) connect5) coming_back,
    map_option fst (handleConnect open_env 4 1 (header CONNECT 0) connect5 coming_back),
    map_option (\<lambda>s. (s_DisconnectedAt s, s_ExpiryInterval s, s_Subscriptions s)) (map_of (br_sessions coming_back) ''A'')) =
   (True, Some True, Some (Some 2, 60, [(''t'', 1)]))"
  by code_simp

lemma connect5_decodes: "case DecodeConnectPacket connect5 of Inl _ \<Rightarrow> False | Inr pkt \<Rightarrow> cp_ClientID pkt = ''A'' \<and> \<not> CleanSession pkt"
  by code_simp

theorem resumed_session_is_reaped_witness:
  "\<exists>b'. handleConnect open_env 4 1 (header CONNECT 0) connect5 coming_back = Some (True, b') \<and>
    map_of (br_clients (sweep 60000000003 b')) ''A'' = Some 1 \<and> map_of (br_sessions (sweep 60000000003 b')) ''A'' = None"
proof -
  note k = coming_back_facts [unfolded prod.inject]
  have w: "broker_wf coming_back" by (rule wf_reach [OF coming_back_reached wf_boot]) (simp add: disk_ok_def)
  obtain b' where b': "handleConnect open_env 4 1 (header CONNECT 0) connect5 coming_back = Some (True, b')" using k by auto
  obtain pkt where pkt: "DecodeConnectPacket connect5 = Inr pkt" "cp_ClientID pkt = ''A''" "\<not> CleanSession pkt"
    using connect5_decodes by (auto split: sum.splits)
  obtain ses where ses: "map_of (br_sessions coming_back) ''A'' = Some ses" "s_DisconnectedAt ses = Some 2" "s_ExpiryInterval ses = 60"
    using k by (auto simp del: map_of_eq_Some_iff)
  show ?thesis
    using resumed_session_is_reaped [OF w _ b' pkt(1,2) _ pkt(3) ses(1,2), where later = 60000000003] k b' ses(3) by simp
qed

end
