(* ===== verification/BrokerWills.thy ===== *)
theory BrokerWills
  imports BrokerSessions
begin

section \<open>Wills\<close>

text \<open>
  When the will of a client is published, and who gets it: the end of \<^verbatim>\<open>close\<close> of \<^verbatim>\<open>internal/broker/client.go\<close>, on
  top of the exact account of the router in the theory \<open>Routing\<close>.
\<close>

text \<open>What the last will of a connection adds to the channel of another client.\<close>

definition will_packets :: "Client \<Rightarrow> string \<Rightarrow> Client \<Rightarrow> 's Broker \<Rightarrow> octet list list" where
  "will_packets cl d clk b = (case cl_will cl of
     None \<Rightarrow> []
   | Some w \<Rightarrow> (case granted (w_Topic w) d b of None \<Rightarrow> [] | Some q \<Rightarrow> [publish_bytes (w_Topic w) (w_Payload w) (effective (w_QoS w) q) clk]))"

lemma end_session_conns: "br_conns (end_session now c b) = br_conns b"
  by (simp add: end_session_def on_session_def on_offline_def Let_def case_prod_unfold fold_broadcast_fields split: option.split)

lemma end_session_retain: "br_retain (end_session now c b) = br_retain b"
proof -
  have "br_retain (fold BroadcastUnsubscribe fs b) = br_retain b" for fs and b :: "'a Broker"
    by (induction fs arbitrary: b) (simp_all add: BroadcastUnsubscribe_def emit_def split: option.splits)
  then show ?thesis by (simp add: end_session_def on_session_def on_offline_def Let_def case_prod_unfold split: option.split)
qed

lemma on_wills_frame: "br_conns (on_wills f b) = br_conns b" "br_retain (on_wills f b) = br_retain b"
  by (simp_all add: on_wills_def split: option.split prod.split)

lemma publish_will_channels:
  assumes "broker_wf b" and "no_plugins b"
    and "\<forall>d k. map_of (br_clients b) d = Some k \<longrightarrow> granted (w_Topic w) d b \<noteq> None \<longrightarrow> conn_is ready k b"
  shows "\<exists>b'. publish_will now w b = Some b' \<and> br_retain b' = (if w_Retain w then fst (retain_Set (w_Topic w) (w_Payload w) (w_QoS w) (br_retain b, br_disk b)) else br_retain b) \<and>
    (\<forall>d k clk. map_of (br_clients b) d = Some k \<longrightarrow> br_conns b k = Some clk \<longrightarrow> map_option cl_sendCh (br_conns b' k) = Some (cl_sendCh clk @
      (case granted (w_Topic w) d b of None \<Rightarrow> [] | Some q \<Rightarrow> [publish_bytes (w_Topic w) (w_Payload w) (effective (w_QoS w) q) clk])))"
proof -
  define b1 where "b1 = (if w_Retain w then on_retain (retain_Set (w_Topic w) (w_Payload w) (w_QoS w)) b else b)"
  have f: "br_clients b1 = br_clients b" "br_conns b1 = br_conns b" "br_subscriptions b1 = br_subscriptions b" "no_plugins b1"
    using assms(2) by (simp_all add: no_plugins_def b1_def on_retain_def split: prod.split)
  have w: "broker_wf b1" using assms(1) by (simp add: b1_def wf_retain)
  have core: "stores_wf b1" "clients_ok b1" using w by (simp_all add: broker_wf_def broker_core_def)
  have g: "granted t d b1 = granted t d b" for t d by (simp add: granted_def f)
  have r: "conn_is ready k b1" if "map_of (br_clients b1) d = Some k" "granted (w_Topic w) d b1 \<noteq> None" for d k
    using assms(3) that by (simp add: f g conn_is_def)
  let ?ms = "Match (w_Topic w) (br_subscriptions b1)"
  define b2 where "b2 = b1\<lparr>br_conns := (\<lambda>h. case map_of (deliveries (w_QoS w) b1 ?ms) h of
      None \<Rightarrow> br_conns b1 h | Some (c, q) \<Rightarrow> map_option (delivered now (w_Topic w) (w_Payload w) q) (br_conns b1 h))\<rparr>"
  define b' where "b' = emit (forwards (w_Topic w) (w_Payload w) (w_QoS w) False False b1)
      (fold (enqueue_one now (w_Topic w) (w_Payload w)) (offlineDeliveries (w_QoS w) b1 ?ms) b2)"
  have p: "publish_will now w b = Some b'" unfolding publish_will_def b1_def [symmetric] b'_def
    by (rule routeMessage_result [OF w f(4) r refl b2_def])
  have "br_retain b' = br_retain b1" using quiet_routeMessage [OF p [unfolded publish_will_def b1_def [symmetric]]] by (simp add: quiet_def)
  then have t: "br_retain b' = (if w_Retain w then fst (retain_Set (w_Topic w) (w_Payload w) (w_QoS w) (br_retain b, br_disk b)) else br_retain b)"
    by (simp add: b1_def on_retain_def case_prod_unfold)
  have c: "br_conns b' = br_conns b2" by (simp add: b'_def emit_def enqueue_all_frame)
  have "map_option cl_sendCh (br_conns b' k) = Some (cl_sendCh clk @
      (case granted (w_Topic w) d b of None \<Rightarrow> [] | Some q \<Rightarrow> [publish_bytes (w_Topic w) (w_Payload w) (effective (w_QoS w) q) clk]))"
    if "map_of (br_clients b) d = Some k" "br_conns b k = Some clk" for d k clk
    using delivered_channel [OF core(2), where ms = ?ms and h = k and c = d and cl = clk and topic = "w_Topic w"
        and qos = "w_QoS w" and now = now and payload = "w_Payload w"] Match_granted [OF core(1), of "w_Topic w" d] that Match_distinct
    unfolding c b2_def by (simp add: f g)
  then show ?thesis using p t by blast
qed

lemma unregistered:
  assumes "broker_wf b" and "br_conns b h = Some cl"
    and "b1 = BroadcastDisconnect (cl_clientID cl) (unregisterClient h (cl_clientID cl) (set_conn h (cl\<lparr>cl_phase := Finished, cl_connClosed := True\<rparr>) b))"
  shows "broker_wf b1" and "map_of (br_clients b1) d = Some k \<longleftrightarrow> map_of (br_clients b) d = Some k \<and> k \<noteq> h"
    and "br_subscriptions b1 = br_subscriptions b" and "br_chain b1 = br_chain b" and "br_retain b1 = br_retain b" and "br_disk b1 = br_disk b"
    and "br_conns b1 = (br_conns b)(h \<mapsto> cl\<lparr>cl_phase := Finished, cl_connClosed := True\<rparr>)"
proof -
  let ?c = "cl_clientID cl" and ?cl = "cl\<lparr>cl_phase := Finished, cl_connClosed := True\<rparr>"
  let ?u = "unregisterClient h ?c (set_conn h ?cl b)"
  have ok: "conn_ok (br_inflightLimit b) ?cl" using assms(1,2) by (simp add: broker_wf_def broker_core_def conns_ok_def conn_ok_def)
  have u: "broker_wf ?u" by (rule wf_finish [OF assms(1,2) ok]) simp
  show "broker_wf b1" unfolding assms(3) by (rule wf_stores [OF u broadcast_fields(7)]) (use stores_of_wf [OF u] in simp)
  show f: "br_subscriptions b1 = br_subscriptions b" "br_chain b1 = br_chain b" "br_retain b1 = br_retain b" "br_disk b1 = br_disk b"
    "br_conns b1 = (br_conns b)(h \<mapsto> ?cl)"
    by (simp_all add: assms(3) BroadcastDisconnect_def emit_def unregisterClient_def set_conn_def split: option.split)
  have e: "br_clients b1 = br_clients ?u" by (simp add: assms(3) BroadcastDisconnect_def emit_def split: option.split)
  have c0: "clients_ok b" using assms(1) by (simp add: broker_wf_def broker_core_def)
  have d: "d = ?c" if "map_of (br_clients b) d = Some h" using clients_okD(2) [OF c0 that] assms(2) by auto
  show "map_of (br_clients b1) d = Some k \<longleftrightarrow> map_of (br_clients b) d = Some k \<and> k \<noteq> h"
  proof (cases "map_of (br_clients b) ?c = Some h")
    case True
    then have "map_of (br_clients b1) = (map_of (br_clients b))(?c := None)" by (simp add: e unregisterClient_def set_conn_def delete_conv')
    moreover have "map_of (br_clients b) d \<noteq> Some h" if "d \<noteq> ?c" using d that by blast
    ultimately show ?thesis using True by (cases "d = ?c") (simp_all del: map_of_eq_Some_iff, blast)
  next
    case False
    then have "br_clients b1 = br_clients b" by (simp add: e unregisterClient_def set_conn_def)
    moreover have "map_of (br_clients b) d \<noteq> Some h" using d False by blast
    ultimately show ?thesis by (simp del: map_of_eq_Some_iff) blast
  qed
qed


text \<open>A client with a will is about to be closed while another waits for it.\<close>

definition with_will :: "unit Broker" where
  "with_will = the (run_events open_env (ev_connect 0 2 65 @ ev_subscribe 0 116 1 @ [(0, EvAccept 1 ''p'' ''addr''),
     (0, EvConnect 1 (header CONNECT 0) [0, 4, 77, 81, 84, 84, 4, 14, 0, 0, 0, 1, 66, 0, 1, 116, 0, 1, 9]), (0, EvCloseBegin 1)])
     (boot None None None ()))"

lemma with_will_reached: "reach (boot None None None ()) with_will"
proof -
  have "run_events open_env (ev_connect 0 2 65 @ ev_subscribe 0 116 1 @ [(0, EvAccept 1 ''p'' ''addr''),
     (0, EvConnect 1 (header CONNECT 0) [0, 4, 77, 81, 84, 84, 4, 14, 0, 0, 0, 1, 66, 0, 1, 116, 0, 1, 9]), (0, EvCloseBegin 1)])
     (boot None None None () :: unit Broker) \<noteq> None" by code_simp
  then show ?thesis unfolding with_will_def by (rule run_reaches)
qed

lemma with_will_facts:
  "(Option.is_none (br_chain with_will), map_option (\<lambda>cl. (cl_clientID cl, map_option (\<lambda>w. (w_Topic w, w_Payload w, w_QoS w)) (cl_will cl))) (br_conns with_will 1),
    br_clients with_will, conn_is ready 0 with_will, Match ''t'' (br_subscriptions with_will)) =
   (True, Some (''B'', Some (''t'', [9], 1)), [(''A'', 0), (''B'', 1)], True, [(''A'', 1)])"
  by code_simp


end
