(* ===== verification/Auth.thy ===== *)
theory Auth
  imports BrokerSessions
begin

section \<open>Authentication and access control\<close>

text \<open>
  Models \<^verbatim>\<open>internal/auth/auth.go\<close>: the credentials file, the check of passwords and the rules of who may publish and
  subscribe to what.  The JSON parser has read the file; \<open>bcrypt\<close>, the comparison of a hash with a password, is a
  parameter.  Then what the broker makes of the answers.
\<close>

subsection \<open>The credential store\<close>

record ACLRule =
  acl_Topic :: string
  acl_Access :: string

record User =
  u_Username :: string
  u_PasswordHash :: string
  u_TenantID :: string
  u_ACL :: "ACLRule list"

type_synonym CredentialStore = "(string \<times> User) list"

datatype credential_error = EmptyUsername | DuplicateUsername string | EmptyPasswordHash string | InvalidAccess string string

fun bad_access :: "ACLRule list \<Rightarrow> string option" where
  "bad_access [] = None"
| "bad_access (r # rs) = (if acl_Access r \<noteq> ''publish'' \<and> acl_Access r \<noteq> ''subscribe'' then Some (acl_Access r) else bad_access rs)"

fun LoadCredentials :: "User list \<Rightarrow> CredentialStore \<Rightarrow> credential_error + CredentialStore" where
  "LoadCredentials [] store = Inr store"
| "LoadCredentials (u # us) store =
     (if u_Username u = [] then Inl EmptyUsername
      else if map_of store (u_Username u) \<noteq> None then Inl (DuplicateUsername (u_Username u))
      else if u_PasswordHash u = [] then Inl (EmptyPasswordHash (u_Username u))
      else (case bad_access (u_ACL u) of
          Some a \<Rightarrow> Inl (InvalidAccess a (u_Username u))
        | None \<Rightarrow> LoadCredentials us (AList.update (u_Username u) u store)))"

text \<open>The result of the comparison for an unknown user is thrown away.\<close>

definition Authenticate :: "(string \<Rightarrow> octet list \<Rightarrow> bool) \<Rightarrow> CredentialStore \<Rightarrow> string \<Rightarrow> octet list \<Rightarrow> bool" where
  "Authenticate bcrypt cs username password = (case map_of cs username of
     None \<Rightarrow> False
   | Some user \<Rightarrow> bcrypt (u_PasswordHash user) password)"

text \<open>The matcher is a copy of that of the broker.\<close>

definition auth_topicMatch :: "string \<Rightarrow> string \<Rightarrow> bool" where
  "auth_topicMatch filt topic =
     (if topic \<noteq> [] \<and> hd topic = CHR ''$'' \<and> filt \<noteq> [] \<and> (hd filt = CHR ''+'' \<or> hd filt = CHR ''#'') then False
      else let filterParts = str_split CHR ''/'' filt; topicParts = str_split CHR ''/'' topic
           in case topicMatch_from filterParts topicParts 0 of
                Some r \<Rightarrow> r
              | None \<Rightarrow> length filterParts = length topicParts)"

fun any_rule :: "string \<Rightarrow> string \<Rightarrow> ACLRule list \<Rightarrow> bool" where
  "any_rule topic action [] = False"
| "any_rule topic action (r # rs) = (if acl_Access r = action \<and> auth_topicMatch (acl_Topic r) topic then True else any_rule topic action rs)"

definition Authorize :: "CredentialStore \<Rightarrow> string \<Rightarrow> string \<Rightarrow> string \<Rightarrow> bool" where
  "Authorize cs username topic action = (case map_of cs username of
     None \<Rightarrow> False
   | Some user \<Rightarrow> any_rule topic action (u_ACL user))"

definition ResolveTenant :: "CredentialStore \<Rightarrow> string \<Rightarrow> string" where
  "ResolveTenant cs username = (case map_of cs username of None \<Rightarrow> [] | Some user \<Rightarrow> u_TenantID user)"

subsection \<open>What the store decides\<close>

lemma auth_topicMatch_eq: "auth_topicMatch filt topic = TopicMatch filt topic"
  unfolding topicMatch_eq [symmetric] by (simp add: auth_topicMatch_def topicMatch_def)

lemma any_rule_iff: "any_rule topic action rs \<longleftrightarrow> (\<exists>r\<in>set rs. acl_Access r = action \<and> TopicMatch (acl_Topic r) topic)"
  by (induction rs) (auto simp: auth_topicMatch_eq)

lemma bad_access_None: "bad_access rs = None \<longleftrightarrow> (\<forall>r\<in>set rs. acl_Access r = ''publish'' \<or> acl_Access r = ''subscribe'')"
  by (induction rs) simp_all

definition user_ok :: "string \<Rightarrow> User \<Rightarrow> bool" where
  "user_ok n u \<longleftrightarrow> n \<noteq> [] \<and> u_Username u = n \<and> u_PasswordHash u \<noteq> [] \<and> bad_access (u_ACL u) = None"

lemma LoadCredentials_step:
  assumes "LoadCredentials (u # us) store = Inr cs"
  shows "user_ok (u_Username u) u" and "map_of store (u_Username u) = None" and "LoadCredentials us (AList.update (u_Username u) u store) = Inr cs"
  using assms by (auto simp: user_ok_def split: if_splits option.splits)

lemma LoadCredentials_lookup:
  "LoadCredentials us store = Inr cs \<Longrightarrow> map_of cs n = (case map_of store n of Some u \<Rightarrow> Some u | None \<Rightarrow> map_of (map (\<lambda>u. (u_Username u, u)) us) n)"
proof (induction us arbitrary: store)
  case (Cons u us)
  note c = LoadCredentials_step [OF Cons.prems]
  show ?case using Cons.IH [OF c(3)] c(2) by (cases "n = u_Username u") (simp_all add: update_conv' split: option.split)
qed (simp split: option.split)

lemma LoadCredentials_users:
  "LoadCredentials us store = Inr cs \<Longrightarrow> (\<And>k u. map_of store k = Some u \<Longrightarrow> user_ok k u) \<Longrightarrow> map_of cs n = Some v \<Longrightarrow> user_ok n v"
proof (induction us arbitrary: store)
  case (Cons u us)
  note c = LoadCredentials_step [OF Cons.prems(1)]
  have "user_ok k w" if "map_of (AList.update (u_Username u) u store) k = Some w" for k w
    using that c(1) Cons.prems(2) [of k w] by (cases "k = u_Username u") (simp_all add: update_conv')
  then show ?case by (rule Cons.IH [OF c(3) _ Cons.prems(3)])
qed simp

subsection \<open>What the broker makes of it\<close>

definition guarded_by :: "(string \<Rightarrow> octet list \<Rightarrow> bool) \<Rightarrow> CredentialStore \<Rightarrow> broker_env \<Rightarrow> bool" where
  "guarded_by bcrypt cs e \<longleftrightarrow> e_Authenticate e = Authenticate bcrypt cs \<and> e_Authorize e = Authorize cs"

text \<open>The rules of the file as an access matrix.\<close>

definition may :: "User list \<Rightarrow> string \<Rightarrow> string \<Rightarrow> string \<Rightarrow> bool" where
  "may us name action topic \<longleftrightarrow>
     (\<exists>u\<in>set us. u_Username u = name \<and> (\<exists>r\<in>set (u_ACL u). acl_Access r = action \<and> TopicMatch (acl_Topic r) topic))"

lemma LoadCredentials_distinct:
  "LoadCredentials us store = Inr cs \<Longrightarrow> distinct (map u_Username us) \<and> (\<forall>u\<in>set us. map_of store (u_Username u) = None)"
proof (induction us arbitrary: store)
  case (Cons u us)
  note c = LoadCredentials_step [OF Cons.prems]
  note i = Cons.IH [OF c(3)]
  have "u_Username v \<noteq> u_Username u \<and> map_of store (u_Username v) = None" if "v \<in> set us" for v
    using conjunct2 [OF i, rule_format, OF that] by (simp add: update_conv' split: if_splits)
  moreover from this have "u_Username u \<notin> u_Username ` set us" by (metis imageE)
  ultimately show ?case using conjunct1 [OF i] c(2) by simp
qed simp

lemma LoadCredentials_user:
  assumes "LoadCredentials us [] = Inr cs"
  shows "map_of cs name = Some u \<longleftrightarrow> u \<in> set us \<and> u_Username u = name"
proof -
  have "distinct (map fst (map (\<lambda>u. (u_Username u, u)) us))" using LoadCredentials_distinct [OF assms] by (simp add: comp_def)
  then have "map_of (map (\<lambda>u. (u_Username u, u)) us) name = Some u \<longleftrightarrow> (name, u) \<in> set (map (\<lambda>u. (u_Username u, u)) us)"
    by (rule map_of_eq_Some_iff)
  then show ?thesis using LoadCredentials_lookup [OF assms, of name] by auto
qed

lemma Authorize_may:
  assumes "LoadCredentials us [] = Inr cs"
  shows "Authorize cs name topic action \<longleftrightarrow> may us name action topic"
proof (cases "map_of cs name")
  case None
  then have "\<forall>u\<in>set us. u_Username u \<noteq> name" using LoadCredentials_user [OF assms, of name] by fastforce
  then show ?thesis using None by (simp add: Authorize_def may_def)
next
  case (Some u)
  have "v = u" if "v \<in> set us" "u_Username v = name" for v using LoadCredentials_user [OF assms, of name v] that Some by simp
  moreover have "u \<in> set us" "u_Username u = name" using LoadCredentials_user [OF assms, of name u] Some by simp_all
  ultimately have "may us name action topic \<longleftrightarrow> (\<exists>r\<in>set (u_ACL u). acl_Access r = action \<and> TopicMatch (acl_Topic r) topic)"
    unfolding may_def by blast
  then show ?thesis using Some by (simp add: Authorize_def any_rule_iff)
qed

lemma handleConnect_authenticates:
  assumes "handleConnect e now h fh data b = Some (True, b')"
  obtains pkt where "DecodeConnectPacket data = Inr pkt" and "e_Authenticate e (cp_Username pkt) (cp_Password pkt)"
  using assms by (auto simp: handleConnect_def bind_eq_Some_conv Let_def split: option.splits sum.splits if_splits)

lemma acknowledge_frame:
  assumes "acknowledge now h c qos pid b = Some (go, b')"
  shows "(\<forall>k. k \<noteq> h \<longrightarrow> br_conns b' k = br_conns b k) \<and> br_retain b' = br_retain b \<and> br_offline b' = br_offline b \<and> br_out b' = br_out b"
  using assms by (auto simp: acknowledge_def send_def set_conn_def bind_eq_Some_conv split: if_splits prod.splits bool.splits option.splits)

lemma refused_publish:
  assumes "br_conns b h = Some cl" and "DecodePublishPacket data (QoS fh) 4 = Inr pkt" and "\<not> e_Authorize e (cl_username cl) (pp_Topic pkt) ''publish''"
    and "handlePublish e now h fh data b = Some b'"
  shows "(\<forall>k. k \<noteq> h \<longrightarrow> br_conns b' k = br_conns b k) \<and> br_retain b' = br_retain b \<and> br_offline b' = br_offline b \<and> br_out b' = br_out b"
proof -
  obtain go where "acknowledge now h (cl_clientID cl) (QoS fh) (pp_PacketID pkt) b = Some (go, b')"
    using assms by (auto simp: handlePublish_def bind_eq_Some_conv)
  then show ?thesis by (rule acknowledge_frame)
qed


text \<open>Two users: one may do what is needed, the other has no rule at all.\<close>

definition ann_and_bob :: "User list" where
  "ann_and_bob = [\<lparr>u_Username = ''ann'', u_PasswordHash = ''x'', u_TenantID = [], u_ACL = [\<lparr>acl_Topic = ''t'', acl_Access = ''subscribe''\<rparr>]\<rparr>,
     \<lparr>u_Username = ''bob'', u_PasswordHash = ''y'', u_TenantID = [], u_ACL = []\<rparr>]"

definition sample_credentials :: CredentialStore where
  "sample_credentials = map (\<lambda>u. (u_Username u, u)) ann_and_bob"

definition sample_bcrypt :: "string \<Rightarrow> octet list \<Rightarrow> bool" where
  "sample_bcrypt hash password \<longleftrightarrow> bytes_of hash = password"

definition sample_guard :: broker_env where
  "sample_guard = open_env\<lparr>e_Authenticate := Authenticate sample_bcrypt sample_credentials, e_Authorize := Authorize sample_credentials\<rparr>"

lemma sample_loads: "LoadCredentials ann_and_bob [] = Inr sample_credentials"
  by code_simp

lemma sample_guarded: "guarded_by sample_bcrypt sample_credentials sample_guard"
  by (simp add: guarded_by_def sample_guard_def)


subsection \<open>Where the rules do not reach\<close>

lemma wildcard_rule_widens:
  assumes "map_of cs name = Some u" and "\<lparr>acl_Topic = ''a/+'', acl_Access = ''subscribe''\<rparr> \<in> set (u_ACL u)"
  shows "Authorize cs name ''a/#'' ''subscribe'' \<and> TopicMatch ''a/#'' ''a/b/c'' \<and> \<not> TopicMatch ''a/+'' ''a/b/c''"
proof -
  have "TopicMatch ''a/+'' ''a/#''" "TopicMatch ''a/#'' ''a/b/c''" "\<not> TopicMatch ''a/+'' ''a/b/c''" by code_simp+
  then show ?thesis using assms by (force simp: Authorize_def any_rule_iff)
qed

text \<open>C20: A session is handed over without asking: whoever connects under the identifier of an existing session, without a
  clean start and as whatever user the authenticator accepts, has every subscription of that session at once. The
  authorizer is not asked, so the user is sent the messages of topics that it may not subscribe to.\<close>

theorem resume_ignores_rules:
  assumes "broker_wf b" and "handleConnect e now h fh data b = Some (True, b')" and "DecodeConnectPacket data = Inr pkt"
    and "cp_ClientID pkt = c" and "c \<noteq> []" and "\<not> CleanSession pkt" and "map_of (br_sessions b) c = Some ses"
    and "map_of (s_Subscriptions ses) f = Some q" and "TopicMatch f topic"
  shows "map_of (br_clients b') c = Some h \<and> subs_of (br_subscriptions b') (c, f) = Some q \<and> granted topic c b' \<noteq> None"
proof -
  obtain cl where a: "accept_client now h pkt c cl b = Some (True, b')"
    using assms(2-6) by (auto simp: handleConnect_def bind_eq_Some_conv Let_def split: option.splits if_splits)
  have "sess_ok (br_sessions b) (br_subscriptions b)" using assms(1) by (simp add: broker_wf_def broker_core_def stores_wf_def)
  then have "distinct (map fst (s_Subscriptions ses))" using sess_okD(2) assms(7) by blast
  then have s: "subs_of (br_subscriptions b') (c, f) = Some q"
    unfolding accept_resumes(3) [OF a assms(7,6)] using assms(8) by (simp add: subs_of_adds del: map_of_eq_Some_iff)
  then have "q \<in> {q. \<exists>f. TopicMatch f topic \<and> subs_of (br_subscriptions b') (c, f) = Some q}" using assms(9) by blast
  then have "granted topic c b' \<noteq> None" unfolding granted_def max_opt_def by auto
  then show ?thesis using accept_resumes(2) [OF a assms(7,6)] s by blast
qed

text \<open>The first user leaves a session; the second, who has no rule, is about to connect under its identifier.\<close>

definition ann_left :: "unit Broker" where
  "ann_left = the (run_events sample_guard [(0, EvAccept 0 ''p'' ''addr''),
     (0, EvConnect 0 (header CONNECT 0) ([0, 4, 77, 81, 84, 84, 4, 192, 0, 0, 0, 1, 65, 0, 3] @ bytes_of ''ann'' @ [0, 1] @ bytes_of ''x'')),
     (1, EvPacket 0 (header SUBSCRIBE 1) [0, 1, 0, 1, 116, 1]), (2, EvWriteFail 0), (2, EvCloseBegin 0), (2, EvCloseFinish 0),
     (3, EvAccept 1 ''p'' ''addr'')] (boot None None None ()))"

definition bob_connects :: "octet list" where
  "bob_connects = [0, 4, 77, 81, 84, 84, 4, 192, 0, 0, 0, 1, 65, 0, 3] @ bytes_of ''bob'' @ [0, 1] @ bytes_of ''y''"

lemma ann_left_reached: "reach (boot None None None ()) ann_left"
proof -
  have "run_events sample_guard [(0, EvAccept 0 ''p'' ''addr''),
     (0, EvConnect 0 (header CONNECT 0) ([0, 4, 77, 81, 84, 84, 4, 192, 0, 0, 0, 1, 65, 0, 3] @ bytes_of ''ann'' @ [0, 1] @ bytes_of ''x'')),
     (1, EvPacket 0 (header SUBSCRIBE 1) [0, 1, 0, 1, 116, 1]), (2, EvWriteFail 0), (2, EvCloseBegin 0), (2, EvCloseFinish 0),
     (3, EvAccept 1 ''p'' ''addr'')] (boot None None None () :: unit Broker) \<noteq> None" by code_simp
  then show ?thesis unfolding ann_left_def by (rule run_reaches)
qed

lemma bob_facts:
  "(map_option fst (handleConnect sample_guard 4 1 (header CONNECT 0) bob_connects ann_left),
    map_option s_Subscriptions (map_of (br_sessions ann_left) ''A''), TopicMatch ''t'' ''t'') = (Some True, Some [(''t'', 1)], True)"
  by code_simp

lemma bob_decodes: "case DecodeConnectPacket bob_connects of Inl _ \<Rightarrow> False | Inr pkt \<Rightarrow> cp_ClientID pkt = ''A'' \<and> \<not> CleanSession pkt \<and> cp_Username pkt = ''bob''"
  by code_simp

theorem resume_ignores_rules_witness:
  "\<exists>b'. handleConnect sample_guard 4 1 (header CONNECT 0) bob_connects ann_left = Some (True, b') \<and>
    \<not> e_Authorize sample_guard ''bob'' ''t'' ''subscribe'' \<and> map_of (br_clients b') ''A'' = Some 1 \<and> granted ''t'' ''A'' b' \<noteq> None"
proof -
  note k = bob_facts [unfolded prod.inject]
  have w: "broker_wf ann_left" by (rule wf_reach [OF ann_left_reached wf_boot]) (simp add: disk_ok_def)
  obtain b' where b': "handleConnect sample_guard 4 1 (header CONNECT 0) bob_connects ann_left = Some (True, b')" using k by auto
  obtain pkt where pkt: "DecodeConnectPacket bob_connects = Inr pkt" "cp_ClientID pkt = ''A''" "\<not> CleanSession pkt"
    using bob_decodes by (auto split: sum.splits)
  obtain ses where ses: "map_of (br_sessions ann_left) ''A'' = Some ses" "s_Subscriptions ses = [(''t'', 1)]"
    using k by (auto simp del: map_of_eq_Some_iff)
  have "\<not> e_Authorize sample_guard ''bob'' ''t'' ''subscribe''" by code_simp
  moreover have "map_of (br_clients b') ''A'' = Some 1 \<and> subs_of (br_subscriptions b') (''A'', ''t'') = Some 1 \<and> granted ''t'' ''A'' b' \<noteq> None"
    by (rule resume_ignores_rules [OF w b' pkt(1,2) _ pkt(3) ses(1)]) (use k ses(2) in simp_all)
  ultimately show ?thesis using b' by blast
qed

end
