(* ===== verification/PeerTransport.thy ===== *)
theory PeerTransport
  imports Breaker MqttProperties
begin

section \<open>Messages between nodes\<close>

text \<open>
  Models \<^verbatim>\<open>internal/cluster/peer_transport.go\<close>: the frames on a stream, the table of peers with their circuit breakers,
  the waiters for acknowledgements, the sending operations, and what a node does with a message it has read.  The
  messages stand after the JSON parser.  The QUIC connections are third-party: whether a peer has a stream, whether a write
  succeeds and what ends the wait for an acknowledgement are arguments of the operations.
\<close>

subsection \<open>Frames\<close>

definition writeFrame :: "octet list \<Rightarrow> octet list" where
  "writeFrame data = put32 (word_of_nat (length data)) @ data"

datatype frame_error = FrameEOF | FrameUnexpectedEOF | FrameTooLarge nat

definition readFrame :: "octet list \<Rightarrow> frame_error + octet list \<times> octet list" where
  "readFrame r = (case r of
     [] \<Rightarrow> Inl FrameEOF
   | a # b # c # d # body \<Rightarrow>
       (let n = unat (get32 a b c d)
        in if n > 10 * 1024 * 1024 then Inl (FrameTooLarge n)
           else if length body < n then Inl (if body = [] then FrameEOF else FrameUnexpectedEOF)
           else Inr (take n body, drop n body))
   | _ \<Rightarrow> Inl FrameUnexpectedEOF)"

lemma readFrame_shrinks: "readFrame r = Inr (d, r') \<Longrightarrow> length r' < length r"
  by (auto simp: readFrame_def Let_def split: list.splits if_splits)

text \<open>The loop of \<^verbatim>\<open>handleConn\<close>: the frames it sees, and the error that ends it.\<close>

function readFrames :: "octet list \<Rightarrow> octet list list \<times> frame_error" where
  "readFrames r = (case readFrame r of
     Inl e \<Rightarrow> ([], e)
   | Inr (d, r') \<Rightarrow> (case readFrames r' of (ds, e) \<Rightarrow> (d # ds, e)))"
  by pat_completeness auto
termination
  by (relation "measure length") (auto dest: readFrame_shrinks)

declare readFrames.simps [simp del]

lemma readFrame_writeFrame:
  assumes "length d < 2 ^ 32"
  shows "readFrame (writeFrame d @ r) = (if length d > 10 * 1024 * 1024 then Inl (FrameTooLarge (length d)) else Inr (d, r))"
proof -
  let ?x = "word_of_nat (length d) :: 32 word"
  have u: "unat ?x = length d" using assms by (simp add: unat_of_nat take_bit_eq_mod)
  have w: "writeFrame d @ r = word_of_nat (unat ?x div 65536 div 256) # word_of_nat (unat ?x div 65536) # word_of_nat (unat ?x div 256) #
      word_of_nat (unat ?x) # (d @ r)" by (simp add: writeFrame_def put32_def put_len_def)
  show ?thesis unfolding w readFrame_def list.case unfolding get32_put32 unfolding Let_def u by simp
qed

text \<open>Frames survive the stream: the frames that were written, none of them longer than ten megabytes, are read back in
  order whatever follows. A longer frame is written without complaint, and the reader gives up the connection at
  it: neither it nor anything written after it is read.\<close>

theorem frames_round_trip:
  assumes "\<forall>d\<in>set ds. length d \<le> 10 * 1024 * 1024"
  shows "readFrames (concat (map writeFrame ds) @ r) = (ds @ fst (readFrames r), snd (readFrames r)) \<and>
    (10 * 1024 * 1024 < length big \<and> length big < 2 ^ 32 \<longrightarrow>
      readFrames (concat (map writeFrame ds) @ writeFrame big @ r) = (ds, FrameTooLarge (length big)))"
proof -
  have a: "readFrames (concat (map writeFrame ds) @ r) = (ds @ fst (readFrames r), snd (readFrames r))" for r
    using assms
  proof (induction ds)
    case (Cons d ds)
    then have "readFrame (writeFrame d @ concat (map writeFrame ds) @ r) = Inr (d, concat (map writeFrame ds) @ r)"
      by (subst readFrame_writeFrame) simp_all
    then show ?case using Cons by (subst readFrames.simps) simp
  qed simp
  have "readFrames (writeFrame big @ r) = ([], FrameTooLarge (length big))" if "10 * 1024 * 1024 < length big" "length big < 2 ^ 32"
    using readFrame_writeFrame [OF that(2), of r] that(1) by (subst readFrames.simps) simp
  then show ?thesis using a [of r] a [of "writeFrame big @ r"] by simp
qed

theorem frames_round_trip_witness:
  "readFrames (writeFrame [1, 2] @ writeFrame [] @ writeFrame [3]) = ([[1, 2], [], [3]], FrameEOF)"
proof -
  have "readFrames [] = ([], FrameEOF)" by (subst readFrames.simps) (simp add: readFrame_def)
  then show ?thesis using frames_round_trip [of "[[1, 2], [], [3]]" "[]"] by simp
qed

subsection \<open>Messages\<close>

record ForwardMessage =
  fm_ID :: "64 word"
  fm_Topic :: string
  fm_Payload :: "octet list"
  fm_QoS :: octet
  fm_Retain :: bool
  fm_Forwarded :: bool

record MigrateOfflineMsg =
  mo_Topic :: string
  mo_Payload :: "octet list"
  mo_QoS :: octet

record MigrateSessionData =
  md_ClientID :: string
  md_CleanStart :: bool
  md_ExpiryInterval :: "32 word"
  md_Subscriptions :: "(string \<times> octet) list"

record MigrateDataMessage =
  mm_DeviceID :: string
  mm_Messages :: "MigrateOfflineMsg list"
  mm_Session :: "MigrateSessionData option"

text \<open>Times of the entries are nanoseconds since 1970, as on the wire.\<close>

record ReplicateOfflineEntry =
  ro_Topic :: string
  ro_Payload :: "octet list"
  ro_QoS :: octet
  ro_Priority :: int
  ro_CreatedAt :: int
  ro_ExpiresAt :: int

record ReplicateWillMessage =
  rw_ClientID :: string
  rw_Topic :: string
  rw_Payload :: "octet list"
  rw_QoS :: octet
  rw_Retain :: bool
  rw_PersistedAt :: int

record TakeoverRequest =
  tr_ClientID :: string
  tr_RequestNodeID :: string
  tr_ConnectTimestamp :: int
  tr_Epoch :: "64 word"

record TakeoverResponse =
  ts_ClientID :: string
  ts_Success :: bool
  ts_Reason :: string

text \<open>The last constructor is for the types that no code sends.\<close>

datatype PeerMessage =
    MsgForward ForwardMessage
  | MsgForwardAck "64 word"
  | MsgMigrateData MigrateDataMessage
  | MsgMigrateAck string bool
  | MsgReplicateOffline string "ReplicateOfflineEntry list"
  | MsgReplicateOfflineAck string bool
  | MsgReplicateWill ReplicateWillMessage
  | MsgDeleteWill string
  | MsgSessionTakeover TakeoverRequest
  | MsgSessionTakeoverAck TakeoverResponse
  | MsgOther string

fun MessageType :: "PeerMessage \<Rightarrow> string" where
  "MessageType (MsgForward _) = ''forward''"
| "MessageType (MsgForwardAck _) = ''forward_ack''"
| "MessageType (MsgMigrateData _) = ''migrate_data''"
| "MessageType (MsgMigrateAck _ _) = ''migrate_ack''"
| "MessageType (MsgReplicateOffline _ _) = ''replicate_offline''"
| "MessageType (MsgReplicateOfflineAck _ _) = ''replicate_offline_ack''"
| "MessageType (MsgReplicateWill _) = ''replicate_will''"
| "MessageType (MsgDeleteWill _) = ''delete_will''"
| "MessageType (MsgSessionTakeover _) = ''session_takeover''"
| "MessageType (MsgSessionTakeoverAck _) = ''session_takeover_ack''"
| "MessageType (MsgOther t) = t"

subsection \<open>The transport of a node\<close>

text \<open>A handler is given the time and the message and changes the state \<open>'w\<close> of the node; it may panic. A stream is
  present while the peer is connected.\<close>

record peerConn =
  pc_addr :: string
  pc_stream :: bool
  pc_breaker :: "CircuitBreaker option"

record 'w PeerTransport =
  pt_handler :: "(int \<Rightarrow> ForwardMessage \<Rightarrow> 'w \<Rightarrow> 'w option) option"
  pt_msgID :: "64 word"
  pt_peers :: "(string \<times> peerConn) list"
  pt_ackWaiters :: "(64 word \<times> int) list"
  pt_cbConfig :: "breaker_Config option"
  pt_migrateHandler :: "(int \<Rightarrow> MigrateDataMessage \<Rightarrow> 'w \<Rightarrow> 'w option) option"
  pt_registry :: "(string \<times> (int \<Rightarrow> PeerMessage \<Rightarrow> 'w \<Rightarrow> 'w option)) list"

definition NewPeerTransport :: "(int \<Rightarrow> ForwardMessage \<Rightarrow> 'w \<Rightarrow> 'w option) option \<Rightarrow> 'w PeerTransport" where
  "NewPeerTransport handler = \<lparr>pt_handler = handler, pt_msgID = 0, pt_peers = [], pt_ackWaiters = [], pt_cbConfig = None,
     pt_migrateHandler = None, pt_registry = []\<rparr>"

definition SetMigrateHandler :: "(int \<Rightarrow> MigrateDataMessage \<Rightarrow> 'w \<Rightarrow> 'w option) \<Rightarrow> 'w PeerTransport \<Rightarrow> 'w PeerTransport" where
  "SetMigrateHandler fn pt = pt\<lparr>pt_migrateHandler := Some fn\<rparr>"

definition RegisterHandler :: "string \<Rightarrow> (int \<Rightarrow> PeerMessage \<Rightarrow> 'w \<Rightarrow> 'w option) \<Rightarrow> 'w PeerTransport \<Rightarrow> 'w PeerTransport" where
  "RegisterHandler msgType fn pt = pt\<lparr>pt_registry := AList.update msgType fn (pt_registry pt)\<rparr>"

definition Dispatch :: "int \<Rightarrow> PeerMessage \<Rightarrow> 'w PeerTransport \<Rightarrow> 'w \<Rightarrow> 'w option" where
  "Dispatch now msg pt w = (case map_of (pt_registry pt) (MessageType msg) of None \<Rightarrow> Some w | Some fn \<Rightarrow> fn now msg w)"

definition AddPeer :: "string \<Rightarrow> string \<Rightarrow> 'w PeerTransport \<Rightarrow> 'w PeerTransport" where
  "AddPeer nodeID addr pt = (case map_of (pt_peers pt) nodeID of
     Some _ \<Rightarrow> pt
   | None \<Rightarrow> pt\<lparr>pt_peers := AList.update nodeID \<lparr>pc_addr = addr, pc_stream = False, pc_breaker = map_option New (pt_cbConfig pt)\<rparr> (pt_peers pt)\<rparr>)"

definition RemovePeer :: "string \<Rightarrow> 'w PeerTransport \<Rightarrow> 'w PeerTransport" where
  "RemovePeer nodeID pt = pt\<lparr>pt_peers := AList.delete nodeID (pt_peers pt)\<rparr>"

text \<open>What \<^verbatim>\<open>connectPeer\<close> does to the peer when the stream is opened and when it is lost.\<close>

definition set_stream :: "string \<Rightarrow> bool \<Rightarrow> 'w PeerTransport \<Rightarrow> 'w PeerTransport" where
  "set_stream nodeID up pt = pt\<lparr>pt_peers := map (\<lambda>(n, pc). (n, if n = nodeID then pc\<lparr>pc_stream := up\<rparr> else pc)) (pt_peers pt)\<rparr>"

definition SetCircuitBreakerConfig :: "breaker_Config \<Rightarrow> 'w PeerTransport \<Rightarrow> 'w PeerTransport" where
  "SetCircuitBreakerConfig cfg pt =
     pt\<lparr>pt_cbConfig := Some cfg, pt_peers := map (\<lambda>(n, pc). (n, pc\<lparr>pc_breaker := Some (New cfg)\<rparr>)) (pt_peers pt)\<rparr>"

definition NextID :: "'w PeerTransport \<Rightarrow> 64 word \<times> 'w PeerTransport" where
  "NextID pt = (pt_msgID pt + 1, pt\<lparr>pt_msgID := pt_msgID pt + 1\<rparr>)"

definition cleanupStaleAckWaiters :: "int \<Rightarrow> 'w PeerTransport \<Rightarrow> 'w PeerTransport" where
  "cleanupStaleAckWaiters now pt = pt\<lparr>pt_ackWaiters := filter (\<lambda>(i, createdAt). \<not> now - createdAt > seconds 120) (pt_ackWaiters pt)\<rparr>"

subsection \<open>What a node does with a message\<close>

text \<open>\<^verbatim>\<open>migrationAckKey\<close>: FNV-1a with 64 bits of the device identifier after the word \<^verbatim>\<open>migrate:\<close>.\<close>

definition fnv64a :: "octet list \<Rightarrow> 64 word" where
  "fnv64a bs = fold (\<lambda>b h. (h XOR ucast b) * 1099511628211) bs 14695981039346656037"

definition migrationAckKey :: "string \<Rightarrow> 64 word" where
  "migrationAckKey deviceID = fnv64a (bytes_of ''migrate:'' @ bytes_of deviceID)"

definition drop_waiter :: "64 word \<Rightarrow> 'w PeerTransport \<Rightarrow> 'w PeerTransport" where
  "drop_waiter i pt = pt\<lparr>pt_ackWaiters := AList.delete i (pt_ackWaiters pt)\<rparr>"

definition add_waiter :: "64 word \<Rightarrow> int \<Rightarrow> 'w PeerTransport \<Rightarrow> 'w PeerTransport" where
  "add_waiter i now pt = pt\<lparr>pt_ackWaiters := AList.update i now (pt_ackWaiters pt)\<rparr>"

text \<open>The answers it writes to the stream, and the transport and the node after the handlers.\<close>

definition handle_message :: "int \<Rightarrow> PeerMessage \<Rightarrow> 'w PeerTransport \<times> 'w \<Rightarrow> (PeerMessage list \<times> 'w PeerTransport \<times> 'w) option" where
  "handle_message now msg s = (case s of (pt, w) \<Rightarrow>
     case msg of
       MsgForward m \<Rightarrow>
         (let acks = (if fm_QoS m > 0 then [MsgForwardAck (fm_ID m)] else [])
          in case pt_handler pt of None \<Rightarrow> Some (acks, pt, w) | Some fn \<Rightarrow> map_option (\<lambda>w. (acks, pt, w)) (fn now m w))
     | MsgForwardAck i \<Rightarrow> Some ([], drop_waiter i pt, w)
     | MsgMigrateData m \<Rightarrow>
         (let acks = [MsgMigrateAck (mm_DeviceID m) True]
          in case pt_migrateHandler pt of None \<Rightarrow> Some (acks, pt, w) | Some fn \<Rightarrow> map_option (\<lambda>w. (acks, pt, w)) (fn now m w))
     | MsgMigrateAck d _ \<Rightarrow> Some ([], drop_waiter (migrationAckKey d) pt, w)
     | _ \<Rightarrow> map_option (\<lambda>w. ([], pt, w)) (Dispatch now msg pt w))"

subsection \<open>Sending\<close>

datatype send_error = PeerNotFound | PeerNotConnected | CircuitOpen | WriteFailed | AckTimeout | ShuttingDown

definition set_peer :: "string \<Rightarrow> peerConn \<Rightarrow> 'w PeerTransport \<Rightarrow> 'w PeerTransport" where
  "set_peer nodeID pc pt = pt\<lparr>pt_peers := AList.update nodeID pc (pt_peers pt)\<rparr>"

definition allow_peer :: "int \<Rightarrow> peerConn \<Rightarrow> bool \<times> peerConn" where
  "allow_peer now pc = (case pc_breaker pc of
     None \<Rightarrow> (True, pc)
   | Some cb \<Rightarrow> (case AllowOrError now cb of (err, cb') \<Rightarrow> (err = None, pc\<lparr>pc_breaker := Some cb'\<rparr>)))"

definition record_outcome :: "int \<Rightarrow> bool \<Rightarrow> peerConn \<Rightarrow> peerConn" where
  "record_outcome now ok pc = pc\<lparr>pc_breaker := map_option (if ok then RecordSuccess else RecordFailure now) (pc_breaker pc)\<rparr>"

text \<open>\<^verbatim>\<open>Send\<close> and \<^verbatim>\<open>SendRaw\<close> have the same body; \<open>written\<close> is whether the write to the stream succeeds. Without an error
  the message is on the stream.\<close>

definition Send :: "bool \<Rightarrow> int \<Rightarrow> string \<Rightarrow> 'w PeerTransport \<Rightarrow> send_error option \<times> 'w PeerTransport" where
  "Send written now nodeID pt = (case map_of (pt_peers pt) nodeID of
     None \<Rightarrow> (Some PeerNotFound, pt)
   | Some pc \<Rightarrow> (case allow_peer now pc of (ok, pc) \<Rightarrow>
       if \<not> ok then (Some CircuitOpen, set_peer nodeID pc pt)
       else if \<not> pc_stream pc then (Some PeerNotConnected, set_peer nodeID (record_outcome now False pc) pt)
       else (if written then None else Some WriteFailed, set_peer nodeID (record_outcome now written pc) pt)))"

definition SendRaw :: "bool \<Rightarrow> int \<Rightarrow> string \<Rightarrow> 'w PeerTransport \<Rightarrow> send_error option \<times> 'w PeerTransport" where
  "SendRaw = Send"

datatype wait_end = WaitAcked | WaitTimeout | WaitStopped

record attempt =
  at_now :: int
  at_stream :: bool
  at_written :: bool
  at_wait :: wait_end

text \<open>The loop of \<^verbatim>\<open>SendReliable\<close>: attempt \<open>k\<close> finds the stream of the peer as \<open>at_stream\<close> says, \<open>n\<close> attempts are left. The answer
  has the attempts whose frame is on the stream. An acknowledgement ends the wait after the reader has removed the waiter.\<close>

fun reliable_loop :: "(nat \<Rightarrow> attempt) \<Rightarrow> string \<Rightarrow> 64 word \<Rightarrow> nat \<Rightarrow> nat \<Rightarrow> 'w PeerTransport \<Rightarrow> send_error option \<times> nat list \<times> 'w PeerTransport" where
  "reliable_loop as nodeID i k 0 pt = (None, [], pt)"
| "reliable_loop as nodeID i k (Suc n) pt =
     (case Send (at_written (as k)) (at_now (as k)) nodeID (add_waiter i (at_now (as k)) (set_stream nodeID (at_stream (as k)) pt)) of
        (Some e, pt) \<Rightarrow>
          if e = CircuitOpen \<or> n = 0 then (Some e, [], drop_waiter i pt) else reliable_loop as nodeID i (Suc k) n (drop_waiter i pt)
      | (None, pt) \<Rightarrow>
          (case at_wait (as k) of
             WaitAcked \<Rightarrow> (None, [k], drop_waiter i pt)
           | WaitStopped \<Rightarrow> (Some ShuttingDown, [k], pt)
           | WaitTimeout \<Rightarrow>
               if n = 0 then (Some AckTimeout, [k], drop_waiter i pt)
               else (case reliable_loop as nodeID i (Suc k) n (drop_waiter i pt) of (err, sent, pt) \<Rightarrow> (err, k # sent, pt))))"

definition SendReliable :: "(nat \<Rightarrow> attempt) \<Rightarrow> string \<Rightarrow> ForwardMessage \<Rightarrow> int \<Rightarrow> 'w PeerTransport \<Rightarrow> send_error option \<times> nat list \<times> 'w PeerTransport" where
  "SendReliable as nodeID msg maxRetries pt = (case map_of (pt_peers pt) nodeID of
     None \<Rightarrow> reliable_loop as nodeID (fm_ID msg) 0 (nat (maxRetries + 1)) pt
   | Some pc \<Rightarrow> (case allow_peer (at_now (as 0)) pc of (ok, pc) \<Rightarrow>
       if ok then reliable_loop as nodeID (fm_ID msg) 0 (nat (maxRetries + 1)) (set_peer nodeID pc pt)
       else (Some CircuitOpen, [], set_peer nodeID pc pt)))"

text \<open>\<^verbatim>\<open>SendMigrate\<close> asks no breaker and makes one attempt.\<close>

definition SendMigrate :: "attempt \<Rightarrow> string \<Rightarrow> MigrateDataMessage \<Rightarrow> 'w PeerTransport \<Rightarrow> send_error option \<times> 'w PeerTransport" where
  "SendMigrate a nodeID msg pt = (case map_of (pt_peers pt) nodeID of
     None \<Rightarrow> (Some PeerNotFound, pt)
   | Some pc \<Rightarrow>
       (let key = migrationAckKey (mm_DeviceID msg); pt = add_waiter key (at_now a) pt
        in if \<not> pc_stream pc then (Some PeerNotConnected, drop_waiter key pt)
           else if \<not> at_written a then (Some WriteFailed, drop_waiter key pt)
           else (case at_wait a of
               WaitAcked \<Rightarrow> (None, drop_waiter key pt)
             | WaitTimeout \<Rightarrow> (Some AckTimeout, drop_waiter key pt)
             | WaitStopped \<Rightarrow> (Some ShuttingDown, pt))))"

text \<open>\<^verbatim>\<open>Forward\<close> of the cluster: up to three retries for a quality of service above 0.\<close>

definition Forward :: "(nat \<Rightarrow> attempt) \<Rightarrow> string \<Rightarrow> ForwardMessage \<Rightarrow> 'w PeerTransport \<Rightarrow> ForwardMessage \<times> send_error option \<times> nat list \<times> 'w PeerTransport" where
  "Forward as nodeID msg pt =
     (let (i, pt) = (if fm_ID msg = 0 then NextID pt else (fm_ID msg, pt));
          msg = msg\<lparr>fm_ID := i, fm_Forwarded := True\<rparr>
      in (msg, if fm_QoS msg = 0
               then (case Send (at_written (as 0)) (at_now (as 0)) nodeID (set_stream nodeID (at_stream (as 0)) pt) of
                       (err, pt) \<Rightarrow> (err, if err = None then [0] else [], pt))
               else SendReliable as nodeID msg 3 pt))"

subsection \<open>What the sender knows\<close>

lemma reliable_sent:
  assumes "reliable_loop as nodeID i k m pt = (err, sent, pt')" and "0 < m"
  shows "sorted_wrt (<) sent \<and> set sent \<subseteq> {k..<k + m} \<and> (err = None \<longrightarrow> sent \<noteq> [] \<and> at_wait (as (last sent)) = WaitAcked) \<and>
    (err \<noteq> None \<longrightarrow> (\<forall>j\<in>set sent. at_wait (as j) \<noteq> WaitAcked))"
  using assms
proof (induction m arbitrary: k pt err sent pt')
  case (Suc n)
  obtain e pt1 where s: "Send (at_written (as k)) (at_now (as k)) nodeID (add_waiter i (at_now (as k)) (set_stream nodeID (at_stream (as k)) pt)) = (e, pt1)"
    by (rule prod.exhaust)
  show ?case
  proof (cases "n = 0")
    case True
    then show ?thesis using Suc.prems(1) s by (auto split: option.splits wait_end.splits)
  next
    case n: False
    obtain err2 sent2 pt2 where r: "reliable_loop as nodeID i (Suc k) n (drop_waiter i pt1) = (err2, sent2, pt2)" by (rule prod_cases3)
    note IH = Suc.IH [OF r] 
    consider "e = Some CircuitOpen" | "e \<noteq> None" "e \<noteq> Some CircuitOpen" | "e = None" by blast
    then show ?thesis
    proof cases
      case 1
      then show ?thesis using Suc.prems(1) s by auto
    next
      case 2
      then have "(err, sent, pt') = (err2, sent2, pt2)" using Suc.prems(1) s n r by auto
      then show ?thesis using IH n by fastforce
    next
      case 3
      show ?thesis
      proof (cases "at_wait (as k) = WaitTimeout")
        case True
        then have e: "err = err2" "sent = k # sent2" using Suc.prems(1) s n r 3 by simp_all
        have i: "sorted_wrt (<) sent2" "set sent2 \<subseteq> {Suc k..<Suc k + n}" "err2 = None \<longrightarrow> sent2 \<noteq> [] \<and> at_wait (as (last sent2)) = WaitAcked"
            "err2 \<noteq> None \<longrightarrow> (\<forall>j\<in>set sent2. at_wait (as j) \<noteq> WaitAcked)" using IH n by simp_all
        have "sorted_wrt (<) sent" "set sent \<subseteq> {k..<k + Suc n}" using i(1,2) e(2) by auto
        then show ?thesis using i(3,4) e True by auto
      next
        case False
        then show ?thesis using Suc.prems(1) s n 3 by (cases "at_wait (as k)") auto
      qed
    qed
  qed
qed simp

lemma Send_waiters: "Send written now nodeID pt = (err, pt') \<Longrightarrow> pt_ackWaiters pt' = pt_ackWaiters pt"
  by (auto simp: Send_def set_peer_def split: option.splits prod.splits if_splits)

lemma map_of_delete_neq: "j \<noteq> i \<Longrightarrow> map_of (AList.delete i xs) j = map_of xs j"
  by (simp add: delete_conv')

lemma reliable_waiters:
  assumes "reliable_loop as nodeID i k m pt = (err, sent, pt')" and "0 < m"
  shows "(\<forall>j. j \<noteq> i \<longrightarrow> map_of (pt_ackWaiters pt') j = map_of (pt_ackWaiters pt) j) \<and>
    (err \<noteq> Some ShuttingDown \<longrightarrow> map_of (pt_ackWaiters pt') i = None)"
  using assms
proof (induction m arbitrary: k pt err sent pt')
  case (Suc n)
  obtain e pt1 where s: "Send (at_written (as k)) (at_now (as k)) nodeID (add_waiter i (at_now (as k)) (set_stream nodeID (at_stream (as k)) pt)) = (e, pt1)"
    by (rule prod.exhaust)
  have w: "map_of (pt_ackWaiters pt1) j = map_of (pt_ackWaiters pt) j" if "j \<noteq> i" for j
    using Send_waiters [OF s] that by (simp add: add_waiter_def set_stream_def update_conv')
  have d: "map_of (pt_ackWaiters (drop_waiter i pt1)) j = (if j = i then None else map_of (pt_ackWaiters pt) j)" for j
    using w [of j] by (simp add: drop_waiter_def delete_conv')
  obtain err2 sent2 pt2 where r: "reliable_loop as nodeID i (Suc k) n (drop_waiter i pt1) = (err2, sent2, pt2)" by (rule prod_cases3)
  consider "pt' = drop_waiter i pt1" | "pt' = pt1" "err = Some ShuttingDown" | "pt' = pt2" "err = err2" "0 < n"
    using Suc.prems(1) s r by (fastforce split: option.splits if_splits wait_end.splits)
  then show ?case
  proof cases
    case 1
    then show ?thesis using d by simp
  next
    case 2
    then show ?thesis using w by simp
  next
    case 3
    then show ?thesis using Suc.IH [OF r 3(3)] d by simp
  qed
qed simp

lemma Forward_reliable:
  assumes "Forward as nodeID msg pt = (msg', err, sent, pt')" and "fm_QoS msg > 0"
  shows "fm_Topic msg' = fm_Topic msg \<and> fm_Payload msg' = fm_Payload msg \<and> fm_QoS msg' = fm_QoS msg \<and> fm_Retain msg' = fm_Retain msg \<and>
    distinct sent \<and> length sent \<le> 4 \<and> (err = None \<longrightarrow> (\<exists>k\<in>set sent. at_wait (as k) = WaitAcked)) \<and>
    (err \<noteq> None \<longrightarrow> (\<forall>k\<in>set sent. at_wait (as k) \<noteq> WaitAcked))"
proof -
  have m: "fm_Topic msg' = fm_Topic msg" "fm_Payload msg' = fm_Payload msg" "fm_QoS msg' = fm_QoS msg" "fm_Retain msg' = fm_Retain msg"
    using assms(1) by (auto simp: Forward_def Let_def split: prod.splits)
  have q: "fm_QoS msg \<noteq> 0" using assms(2) by auto
  obtain pt1 where s: "SendReliable as nodeID msg' 3 pt1 = (err, sent, pt')"
    using assms(1) q by (auto simp: Forward_def Let_def split: prod.splits)
  have four: "nat (3 + 1) = 4" by simp
  consider pt2 where "reliable_loop as nodeID (fm_ID msg') 0 4 pt2 = (err, sent, pt')" | "err = Some CircuitOpen" "sent = []"
    using s unfolding SendReliable_def four by (auto split: option.splits prod.splits if_splits)
  then show ?thesis
  proof cases
    case (1 pt2)
    note r = reliable_sent [OF 1, simplified]
    have "distinct sent" using r by (simp add: strict_sorted_iff)
    moreover have "set sent \<subseteq> {..<4}" using r by auto
    then have "card (set sent) \<le> card {..<4::nat}" by (intro card_mono) simp_all
    ultimately have "length sent \<le> 4" by (simp add: distinct_card)
    moreover have "err = None \<longrightarrow> (\<exists>k\<in>set sent. at_wait (as k) = WaitAcked)" using r last_in_set [of sent] by auto
    moreover have "err \<noteq> None \<longrightarrow> (\<forall>k\<in>set sent. at_wait (as k) \<noteq> WaitAcked)" using r by blast
    ultimately show ?thesis using m \<open>distinct sent\<close> by blast
  next
    case 2
    then show ?thesis using m by simp
  qed
qed

subsection \<open>What the receiver does\<close>

fun receive_all :: "(int \<times> PeerMessage) list \<Rightarrow> 'w PeerTransport \<times> 'w \<Rightarrow> (PeerMessage list \<times> 'w PeerTransport \<times> 'w) option" where
  "receive_all [] s = Some ([], s)"
| "receive_all ((now, msg) # ms) s = (case handle_message now msg s of
     None \<Rightarrow> None
   | Some (acks, s) \<Rightarrow> (case receive_all ms s of None \<Rightarrow> None | Some (acks', s) \<Rightarrow> Some (acks @ acks', s)))"

fun each_time :: "(int \<Rightarrow> 'w \<Rightarrow> 'w option) \<Rightarrow> int list \<Rightarrow> 'w \<Rightarrow> 'w option" where
  "each_time f [] w = Some w"
| "each_time f (t # ts) w = (case f t w of None \<Rightarrow> None | Some w \<Rightarrow> each_time f ts w)"

lemma receive_forwards:
  assumes "pt_handler q = Some fn" and "fm_QoS m > 0"
  shows "receive_all (map (\<lambda>t. (t, MsgForward m)) ts) (q, w) =
    map_option (\<lambda>w. (replicate (length ts) (MsgForwardAck (fm_ID m)), q, w)) (each_time (\<lambda>t. fn t m) ts w)"
  using assms by (induction ts arbitrary: w) (simp_all add: handle_message_def Let_def split: option.split)

end
