(* ===== verification/Takeover.thy ===== *)
theory Takeover
  imports PeerTransport ClusterIndex
begin

section \<open>Takeover of sessions between nodes\<close>

text \<open>
  Models \<^verbatim>\<open>internal/cluster/takeover.go\<close>.  \<^verbatim>\<open>RequestTakeover\<close> waits for an answer, so it is two steps: up to the wait, and
  from the event that ends it.  A call is identified by a number; its channel is empty, holds an answer or is closed.
\<close>

datatype takeover_chan = ChanEmpty | ChanFull TakeoverResponse | ChanClosed

record TakeoverManager =
  tm_selfID :: string
  tm_sessions :: "(string \<times> SessionMeta) list"
  tm_ackChans :: "(string \<times> nat) list"
  tm_chans :: "nat \<Rightarrow> takeover_chan"

definition NewTakeoverManager :: "string \<Rightarrow> TakeoverManager" where
  "NewTakeoverManager selfID = \<lparr>tm_selfID = selfID, tm_sessions = [], tm_ackChans = [], tm_chans = (\<lambda>_. ChanEmpty)\<rparr>"

definition SetLocalSession :: "string \<Rightarrow> SessionMeta \<Rightarrow> TakeoverManager \<Rightarrow> TakeoverManager" where
  "SetLocalSession c meta tm = tm\<lparr>tm_sessions := AList.update c meta (tm_sessions tm)\<rparr>"

definition RemoveLocalSession :: "string \<Rightarrow> TakeoverManager \<Rightarrow> TakeoverManager" where
  "RemoveLocalSession c tm = tm\<lparr>tm_sessions := AList.delete c (tm_sessions tm)\<rparr>"

text \<open>The request that goes to the other node, and the channel of the call in place of that of an earlier one.\<close>

definition takeover_request :: "string \<Rightarrow> 64 word \<Rightarrow> int \<Rightarrow> TakeoverManager \<Rightarrow> TakeoverRequest" where
  "takeover_request c epoch connectTimestamp tm =
     \<lparr>tr_ClientID = c, tr_RequestNodeID = tm_selfID tm, tr_ConnectTimestamp = connectTimestamp, tr_Epoch = epoch\<rparr>"

definition RequestTakeover :: "nat \<Rightarrow> string \<Rightarrow> TakeoverManager \<Rightarrow> TakeoverManager" where
  "RequestTakeover n c tm =
     (let chans = (case map_of (tm_ackChans tm) c of None \<Rightarrow> tm_chans tm | Some old \<Rightarrow> (tm_chans tm)(old := ChanClosed))
      in tm\<lparr>tm_chans := chans(n := ChanEmpty), tm_ackChans := AList.update c n (tm_ackChans tm)\<rparr>)"

datatype takeover_end = TakeoverSendFailed | TakeoverChannel | TakeoverTimeout

definition RequestTakeover_result :: "nat \<Rightarrow> takeover_end \<Rightarrow> TakeoverManager \<Rightarrow> bool" where
  "RequestTakeover_result n ev tm = (case ev of
     TakeoverSendFailed \<Rightarrow> True
   | TakeoverTimeout \<Rightarrow> True
   | TakeoverChannel \<Rightarrow> (case tm_chans tm n of ChanFull resp \<Rightarrow> ts_Success resp | _ \<Rightarrow> True))"

definition RequestTakeover_done :: "string \<Rightarrow> TakeoverManager \<Rightarrow> TakeoverManager" where
  "RequestTakeover_done c tm = tm\<lparr>tm_ackChans := AList.delete c (tm_ackChans tm)\<rparr>"

text \<open>The answer, and whether the local client is disconnected.\<close>

definition HandleTakeoverRequest :: "TakeoverRequest \<Rightarrow> TakeoverManager \<Rightarrow> bool \<times> TakeoverResponse \<times> TakeoverManager" where
  "HandleTakeoverRequest req tm =
     (let remote = \<lparr>sm_ClientID = tr_ClientID req, sm_Epoch = tr_Epoch req, sm_ConnectTimestamp = tr_ConnectTimestamp req,
                    sm_NodeID = tr_RequestNodeID req\<rparr>
      in case map_of (tm_sessions tm) (tr_ClientID req) of
           None \<Rightarrow> (False, \<lparr>ts_ClientID = tr_ClientID req, ts_Success = True, ts_Reason = []\<rparr>, tm)
         | Some local \<Rightarrow>
             if Resolve local remote
             then (True, \<lparr>ts_ClientID = tr_ClientID req, ts_Success = True, ts_Reason = []\<rparr>, RemoveLocalSession (tr_ClientID req) tm)
             else (False, \<lparr>ts_ClientID = tr_ClientID req, ts_Success = False, ts_Reason = ''local session wins conflict resolution''\<rparr>, tm))"

definition HandleTakeoverResponse :: "TakeoverResponse \<Rightarrow> TakeoverManager \<Rightarrow> TakeoverManager" where
  "HandleTakeoverResponse resp tm = (case map_of (tm_ackChans tm) (ts_ClientID resp) of
     None \<Rightarrow> tm
   | Some n \<Rightarrow> if tm_chans tm n = ChanEmpty then tm\<lparr>tm_chans := (tm_chans tm)(n := ChanFull resp)\<rparr> else tm)"

subsection \<open>Two nodes that claim the same session\<close>

text \<open>When two nodes hold the same session and each asks the other for it, the session is never given up by both: a node
  yields, disconnects its client and agrees exactly when the other has the higher epoch, or the same epoch and the later
  connection. If epoch and time are equal both refuse, and the session stays at both.\<close>

theorem crossing_takeovers:
  assumes "map_of (tm_sessions a) c = Some ma" and "map_of (tm_sessions b) c = Some mb"
    and "HandleTakeoverRequest (takeover_request c (sm_Epoch ma) (sm_ConnectTimestamp ma) a) b = (dropped_b, answer_b, b')"
    and "HandleTakeoverRequest (takeover_request c (sm_Epoch mb) (sm_ConnectTimestamp mb) b) a = (dropped_a, answer_a, a')"
  shows "\<not> (ts_Success answer_a \<and> ts_Success answer_b) \<and>
    (ts_Success answer_a \<or> ts_Success answer_b \<longleftrightarrow> (sm_Epoch ma, sm_ConnectTimestamp ma) \<noteq> (sm_Epoch mb, sm_ConnectTimestamp mb)) \<and>
    (dropped_b \<longleftrightarrow> ts_Success answer_b) \<and> (ts_Success answer_b \<longleftrightarrow> map_of (tm_sessions b') c = None) \<and>
    (ts_Success answer_b \<longleftrightarrow> sm_Epoch mb < sm_Epoch ma \<or> sm_Epoch mb = sm_Epoch ma \<and> sm_ConnectTimestamp mb < sm_ConnectTimestamp ma)"
proof -
  have b: "dropped_b = Resolve mb \<lparr>sm_ClientID = c, sm_Epoch = sm_Epoch ma, sm_ConnectTimestamp = sm_ConnectTimestamp ma, sm_NodeID = tm_selfID a\<rparr>"
      "ts_Success answer_b = dropped_b" "map_of (tm_sessions b') c = None \<longleftrightarrow> dropped_b"
    using assms(2,3) by (auto simp: HandleTakeoverRequest_def takeover_request_def Let_def RemoveLocalSession_def delete_conv' split: if_splits)
  have a: "ts_Success answer_a = Resolve ma \<lparr>sm_ClientID = c, sm_Epoch = sm_Epoch mb, sm_ConnectTimestamp = sm_ConnectTimestamp mb, sm_NodeID = tm_selfID b\<rparr>"
    using assms(1,4) by (auto simp: HandleTakeoverRequest_def takeover_request_def Let_def split: if_splits)
  show ?thesis unfolding a b(2,3) unfolding b(1) by (auto simp: Resolve_def)
qed

definition sample_meta :: "int \<Rightarrow> string \<Rightarrow> SessionMeta" where
  "sample_meta t n = \<lparr>sm_ClientID = ''A'', sm_Epoch = 1, sm_ConnectTimestamp = t, sm_NodeID = n\<rparr>"

theorem crossing_takeovers_witness:
  "let a = SetLocalSession ''A'' (sample_meta 5 ''n1'') (NewTakeoverManager ''n1'');
       b = SetLocalSession ''A'' (sample_meta 3 ''n2'') (NewTakeoverManager ''n2'')
   in map_of (tm_sessions (snd (snd (HandleTakeoverRequest (takeover_request ''A'' 1 5 a) b)))) ''A'' = None"
proof -
  let ?a = "SetLocalSession ''A'' (sample_meta 5 ''n1'') (NewTakeoverManager ''n1'')"
  let ?b = "SetLocalSession ''A'' (sample_meta 3 ''n2'') (NewTakeoverManager ''n2'')"
  have s: "map_of (tm_sessions ?a) ''A'' = Some (sample_meta 5 ''n1'')" "map_of (tm_sessions ?b) ''A'' = Some (sample_meta 3 ''n2'')"
    by (simp_all add: SetLocalSession_def update_conv')
  obtain db rb b' where hb: "HandleTakeoverRequest (takeover_request ''A'' 1 5 ?a) ?b = (db, rb, b')" by (rule prod_cases3)
  obtain da ra a' where ha: "HandleTakeoverRequest (takeover_request ''A'' 1 3 ?b) ?a = (da, ra, a')" by (rule prod_cases3)
  have "map_of (tm_sessions b') ''A'' = None"
    using crossing_takeovers [OF s, of db rb b' da ra a'] hb ha by (auto simp: sample_meta_def)
  then show ?thesis using hb by (simp add: Let_def)
qed

subsection \<open>A call that is overtaken\<close>

lemma responses_ignored:
  assumes "map_of (tm_ackChans tm) c = None" and "\<And>d. map_of (tm_ackChans tm) d \<noteq> Some n"
  shows "tm_chans (fold HandleTakeoverResponse rs tm) n = tm_chans tm n"
  using assms(2)
proof (induction rs arbitrary: tm)
  case (Cons r rs)
  have "tm_ackChans (HandleTakeoverResponse r tm) = tm_ackChans tm" "tm_chans (HandleTakeoverResponse r tm) n = tm_chans tm n"
    using Cons.prems [of "ts_ClientID r"] by (auto simp: HandleTakeoverResponse_def split: option.split)
  then show ?case using Cons.IH [of "HandleTakeoverResponse r tm"] Cons.prems by simp
qed simp

text \<open>A second call of RequestTakeover for a client, made while the first one waits, cannot be refused: it closes the channel
  of the first, which returns and takes the channel of the second out of the table. The answers that come after that
  are thrown away, and whatever the other node answers, the second call ends with success.\<close>

theorem overtaken_takeover_is_deaf:
  assumes "map_of (tm_ackChans tm) c = Some n1" and "\<And>d. d \<noteq> c \<Longrightarrow> map_of (tm_ackChans tm) d \<notin> {Some n1, Some n2}" and "n1 \<noteq> n2"
    and "tm' = fold HandleTakeoverResponse responses (RequestTakeover_done c (RequestTakeover n2 c tm))"
  shows "tm_chans (RequestTakeover n2 c tm) n1 = ChanClosed \<and> RequestTakeover_result n1 TakeoverChannel (RequestTakeover n2 c tm) \<and>
    tm_chans tm' n2 = ChanEmpty \<and> RequestTakeover_result n2 ev tm'"
proof -
  let ?tm = "RequestTakeover_done c (RequestTakeover n2 c tm)"
  have f: "tm_chans (RequestTakeover n2 c tm) n1 = ChanClosed" "tm_chans ?tm n2 = ChanEmpty"
    using assms(1,3) by (simp_all add: RequestTakeover_def RequestTakeover_done_def)
  have "map_of (tm_ackChans ?tm) d = (if d = c then None else map_of (tm_ackChans tm) d)" for d
    by (simp add: RequestTakeover_def RequestTakeover_done_def delete_conv' update_conv')
  then have "map_of (tm_ackChans ?tm) c = None" "\<And>d. map_of (tm_ackChans ?tm) d \<noteq> Some n2" using assms(2) by auto
  then have "tm_chans tm' n2 = ChanEmpty" using responses_ignored [of ?tm c n2 responses] f(2) assms(4) by simp
  then show ?thesis using f(1) by (simp add: RequestTakeover_result_def split: takeover_end.split)
qed

theorem overtaken_takeover_is_deaf_witness:
  "let refused = \<lparr>ts_ClientID = ''A'', ts_Success = False, ts_Reason = []\<rparr>; tm = RequestTakeover 1 ''A'' (NewTakeoverManager ''n1'')
   in \<not> RequestTakeover_result 1 TakeoverChannel (HandleTakeoverResponse refused tm) \<and>
      RequestTakeover_result 2 TakeoverTimeout (HandleTakeoverResponse refused (RequestTakeover_done ''A'' (RequestTakeover 2 ''A'' tm)))"
proof -
  let ?refused = "\<lparr>ts_ClientID = ''A'', ts_Success = False, ts_Reason = []\<rparr>"
  let ?tm = "RequestTakeover 1 ''A'' (NewTakeoverManager ''n1'')"
  have c: "map_of (tm_ackChans ?tm) d = (if d = ''A'' then Some 1 else None)" for d
    by (simp add: RequestTakeover_def NewTakeoverManager_def Let_def)
  have "\<not> RequestTakeover_result 1 TakeoverChannel (HandleTakeoverResponse ?refused ?tm)"
    using c [of "''A''"] by (simp add: HandleTakeoverResponse_def RequestTakeover_result_def) (simp add: RequestTakeover_def)
  moreover have "RequestTakeover_result 2 TakeoverTimeout (HandleTakeoverResponse ?refused (RequestTakeover_done ''A'' (RequestTakeover 2 ''A'' ?tm)))"
    using overtaken_takeover_is_deaf [of ?tm "''A''" 1 2 _ "[?refused]" TakeoverTimeout, OF _ _ _ refl] c by simp
  ultimately show ?thesis by (simp only: Let_def simp_thms)
qed

end
