(* ===== verification/BrokerCluster.thy ===== *)
theory BrokerCluster
  imports BrokerSessions Takeover Migration
begin

section \<open>What a broker does for the cluster\<close>

text \<open>
  The handlers that \<^verbatim>\<open>SetCluster\<close> of \<^verbatim>\<open>internal/broker/broker.go\<close> gives to the cluster, and the operations of the broker that
  the migration of devices uses.  Then two brokers and the transport between them: forwarded messages, and a
  migration.
\<close>

subsection \<open>Wills and replicas\<close>

definition will_publisher :: "int \<Rightarrow> string \<Rightarrow> 's Broker \<Rightarrow> 's Broker option" where
  "will_publisher now c b = (case (br_wills b, br_disk b) of
     (Some ws, Some d) \<Rightarrow>
       (case will_Get c ws of
          None \<Rightarrow> Some b
        | Some w \<Rightarrow>
            if IsPublished c d then Some b
            else publish_will now w (b\<lparr>br_disk := Some (MarkPublished c d)\<rparr>) \<bind> (\<lambda>b. Some (on_wills (will_Delete c) b)))
   | _ \<Rightarrow> Some b)"

definition replicate_will :: "ReplicateWillMessage \<Rightarrow> 's Broker \<Rightarrow> 's Broker" where
  "replicate_will m b = on_wills (will_Set (rw_ClientID m) \<lparr>w_Topic = rw_Topic m, w_Payload = rw_Payload m, w_QoS = rw_QoS m,
     w_Retain = rw_Retain m, w_ClientID = [], w_PersistedAt = rw_PersistedAt m\<rparr>) b"

definition delete_will :: "string \<Rightarrow> 's Broker \<Rightarrow> 's Broker" where
  "delete_will c b = on_wills (will_Delete c) b"

definition replica_message :: "ReplicateOfflineEntry \<Rightarrow> OfflineMessage" where
  "replica_message r = \<lparr>om_Topic = ro_Topic r, om_Payload = ro_Payload r, om_QoS = ro_QoS r, om_Priority = word_of_int (ro_Priority r),
     om_CreatedAt = Some (ro_CreatedAt r), om_ExpiresAt = Some (ro_ExpiresAt r)\<rparr>"

definition replicate_offline :: "int \<Rightarrow> string \<Rightarrow> ReplicateOfflineEntry list \<Rightarrow> 's Broker \<Rightarrow> 's Broker" where
  "replicate_offline now c entries b = fold (\<lambda>r. on_offline (\<lambda>s. snd (Enqueue now c (replica_message r) s))) entries b"

definition replicate_offline_ack :: "string \<Rightarrow> 's Broker \<Rightarrow> 's Broker" where
  "replicate_offline_ack c b = on_offline (offline_RemoveAll c) b"

subsection \<open>The handlers of a node\<close>

record 's cluster_node =
  cn_broker :: "'s Broker"
  cn_takeover :: "TakeoverManager option"
  cn_sent :: "(string \<times> PeerMessage) list"

definition on_broker :: "('s Broker \<Rightarrow> 's Broker option) \<Rightarrow> 's cluster_node \<Rightarrow> 's cluster_node option" where
  "on_broker f n = map_option (\<lambda>b. n\<lparr>cn_broker := b\<rparr>) (f (cn_broker n))"

definition forward_handler :: "int \<Rightarrow> ForwardMessage \<Rightarrow> 's Broker \<Rightarrow> 's Broker option" where
  "forward_handler now m b = routeMessage now (fm_Topic m) (fm_Payload m) (fm_QoS m) (fm_Retain m) True b"

definition takeover_handler :: "TakeoverRequest \<Rightarrow> 's cluster_node \<Rightarrow> 's cluster_node option" where
  "takeover_handler req n = (case cn_takeover n of
     None \<Rightarrow> Some n
   | Some tm \<Rightarrow> (case HandleTakeoverRequest req tm of (dropped, resp, tm) \<Rightarrow>
       on_broker (if dropped then disconnectExisting (tr_ClientID req) else Some)
         (n\<lparr>cn_takeover := Some tm\<rparr>) \<bind>
       (\<lambda>n. Some (n\<lparr>cn_sent := cn_sent n @ [(tr_RequestNodeID req, MsgSessionTakeoverAck resp)]\<rparr>))))"

fun registered :: "int \<Rightarrow> PeerMessage \<Rightarrow> 's cluster_node \<Rightarrow> 's cluster_node option" where
  "registered now (MsgReplicateWill m) n = on_broker (\<lambda>b. Some (replicate_will m b)) n"
| "registered now (MsgDeleteWill c) n = on_broker (\<lambda>b. Some (delete_will c b)) n"
| "registered now (MsgReplicateOffline c es) n = on_broker (\<lambda>b. Some (replicate_offline now c es b)) n"
| "registered now (MsgReplicateOfflineAck c _) n = on_broker (\<lambda>b. Some (replicate_offline_ack c b)) n"
| "registered now (MsgSessionTakeover req) n = takeover_handler req n"
| "registered now (MsgSessionTakeoverAck resp) n = Some (n\<lparr>cn_takeover := map_option (HandleTakeoverResponse resp) (cn_takeover n)\<rparr>)"
| "registered now _ n = Some n"

text \<open>The transport of a node as \<^verbatim>\<open>NewCluster\<close> makes it and \<^verbatim>\<open>SetCluster\<close> leaves it. No code sets the handler for migrated data.\<close>

definition SetCluster :: "'s cluster_node PeerTransport" where
  "SetCluster = fold (\<lambda>t. RegisterHandler t registered)
     [''replicate_will'', ''delete_will'', ''replicate_offline'', ''replicate_offline_ack'', ''session_takeover'', ''session_takeover_ack'']
     (NewPeerTransport (Some (\<lambda>now m. on_broker (forward_handler now m))))"

subsection \<open>Migration\<close>

definition GetOfflineMessages :: "int \<Rightarrow> string \<Rightarrow> 's Broker \<Rightarrow> MigrateOfflineMsg list \<times> 's Broker" where
  "GetOfflineMessages now d b = (case Dequeue now d (offline_Count d (br_offline b)) (br_offline b, br_disk b) of (msgs, os, disk) \<Rightarrow>
     (map (\<lambda>m. \<lparr>mo_Topic = om_Topic m, mo_Payload = om_Payload m, mo_QoS = om_QoS m\<rparr>) msgs,
      fold (\<lambda>m. on_offline (\<lambda>s. snd (Enqueue now d m s))) msgs (b\<lparr>br_offline := os, br_disk := disk\<rparr>)))"

definition GetSessionData :: "string \<Rightarrow> 's Broker \<Rightarrow> MigrateSessionData option" where
  "GetSessionData c b = map_option (\<lambda>s. \<lparr>md_ClientID = s_ClientID s, md_CleanStart = s_CleanStart s,
     md_ExpiryInterval = s_ExpiryInterval s, md_Subscriptions = s_Subscriptions s\<rparr>) (session_Get c (br_sessions b))"

definition import_session :: "MigrateSessionData \<Rightarrow> 's Broker \<Rightarrow> 's Broker" where
  "import_session ses b =
     (let c = md_ClientID ses; b = on_session (session_Create c (md_CleanStart ses) (md_ExpiryInterval ses)) b;
          b = fold (\<lambda>(f, q) b. b\<lparr>br_sessions := edit_session c (SetSubscription f q) (br_sessions b),
                                br_subscriptions := Add c f q (br_subscriptions b)\<rparr>) (md_Subscriptions ses) b
      in on_session (session_Save c) b)"

definition import_message :: "int \<Rightarrow> string \<Rightarrow> MigrateOfflineMsg \<Rightarrow> 's Broker \<Rightarrow> 's Broker" where
  "import_message now d m b = enqueue_one now (mo_Topic m) (mo_Payload m) (d, mo_QoS m) b"

definition ImportMigrateData :: "int \<Rightarrow> MigrateDataMessage \<Rightarrow> 's Broker \<Rightarrow> 's Broker" where
  "ImportMigrateData now msg b =
     (let b = fold (import_message now (mm_DeviceID msg)) (mm_Messages msg) b
      in case mm_Session msg of None \<Rightarrow> b | Some ses \<Rightarrow> import_session ses b)"

text \<open>The steps of the executor on two brokers: the one that it runs on, the message that it has gathered, and the one at the
  other end. \<open>reached\<close> says which of the failed attempts arrived although no acknowledgement came back.\<close>

record 's migrating =
  mg_source :: "'s Broker"
  mg_message :: MigrateDataMessage
  mg_target :: "'s cluster_node PeerTransport \<times> 's cluster_node"

definition gather :: "int \<Rightarrow> string \<Rightarrow> 's migrating \<Rightarrow> 's migrating" where
  "gather now d s = (case GetOfflineMessages now d (mg_source s) of (msgs, b) \<Rightarrow>
     s\<lparr>mg_source := b, mg_message := \<lparr>mm_DeviceID = d, mm_Messages = msgs, mm_Session = GetSessionData d b\<rparr>\<rparr>)"

definition arrive :: "int \<Rightarrow> 's migrating \<Rightarrow> 's migrating option" where
  "arrive now s = map_option (\<lambda>(acks, t). s\<lparr>mg_target := t\<rparr>) (handle_message now (MsgMigrateData (mg_message s)) (mg_target s))"

fun migrate_effect :: "(string \<Rightarrow> bool) \<Rightarrow> int \<Rightarrow> effect \<Rightarrow> 's migrating \<Rightarrow> 's migrating option" where
  "migrate_effect reached now (DisconnectDevice d) s =
     disconnectExisting d (mg_source s) \<bind> (\<lambda>b. Some (gather now d (s\<lparr>mg_source := b\<rparr>)))"
| "migrate_effect reached now (SendMigrate _ d ok) s = (if ok \<or> reached d then arrive now s else Some s)"
| "migrate_effect reached now (DeleteOfflineMessages d) s = Some (s\<lparr>mg_source := on_offline (offline_RemoveAll d) (mg_source s)\<rparr>)"
| "migrate_effect reached now (DeleteSession d) s = Some (s\<lparr>mg_source := on_session (session_Remove d) (mg_source s)\<rparr>)"
| "migrate_effect reached now _ s = Some s"

definition run_migration :: "(string \<Rightarrow> bool) \<Rightarrow> int \<Rightarrow> effect list \<Rightarrow> 's migrating \<Rightarrow> 's migrating option" where
  "run_migration reached now es s = each (migrate_effect reached now) es s"

subsection \<open>The invariant of the broker\<close>

lemma wf_offlines: "broker_wf b \<Longrightarrow> broker_wf (fold (\<lambda>m. on_offline (\<lambda>s. snd (Enqueue now c (g m) s))) ms b)"
  by (rule wf_quiet [OF _ quiet_fold]) (assumption, rule on_offline_frame, rule disk_Enqueue)

lemma wf_enqueues: "broker_wf b \<Longrightarrow> broker_wf (fold (import_message now d) ms b)"
  by (rule wf_quiet [OF _ quiet_fold]) (auto simp: import_message_def intro: quiet_enqueue_one)

lemma wf_MarkPublished: "broker_wf b \<Longrightarrow> br_disk b = Some d \<Longrightarrow> broker_wf (b\<lparr>br_disk := Some d'\<rparr>)"
  by (rule wf_stores [of b]) (auto simp: same_conns_def stores_wf_def dest: stores_of_wf)

lemma wf_will_publisher: "broker_wf b \<Longrightarrow> will_publisher now c b = Some b' \<Longrightarrow> broker_wf b'"
  by (auto simp: will_publisher_def bind_eq_Some_conv split: option.splits if_splits prod.splits
      intro!: wf_wills elim: wf_publish_will [OF wf_MarkPublished])

lemma wf_dequeue:
  assumes "broker_wf b" and "Dequeue now c n (br_offline b, br_disk b) = (ms, os, d)"
  shows "broker_wf (b\<lparr>br_offline := os, br_disk := d\<rparr>)"
proof (rule wf_quiet [OF assms(1)])
  have "d = None \<longleftrightarrow> br_disk b = None" using disk_Dequeue [of now c n "(br_offline b, br_disk b)"] assms(2) by simp
  then show "quiet b (b\<lparr>br_offline := os, br_disk := d\<rparr>)" by (simp add: quiet_def option.rel_refl)
qed

lemma wf_GetOfflineMessages:
  assumes "broker_wf b"
  shows "broker_wf (snd (GetOfflineMessages now d b))"
proof -
  obtain ms os disk where r: "Dequeue now d (offline_Count d (br_offline b)) (br_offline b, br_disk b) = (ms, os, disk)" by (rule prod_cases3)
  show ?thesis using wf_offlines [OF wf_dequeue [OF assms r], where g = "\<lambda>m. m"] by (simp add: GetOfflineMessages_def r)
qed

lemma wf_DeleteSession:
  assumes "broker_wf b"
  shows "broker_wf (on_session (session_Remove c) b)"
proof (rule wf_stores [OF assms])
  have "stores_wf b" by (rule stores_of_wf [OF assms])
  then show "stores_wf (on_session (session_Remove c) b)"
    using stores_wf_end [of b "br_subscriptions b" c] by (simp add: stores_wf_def)
qed simp

lemma import_subscriptions:
  "same_conns b (fold (\<lambda>(f, q) b. b\<lparr>br_sessions := edit_session c (SetSubscription f q) (br_sessions b), br_subscriptions := Add c f q (br_subscriptions b)\<rparr>) fs b) \<and>
   (stores_wf b \<longrightarrow> stores_wf (fold (\<lambda>(f, q) b. b\<lparr>br_sessions := edit_session c (SetSubscription f q) (br_sessions b), br_subscriptions := Add c f q (br_subscriptions b)\<rparr>) fs b))"
proof (induction fs arbitrary: b)
  case (Cons x fs)
  obtain f q where x: "x = (f, q)" by (cases x)
  let ?b = "b\<lparr>br_sessions := edit_session c (SetSubscription f q) (br_sessions b), br_subscriptions := Add c f q (br_subscriptions b)\<rparr>"
  have "same_conns b ?b" by (simp add: same_conns_def)
  moreover have "stores_wf b \<longrightarrow> stores_wf ?b" by (simp add: stores_wf_def si_wf_Add sess_ok_set)
  ultimately show ?case using Cons.IH [of ?b] same_conns_trans [of b ?b] by (simp add: x)
qed simp

lemma wf_import_session: "broker_wf b \<Longrightarrow> broker_wf (import_session ses b)"
proof -
  assume w: "broker_wf b"
  let ?c = "md_ClientID ses"
  let ?b = "on_session (session_Create ?c (md_CleanStart ses) (md_ExpiryInterval ses)) b"
  have "broker_wf ?b" by (rule wf_stores [OF w]) (simp_all add: stores_wf_Create stores_of_wf w)
  then have "broker_wf (fold (\<lambda>(f, q) b. b\<lparr>br_sessions := edit_session ?c (SetSubscription f q) (br_sessions b),
      br_subscriptions := Add ?c f q (br_subscriptions b)\<rparr>) (md_Subscriptions ses) ?b)"
    using import_subscriptions [of ?b ?c "md_Subscriptions ses"] stores_of_wf [of ?b] by (blast intro: wf_stores)
  then show ?thesis unfolding import_session_def Let_def by (rule wf_Save)
qed

lemma wf_ImportMigrateData: "broker_wf b \<Longrightarrow> broker_wf (ImportMigrateData now msg b)"
  by (simp add: ImportMigrateData_def Let_def wf_enqueues wf_import_session split: option.split)

definition node_wf :: "'s cluster_node \<Rightarrow> bool" where
  "node_wf n \<longleftrightarrow> broker_wf (cn_broker n)"

lemma wf_on_broker: "node_wf n \<Longrightarrow> on_broker f n = Some n' \<Longrightarrow> (\<And>b b'. broker_wf b \<Longrightarrow> f b = Some b' \<Longrightarrow> broker_wf b') \<Longrightarrow> node_wf n'"
  by (auto simp: on_broker_def node_wf_def)

lemma wf_takeover_handler:
  assumes w: "node_wf n" and r: "takeover_handler req n = Some n'"
  shows "node_wf n'"
proof (cases "cn_takeover n")
  case None
  then show ?thesis using w r by (simp add: takeover_handler_def)
next
  case (Some tm)
  obtain dropped resp tm' where h: "HandleTakeoverRequest req tm = (dropped, resp, tm')" by (rule prod_cases3)
  let ?f = "if dropped then disconnectExisting (tr_ClientID req) else Some"
  obtain n1 where n1: "on_broker ?f (n\<lparr>cn_takeover := Some tm'\<rparr>) = Some n1"
    "n' = n1\<lparr>cn_sent := cn_sent n1 @ [(tr_RequestNodeID req, MsgSessionTakeoverAck resp)]\<rparr>"
    using r Some h by (auto simp: takeover_handler_def bind_eq_Some_conv)
  have "node_wf n1" by (rule wf_on_broker [OF _ n1(1)]) (use w in \<open>auto simp: node_wf_def split: if_splits intro: wf_disconnectExisting\<close>)
  then show ?thesis by (simp add: n1(2) node_wf_def)
qed

lemma wf_registered:
  assumes w: "node_wf n" and r: "registered now msg n = Some n'"
  shows "node_wf n'"
proof (cases msg)
  case (MsgReplicateOffline c es)
  then show ?thesis using r by (intro wf_on_broker [OF w]) (simp_all, auto simp: replicate_offline_def intro: wf_offlines)
next
  case (MsgReplicateOfflineAck c ok)
  then show ?thesis using r by (intro wf_on_broker [OF w]) (simp_all, auto simp: replicate_offline_ack_def intro: wf_offline)
next
  case (MsgReplicateWill m)
  then show ?thesis using r by (intro wf_on_broker [OF w]) (simp_all, auto simp: replicate_will_def intro: wf_wills)
next
  case (MsgDeleteWill c)
  then show ?thesis using r by (intro wf_on_broker [OF w]) (simp_all, auto simp: delete_will_def intro: wf_wills)
next
  case (MsgSessionTakeover req)
  then show ?thesis using r wf_takeover_handler [OF w] by simp
qed (use w r in \<open>auto simp: node_wf_def\<close>)

lemma SetCluster_fields:
  "pt_handler SetCluster = Some (\<lambda>now m. on_broker (forward_handler now m))" "pt_migrateHandler SetCluster = None"
  "map_of (pt_registry SetCluster) t = Some fn \<Longrightarrow> fn = registered"
  by (simp_all add: SetCluster_def RegisterHandler_def NewPeerTransport_def update_conv' split: if_splits)

text \<open>A transport with the handlers that the start-up code gives it, whatever its peers and waiters.\<close>

definition wired :: "'s cluster_node PeerTransport \<Rightarrow> bool" where
  "wired pt \<longleftrightarrow> pt_handler pt = Some (\<lambda>now m. on_broker (forward_handler now m)) \<and> pt_migrateHandler pt = None \<and>
     pt_registry pt = pt_registry SetCluster"

lemma wired_SetCluster: "wired SetCluster"
  by (simp add: wired_def SetCluster_fields)

lemma wf_Dispatch:
  assumes w: "wired pt" "node_wf n" and r: "Dispatch now msg pt n = Some n'"
  shows "node_wf n'"
proof (cases "map_of (pt_registry pt) (MessageType msg)")
  case None
  then show ?thesis using w(2) r by (simp add: Dispatch_def)
next
  case (Some fn)
  then have "fn = registered" using SetCluster_fields(3) [of "MessageType msg" fn] w(1) by (simp add: wired_def)
  then have "registered now msg n = Some n'" using r Some by (simp add: Dispatch_def)
  then show ?thesis by (rule wf_registered [OF w(2)])
qed

lemma wf_handle_message:
  assumes w: "wired pt" "node_wf n" and r: "handle_message now msg (pt, n) = Some (acks, pt', n')"
  shows "wired pt' \<and> node_wf n'"
proof (cases msg)
  case (MsgForward m)
  have "node_wf n'" using r w(1) MsgForward
    by (intro wf_on_broker [OF w(2), of "forward_handler now m"])
      (auto simp: handle_message_def wired_def Let_def forward_handler_def intro: wf_route)
  then show ?thesis using r w(1) MsgForward by (auto simp: handle_message_def wired_def Let_def)
qed (use w r in \<open>auto simp: handle_message_def drop_waiter_def Let_def wired_def intro: wf_Dispatch [of pt, unfolded wired_def]\<close>)

lemma wf_receive_all: "wired pt \<Longrightarrow> node_wf n \<Longrightarrow> receive_all ms (pt, n) = Some (acks, pt', n') \<Longrightarrow> wired pt' \<and> node_wf n'"
proof (induction ms arbitrary: pt n acks)
  case (Cons m ms)
  obtain now msg where m: "m = (now, msg)" by (rule prod.exhaust)
  obtain acks1 pt1 n1 acks2 where h: "handle_message now msg (pt, n) = Some (acks1, pt1, n1)" "receive_all ms (pt1, n1) = Some (acks2, pt', n')"
    using Cons.prems(3) m by (auto split: option.splits)
  then show ?case using wf_handle_message [OF Cons.prems(1,2) h(1)] Cons.IH [of pt1 n1] by blast
qed simp

subsection \<open>Messages that other nodes forward\<close>

lemma deliver_one_out: "deliver_one now topic payload d b = Some b' \<Longrightarrow> br_out b' = br_out b"
  by (auto simp: deliver_one_def deliverMessage_def send_def set_conn_def Let_def split: prod.splits option.splits if_splits)

lemma each_deliver_out: "each (deliver_one now topic payload) ds b = Some b' \<Longrightarrow> br_out b' = br_out b"
proof (induction ds arbitrary: b)
  case (Cons d ds)
  then obtain b1 where "deliver_one now topic payload d b = Some b1" "each (deliver_one now topic payload) ds b1 = Some b'"
    by (auto simp: bind_eq_Some_conv)
  then show ?case using Cons.IH deliver_one_out by metis
qed simp

lemma forwarded_out: "routeMessage now topic payload qos retain True b = Some b' \<Longrightarrow> br_out b' = br_out b"
  by (auto simp: routeMessage_def Let_def bind_eq_Some_conv emit_def forwards_def enqueue_all_frame split: option.splits dest: each_deliver_out)

lemma each_time_broker: "each_time (\<lambda>t. on_broker (f t)) ts n = map_option (\<lambda>b. n\<lparr>cn_broker := b\<rparr>) (each_time f ts (cn_broker n))"
proof (induction ts arbitrary: n)
  case (Cons t ts)
  then show ?case by (cases "f t (cn_broker n)") (simp_all add: on_broker_def)
qed simp

lemma each_time_out:
  "each_time (\<lambda>t. routeMessage t topic payload qos retain True) ts b = Some b' \<Longrightarrow> br_out b' = br_out b"
proof (induction ts arbitrary: b)
  case (Cons t ts)
  then obtain b1 where "routeMessage t topic payload qos retain True b = Some b1"
    "each_time (\<lambda>t. routeMessage t topic payload qos retain True) ts b1 = Some b'" by (auto split: option.splits)
  then show ?case using Cons.IH forwarded_out by metis
qed simp

text \<open>C7: Forwarding to another node is at least once and does not loop. For a quality of service above 0, up to four frames are
  written; the other broker routes the message to its own subscribers once for every frame that arrives, acknowledges each
  and forwards nothing. When the sender sees no error, at least one frame has arrived, given that an acknowledgement comes
  only after an arrival; when it sees one, no frame was acknowledged in time, and the message may have been routed all the same.\<close>

theorem forward_at_least_once:
  assumes "Forward as nodeID msg pt = (msg', err, sent, pt')" and "fm_QoS msg > 0" and "wired q"
    and "\<And>k. k \<in> set sent \<Longrightarrow> at_wait (as k) = WaitAcked \<Longrightarrow> \<exists>j\<in>set sent. arrived j"
    and "receive_all (map (\<lambda>k. (clock k, MsgForward msg')) (filter arrived sent)) (q, n) = Some (acks, q', n')"
  shows "acks = replicate (length (filter arrived sent)) (MsgForwardAck (fm_ID msg')) \<and> length acks \<le> 4 \<and>
    (err = None \<longrightarrow> acks \<noteq> []) \<and> (err \<noteq> None \<longrightarrow> (\<forall>k\<in>set sent. at_wait (as k) \<noteq> WaitAcked)) \<and>
    each_time (\<lambda>t. routeMessage t (fm_Topic msg) (fm_Payload msg) (fm_QoS msg) (fm_Retain msg) True) (map clock (filter arrived sent)) (cn_broker n) =
      Some (cn_broker n') \<and>
    br_out (cn_broker n') = br_out (cn_broker n)"
proof -
  note f = Forward_reliable [OF assms(1,2)]
  let ?ts = "map clock (filter arrived sent)"
  have h: "pt_handler q = Some (\<lambda>now m. on_broker (forward_handler now m))" using assms(3) by (simp add: wired_def)
  have q: "fm_QoS msg' > 0" using f assms(2) by simp
  have r: "receive_all (map (\<lambda>t. (t, MsgForward msg')) ?ts) (q, n) = Some (acks, q', n')" using assms(5) by (simp add: comp_def)
  have a: "acks = replicate (length ?ts) (MsgForwardAck (fm_ID msg'))"
    and e: "each_time (\<lambda>t. forward_handler t msg') ?ts (cn_broker n) = Some (cn_broker n')"
    using r unfolding receive_forwards [OF h q] each_time_broker by auto
  have "length (filter arrived sent) \<le> 4" by (rule le_trans [OF length_filter_le]) (use f in simp)
  then have l: "length acks \<le> 4" using a by simp
  have "acks \<noteq> []" if n: "err = None"
  proof -
    obtain k where "k \<in> set sent" "at_wait (as k) = WaitAcked" using f n by blast
    then obtain j where "j \<in> set sent" "arrived j" using assms(4) by blast
    then have "filter arrived sent \<noteq> []" by (auto simp: filter_empty_conv)
    then show ?thesis using a by simp
  qed
  moreover have s: "each_time (\<lambda>t. routeMessage t (fm_Topic msg) (fm_Payload msg) (fm_QoS msg) (fm_Retain msg) True) ?ts (cn_broker n) = Some (cn_broker n')"
    using e f by (simp add: forward_handler_def [abs_def])
  moreover have "br_out (cn_broker n') = br_out (cn_broker n)" by (rule each_time_out [OF s])
  ultimately show ?thesis using a l f by simp
qed

text \<open>The first frame arrives but its acknowledgement is late; the second is acknowledged.\<close>

definition late_ack :: "nat \<Rightarrow> attempt" where
  "late_ack k = \<lparr>at_now = 0, at_stream = True, at_written = True, at_wait = (if k = 0 then WaitTimeout else WaitAcked)\<rparr>"

definition sample_forward :: ForwardMessage where
  "sample_forward = \<lparr>fm_ID = 0, fm_Topic = ''t'', fm_Payload = [7], fm_QoS = 2, fm_Retain = False, fm_Forwarded = False\<rparr>"

definition two_nodes :: "unit cluster_node PeerTransport" where
  "two_nodes = AddPeer ''n2'' ''addr'' SetCluster"

definition demo_node :: "unit cluster_node" where
  "demo_node = \<lparr>cn_broker = demo, cn_takeover = None, cn_sent = []\<rparr>"

lemma late_ack_sent: "(case Forward late_ack ''n2'' sample_forward two_nodes of (msg', err, sent, pt') \<Rightarrow> (fm_ID msg', err, sent)) = (1, None, [0, 1])"
  by code_simp

lemma late_ack_received:
  "map_option fst (receive_all (map (\<lambda>k. (5, MsgForward (fst (Forward late_ack ''n2'' sample_forward two_nodes)))) [0, 1 :: nat]) (SetCluster, demo_node)) =
    Some [MsgForwardAck 1, MsgForwardAck 1]"
  by code_simp

theorem forward_at_least_once_witness:
  "\<exists>b'. each_time (\<lambda>t. routeMessage t ''t'' [7] 2 False True) [5, 5] demo = Some b' \<and> br_out b' = br_out demo"
proof -
  obtain msg' err sent pt' where f: "Forward late_ack ''n2'' sample_forward two_nodes = (msg', err, sent, pt')" by (rule prod_cases4)
  have s: "err = None" "sent = [0, 1]" using late_ack_sent f by simp_all
  obtain acks q' n' where r: "receive_all (map (\<lambda>k. (5, MsgForward msg')) [0, 1 :: nat]) (SetCluster, demo_node) = Some (acks, q', n')"
    using late_ack_received unfolding f by auto
  have r': "receive_all (map (\<lambda>k. (5, MsgForward msg')) (filter (\<lambda>_. True) sent)) (SetCluster, demo_node) = Some (acks, q', n')"
    using r s(2) by simp
  have q: "fm_QoS sample_forward > 0" by (simp add: sample_forward_def)
  have "each_time (\<lambda>t. routeMessage t (fm_Topic sample_forward) (fm_Payload sample_forward) (fm_QoS sample_forward) (fm_Retain sample_forward) True)
      (map (\<lambda>_. 5) (filter (\<lambda>_. True) sent)) (cn_broker demo_node) = Some (cn_broker n') \<and> br_out (cn_broker n') = br_out (cn_broker demo_node)"
    using forward_at_least_once [OF f q wired_SetCluster _ r'] s(2) by auto
  then show ?thesis using s(2) by (intro exI [of _ "cn_broker n'"]) (simp add: sample_forward_def demo_node_def)
qed

end
