(* ===== verification/BrokerMigration.thy ===== *)
theory BrokerMigration
  imports BrokerCluster
begin

section \<open>Migration of devices between two brokers\<close>

text \<open>
  What the export of a device gives to the import at another broker, and what a whole migration does with the handlers
  that the start-up code sets.
\<close>

subsection \<open>Queues that are filled again\<close>

abbreviation put_offline :: "int \<Rightarrow> string \<Rightarrow> OfflineMessage \<Rightarrow> 's Broker \<Rightarrow> 's Broker" where
  "put_offline now c m \<equiv> on_offline (\<lambda>s. snd (Enqueue now c m s))"

lemma br_offline_put: "br_offline (put_offline now c m b) = fst (snd (Enqueue now c m (br_offline b, br_disk b)))"
  by (simp add: on_offline_def split: prod.split)

lemma Enqueue_other: "d \<noteq> c \<Longrightarrow> queue_of d (fst (snd (Enqueue now c m s))) = queue_of d (fst s)"
  by (simp add: Enqueue_def Let_def split: option.split)

lemma puts_other: "d \<noteq> c \<Longrightarrow> queue_of d (br_offline (fold (put_offline now c) ms b)) = queue_of d (br_offline b)"
  by (induction ms arbitrary: b) (simp_all add: br_offline_put Enqueue_other)

lemma puts_frame: "br_sessions (fold (put_offline now c) ms b) = br_sessions b \<and> br_subscriptions (fold (put_offline now c) ms b) = br_subscriptions b \<and>
    br_clients (fold (put_offline now c) ms b) = br_clients b"
proof (induction ms arbitrary: b)
  case (Cons m ms)
  then show ?case by (simp add: on_offline_def split: prod.split)
qed simp

lemma GetOfflineMessages_frame:
  "br_sessions (snd (GetOfflineMessages now c b)) = br_sessions b" "br_clients (snd (GetOfflineMessages now c b)) = br_clients b"
  by (simp_all add: GetOfflineMessages_def puts_frame split: prod.split)

lemma puts_queue:
  assumes "os_tierConfig (br_offline b) = None" and "\<forall>m\<in>set (queue_of c (br_offline b)). unexpired now m"
    and "\<forall>m\<in>set ms. unexpired now (stamp now (br_offline b) m)"
    and "int (length (queue_of c (br_offline b)) + length ms) \<le> os_maxPerClient (br_offline b)"
  shows "queue_of c (br_offline (fold (put_offline now c) ms b)) = queue_of c (br_offline b) @ map (stamp now (br_offline b)) ms"
  using assms
proof (induction ms arbitrary: b)
  case (Cons m ms)
  let ?b = "put_offline now c m b"
  note f = Enqueue_facts [where s = "(br_offline b, br_disk b)" and now = now and c = c and msg = m, simplified, OF Cons.prems(1)]
  have v: "filter (unexpired now) (queue_of c (br_offline b)) = queue_of c (br_offline b)" using Cons.prems(2) by (simp add: filter_id_conv)
  have t: "fst (Enqueue now c m (br_offline b, br_disk b))" using f(1) Cons.prems(4) v by simp
  have q: "queue_of c (br_offline ?b) = queue_of c (br_offline b) @ [stamp now (br_offline b) m]"
    using f(2) [of c] t v by (simp add: br_offline_put)
  have s: "stamp now (br_offline ?b) x = stamp now (br_offline b) x" for x
    by (rule stamp_no_tier) (simp_all add: br_offline_put f Cons.prems(1))
  have "queue_of c (br_offline (fold (put_offline now c) ms ?b)) = queue_of c (br_offline ?b) @ map (stamp now (br_offline ?b)) ms"
    by (rule Cons.IH) (use Cons.prems q s in \<open>simp_all add: br_offline_put f\<close>)
  then show ?case using q s by simp
qed simp

lemma fresh_unexpired: "unexpired now (stamp now s (offline_message t p q))" if "os_tierConfig s = None"
  using that by (simp add: unexpired_def stamp_def offline_message_def Let_def)

definition stamped :: "int \<Rightarrow> OfflineStore \<Rightarrow> OfflineMessage list \<Rightarrow> bool" where
  "stamped now s ms \<longleftrightarrow> (\<forall>m\<in>set ms. stamp now s m = m)"

text \<open>What a client of the broker would be sent, in the order of delivery.\<close>

definition waiting :: "int \<Rightarrow> string \<Rightarrow> 's Broker \<Rightarrow> OfflineMessage list" where
  "waiting now c b = sort_key delivery_order (filter (unexpired now) (queue_of c (br_offline b)))"

definition content :: "OfflineMessage \<Rightarrow> string \<times> octet list \<times> octet" where
  "content m = (om_Topic m, om_Payload m, om_QoS m)"

lemma gather_queue:
  assumes "os_tierConfig (br_offline b) = None" and "stamped now (br_offline b) (queue_of c (br_offline b))"
    and "int (length (queue_of c (br_offline b))) \<le> os_maxPerClient (br_offline b)"
  shows "map (\<lambda>m. (mo_Topic m, mo_Payload m, mo_QoS m)) (fst (GetOfflineMessages now c b)) = map content (waiting now c b)"
    and "queue_of d (br_offline (snd (GetOfflineMessages now c b))) = (if d = c then waiting now c b else queue_of d (br_offline b))"
proof -
  let ?n = "offline_Count c (br_offline b)"
  obtain ms os disk where r: "Dequeue now c ?n (br_offline b, br_disk b) = (ms, os, disk)" by (rule prod_cases3)
  note f = Dequeue_facts [where s = "(br_offline b, br_disk b)" and now = now and c = c and n = ?n, unfolded r, simplified]
  have n: "length (waiting now c b) \<le> ?n" by (simp add: waiting_def offline_Count_def)
  have ms: "ms = waiting now c b" using f(1) n by (simp add: waiting_def)
  have os: "queue_of e os = (if e = c then [] else queue_of e (br_offline b))" for e
    using f(2) [of e] n [unfolded waiting_def length_sort] by simp
  let ?b = "b\<lparr>br_offline := os, br_disk := disk\<rparr>"
  have t: "os_tierConfig os = None" "os_maxPerClient os = os_maxPerClient (br_offline b)" using f(3,5) assms(1) by simp_all
  have st: "stamp now os m = stamp now (br_offline b) m" for m by (rule stamp_no_tier) (simp_all add: f(4) t assms(1))
  have sub: "set ms \<subseteq> set (queue_of c (br_offline b))" "\<forall>m\<in>set ms. unexpired now m" by (auto simp: ms waiting_def)
  then have id: "stamp now os m = m" if "m \<in> set ms" for m using assms(2) that unfolding st stamped_def by blast
  have l: "length ms \<le> length (queue_of c (br_offline b))" using n by (simp add: ms offline_Count_def)
  have "map (stamp now os) ms = ms" using id by (rule map_idI)
  moreover have "queue_of c (br_offline (fold (put_offline now c) ms ?b)) = queue_of c (br_offline ?b) @ map (stamp now (br_offline ?b)) ms"
  proof (rule puts_queue)
    show "\<forall>m\<in>set ms. unexpired now (stamp now (br_offline ?b) m)" using sub(2) id by simp
    show "int (length (queue_of c (br_offline ?b)) + length ms) \<le> os_maxPerClient (br_offline ?b)" using l assms(3) t os [of c] by simp
  qed (simp_all add: t os)
  ultimately have q: "queue_of c (br_offline (fold (put_offline now c) ms ?b)) = ms" using os [of c] by simp
  show "map (\<lambda>m. (mo_Topic m, mo_Payload m, mo_QoS m)) (fst (GetOfflineMessages now c b)) = map content (waiting now c b)"
    unfolding GetOfflineMessages_def r prod.case fst_conv ms by (simp add: content_def comp_def)
  show "queue_of d (br_offline (snd (GetOfflineMessages now c b))) = (if d = c then waiting now c b else queue_of d (br_offline b))"
    using q os [of d] puts_other [of d c now ms ?b] unfolding GetOfflineMessages_def r prod.case snd_conv ms by simp
qed

subsection \<open>A device that is exported and imported\<close>

lemma import_subscriptions_facts:
  assumes "distinct (map fst fs)" and "map_of (br_sessions b) c = Some ses"
    and "b' = fold (\<lambda>(f, q) b. b\<lparr>br_sessions := edit_session c (SetSubscription f q) (br_sessions b),
      br_subscriptions := Add c f q (br_subscriptions b)\<rparr>) fs b"
  shows "(\<exists>subs. map_of (br_sessions b') c = Some (ses\<lparr>s_Subscriptions := subs\<rparr>) \<and>
      (\<forall>f. map_of subs f = (case map_of fs f of None \<Rightarrow> map_of (s_Subscriptions ses) f | Some q \<Rightarrow> Some q))) \<and>
    (\<forall>d. d \<noteq> c \<longrightarrow> map_of (br_sessions b') d = map_of (br_sessions b) d) \<and>
    br_subscriptions b' = fold (\<lambda>(f, q). Add c f q) fs (br_subscriptions b) \<and> br_offline b' = br_offline b"
  using assms
proof (induction fs arbitrary: b ses)
  case Nil
  then show ?case by (auto intro: exI [of _ "s_Subscriptions ses"])
next
  case (Cons x fs)
  obtain f q where x: "x = (f, q)" by (cases x)
  let ?b = "b\<lparr>br_sessions := edit_session c (SetSubscription f q) (br_sessions b), br_subscriptions := Add c f q (br_subscriptions b)\<rparr>"
  have s: "map_of (br_sessions ?b) c = Some (SetSubscription f q ses)"
    and o: "\<forall>d. d \<noteq> c \<longrightarrow> map_of (br_sessions ?b) d = map_of (br_sessions b) d"
    using Cons.prems(2) by (simp_all add: edit_session_map)
  have d: "distinct (map fst fs)" "map_of fs f = None" using Cons.prems(1) x by (simp_all add: map_of_eq_None_iff)
  have b': "b' = fold (\<lambda>(f, q) b. b\<lparr>br_sessions := edit_session c (SetSubscription f q) (br_sessions b),
      br_subscriptions := Add c f q (br_subscriptions b)\<rparr>) fs ?b" using Cons.prems(3) x by simp
  obtain subs where i: "map_of (br_sessions b') c = Some ((SetSubscription f q ses)\<lparr>s_Subscriptions := subs\<rparr>)"
    "\<forall>g. map_of subs g = (case map_of fs g of None \<Rightarrow> map_of (s_Subscriptions (SetSubscription f q ses)) g | Some q \<Rightarrow> Some q)"
    "\<forall>d. d \<noteq> c \<longrightarrow> map_of (br_sessions b') d = map_of (br_sessions ?b) d"
    "br_subscriptions b' = fold (\<lambda>(f, q). Add c f q) fs (br_subscriptions ?b)" "br_offline b' = br_offline ?b"
    using Cons.IH [OF d(1) s b'] by (elim exE conjE) (rule that)
  have "map_of subs g = (case map_of (x # fs) g of None \<Rightarrow> map_of (s_Subscriptions ses) g | Some q \<Rightarrow> Some q)" for g
  proof -
    have "map_of (s_Subscriptions (SetSubscription f q ses)) g = (if g = f then Some q else map_of (s_Subscriptions ses) g)"
      by (simp add: SetSubscription_def update_conv')
    then show ?thesis using i(2) [rule_format, of g] d(2) by (cases "g = f") (simp_all add: x split: option.split)
  qed
  then have "\<exists>subs. map_of (br_sessions b') c = Some (ses\<lparr>s_Subscriptions := subs\<rparr>) \<and>
      (\<forall>g. map_of subs g = (case map_of (x # fs) g of None \<Rightarrow> map_of (s_Subscriptions ses) g | Some q \<Rightarrow> Some q))"
    using i(1) by (intro exI [of _ subs]) (simp add: SetSubscription_def)
  moreover have "br_subscriptions b' = fold (\<lambda>(f, q). Add c f q) (x # fs) (br_subscriptions b)" using i(4) by (simp add: x)
  ultimately show ?case using i(3,5) o by simp
qed

lemma imports_are_puts:
  "fold (import_message now d) ms b = fold (put_offline now d) (map (\<lambda>m. offline_message (mo_Topic m) (mo_Payload m) (mo_QoS m)) ms) b"
  by (induction ms arbitrary: b) (simp_all add: import_message_def enqueue_one_def)

lemma save_frame: "br_sessions (on_session (session_Save c) b) = br_sessions b" "br_subscriptions (on_session f b) = br_subscriptions b"
    "br_offline (on_session f b) = br_offline b"
  by (simp_all add: on_session_def session_Save_def split: prod.split option.split)

lemma import_session_facts:
  assumes "distinct (map fst (md_Subscriptions ses))" and "md_ClientID ses = c"
  shows "\<exists>s. map_of (br_sessions (import_session ses b)) c = Some s \<and> s_CleanStart s = md_CleanStart ses \<and>
      s_ExpiryInterval s = md_ExpiryInterval ses \<and> map_of (s_Subscriptions s) = map_of (md_Subscriptions ses)"
    and "d \<noteq> c \<Longrightarrow> map_of (br_sessions (import_session ses b)) d = map_of (br_sessions b) d"
    and "br_subscriptions (import_session ses b) = fold (\<lambda>(f, q). Add c f q) (md_Subscriptions ses) (br_subscriptions b)"
    and "br_offline (import_session ses b) = br_offline b"
proof -
  let ?b = "on_session (session_Create c (md_CleanStart ses) (md_ExpiryInterval ses)) b"
  let ?s = "\<lparr>s_ClientID = c, s_CleanStart = md_CleanStart ses, s_ExpiryInterval = md_ExpiryInterval ses, s_Subscriptions = [],
      s_DisconnectedAt = None, s_Epoch = 0, s_ConnectTimestamp = 0, s_NodeID = []\<rparr>"
  let ?b' = "fold (\<lambda>(f, q) b. b\<lparr>br_sessions := edit_session c (SetSubscription f q) (br_sessions b),
      br_subscriptions := Add c f q (br_subscriptions b)\<rparr>) (md_Subscriptions ses) ?b"
  have s: "map_of (br_sessions ?b) e = (if e = c then Some ?s else map_of (br_sessions b) e)" for e
    by (simp add: on_session_def session_Create_def Let_def update_conv')
  have i: "import_session ses b = on_session (session_Save c) ?b'" by (simp add: import_session_def assms(2))
  have "map_of (br_sessions ?b) c = Some ?s" using s by simp
  note f = import_subscriptions_facts [OF assms(1) this refl]
  obtain subs where m: "map_of (br_sessions ?b') c = Some (?s\<lparr>s_Subscriptions := subs\<rparr>)"
    "\<forall>f. map_of subs f = (case map_of (md_Subscriptions ses) f of None \<Rightarrow> map_of (s_Subscriptions ?s) f | Some q \<Rightarrow> Some q)"
    using conjunct1 [OF f] by (elim exE conjE) (rule that)
  have "map_of subs = map_of (md_Subscriptions ses)" using m(2) by (simp add: fun_eq_iff split: option.split)
  then show "\<exists>s. map_of (br_sessions (import_session ses b)) c = Some s \<and> s_CleanStart s = md_CleanStart ses \<and>
      s_ExpiryInterval s = md_ExpiryInterval ses \<and> map_of (s_Subscriptions s) = map_of (md_Subscriptions ses)"
    unfolding i save_frame using m(1) by (intro exI [of _ "?s\<lparr>s_Subscriptions := subs\<rparr>"]) (simp del: map_of_eq_Some_iff)
  show "map_of (br_sessions (import_session ses b)) d = map_of (br_sessions b) d" if "d \<noteq> c"
    using conjunct1 [OF conjunct2 [OF f], rule_format, OF that] s [of d] that unfolding i save_frame by simp
  show "br_subscriptions (import_session ses b) = fold (\<lambda>(f, q). Add c f q) (md_Subscriptions ses) (br_subscriptions b)"
    using f unfolding i save_frame by simp
  show "br_offline (import_session ses b) = br_offline b" using f unfolding i save_frame by simp
qed


text \<open>A message waits for a client of the example that is away; the target is a broker that has just started.\<close>

definition full_demo :: "unit Broker" where
  "full_demo = the (routeMessage 5 ''t'' [7] 2 False False demo)"

definition empty_demo :: "unit Broker" where
  "empty_demo = boot None None None ()"

definition export_facts :: "'s Broker \<Rightarrow> (string \<times> octet option) option \<times> bool \<times> bool \<times> nat \<times> int \<times> (string \<times> octet list \<times> octet) list" where
  "export_facts b = (map_option (\<lambda>s. (s_ClientID s, map_of (s_Subscriptions s) ''t'')) (session_Get ''B'' (br_sessions b)),
     os_tierConfig (br_offline b) = None, stamped 6 (br_offline b) (queue_of ''B'' (br_offline b)), length (queue_of ''B'' (br_offline b)),
     os_maxPerClient (br_offline b), map content (waiting 6 ''B'' b))"

lemma full_demo_run: "map_option export_facts (routeMessage 5 ''t'' [7] 2 False False demo) = Some (Some (''B'', Some 2), True, True, 1, 1000, [(''t'', [7], 2)])"
  by code_simp

lemma full_demo_route: "routeMessage 5 ''t'' [7] 2 False False demo = Some full_demo"
  using full_demo_run by (auto simp: full_demo_def)

lemmas full_demo_facts = full_demo_run [unfolded full_demo_route option.map option.inject export_facts_def]

lemma empty_demo_facts: "(os_tierConfig (br_offline empty_demo) = None, queue_of ''B'' (br_offline empty_demo), os_maxPerClient (br_offline empty_demo)) = (True, [], 1000)"
  by code_simp

lemma full_demo_wf: "broker_wf full_demo"
  by (rule wf_route [OF demo_wf full_demo_route])


subsection \<open>A migration between two nodes\<close>

text \<open>A property that one step establishes and every step keeps holds at the end.\<close>

lemma each_establishes:
  assumes "each f es s = Some s'" and "e \<in> set es" and "\<And>s s'. f e s = Some s' \<Longrightarrow> P s'"
    and "\<And>x s s'. P s \<Longrightarrow> f x s = Some s' \<Longrightarrow> P s'"
  shows "P s'"
proof -
  have k: "each f es s = Some s' \<Longrightarrow> P s \<Longrightarrow> P s'" for es s
    by (induction es arbitrary: s) (auto simp: bind_eq_Some_conv intro: assms(4))
  show ?thesis using assms(1,2)
  proof (induction es arbitrary: s)
    case (Cons x es)
    then obtain s1 where s1: "f x s = Some s1" "each f es s1 = Some s'" by (auto simp: bind_eq_Some_conv)
    show ?case
    proof (cases "x = e")
      case True
      then show ?thesis using k [OF s1(2)] assms(3) s1(1) by blast
    next
      case False
      then show ?thesis using Cons.IH [OF s1(2)] Cons.prems(2) by simp
    qed
  qed simp
qed

lemma each_keeps:
  assumes "each f es s = Some s'" and "P s" and "\<And>x s s'. P s \<Longrightarrow> f x s = Some s' \<Longrightarrow> P s'"
  shows "P s'"
  using assms(1,2)
proof (induction es arbitrary: s)
  case (Cons x es)
  then obtain s1 where "f x s = Some s1" "each f es s1 = Some s'" by (auto simp: bind_eq_Some_conv)
  then show ?case using Cons.IH assms(3) [OF Cons.prems(2)] by blast
qed simp

lemma Execute_effects:
  assumes "d \<in> set (AffectedDevices m)" and "\<not> snd (migrate_device ok m d)"
  shows "DisconnectDevice d \<in> set (Execute ok m)" and "DeleteOfflineMessages d \<in> set (Execute ok m)" and "DeleteSession d \<in> set (Execute ok m)"
proof -
  have "d \<in> set (concat (batches (batch_size (Config m)) (AffectedDevices m)))"
    using assms(1) by (simp add: concat_batches batch_size_pos)
  then obtain xs where xs: "xs \<in> set (batches (batch_size (Config m)) (AffectedDevices m))" "d \<in> set xs" by auto
  have "set (fst (migrate_device ok m d)) \<subseteq> set (migrate_batch ok m xs)" using xs(2) by (auto simp: migrate_batch_def)
  also have "\<dots> \<subseteq> set (Execute ok m)" using xs(1) by (auto simp: Execute_def)
  finally have "set (fst (migrate_device ok m d)) \<subseteq> set (Execute ok m)" .
  moreover have "{DisconnectDevice d, DeleteOfflineMessages d, DeleteSession d} \<subseteq> set (fst (migrate_device ok m d))"
    using assms(2) by (auto simp: migrate_device_def split: prod.splits if_splits)
  ultimately show "DisconnectDevice d \<in> set (Execute ok m)" "DeleteOfflineMessages d \<in> set (Execute ok m)" "DeleteSession d \<in> set (Execute ok m)"
    by blast+
qed

lemma disconnectExisting_frame:
  assumes "disconnectExisting c b = Some b'"
  shows "br_sessions b' = br_sessions b" and "br_offline b' = br_offline b"
    and "map_of (br_clients b') d = (if d = c then None else map_of (br_clients b) d)"
  using assms by (auto simp: disconnectExisting_def sendDisconnectAndClose_def send_def close_conn_def set_conn_def bind_eq_Some_conv
      delete_conv' split: option.splits if_splits)

lemma gather_keeps_empty:
  assumes "queue_of d (br_offline b) = []"
  shows "queue_of d (br_offline (snd (GetOfflineMessages now c b))) = []"
proof -
  obtain ms os disk where r: "Dequeue now c (offline_Count c (br_offline b)) (br_offline b, br_disk b) = (ms, os, disk)" by (rule prod_cases3)
  note f = Dequeue_facts [where s = "(br_offline b, br_disk b)" and now = now and c = c and n = "offline_Count c (br_offline b)", unfolded r, simplified]
  show ?thesis
  proof (cases "d = c")
    case True
    then have "ms = []" "queue_of d os = []" using f(1) f(2) [of c] assms by simp_all
    then show ?thesis by (simp add: GetOfflineMessages_def r)
  next
    case False
    then show ?thesis using f(2) [of d] assms by (simp add: GetOfflineMessages_def r puts_other)
  qed
qed

lemma gather_source: "mg_source (gather now d s) = snd (GetOfflineMessages now d (mg_source s))" "mg_target (gather now d s) = mg_target s"
  by (simp_all add: gather_def split: prod.split)

lemma arrive_source: "arrive now s = Some s' \<Longrightarrow> mg_source s' = mg_source s"
  by (auto simp: arrive_def)

lemma arrive_target: "wired (fst (mg_target s)) \<Longrightarrow> arrive now s = Some s' \<Longrightarrow> mg_target s' = mg_target s"
  by (cases "mg_target s") (auto simp: arrive_def handle_message_def Let_def wired_def)

text \<open>What no step of a migration brings back.\<close>

definition gone :: "string \<Rightarrow> 's Broker \<Rightarrow> bool \<times> bool \<times> bool" where
  "gone d b = (map_of (br_clients b) d = None, session_Get d (br_sessions b) = None, queue_of d (br_offline b) = [])"

lemma migrate_effect_source:
  assumes "migrate_effect reached now x s = Some s'"
  shows "fst (gone d (mg_source s)) \<longrightarrow> fst (gone d (mg_source s'))" and "fst (snd (gone d (mg_source s))) \<longrightarrow> fst (snd (gone d (mg_source s')))"
    and "snd (snd (gone d (mg_source s))) \<longrightarrow> snd (snd (gone d (mg_source s')))"
proof -
  have "(fst (gone d (mg_source s)) \<longrightarrow> fst (gone d (mg_source s'))) \<and> (fst (snd (gone d (mg_source s))) \<longrightarrow> fst (snd (gone d (mg_source s')))) \<and>
    (snd (snd (gone d (mg_source s))) \<longrightarrow> snd (snd (gone d (mg_source s'))))"
  proof (cases x)
    case (DisconnectDevice c)
    then obtain b where b: "disconnectExisting c (mg_source s) = Some b" "s' = gather now c (s\<lparr>mg_source := b\<rparr>)"
      using assms by (auto simp: bind_eq_Some_conv)
    show ?thesis using disconnectExisting_frame [OF b(1)] gather_keeps_empty [of d b]
      by (simp add: b(2) gone_def gather_source GetOfflineMessages_frame)
  next
    case (SendMigrate to c ok)
    then have "mg_source s' = mg_source s" using assms arrive_source by (auto split: if_splits)
    then show ?thesis by simp
  next
    case (DeleteOfflineMessages c)
    then show ?thesis using assms RemoveAll_facts(1) [of d c "(br_offline (mg_source s), br_disk (mg_source s))"]
      by (auto simp: gone_def on_offline_def split: prod.splits)
  next
    case (DeleteSession c)
    then show ?thesis using assms by (auto simp: gone_def on_session_def session_Remove_def session_Get_def delete_conv')
  qed (use assms in auto)
  then show "fst (gone d (mg_source s)) \<longrightarrow> fst (gone d (mg_source s'))" and "fst (snd (gone d (mg_source s))) \<longrightarrow> fst (snd (gone d (mg_source s')))"
    and "snd (snd (gone d (mg_source s))) \<longrightarrow> snd (snd (gone d (mg_source s')))" by simp_all
qed

lemma migrate_effect_target:
  assumes "migrate_effect reached now x s = Some s'" and "wired (fst (mg_target s))"
  shows "mg_target s' = mg_target s"
  using assms arrive_target [OF assms(2)] by (cases x) (auto simp: gather_source bind_eq_Some_conv split: if_splits)

text \<open>C5: A migration loses the devices that it reports as migrated. With the handlers of the start-up code the target
  acknowledges the data of a device and drops them, since no handler for migrated data is set: whatever is sent, the
  target stays as it was. The source takes the acknowledgement for success, and at the end the device has no connection,
  no session and no waiting message there, and none of them at the target that it did not have before.\<close>

theorem migration_loses_devices:
  assumes "wired (fst (mg_target s))" and "run_migration reached now (Execute ok m) s = Some s'"
    and "d \<in> set (AffectedDevices m)" and "\<not> snd (migrate_device ok m d)"
  shows "mg_target s' = mg_target s \<and> map_of (br_clients (mg_source s')) d = None \<and> session_Get d (br_sessions (mg_source s')) = None \<and>
    queue_of d (br_offline (mg_source s')) = []"
proof -
  note r = assms(2) [unfolded run_migration_def] and e = Execute_effects [OF assms(3,4)]
  have "mg_target s' = mg_target s"
  proof (rule each_keeps [OF r])
    show "mg_target s2 = mg_target s" if "mg_target s1 = mg_target s" and "migrate_effect reached now x s1 = Some s2" for x s1 s2
      using migrate_effect_target [OF that(2)] that(1) assms(1) by simp
  qed simp
  moreover have "fst (gone d (mg_source s'))"
  proof (rule each_establishes [OF r e(1)])
    show "fst (gone d (mg_source s2))" if a: "migrate_effect reached now (DisconnectDevice d) s1 = Some s2" for s1 s2
    proof -
      obtain b where b: "disconnectExisting d (mg_source s1) = Some b" "s2 = gather now d (s1\<lparr>mg_source := b\<rparr>)" using a by (auto simp: bind_eq_Some_conv)
      show ?thesis using disconnectExisting_frame(3) [OF b(1), of d] by (simp add: b(2) gone_def gather_source GetOfflineMessages_frame)
    qed
  qed (rule migrate_effect_source(1) [THEN mp])
  moreover have "snd (snd (gone d (mg_source s')))"
  proof (rule each_establishes [OF r e(2)])
    show "snd (snd (gone d (mg_source s2)))" if "migrate_effect reached now (DeleteOfflineMessages d) s1 = Some s2" for s1 s2
      using that RemoveAll_facts(1) [of d d "(br_offline (mg_source s1), br_disk (mg_source s1))"] by (auto simp: gone_def on_offline_def split: prod.splits)
  qed (rule migrate_effect_source(3) [THEN mp])
  moreover have "fst (snd (gone d (mg_source s')))"
  proof (rule each_establishes [OF r e(3)])
    show "fst (snd (gone d (mg_source s2)))" if "migrate_effect reached now (DeleteSession d) s1 = Some s2" for s1 s2
      using that by (auto simp: gone_def on_session_def session_Remove_def session_Get_def delete_conv')
  qed (rule migrate_effect_source(2) [THEN mp])
  ultimately show ?thesis by (simp add: gone_def)
qed

definition lost_migration :: ShardMigration where
  "lost_migration = sample_migration\<lparr>AffectedDevices := [''B'']\<rparr>"

definition lost_start :: "unit migrating" where
  "lost_start = \<lparr>mg_source = full_demo, mg_message = \<lparr>mm_DeviceID = [], mm_Messages = [], mm_Session = None\<rparr>,
     mg_target = (SetCluster, \<lparr>cn_broker = empty_demo, cn_takeover = None, cn_sent = []\<rparr>)\<rparr>"

lemma lost_runs: "run_migration (\<lambda>_. False) 6 (Execute (\<lambda>_ _. True) lost_migration) lost_start \<noteq> None"
  by code_simp

lemma lost_outcome: "\<not> snd (migrate_device (\<lambda>_ _. True) lost_migration ''B'')"
  by code_simp

theorem migration_loses_devices_witness:
  "\<exists>s'. run_migration (\<lambda>_. False) 6 (Execute (\<lambda>_ _. True) lost_migration) lost_start = Some s' \<and>
    session_Get ''B'' (br_sessions (mg_source lost_start)) \<noteq> None \<and> session_Get ''B'' (br_sessions (mg_source s')) = None \<and>
    queue_of ''B'' (br_offline (mg_source s')) = [] \<and> mg_target s' = mg_target lost_start"
proof -
  obtain s' where s': "run_migration (\<lambda>_. False) 6 (Execute (\<lambda>_ _. True) lost_migration) lost_start = Some s'" using lost_runs by blast
  have w: "wired (fst (mg_target lost_start))" by (simp add: lost_start_def wired_SetCluster)
  have d: "''B'' \<in> set (AffectedDevices lost_migration)" by (simp add: lost_migration_def)
  note x = migration_loses_devices [OF w s' d lost_outcome]
  have "session_Get ''B'' (br_sessions (mg_source lost_start)) \<noteq> None"
    using full_demo_facts [unfolded prod.inject] by (auto simp: lost_start_def)
  then show ?thesis using x s' by simp
qed

lemma wf_migrate_effect:
  assumes "broker_wf (mg_source s)" and "migrate_effect reached now x s = Some s'"
  shows "broker_wf (mg_source s')"
proof (cases x)
  case (DisconnectDevice c)
  then obtain b where b: "disconnectExisting c (mg_source s) = Some b" "s' = gather now c (s\<lparr>mg_source := b\<rparr>)"
    using assms(2) by (auto simp: bind_eq_Some_conv)
  show ?thesis using wf_GetOfflineMessages [OF wf_disconnectExisting [OF assms(1) b(1)]] by (simp add: b(2) gather_source)
next
  case (SendMigrate to c ok)
  then have "mg_source s' = mg_source s" using assms(2) arrive_source by (auto split: if_splits)
  then show ?thesis using assms(1) by simp
next
  case (DeleteOfflineMessages c)
  then show ?thesis using assms wf_offline by auto
next
  case (DeleteSession c)
  then show ?thesis using assms wf_DeleteSession by auto
qed (use assms in simp_all)

definition ends_wf :: "'s migrating \<Rightarrow> bool" where
  "ends_wf s \<longleftrightarrow> broker_wf (mg_source s) \<and> wired (fst (mg_target s)) \<and> node_wf (snd (mg_target s))"

lemma wf_run_migration:
  assumes "ends_wf s" and "run_migration reached now es s = Some s'"
  shows "ends_wf s'"
proof (rule each_keeps [where P = ends_wf, OF assms(2) [unfolded run_migration_def] assms(1)])
  fix x and s1 s2 :: "'a migrating"
  assume k: "ends_wf s1" and r: "migrate_effect reached now x s1 = Some s2"
  have "mg_target s2 = mg_target s1" by (rule migrate_effect_target [OF r]) (use k in \<open>simp add: ends_wf_def\<close>)
  then show "ends_wf s2" using k wf_migrate_effect [OF _ r] by (simp add: ends_wf_def)
qed

text \<open>C8: The cluster keeps the invariant of the broker: whatever messages arrive from other nodes, in whatever order, whichever wills
  are published for the clients of a node that has left, and during a migration at both ends, the state of the broker
  stays well-formed. The same holds for the import of migrated data.\<close>

theorem cluster_keeps_invariant:
  assumes "wired pt" and "node_wf n"
  shows "(receive_all msgs (pt, n) = Some (acks, pt', n') \<longrightarrow> node_wf n') \<and>
    (will_publisher now c (cn_broker n) = Some b \<longrightarrow> broker_wf b) \<and> broker_wf (ImportMigrateData now data (cn_broker n)) \<and>
    (broker_wf src \<longrightarrow> run_migration reached now es \<lparr>mg_source = src, mg_message = data, mg_target = (pt, n)\<rparr> = Some s' \<longrightarrow>
      broker_wf (mg_source s') \<and> node_wf (snd (mg_target s')))"
proof (intro conjI impI)
  have w: "broker_wf (cn_broker n)" using assms(2) by (simp add: node_wf_def)
  show "node_wf n'" if "receive_all msgs (pt, n) = Some (acks, pt', n')" using wf_receive_all [OF assms that] by simp
  show "broker_wf b" if "will_publisher now c (cn_broker n) = Some b" by (rule wf_will_publisher [OF w that])
  show "broker_wf (ImportMigrateData now data (cn_broker n))" by (rule wf_ImportMigrateData [OF w])
  assume "broker_wf src" and r: "run_migration reached now es \<lparr>mg_source = src, mg_message = data, mg_target = (pt, n)\<rparr> = Some s'"
  then have "ends_wf s'" using assms by (intro wf_run_migration [OF _ r]) (simp add: ends_wf_def)
  then show "broker_wf (mg_source s')" "node_wf (snd (mg_target s'))" by (simp_all add: ends_wf_def)
qed

definition sample_traffic :: "(int \<times> PeerMessage) list" where
  "sample_traffic = [(5, MsgForward sample_forward), (6, MsgReplicateOfflineAck ''B'' True), (7, MsgOther ''fetch_offline'')]"

lemma traffic_runs: "receive_all sample_traffic (SetCluster, demo_node) \<noteq> None"
  by code_simp

theorem cluster_keeps_invariant_witness:
  "\<exists>acks pt' n'. receive_all sample_traffic (SetCluster, demo_node) = Some (acks, pt', n') \<and> node_wf n'"
proof -
  obtain acks pt' n' where r: "receive_all sample_traffic (SetCluster, demo_node) = Some (acks, pt', n')" using traffic_runs by (auto simp: not_None_eq)
  have "node_wf demo_node" by (simp add: node_wf_def demo_node_def demo_wf)
  from cluster_keeps_invariant [OF wired_SetCluster this] r have "node_wf n'" by blast
  with r show ?thesis by blast
qed

end
