(* ===== verification/Spec2Isabelle.thy ===== *)
theory Spec2Isabelle
  imports AdminPages ClusterHttp Tenants BrokerWills Auth BrokerMigration
begin

text \<open>
  DMQTT is an MQTT broker written in Go with an administration front end written in TypeScript and
  Vue. This development models the whole front end, the HTTP API it talks to and the broker behind that, and
  proves what the pages show and do, what the server answers, which clients get a message, and what the
  stores keep.

  \<^bold>\<open>The parts and how they interact.\<close> The pages (\<^verbatim>\<open>src/web/admin/src/views\<close>) are drawn in a layout with a
  router; they call the REST bindings (\<^verbatim>\<open>api\<close>) through one axios client, some through the polling
  composable. The bindings reach the HTTP API (\<^verbatim>\<open>src/internal/httpapi/server.go\<close>), which reads the
  broker and the cluster through two interfaces, forwards requests for unknown devices to the other
  nodes and aggregates devices and statistics over them. Migrations of shards are kept by a
  coordinator and run by an executor (\<^verbatim>\<open>src/internal/cluster\<close>). Behind the broker interface is the
  broker (\<^verbatim>\<open>src/internal/broker\<close>): its connections read packets (\<^verbatim>\<open>src/internal/codec\<close>), and its handlers use
  the subscription index with the topic matcher, the stores of sessions, retained, offline and will
  messages, and the chain of plugins, tell the other nodes about subscriptions and connections, and send
  messages to the nodes whose subscriptions match.

  \<^bold>\<open>Theories.\<close>
  \<^item> Prelude: text and list operations of the two languages and their lemmas. JsNumber: double
    arithmetic by exact rounding of rationals. Json: JSON values, typed readers, requests and answers.
    Browser: interval timers and messages. Vue: templates as trees and charts.
  \<^item> Composables (\<^verbatim>\<open>usePolling.ts\<close>, \<^verbatim>\<open>useTimeSeriesBuffer.ts\<close>), I18n (\<^verbatim>\<open>locales\<close>), AdminApi (\<^verbatim>\<open>api\<close>).
  \<^item> DashboardView, MetricsView, DevicesView, ClusterView, MainLayout: one theory for each Vue file, with
    the record of its refs, one function for each handler, its computed values and its template;
    MainLayout also has the router. AdminPages collects what holds of all templates.
  \<^item> Migration (\<^verbatim>\<open>migration.go\<close>, \<^verbatim>\<open>migration_executor.go\<close>), HttpApi (\<^verbatim>\<open>server.go\<close>, \<^verbatim>\<open>embed.go\<close>);
    AdminBackend connects the bindings of the front end to the server, ClusterHttp connects servers
    to each other.
  \<^item> Topics (\<^verbatim>\<open>topic_matcher.go\<close>), Subscriptions (\<^verbatim>\<open>subscription.go\<close>), Codec (\<^verbatim>\<open>fixed_header.go\<close>,
    \<^verbatim>\<open>reader.go\<close>).
  \<^item> MqttProperties (\<^verbatim>\<open>codec/properties.go\<close>), Packets (\<^verbatim>\<open>connect.go\<close>, \<^verbatim>\<open>publish.go\<close>, \<^verbatim>\<open>subscribe.go\<close>,
    \<^verbatim>\<open>unsubscribe.go\<close>, \<^verbatim>\<open>disconnect.go\<close>, \<^verbatim>\<open>ping.go\<close>, \<^verbatim>\<open>packets.go\<close>): the control packets.
  \<^item> Storage (\<^verbatim>\<open>storage/pebble.go\<close>), Stores (\<^verbatim>\<open>retain.go\<close>, \<^verbatim>\<open>session.go\<close>, \<^verbatim>\<open>will_persist.go\<close>), Offline
    (\<^verbatim>\<open>offline.go\<close>), Delivery (\<^verbatim>\<open>packet_id.go\<close>, \<^verbatim>\<open>inflight.go\<close>, \<^verbatim>\<open>dedup.go\<close>).
  \<^item> Breaker (\<^verbatim>\<open>circuitbreaker/breaker.go\<close>), Plugins (\<^verbatim>\<open>plugin/chain.go\<close>, \<^verbatim>\<open>plugin/executor.go\<close>), Tenants
    (\<^verbatim>\<open>tenant\<close>).
  \<^item> ClusterIndex (\<^verbatim>\<open>remote_subs.go\<close>, \<^verbatim>\<open>connections.go\<close>, \<^verbatim>\<open>gossip_broadcast.go\<close>, \<^verbatim>\<open>conflict.go\<close>): what a node knows of
    the others.
  \<^item> BrokerCore (\<^verbatim>\<open>broker.go\<close>, \<^verbatim>\<open>client.go\<close>, \<^verbatim>\<open>session_reaper.go\<close>): the broker as a state machine over the stores,
    with connections, packets, broadcasts and tickers as events. BrokerInvariant has the invariant of its
    runs, Routing says exactly who gets a message, BrokerRecovery what a restart gives back,
    BrokerSessions and BrokerWills what happens when a client goes away, comes back or is taken over.
  \<^item> Auth (\<^verbatim>\<open>auth.go\<close>): credentials and access rules, and what the broker makes of them.
  \<^item> PeerTransport (\<^verbatim>\<open>peer_transport.go\<close>), Takeover (\<^verbatim>\<open>takeover.go\<close>): messages between nodes. BrokerCluster (\<^verbatim>\<open>broker.go\<close>):
    what a broker does for the cluster, and forwarding between two brokers; BrokerMigration: the migration of devices
    from one broker to another.
  \<^bold>\<open>How code became definitions.\<close> A definition has the name of the function it translates. A handler
  with an \<^verbatim>\<open>await\<close> is two functions: the part up to the await, and \<open>_settled\<close>, which takes the outcome
  of the request and does the rest, with the catch and finally branches. The runs of a page are the
  sequences of events (mount, timer, click, answer, unmount) that an inductive predicate admits: an
  answer needs a request in flight, answers may arrive in any order. Go's errors and nil results are
  \<open>option\<close> or sum values; Go maps are association lists with distinct keys, so that iteration and
  printing compute; a mutex makes an operation one step. Templates are trees of elements, with the
  handlers as values, so that what a click does is a statement about the tree.

  \<^bold>\<open>What is a parameter.\<close> The translation function \<open>t\<close> of vue-i18n, the case mapping and the date
  format of the browser, axios, the requests between nodes (\<open>remote\<close>), the order in which concurrent
  fetches end, the Go runtime's statistics, the sender and stores of the migration executor, the plugins,
  and the answers of authenticator, authorizer and rate limiter are arguments. Where a theorem needs more of them than their type, it says so in a hypothesis.

  \<^bold>\<open>What the lemmas show.\<close> For the pages: the timers that are live in every reachable state, what the
  charts and texts show after any run, and what each control does. For the server and the front end
  together: that the answers have the declared types, which requests survive the round trip and which
  do not, and what happens with an API key. For the cluster: that totals and lists are exact while the
  peers answer, and within which limits. For the stores: refinement of abstract maps and exactness of
  matching. For the codec: round trips with the remaining input. For the broker: an invariant of all its
  runs, the exact set of receivers of a message, and the interleaving that ends in a panic.

  \<^bold>\<open>Bounds.\<close> Every definition is total; there is no fuel. The timers, times and counters of the front
  end are naturals and integers; numbers that the code computes as doubles are rounded as doubles
  (theory JsNumber). Octets and the remaining length are words of 8 and 32 bits.

  \<^bold>\<open>Not modelled.\<close> Styles of the templates, HTTP headers other than the API key, listeners and
  start-up, the database, metrics and logging, the gossip transport between nodes, and the third-party
  packages. The handlers of different connections are not interleaved with each other inside a handler,
  except at the wait in the middle of closing. Of the broker itself, what the theories above do not list.
\<close>

section \<open>Properties that span components\<close>

definition page_request :: "string \<Rightarrow> http_request" where
  "page_request p = \<lparr>req_method = GET, req_path = ''/admin'' @ p, req_query = [], req_api_key = []\<rparr>"

lemma serve_admin: "serve_api e s (page_request (CHR ''/'' # p)) =
    (Some (json_response 200 (JStr (adminHandler (env_exists e) (''/admin/'' @ p)))), s)"
  by (simp add: serve_api_def page_request_def Let_def)

lemma adminHandler_fallback: "p = [] \<or> \<not> exists p \<Longrightarrow> adminHandler exists (''/admin/'' @ p) = ''index.html''"
  using trim_prefix_append [of "''/admin/''" p] trim_prefix_append [of "''/admin/''" "[]"]
  by (auto simp: adminHandler_def Let_def simp del: append.simps)

text \<open>C11: Navigation works end to end: the sidebar's entries are exactly the routes, in their order; the title
  of each route is its translated menu text; and a page loaded or reloaded at any of these routes
  gets the application's start page from the server, as long as no embedded file has the route's
  name.\<close>

theorem navigation_end_to_end:
  assumes "\<And>k. t k [] \<noteq> []" and "\<not> env_exists e ''devices''" and "\<not> env_exists e ''cluster''" and "\<not> env_exists e ''metrics''"
  shows "menu_indices (layout_template t path l (Txt body)) = map fst full_routes \<and>
    map (\<lambda>(p, c). pageTitle t p) full_routes =
      map (\<lambda>k. t k []) [''nav.dashboard'', ''nav.devices'', ''nav.cluster'', ''nav.metrics''] \<and>
    map (\<lambda>(p, c). fst (serve_api e s (page_request p))) full_routes =
      replicate 4 (Some (json_response 200 (JStr ''index.html'')))"
proof -
  have "menu_indices (layout_template t path l (Txt body)) = map fst full_routes"
    by (simp add: full_routes_eq menu_indices_def layout_view_defs v_if_def List.map_filter_simps)
  moreover have "map (\<lambda>(p, c). pageTitle t p) full_routes =
      map (\<lambda>k. t k []) [''nav.dashboard'', ''nav.devices'', ''nav.cluster'', ''nav.metrics'']"
    using assms(1) by (simp add: full_routes_eq pageTitle_def title_map_def)
  moreover have "map (\<lambda>(p, c). fst (serve_api e s (page_request p))) full_routes =
      replicate 4 (Some (json_response 200 (JStr ''index.html'')))"
    using assms adminHandler_fallback [of "[]"] adminHandler_fallback [of "''devices''"]
      adminHandler_fallback [of "''cluster''"] adminHandler_fallback [of "''metrics''"]
    by (simp add: full_routes_eq serve_admin numeral_eq_Suc)
  ultimately show ?thesis by blast
qed

theorem navigation_end_to_end_witness:
  "map (\<lambda>(p, c). fst (serve_api sample_env (sample_server []) (page_request p))) full_routes =
     replicate 4 (Some (json_response 200 (JStr ''index.html'')))"
  using navigation_end_to_end [of "\<lambda>k a. ''text''" sample_env "''/''" "layout_setup None" "[]" "sample_server []"]
  by (simp add: sample_env_def)

end
